(* ===== verification/Antop_Prelude.thy ===== *)
theory Antop_Prelude
  imports Main "HOL-Library.Word"
begin

text \<open>
  Shared vocabulary of the development: faults and results of C code that may run into
  undefined behaviour, the collections of rewrite rules the component theories extend,
  and generic facts on loops (as folds), on linked lists (as lists) and on bits of words.
\<close>

unbundle bit_operations_syntax

named_theorems result_simps "evaluation of result-valued programs"
named_theorems table_simps "linked tables: lookup, append, removal"
named_theorems frame_simps "what an operation leaves unchanged"
named_theorems bit_simps "bits of words and addresses"

section \<open>Results of code that may hit undefined behaviour\<close>

text \<open>
  \<open>Null_Deref\<close>: a null pointer is dereferenced; \<open>Out_Of_Bounds\<close>: an array is indexed outside
  its bounds; \<open>Buffer_Overflow\<close>: a string copy runs past its buffer; \<open>Use_After_Free\<close>: a list
  keeps a node that has been freed; \<open>Missing_Return\<close>: the value of a function that fell off its
  end is used; \<open>Diverges\<close>: a loop that never ends; \<open>Wild_Pointer\<close>: a pointer read from uninitialised
  memory is followed; \<open>Overlapping_Copy\<close>: \<open>memcpy\<close> between regions that overlap; \<open>Assertion_Failed\<close>: an \<open>assert\<close>
  ends the process.
\<close>

datatype fault =
    Null_Deref | Out_Of_Bounds | Buffer_Overflow | Use_After_Free | Missing_Return | Diverges | Wild_Pointer
  | Overlapping_Copy | Assertion_Failed

type_synonym 'a result = "fault + 'a"

definition bind :: "'a result \<Rightarrow> ('a \<Rightarrow> 'b result) \<Rightarrow> 'b result" where
  "bind r f = (case r of Inl e \<Rightarrow> Inl e | Inr x \<Rightarrow> f x)"

lemma bind_simps [simp, result_simps]:
  "bind (Inl e) f = Inl e"
  "bind (Inr x) f = f x"
  by (simp_all add: bind_def)

lemma bind_eq_Inr_conv: "bind r f = Inr y \<longleftrightarrow> (\<exists>x. r = Inr x \<and> f x = Inr y)"
  by (cases r) simp_all

lemma bind_InrE:
  assumes "bind r f = Inr y"
  obtains x where "r = Inr x" and "f x = Inr y"
  using assms by (cases r) simp_all

lemma bind_assoc: "bind (bind r f) g = bind r (\<lambda>x. bind (f x) g)"
  by (cases r) simp_all

lemma bind_cong [fundef_cong]:
  "r = r' \<Longrightarrow> (\<And>x. r' = Inr x \<Longrightarrow> f x = f' x) \<Longrightarrow> bind r f = bind r' f'"
  by (cases r') simp_all

text \<open>The value of a result holds: no fault, and the property of what is returned.\<close>

definition returns :: "'a result \<Rightarrow> ('a \<Rightarrow> bool) \<Rightarrow> bool" where
  "returns r P = (case r of Inl e \<Rightarrow> False | Inr x \<Rightarrow> P x)"

lemma returns_simps [simp, result_simps]:
  "returns (Inl e) P = False"
  "returns (Inr x) P = P x"
  by (simp_all add: returns_def)

lemma returns_bind [result_simps]:
  "returns (bind r f) P = returns r (\<lambda>x. returns (f x) P)"
  by (cases r) simp_all

section \<open>Counting loops\<close>

text \<open>\<open>for (x in xs) if (P x) c++\<close>.\<close>

lemma fold_count:
  "fold (\<lambda>x c. if P x then c + 1 else c) xs (c::nat) = c + length (filter P xs)"
  by (induction xs arbitrary: c) auto

lemma fold_add_function:
  "(\<And>x c. x \<in> set xs \<Longrightarrow> g x c = c + f x) \<Longrightarrow> fold g xs (c::nat) = c + (\<Sum>x\<leftarrow>xs. f x)"
  by (induction xs arbitrary: c) auto

section \<open>Linked lists\<close>

text \<open>Unlinking the first node that satisfies \<open>P\<close>, as every \<open>del_*\<close> loop of the program does.\<close>

fun remove_first :: "('a \<Rightarrow> bool) \<Rightarrow> 'a list \<Rightarrow> 'a list" where
  "remove_first P [] = []"
| "remove_first P (x # xs) = (if P x then xs else x # remove_first P xs)"

lemma remove_first_none [table_simps]: "\<forall>x\<in>set xs. \<not> P x \<Longrightarrow> remove_first P xs = xs"
  by (induction xs) auto

lemma set_remove_first_subset: "set (remove_first P xs) \<subseteq> set xs"
  by (induction xs) auto

lemma length_remove_first [table_simps]:
  "length (remove_first P xs) = (if \<exists>x\<in>set xs. P x then length xs - 1 else length xs)"
proof (induction xs)
  case Nil
  then show ?case by simp
next
  case (Cons x xs)
  then show ?case by (cases xs) auto
qed

lemma remove_first_append:
  "remove_first P (xs @ ys) =
     (if \<exists>x\<in>set xs. P x then remove_first P xs @ ys else xs @ remove_first P ys)"
  by (induction xs) auto

lemma filter_remove_first:
  "(\<And>x. P x \<Longrightarrow> \<not> Q x) \<Longrightarrow> filter Q (remove_first P xs) = filter Q xs"
  by (induction xs) auto

lemma distinct_map_remove_first:
  "distinct (map f xs) \<Longrightarrow> distinct (map f (remove_first P xs))"
proof (induction xs)
  case Nil
  then show ?case by simp
next
  case (Cons x xs)
  have "f ` set (remove_first P xs) \<subseteq> f ` set xs"
    using set_remove_first_subset by (rule image_mono)
  with Cons show ?case by auto
qed

lemma remove_first_key_distinct:
  "distinct (map f xs) \<Longrightarrow> remove_first (\<lambda>x. f x = k) xs = filter (\<lambda>x. f x \<noteq> k) xs"
proof (induction xs)
  case Nil
  then show ?case by simp
next
  case (Cons x xs)
  have "filter (\<lambda>y. f y \<noteq> k) xs = xs" if "f x = k"
  proof (rule filter_True, rule ballI)
    fix y assume "y \<in> set xs"
    then have "f y \<in> f ` set xs" by simp
    then show "f y \<noteq> k" using Cons.prems that by auto
  qed
  with Cons show ?case by auto
qed

section \<open>Bits of words\<close>

lemma bit_one_word [bit_simps]: "bit (1 :: 'a::len word) n \<longleftrightarrow> n = 0"
  by (simp add: bit_1_iff)

lemma and_two_power_eq_0 [bit_simps]:
  "(w AND 2 ^ n = 0) \<longleftrightarrow> \<not> bit w n" for w :: "'a::len word"
proof -
  have "bit w n \<longleftrightarrow> bit (w AND 2 ^ n) n"
    by (auto simp add: bit_and_iff bit_exp_iff dest: bit_imp_le_length)
  moreover have "w AND 2 ^ n = 0" if "\<not> bit w n"
    by (rule bit_word_eqI) (use that in \<open>auto simp add: bit_and_iff bit_exp_iff\<close>)
  ultimately show ?thesis by auto
qed

lemma plus_single_bit:
  "\<not> bit w n \<Longrightarrow> w + 2 ^ n = w XOR 2 ^ n" for w :: "'a::len word"
proof -
  assume "\<not> bit w n"
  then have "w AND 2 ^ n = 0" by (simp add: and_two_power_eq_0)
  then show ?thesis by (rule disjunctive_add_eq_xor)
qed

lemma minus_single_bit:
  "bit w n \<Longrightarrow> w - 2 ^ n = w XOR 2 ^ n" for w :: "'a::len word"
proof -
  assume b: "bit w n"
  then have "n < LENGTH('a)" by (rule bit_imp_le_length)
  then have "\<not> bit (w XOR 2 ^ n) n" using b by (simp add: bit_xor_iff bit_exp_iff)
  then have "(w XOR 2 ^ n) + 2 ^ n = w"
    by (simp add: plus_single_bit xor.assoc)
  then show ?thesis by (metis add_diff_cancel_right')
qed

end
