(* ===== verification/Timer_Queue.thy ===== *)
theory Timer_Queue
  imports Antop_Prelude "HOL-Library.Signed_Division"
begin

text \<open>
  The timer queue (\<open>timer_queue.c\<close>, \<open>timer_queue.h\<close>): a list of timers in the order of their
  deadlines. A timer is known by its address, here a natural number; the store maps it to its
  fields, and the list \<open>TQ\<close> stands for the chain of \<open>next\<close> pointers. The time of day is an
  argument, since the code reads it with \<open>gettimeofday\<close>. A handler is a function on the queue, for a
  handler may arm timers. Deadlines are kept as pairs of seconds and microseconds.
\<close>

section \<open>Times\<close>

record timeval =
  tv_sec :: int
  tv_usec :: int

definition timeval_diff :: "timeval \<Rightarrow> timeval \<Rightarrow> int" where
  "timeval_diff t1 t2 = 1000000 * (tv_sec t1 - tv_sec t2) + tv_usec t1 - tv_usec t2"

text \<open>C division truncates, so \<open>sdiv\<close> and \<open>smod\<close>; they are \<open>div\<close> and \<open>mod\<close> on positive times.\<close>

definition timeval_add_msec :: "timeval \<Rightarrow> int \<Rightarrow> timeval" where
  "timeval_add_msec t msec =
     (let usec = tv_usec t + msec * 1000
      in \<lparr>tv_sec = tv_sec t + usec sdiv 1000000, tv_usec = usec smod 1000000\<rparr>)"

definition usecs :: "timeval \<Rightarrow> int" where
  "usecs t = 1000000 * tv_sec t + tv_usec t"

definition normal_time :: "timeval \<Rightarrow> bool" where
  "normal_time t \<longleftrightarrow> 0 \<le> tv_usec t \<and> tv_usec t < 1000000"

lemma timeval_diff_usecs: "timeval_diff t1 t2 = usecs t1 - usecs t2"
  by (simp add: timeval_diff_def usecs_def algebra_simps)

lemma usecs_add_msec: "usecs (timeval_add_msec t ms) = usecs t + 1000 * ms"
proof -
  have "1000000 * ((tv_usec t + ms * 1000) sdiv 1000000) + (tv_usec t + ms * 1000) smod 1000000
      = tv_usec t + ms * 1000"
    by (rule mult_sdiv_smod_eq)
  then show ?thesis by (simp add: usecs_def timeval_add_msec_def Let_def algebra_simps)
qed

lemma normal_add_msec: "normal_time t \<Longrightarrow> 0 \<le> ms \<Longrightarrow> normal_time (timeval_add_msec t ms)"
  by (auto simp add: normal_time_def timeval_add_msec_def Let_def smod_mod_positive)

text \<open>
  The code computes in \<open>long\<close>, where an overflow is undefined; the definitions are on the integers. With 64 bits nothing
  overflows for times below \<open>2 ^ 42\<close> seconds and delays up to \<open>2 ^ 50\<close> milliseconds: the difference is the one of the words, and every
  intermediate result of the addition is below \<open>2 ^ 63\<close>. (With 32 bits a difference of more than 2147 seconds would overflow.)
\<close>

lemma timeval_diff_long:
  assumes "normal_time t1" and "normal_time t2" and "\<bar>tv_sec t1\<bar> \<le> 2 ^ 42" and "\<bar>tv_sec t2\<bar> \<le> 2 ^ 42"
  shows "sint (1000000 * (word_of_int (tv_sec t1) - word_of_int (tv_sec t2)) + word_of_int (tv_usec t1) - word_of_int (tv_usec t2) :: 64 word) =
    timeval_diff t1 t2"
proof -
  have "(1000000 * (word_of_int (tv_sec t1) - word_of_int (tv_sec t2)) + word_of_int (tv_usec t1) - word_of_int (tv_usec t2) :: 64 word) =
      word_of_int (timeval_diff t1 t2)"
    by (simp add: timeval_diff_def)
  moreover have "- (2 ^ 63) \<le> timeval_diff t1 t2" "timeval_diff t1 t2 < 2 ^ 63"
    using assms by (simp_all add: timeval_diff_def normal_time_def abs_le_iff)
  ultimately show ?thesis by (simp add: sint_sbintrunc' signed_take_bit_int_eq_self)
qed

lemma timeval_add_long:
  assumes "normal_time t" and "\<bar>tv_sec t\<bar> \<le> 2 ^ 42" and "0 \<le> ms" and "ms \<le> 2 ^ 50"
  shows "\<bar>ms * 1000\<bar> < 2 ^ 63" and "\<bar>tv_usec t + ms * 1000\<bar> < 2 ^ 63" and "\<bar>tv_sec (timeval_add_msec t ms)\<bar> < 2 ^ 63"
proof -
  show 1: "\<bar>ms * 1000\<bar> < 2 ^ 63" and 2: "\<bar>tv_usec t + ms * 1000\<bar> < 2 ^ 63"
    using assms by (simp_all add: normal_time_def)
  define u where "u = tv_usec t + ms * 1000"
  have u: "0 \<le> u" "u \<le> 2 ^ 62" using assms by (simp_all add: u_def normal_time_def)
  then have "u sdiv 1000000 = u div 1000000" by (auto simp add: signed_divide_int_def sgn_if)
  moreover have "0 \<le> u div 1000000" "u div 1000000 \<le> u"
    using u(1) zdiv_mono2 [of u 1 1000000] by (simp_all add: pos_imp_zdiv_nonneg_iff)
  ultimately have "0 \<le> u sdiv 1000000" "u sdiv 1000000 \<le> 2 ^ 62" using u(2) by simp_all
  then show "\<bar>tv_sec (timeval_add_msec t ms)\<bar> < 2 ^ 63"
    using assms(2) by (auto simp add: timeval_add_msec_def u_def [symmetric] Let_def abs_le_iff abs_less_iff)
qed

section \<open>The queue\<close>

record timer =
  timeout :: timeval
  has_handler :: bool
  used :: bool

type_synonym timer_ref = nat

record tqueue =
  TQ :: "timer_ref list"
  timer_at :: "timer_ref \<Rightarrow> timer"
  fired :: "timer_ref list"

type_synonym timer_handler = "timer_ref \<Rightarrow> tqueue \<Rightarrow> tqueue"

abbreviation deadline :: "tqueue \<Rightarrow> timer_ref \<Rightarrow> int" where
  "deadline q t \<equiv> usecs (timeout (timer_at q t))"

definition set_used :: "timer_ref \<Rightarrow> bool \<Rightarrow> tqueue \<Rightarrow> tqueue" where
  "set_used t b q = q\<lparr>timer_at := (timer_at q)(t := (timer_at q t)\<lparr>used := b\<rparr>)\<rparr>"

definition timer_queue_init :: "tqueue \<Rightarrow> tqueue" where
  "timer_queue_init q = q\<lparr>TQ := []\<rparr>"

text \<open>Returns 0, or -1 when the timer is not in the queue.\<close>

definition timer_remove :: "timer_ref \<Rightarrow> tqueue \<Rightarrow> int \<times> tqueue" where
  "timer_remove t q =
     (let q = set_used t False q
      in if t \<in> set (TQ q) then (0, q\<lparr>TQ := remove_first (\<lambda>cur. cur = t) (TQ q)\<rparr>) else (-1, q))"

text \<open>The scan for the place of the new timer: before the first one with a later deadline.\<close>

fun tq_insert :: "tqueue \<Rightarrow> timer_ref \<Rightarrow> timer_ref list \<Rightarrow> timer_ref list" where
  "tq_insert q t [] = [t]"
| "tq_insert q t (cur # rest) =
     (if timeval_diff (timeout (timer_at q t)) (timeout (timer_at q cur)) < 0
      then t # cur # rest
      else cur # tq_insert q t rest)"

text \<open>\<open>None\<close>: the timer has no handler and the program exits.\<close>

definition timer_add :: "timer_ref \<Rightarrow> tqueue \<Rightarrow> tqueue option" where
  "timer_add t q =
     (if \<not> has_handler (timer_at q t) then None
      else
        let q = (if used (timer_at q t) then snd (timer_remove t q) else q);
            q = set_used t True q
        in if TQ q = [] then Some (q\<lparr>TQ := [t]\<rparr>)
           else Some (q\<lparr>TQ := tq_insert q t (TQ q)\<rparr>))"

definition timer_add_msec :: "timer_ref \<Rightarrow> int \<Rightarrow> timeval \<Rightarrow> tqueue \<Rightarrow> tqueue option" where
  "timer_add_msec t msec now q =
     timer_add t (q\<lparr>timer_at := (timer_at q)(t := (timer_at q t)\<lparr>timeout := timeval_add_msec now msec\<rparr>)\<rparr>)"

definition fire :: "timer_handler \<Rightarrow> timer_ref \<Rightarrow> tqueue \<Rightarrow> tqueue" where
  "fire handler t q = handler t (q\<lparr>fired := fired q @ [t]\<rparr>)"

text \<open>Removes a timer and runs its handler at once; -1 when the timer is not in the queue.\<close>

definition timer_timeout_now :: "timer_handler \<Rightarrow> timer_ref \<Rightarrow> tqueue \<Rightarrow> int \<times> tqueue" where
  "timer_timeout_now handler t q =
     (let q = set_used t False q
      in if t \<in> set (TQ q)
         then (0, fire handler t (q\<lparr>TQ := remove_first (\<lambda>cur. cur = t) (TQ q)\<rparr>))
         else (-1, q))"

fun run_expired :: "timer_handler \<Rightarrow> timer_ref list \<Rightarrow> tqueue \<Rightarrow> tqueue" where
  "run_expired handler [] q = q"
| "run_expired handler (tmp # expiredTQ) q =
     run_expired handler expiredTQ
       (let q = set_used tmp False q
        in if has_handler (timer_at q tmp) then fire handler tmp q else q)"

definition timer_timeout :: "timer_handler \<Rightarrow> timeval \<Rightarrow> tqueue \<Rightarrow> tqueue" where
  "timer_timeout handler now q =
     (let expired = takeWhile (\<lambda>t. \<not> timeval_diff (timeout (timer_at q t)) now > 0) (TQ q);
          rest = dropWhile (\<lambda>t. \<not> timeval_diff (timeout (timer_at q t)) now > 0) (TQ q)
      in if expired = [] then q else run_expired handler expired (q\<lparr>TQ := rest\<rparr>))"

definition timer_left :: "timer_ref \<Rightarrow> timeval \<Rightarrow> tqueue \<Rightarrow> int" where
  "timer_left t now q = timeval_diff now (timeout (timer_at q t))"

text \<open>Runs what has expired and returns the time left for the main loop to sleep, if any timer is armed.\<close>

definition timer_age_queue :: "timer_handler \<Rightarrow> timeval \<Rightarrow> tqueue \<Rightarrow> timeval option \<times> tqueue" where
  "timer_age_queue handler now q =
     (let q = timer_timeout handler now q
      in case TQ q of
           [] \<Rightarrow> (None, q)
         | t # _ \<Rightarrow>
             (let usec = tv_usec (timeout (timer_at q t)) - tv_usec now;
                  sec = tv_sec (timeout (timer_at q t)) - tv_sec now
              in (Some (if usec < 0 then \<lparr>tv_sec = sec - 1, tv_usec = usec + 1000000\<rparr>
                        else \<lparr>tv_sec = sec, tv_usec = usec\<rparr>), q)))"

section \<open>The invariant\<close>

definition tq_inv :: "tqueue \<Rightarrow> bool" where
  "tq_inv q \<longleftrightarrow> distinct (TQ q) \<and> sorted (map (deadline q) (TQ q)) \<and>
     (\<forall>t\<in>set (TQ q). used (timer_at q t) \<and> has_handler (timer_at q t))"

lemma set_used_simps [simp]:
  "TQ (set_used t b q) = TQ q" "fired (set_used t b q) = fired q"
  "timeout (timer_at (set_used t b q) u) = timeout (timer_at q u)"
  "has_handler (timer_at (set_used t b q) u) = has_handler (timer_at q u)"
  "used (timer_at (set_used t b q) u) = (if u = t then b else used (timer_at q u))"
  by (simp_all add: set_used_def)

lemma timer_at_set_used [simp]: "u \<noteq> t \<Longrightarrow> timer_at (set_used t b q) u = timer_at q u"
  by (simp add: set_used_def)

lemma set_tq_insert [simp]: "set (tq_insert q t ts) = insert t (set ts)"
  by (induction ts) auto

lemma distinct_tq_insert: "t \<notin> set ts \<Longrightarrow> distinct (tq_insert q t ts) = distinct ts"
  by (induction ts) auto

lemma tq_insert_cong:
  "timer_at q = timer_at q' \<Longrightarrow> tq_insert q t ts = tq_insert q' t ts"
  by (induction ts) auto

text \<open>On a sorted queue the new timer goes behind everything that is due no later.\<close>

lemma tq_insert_filter:
  "sorted (map (deadline q) ts) \<Longrightarrow> tq_insert q t ts =
     filter (\<lambda>u. deadline q u \<le> deadline q t) ts @ [t] @ filter (\<lambda>u. deadline q t < deadline q u) ts"
proof (induction ts)
  case Nil
  then show ?case by simp
next
  case (Cons u ts)
  show ?case
  proof (cases "deadline q t < deadline q u")
    case True
    with Cons.prems have "\<forall>v\<in>set (u # ts). deadline q t < deadline q v" by auto
    then have "filter (\<lambda>v. deadline q v \<le> deadline q t) (u # ts) = []"
      and "filter (\<lambda>v. deadline q t < deadline q v) (u # ts) = u # ts"
      by (auto simp add: filter_empty_conv intro!: filter_True)
    with True show ?thesis by (simp add: timeval_diff_usecs)
  next
    case False
    with Cons show ?thesis by (simp add: timeval_diff_usecs)
  qed
qed

lemma sorted_tq_insert:
  "sorted (map (deadline q) ts) \<Longrightarrow> sorted (map (deadline q) (tq_insert q t ts))"
  by (auto simp add: tq_insert_filter sorted_append sorted_filter)

lemma snd_timer_remove:
  "distinct (TQ q) \<Longrightarrow>
     snd (timer_remove t q) = (set_used t False q)\<lparr>TQ := filter (\<lambda>u. u \<noteq> t) (TQ q)\<rparr>"
proof -
  assume d: "distinct (TQ q)"
  have rm: "remove_first (\<lambda>cur. cur = t) (TQ q) = filter (\<lambda>u. u \<noteq> t) (TQ q)"
    using d remove_first_key_distinct [of "\<lambda>x. x" "TQ q" t] by simp
  show ?thesis
  proof (cases "t \<in> set (TQ q)")
    case True
    then show ?thesis by (simp add: timer_remove_def Let_def rm)
  next
    case False
    then have "filter (\<lambda>u. u \<noteq> t) (TQ q) = TQ q" by (intro filter_True) auto
    with False show ?thesis by (simp add: timer_remove_def Let_def set_used_def)
  qed
qed

lemma tq_insert_set_used [simp]:
  "tq_insert (set_used u b q) t ts = tq_insert q t ts"
  "tq_insert (q\<lparr>TQ := us\<rparr>) t ts = tq_insert q t ts"
  "tq_insert (q\<lparr>fired := us\<rparr>) t ts = tq_insert q t ts"
  by (induction ts) auto

lemma set_used_TQ: "set_used t b (q\<lparr>TQ := us\<rparr>) = (set_used t b q)\<lparr>TQ := us\<rparr>"
  by (simp add: set_used_def)

lemma set_used_twice: "set_used t b (set_used t c q) = set_used t b q"
  by (simp add: set_used_def)

lemma timer_add_eq:
  assumes "distinct (TQ q)" and "has_handler (timer_at q t)"
    and "used (timer_at q t) \<or> t \<notin> set (TQ q)"
  shows "timer_add t q =
    Some ((set_used t True q)\<lparr>TQ := tq_insert q t (filter (\<lambda>u. u \<noteq> t) (TQ q))\<rparr>)"
proof -
  define qa where "qa = set_used t True (if used (timer_at q t) then snd (timer_remove t q) else q)"
  have "(if used (timer_at q t) then snd (timer_remove t q) else q) =
      (if used (timer_at q t) then (set_used t False q)\<lparr>TQ := filter (\<lambda>u. u \<noteq> t) (TQ q)\<rparr> else q)"
    using assms(1) by (simp add: snd_timer_remove)
  moreover have "filter (\<lambda>u. u \<noteq> t) (TQ q) = TQ q" if "\<not> used (timer_at q t)"
    using assms(3) that by (intro filter_True) auto
  ultimately have qa: "qa = (set_used t True q)\<lparr>TQ := filter (\<lambda>u. u \<noteq> t) (TQ q)\<rparr>"
    by (simp add: qa_def set_used_TQ set_used_twice)
  have "timer_add t q = Some (qa\<lparr>TQ := tq_insert qa t (TQ qa)\<rparr>)"
    using assms(2) by (cases "TQ qa = []") (simp_all only: timer_add_def Let_def qa_def [symmetric] tq_insert.simps not_True_eq_False if_True if_False refl)
  then show ?thesis by (simp add: qa)
qed

lemma tq_inv_add:
  assumes "tq_inv q" and "has_handler (timer_at q t)"
  shows "tq_inv ((set_used t True q)\<lparr>TQ := tq_insert q t (filter (\<lambda>u. u \<noteq> t) (TQ q))\<rparr>)"
  using assms
  by (simp add: tq_inv_def distinct_tq_insert sorted_filter sorted_tq_insert)

lemma tq_inv_add_msec:
  assumes "tq_inv q" and "has_handler (timer_at q t)" and "used (timer_at q t) \<or> t \<notin> set (TQ q)"
  obtains q' where "timer_add_msec t ms now q = Some q'" and "tq_inv q'"
    and "set (TQ q') = insert t (set (TQ q))" and "deadline q' t = usecs now + 1000 * ms"
    and "\<And>u. u \<noteq> t \<Longrightarrow> timer_at q' u = timer_at q u"
    and "fired q' = fired q" and "has_handler (timer_at q' t)"
    and "TQ q' = filter (\<lambda>u. u \<noteq> t \<and> deadline q u \<le> usecs now + 1000 * ms) (TQ q) @ [t] @
           filter (\<lambda>u. u \<noteq> t \<and> usecs now + 1000 * ms < deadline q u) (TQ q)"
proof
  define tm where "tm = (timer_at q t)\<lparr>timeout := timeval_add_msec now ms\<rparr>"
  define q1 where "q1 = q\<lparr>timer_at := (timer_at q)(t := tm)\<rparr>"
  define ts where "ts = filter (\<lambda>u. u \<noteq> t) (TQ q)"
  define q2 where "q2 = (set_used t True q1)\<lparr>TQ := tq_insert q1 t ts\<rparr>"
  have q1: "TQ q1 = TQ q" "timer_at q1 t = tm" "\<And>u. u \<noteq> t \<Longrightarrow> timer_at q1 u = timer_at q u"
    "has_handler tm = has_handler (timer_at q t)" "used tm = used (timer_at q t)" "fired q1 = fired q"
    by (simp_all add: q1_def tm_def)
  have q2: "TQ q2 = tq_insert q1 t ts" "fired q2 = fired q" "\<And>u. u \<noteq> t \<Longrightarrow> timer_at q2 u = timer_at q u"
    "\<And>u. timeout (timer_at q2 u) = timeout (timer_at q1 u)" "\<And>u. used (timer_at q2 u) = (u = t \<or> used (timer_at q1 u))"
    "\<And>u. has_handler (timer_at q2 u) = has_handler (timer_at q1 u)"
    by (simp_all add: q2_def q1)
  have "timer_add t q1 = Some q2"
    using assms by (subst timer_add_eq) (simp_all add: q1 q2_def ts_def tq_inv_def)
  then show "timer_add_msec t ms now q = Some q2" by (simp add: timer_add_msec_def q1_def tm_def)
  have eq: "map (deadline q1) ts = map (deadline q) ts" by (auto simp add: ts_def q1)
  have "sorted (map (deadline q1) ts)"
    unfolding eq using assms(1) by (simp add: tq_inv_def ts_def sorted_filter)
  then show "tq_inv q2"
    using assms(1,2) by (auto simp add: tq_inv_def q2 q1 ts_def distinct_tq_insert sorted_tq_insert)
  show "set (TQ q2) = insert t (set (TQ q))" by (auto simp add: q2 ts_def)
  show "deadline q2 t = usecs now + 1000 * ms" by (simp add: q2 q1 tm_def usecs_add_msec)
  show "fired q2 = fired q" and "\<And>u. u \<noteq> t \<Longrightarrow> timer_at q2 u = timer_at q u" by (simp_all add: q2)
  show "has_handler (timer_at q2 t)" using assms(2) by (simp add: q2 q1)
  have d: "deadline q1 u = (if u = t then usecs now + 1000 * ms else deadline q u)" for u
    by (simp add: q1 tm_def usecs_add_msec)
  have "TQ q2 = filter (\<lambda>u. deadline q1 u \<le> deadline q1 t) ts @ [t] @ filter (\<lambda>u. deadline q1 t < deadline q1 u) ts"
    unfolding q2 using \<open>sorted (map (deadline q1) ts)\<close> by (rule tq_insert_filter)
  then show "TQ q2 = filter (\<lambda>u. u \<noteq> t \<and> deadline q u \<le> usecs now + 1000 * ms) (TQ q) @ [t] @
      filter (\<lambda>u. u \<noteq> t \<and> usecs now + 1000 * ms < deadline q u) (TQ q)"
    unfolding ts_def filter_filter d by (simp cong: conj_cong)
qed

lemma tq_inv_remove: "tq_inv q \<Longrightarrow> tq_inv (snd (timer_remove t q))"
  by (simp add: tq_inv_def snd_timer_remove sorted_filter)

text \<open>A handler arms no timer but its own, as those of the daemon do.\<close>

definition self_arming :: "timer_handler \<Rightarrow> bool" where
  "self_arming h \<longleftrightarrow> (\<forall>t q. tq_inv q \<longrightarrow> t \<notin> set (TQ q) \<longrightarrow>
     tq_inv (h t q) \<and> set (TQ q) \<subseteq> set (TQ (h t q)) \<and> set (TQ (h t q)) \<subseteq> insert t (set (TQ q)) \<and>
     fired (h t q) = fired q \<and> (\<forall>u. u \<noteq> t \<longrightarrow> timer_at (h t q) u = timer_at q u))"

lemma self_armingD:
  assumes "self_arming h" and "tq_inv q" and "t \<notin> set (TQ q)"
  shows "tq_inv (h t q)" and "set (TQ q) \<subseteq> set (TQ (h t q))" and "set (TQ (h t q)) \<subseteq> insert t (set (TQ q))"
    and "fired (h t q) = fired q" and "u \<noteq> t \<Longrightarrow> timer_at (h t q) u = timer_at q u"
  using assms unfolding self_arming_def by blast+

lemma tq_inv_fields: "tq_inv (q\<lparr>fired := x\<rparr>) = tq_inv q"
  "t \<notin> set (TQ q) \<Longrightarrow> tq_inv (set_used t b q) = tq_inv q"
  by (auto simp add: tq_inv_def)

lemma run_expired_inv:
  assumes "self_arming h" and "tq_inv q" and "distinct ts" and "set ts \<inter> set (TQ q) = {}"
    and "\<forall>t\<in>set ts. has_handler (timer_at q t)"
  shows "tq_inv (run_expired h ts q) \<and> fired (run_expired h ts q) = fired q @ ts \<and>
     set (TQ q) \<subseteq> set (TQ (run_expired h ts q)) \<and>
     set (TQ (run_expired h ts q)) \<subseteq> set (TQ q) \<union> set ts \<and>
     (\<forall>u. u \<notin> set ts \<longrightarrow> timer_at (run_expired h ts q) u = timer_at q u)"
  using assms(2-)
proof (induction ts arbitrary: q)
  case Nil
  then show ?case by simp
next
  case (Cons t ts)
  define q1 where "q1 = (set_used t False q)\<lparr>fired := fired q @ [t]\<rparr>"
  define q2 where "q2 = h t q1"
  have t: "t \<notin> set (TQ q)" and "t \<notin> set ts" using Cons.prems by auto
  have q1: "tq_inv q1" "t \<notin> set (TQ q1)" "TQ q1 = TQ q" "fired q1 = fired q @ [t]"
    and q1_at: "\<And>u. u \<noteq> t \<Longrightarrow> timer_at q1 u = timer_at q u"
    using Cons.prems t by (simp_all add: q1_def tq_inv_fields)
  note q2 = self_armingD [OF assms(1) q1(1,2), folded q2_def]
  have step: "run_expired h (t # ts) q = run_expired h ts q2"
    using Cons.prems by (simp add: Let_def fire_def q2_def q1_def)
  have "tq_inv (run_expired h ts q2) \<and> fired (run_expired h ts q2) = fired q2 @ ts \<and>
     set (TQ q2) \<subseteq> set (TQ (run_expired h ts q2)) \<and>
     set (TQ (run_expired h ts q2)) \<subseteq> set (TQ q2) \<union> set ts \<and>
     (\<forall>u. u \<notin> set ts \<longrightarrow> timer_at (run_expired h ts q2) u = timer_at q2 u)"
  proof (rule Cons.IH)
    show "set ts \<inter> set (TQ q2) = {}" using q2(3) q1(3) Cons.prems \<open>t \<notin> set ts\<close> by auto
    show "\<forall>t\<in>set ts. has_handler (timer_at q2 t)"
    proof
      fix u assume "u \<in> set ts"
      then have "u \<noteq> t" using \<open>t \<notin> set ts\<close> by auto
      then show "has_handler (timer_at q2 u)" using q2(5) q1_at \<open>u \<in> set ts\<close> Cons.prems by simp
    qed
  qed (use q2 Cons.prems in auto)
  then show ?case using q2 q1 q1_at unfolding step by auto
qed

section \<open>The interface: a queue ordered by deadline\<close>

locale deadline_queue =
  fixes inv :: "'q \<Rightarrow> bool"
    and pending :: "'q \<Rightarrow> 'k list"
    and due :: "'q \<Rightarrow> 'k \<Rightarrow> int"
    and cancel :: "'k \<Rightarrow> 'q \<Rightarrow> 'q"
  assumes due_sorted: "inv q \<Longrightarrow> sorted (map (due q) (pending q))"
    and pending_distinct: "inv q \<Longrightarrow> distinct (pending q)"
    and cancel_inv: "inv q \<Longrightarrow> inv (cancel k q)"
    and cancel_pending: "inv q \<Longrightarrow> set (pending (cancel k q)) = set (pending q) - {k}"
    and cancel_due: "due (cancel k q) = due q"
begin

lemma takeWhile_expired:
  assumes "inv q"
  shows "takeWhile (\<lambda>k. due q k \<le> now) (pending q) = filter (\<lambda>k. due q k \<le> now) (pending q)"
    and "dropWhile (\<lambda>k. due q k \<le> now) (pending q) = filter (\<lambda>k. now < due q k) (pending q)"
proof -
  have "takeWhile (\<lambda>k. due q k \<le> now) ks = filter (\<lambda>k. due q k \<le> now) ks \<and>
      dropWhile (\<lambda>k. due q k \<le> now) ks = filter (\<lambda>k. now < due q k) ks"
    if "sorted (map (due q) ks)" for ks
    using that
  proof (induction ks)
    case Nil
    then show ?case by simp
  next
    case (Cons k ks)
    show ?case
    proof (cases "due q k \<le> now")
      case True
      with Cons show ?thesis by simp
    next
      case False
      with Cons.prems have "\<forall>j\<in>set (k # ks). now < due q j" by auto
      then have "filter (\<lambda>k. due q k \<le> now) (k # ks) = []" and "filter (\<lambda>k. now < due q k) (k # ks) = k # ks"
        by (auto simp add: filter_empty_conv intro!: filter_True)
      with False show ?thesis by simp
    qed
  qed
  with due_sorted [OF assms] show "takeWhile (\<lambda>k. due q k \<le> now) (pending q) = filter (\<lambda>k. due q k \<le> now) (pending q)"
    and "dropWhile (\<lambda>k. due q k \<le> now) (pending q) = filter (\<lambda>k. now < due q k) (pending q)"
    by blast+
qed

lemma first_due_least:
  assumes "inv q" and "pending q = k # ks" and "j \<in> set (pending q)"
  shows "due q k \<le> due q j"
  using due_sorted [OF assms(1)] assms(2,3) by auto

lemma cancel_least:
  assumes "inv q" and "pending (cancel k q) = i # ks" and "j \<in> set (pending q)" and "j \<noteq> k"
  shows "due q i \<le> due q j"
proof -
  have "j \<in> set (pending (cancel k q))" using assms(3,4) by (simp add: cancel_pending [OF assms(1)])
  from first_due_least [OF cancel_inv [OF assms(1)] assms(2) this] show ?thesis
    by (simp add: cancel_due)
qed

end

interpretation tq: deadline_queue tq_inv TQ deadline "\<lambda>t q. snd (timer_remove t q)"
proof
  fix q k
  show "deadline (snd (timer_remove k q)) = deadline q"
    by (auto simp add: timer_remove_def Let_def)
  assume q: "tq_inv q"
  then show "sorted (map (deadline q) (TQ q))" and "distinct (TQ q)" by (simp_all add: tq_inv_def)
  from q show "tq_inv (snd (timer_remove k q))" by (rule tq_inv_remove)
  from q show "set (TQ (snd (timer_remove k q))) = set (TQ q) - {k}"
    by (auto simp add: tq_inv_def snd_timer_remove)
qed

lemma timer_timeout_eq:
  assumes "tq_inv q"
  shows "timer_timeout h now q =
    run_expired h (filter (\<lambda>t. deadline q t \<le> usecs now) (TQ q))
      (q\<lparr>TQ := filter (\<lambda>t. usecs now < deadline q t) (TQ q)\<rparr>)"
proof -
  have "(\<lambda>t. \<not> timeval_diff (timeout (timer_at q t)) now > 0) = (\<lambda>t. deadline q t \<le> usecs now)"
    by (auto simp add: timeval_diff_usecs)
  moreover have "q = q\<lparr>TQ := filter (\<lambda>t. usecs now < deadline q t) (TQ q)\<rparr>"
    if "filter (\<lambda>t. deadline q t \<le> usecs now) (TQ q) = []"
  proof -
    have "filter (\<lambda>t. usecs now < deadline q t) (TQ q) = TQ q"
      using that by (intro filter_True) (auto simp add: filter_empty_conv)
    then show ?thesis by simp
  qed
  ultimately show ?thesis
    by (simp add: timer_timeout_def Let_def tq.takeWhile_expired [OF assms])
qed

lemma timer_timeout_inv:
  assumes "tq_inv q" and "self_arming h" and q'_def: "q' = timer_timeout h now q"
  shows "tq_inv q'" and "fired q' = fired q @ filter (\<lambda>t. deadline q t \<le> usecs now) (TQ q)"
    and "\<forall>t\<in>set (TQ q). usecs now < deadline q t \<longrightarrow> t \<in> set (TQ q') \<and> timer_at q' t = timer_at q t"
    and "set (TQ q') \<subseteq> set (TQ q)"
proof -
  define q0 where "q0 = q\<lparr>TQ := filter (\<lambda>t. usecs now < deadline q t) (TQ q)\<rparr>"
  define ts where "ts = filter (\<lambda>t. deadline q t \<le> usecs now) (TQ q)"
  have q0: "tq_inv q0" "distinct ts" "set ts \<inter> set (TQ q0) = {}" "\<forall>t\<in>set ts. has_handler (timer_at q0 t)"
    using assms(1) by (auto simp add: tq_inv_def q0_def ts_def sorted_filter)
  have q': "q' = run_expired h ts q0"
    using assms(1) by (simp add: q'_def q0_def ts_def timer_timeout_eq)
  note run = run_expired_inv [OF assms(2) q0, folded q']
  show "tq_inv q'" and "fired q' = fired q @ filter (\<lambda>t. deadline q t \<le> usecs now) (TQ q)"
    using run by (simp_all add: q0_def ts_def)
  show "\<forall>t\<in>set (TQ q). usecs now < deadline q t \<longrightarrow> t \<in> set (TQ q') \<and> timer_at q' t = timer_at q t"
    using run by (auto simp add: q0_def ts_def)
  show "set (TQ q') \<subseteq> set (TQ q)"
    using run by (auto simp add: q0_def ts_def)
qed

lemma timer_age_queue_remaining:
  assumes "TQ (timer_timeout h now q) = t # ts"
    and "normal_time now" and "normal_time (timeout (timer_at (timer_timeout h now q) t))"
  shows "\<exists>r. fst (timer_age_queue h now q) = Some r \<and> normal_time r \<and>
    usecs r = deadline (timer_timeout h now q) t - usecs now"
  using assms by (simp add: timer_age_queue_def Let_def normal_time_def usecs_def)

text \<open>A handler that re-arms its own timer, as \<open>send_hb\<close>, \<open>check_neighbors\<close> and \<open>register_rv\<close> do.\<close>

definition rearm :: "(timer_ref \<Rightarrow> int) \<Rightarrow> timeval \<Rightarrow> timer_handler" where
  "rearm period now t q =
     (if has_handler (timer_at q t)
      then case timer_add_msec t (period t) now q of None \<Rightarrow> q | Some q' \<Rightarrow> q'
      else q)"

lemma self_arming_rearm: "self_arming (rearm period now)"
  unfolding self_arming_def
proof (intro allI impI)
  fix t q assume q: "tq_inv q" and t: "t \<notin> set (TQ q)"
  show "tq_inv (rearm period now t q) \<and> set (TQ q) \<subseteq> set (TQ (rearm period now t q)) \<and>
     set (TQ (rearm period now t q)) \<subseteq> insert t (set (TQ q)) \<and> fired (rearm period now t q) = fired q \<and>
     (\<forall>u. u \<noteq> t \<longrightarrow> timer_at (rearm period now t q) u = timer_at q u)"
  proof (cases "has_handler (timer_at q t)")
    case True
    from tq_inv_add_msec [OF q this disjI2 [OF t]] obtain q' where "timer_add_msec t (period t) now q = Some q'"
      "tq_inv q'" "set (TQ q') = insert t (set (TQ q))" "\<And>u. u \<noteq> t \<Longrightarrow> timer_at q' u = timer_at q u" "fired q' = fired q"
      by blast
    then show ?thesis using True by (auto simp add: rearm_def)
  next
    case False
    then show ?thesis using q by (auto simp add: rearm_def)
  qed
qed

section \<open>Properties\<close>

text \<open>C10: Arming a timer never fails for a timer with a handler, keeps the queue well formed and
  ordered by deadline, and puts the timer exactly once, behind every timer due no later
  (first come, first served among equal deadlines) and before every timer due later.\<close>

theorem timer_add_msec_fifo:
  assumes "tq_inv q" and "has_handler (timer_at q t)" and "used (timer_at q t) \<or> t \<notin> set (TQ q)"
  shows "\<exists>q'. timer_add_msec t ms now q = Some q' \<and> tq_inv q' \<and>
    TQ q' = filter (\<lambda>u. u \<noteq> t \<and> deadline q u \<le> usecs now + 1000 * ms) (TQ q) @ [t] @
            filter (\<lambda>u. u \<noteq> t \<and> usecs now + 1000 * ms < deadline q u) (TQ q)"
  by (rule tq_inv_add_msec [OF assms, of ms now]) blast

text \<open>A queue with two timers, due at 2 s and at 5 s, and a third one not armed.\<close>

definition sample_queue :: tqueue where
  "sample_queue =
     \<lparr>TQ = [1, 2],
      timer_at = (\<lambda>t. \<lparr>timeout = \<lparr>tv_sec = (if t = 1 then 2 else 5), tv_usec = 0\<rparr>, has_handler = True, used = (t \<noteq> 3)\<rparr>),
      fired = []\<rparr>"

lemma sample_queue_inv: "tq_inv sample_queue"
  by (simp add: tq_inv_def sample_queue_def usecs_def)

theorem timer_add_msec_fifo_witness:
  "\<exists>q'. timer_add_msec 3 4000 \<lparr>tv_sec = 1, tv_usec = 0\<rparr> sample_queue = Some q' \<and> tq_inv q' \<and> TQ q' = [1, 2, 3]"
  using timer_add_msec_fifo [of sample_queue 3 4000 "\<lparr>tv_sec = 1, tv_usec = 0\<rparr>"] sample_queue_inv
  by (simp add: sample_queue_def usecs_def)

text \<open>C36: When the queue is aged with handlers that arm at most their own timer, exactly the timers
  whose deadline has passed are fired, each once and in the order of their deadlines; every other
  timer stays armed with its deadline, and the queue stays well formed.\<close>

theorem timer_timeout_fires_expired:
  assumes "tq_inv q" and "self_arming h"
  shows "tq_inv (timer_timeout h now q) \<and>
    fired (timer_timeout h now q) = fired q @ filter (\<lambda>t. deadline q t \<le> usecs now) (TQ q) \<and>
    (\<forall>t\<in>set (TQ q). usecs now < deadline q t \<longrightarrow>
       t \<in> set (TQ (timer_timeout h now q)) \<and> deadline (timer_timeout h now q) t = deadline q t)"
  using timer_timeout_inv [OF assms refl, of now] by simp

theorem timer_timeout_fires_expired_witness:
  "fired (timer_timeout (rearm (\<lambda>_. 5000) \<lparr>tv_sec = 3, tv_usec = 0\<rparr>) \<lparr>tv_sec = 3, tv_usec = 0\<rparr> sample_queue) = [1]"
  using timer_timeout_fires_expired [OF sample_queue_inv self_arming_rearm,
      of "\<lambda>_. 5000" "\<lparr>tv_sec = 3, tv_usec = 0\<rparr>" "\<lparr>tv_sec = 3, tv_usec = 0\<rparr>"]
  by (simp add: sample_queue_def usecs_def)

text \<open>The time \<open>timer_age_queue\<close> gives the main loop to sleep is the distance to the earliest
  deadline of the queue, as a normalised pair of seconds and microseconds.\<close>

theorem timer_age_queue_earliest:
  assumes "tq_inv q" and "self_arming h" and "normal_time now"
    and "\<forall>t\<in>set (TQ (timer_timeout h now q)). normal_time (timeout (timer_at (timer_timeout h now q) t))"
    and "timer_age_queue h now q = (Some r, q')"
  shows "normal_time r \<and> TQ q' \<noteq> [] \<and>
    (\<forall>t\<in>set (TQ q'). usecs now + usecs r \<le> deadline q' t) \<and>
    (\<exists>t\<in>set (TQ q'). usecs now + usecs r = deadline q' t)"
proof -
  have q': "q' = timer_timeout h now q"
    using assms(5) by (auto simp add: timer_age_queue_def Let_def split: list.splits if_splits)
  have inv: "tq_inv q'" unfolding q' by (rule timer_timeout_inv [OF assms(1,2) refl])
  obtain t ts where t: "TQ q' = t # ts"
    using assms(5) by (auto simp add: timer_age_queue_def Let_def q' split: list.splits)
  have r: "normal_time r" "usecs r = deadline q' t - usecs now"
    using timer_age_queue_remaining [of h now q t ts] assms(3,4,5) t q' by auto
  show ?thesis
    using r t tq.first_due_least [OF inv t] by auto
qed

theorem timer_age_queue_earliest_witness:
  "normal_time \<lparr>tv_sec = 0, tv_usec = 500000\<rparr> \<and>
   fst (timer_age_queue (rearm (\<lambda>_. 5000) \<lparr>tv_sec = 1, tv_usec = 500000\<rparr>) \<lparr>tv_sec = 1, tv_usec = 500000\<rparr> sample_queue) =
     Some \<lparr>tv_sec = 0, tv_usec = 500000\<rparr>"
proof -
  let ?h = "rearm (\<lambda>_. 5000) \<lparr>tv_sec = 1, tv_usec = 500000\<rparr>" and ?now = "\<lparr>tv_sec = 1, tv_usec = 500000\<rparr>"
  have age: "timer_age_queue ?h ?now sample_queue = (Some \<lparr>tv_sec = 0, tv_usec = 500000\<rparr>, sample_queue)"
    by (simp add: timer_age_queue_def timer_timeout_def Let_def sample_queue_def timeval_diff_def)
  have "timer_timeout ?h ?now sample_queue = sample_queue"
    by (simp add: timer_timeout_def Let_def sample_queue_def timeval_diff_def)
  then have "\<forall>t\<in>set (TQ (timer_timeout ?h ?now sample_queue)).
      normal_time (timeout (timer_at (timer_timeout ?h ?now sample_queue) t))"
    by (simp add: sample_queue_def normal_time_def)
  moreover have "normal_time ?now" by (simp add: normal_time_def)
  ultimately show ?thesis
    using timer_age_queue_earliest [OF sample_queue_inv self_arming_rearm _ _ age] age by simp
qed

end
