(* ===== verification/In6_Addr.thy ===== *)
theory In6_Addr
  imports Antop_Prelude "HOL-Library.List_Lexorder"
begin

text \<open>
  The \<open>struct in6_addr\<close> of the socket library, as the program uses it: eight 16-bit words
  \<open>s6_addr16[0..7]\<close>, each read in the byte order of a little-endian host, so that the program
  converts with \<open>htons\<close> (a byte swap) whenever it works on bits. Addresses are compared through
  their 128 bits in network order: \<open>abit a 0\<close> is the first bit of the address on the wire and
  \<open>abit a (64 + m)\<close> is the coordinate \<open>m\<close> of the hypercube.
\<close>

section \<open>Byte order\<close>

definition htons :: "16 word \<Rightarrow> 16 word" where
  "htons w = push_bit 8 (w AND 0x00FF) OR drop_bit 8 (w AND 0xFF00)"

lemma bit_low_byte: "bit (0x00FF :: 16 word) m \<longleftrightarrow> m < 8"
proof -
  have "(0x00FF :: 16 word) = mask 8" by (simp add: mask_eq_exp_minus_1)
  then show ?thesis by (simp only: bit_mask_iff) auto
qed

lemma bit_high_byte: "bit (0xFF00 :: 16 word) m \<longleftrightarrow> 8 \<le> m \<and> m < 16"
proof -
  have "(0xFF00 :: 16 word) = push_bit 8 (mask 8)"
    by (simp add: mask_eq_exp_minus_1 push_bit_eq_mult)
  then show ?thesis by (simp only: bit_mask_iff bit_push_bit_iff) auto
qed

lemma bit_htons [bit_simps]:
  "bit (htons w) n \<longleftrightarrow> (if n < 8 then bit w (n + 8) else n < 16 \<and> bit w (n - 8))"
  unfolding htons_def bit_or_iff bit_push_bit_iff bit_drop_bit_eq bit_and_iff o_def
    bit_low_byte bit_high_byte
  by (auto simp add: add.commute dest: bit_imp_le_length)

lemma htons_htons [simp]: "htons (htons w) = w"
  by (rule bit_word_eqI) (auto simp add: bit_htons)

lemma htons_eq_iff [simp]: "htons v = htons w \<longleftrightarrow> v = w"
  by (metis htons_htons)

lemma htons_and: "htons (v AND w) = htons v AND htons w"
  by (rule bit_word_eqI) (auto simp add: bit_htons bit_and_iff)

lemma htons_or: "htons (v OR w) = htons v OR htons w"
  by (rule bit_word_eqI) (auto simp add: bit_htons bit_or_iff)

lemma htons_xor: "htons (v XOR w) = htons v XOR htons w"
  by (rule bit_word_eqI) (auto simp add: bit_htons bit_xor_iff)

lemma htons_0 [simp]: "htons 0 = 0"
  by (simp add: htons_def)

lemma htons_eq_0_iff [simp]: "htons w = 0 \<longleftrightarrow> w = 0"
  using htons_eq_iff [of w 0] by simp

text \<open>The byte swap of \<open>2 ^ j\<close> is a single bit too.\<close>

definition swap_index :: "nat \<Rightarrow> nat" where
  "swap_index j = (if j < 8 then j + 8 else j - 8)"

lemma htons_two_power: "j < 16 \<Longrightarrow> htons (2 ^ j) = 2 ^ swap_index j"
  by (rule bit_word_eqI) (auto simp add: bit_htons bit_exp_iff swap_index_def)

lemma bit_swap_index: "j < 16 \<Longrightarrow> bit w (swap_index j) \<longleftrightarrow> bit (htons w) j"
  by (auto simp add: bit_htons swap_index_def)

lemma htons_mask_eq_iff:
  "j < 16 \<Longrightarrow> v AND htons (2 ^ j) = w AND htons (2 ^ j) \<longleftrightarrow> bit (htons v) j = bit (htons w) j"
proof -
  assume j: "j < 16"
  have "v AND htons (2 ^ j) = w AND htons (2 ^ j) \<longleftrightarrow> htons v AND 2 ^ j = htons w AND 2 ^ j"
    using htons_eq_iff [of "v AND htons (2 ^ j)" "w AND htons (2 ^ j)"] by (simp add: htons_and)
  also have "\<dots> \<longleftrightarrow> bit (htons v) j = bit (htons w) j"
  proof
    assume "htons v AND 2 ^ j = htons w AND 2 ^ j"
    then have "bit (htons v AND 2 ^ j) j = bit (htons w AND 2 ^ j) j" by simp
    then show "bit (htons v) j = bit (htons w) j" using j by (simp add: bit_and_iff bit_exp_iff)
  next
    assume "bit (htons v) j = bit (htons w) j"
    then show "htons v AND 2 ^ j = htons w AND 2 ^ j"
      by (intro bit_word_eqI) (auto simp add: bit_and_iff bit_exp_iff)
  qed
  finally show ?thesis .
qed

section \<open>Addresses\<close>

datatype in6_addr =
  In6 "16 word" "16 word" "16 word" "16 word" "16 word" "16 word" "16 word" "16 word"

fun s6_words :: "in6_addr \<Rightarrow> 16 word list" where
  "s6_words (In6 a b c d e f g h) = [a, b, c, d, e, f, g, h]"

definition s6_of_words :: "16 word list \<Rightarrow> in6_addr" where
  "s6_of_words ws = In6 (ws ! 0) (ws ! 1) (ws ! 2) (ws ! 3) (ws ! 4) (ws ! 5) (ws ! 6) (ws ! 7)"

definition s6_addr16 :: "in6_addr \<Rightarrow> nat \<Rightarrow> 16 word" where
  "s6_addr16 a i = s6_words a ! i"

definition s6_set :: "in6_addr \<Rightarrow> nat \<Rightarrow> 16 word \<Rightarrow> in6_addr" where
  "s6_set a i v = s6_of_words ((s6_words a)[i := v])"

text \<open>\<open>for (i = 0; i < 8; i++) a.s6_addr16[i] = f i\<close>.\<close>

definition s6_build :: "(nat \<Rightarrow> 16 word) \<Rightarrow> in6_addr" where
  "s6_build f = s6_of_words (map f [0..<8])"

definition zero_addr :: in6_addr where
  "zero_addr = In6 0 0 0 0 0 0 0 0"

lemma length_s6_words [simp]: "length (s6_words a) = 8"
  by (cases a) simp

lemma s6_words_of_words [simp]: "length ws = 8 \<Longrightarrow> s6_words (s6_of_words ws) = ws"
  by (rule nth_equalityI)
     (auto simp add: s6_of_words_def less_Suc_eq numeral_eq_Suc)

lemma s6_of_words_words [simp]: "s6_of_words (s6_words a) = a"
  by (cases a) (simp add: s6_of_words_def numeral_eq_Suc)

lemma s6_words_inject [simp]: "s6_words a = s6_words b \<longleftrightarrow> a = b"
  by (metis s6_of_words_words)

lemma s6_addr16_set [simp]:
  "i < 8 \<Longrightarrow> s6_addr16 (s6_set a i v) j = (if j = i then v else s6_addr16 a j)"
  by (simp add: s6_addr16_def s6_set_def nth_list_update)

lemma s6_addr16_build [simp]: "i < 8 \<Longrightarrow> s6_addr16 (s6_build f) i = f i"
  by (simp add: s6_addr16_def s6_build_def)

lemma s6_addr16_zero [simp]: "i < 8 \<Longrightarrow> s6_addr16 zero_addr i = 0"
  by (auto simp add: s6_addr16_def zero_addr_def less_Suc_eq numeral_eq_Suc)

lemma s6_eqI: "(\<And>i. i < 8 \<Longrightarrow> s6_addr16 a i = s6_addr16 b i) \<Longrightarrow> a = b"
  by (subst s6_words_inject [symmetric], rule nth_equalityI) (simp_all add: s6_addr16_def)

section \<open>The 128 bits in network order\<close>

definition abit :: "in6_addr \<Rightarrow> nat \<Rightarrow> bool" where
  "abit a k \<longleftrightarrow> k < 128 \<and> bit (htons (s6_addr16 a (k div 16))) (15 - k mod 16)"

lemma abit_bound: "abit a k \<Longrightarrow> k < 128"
  by (simp add: abit_def)

lemma abit_word: "i < 8 \<Longrightarrow> j < 16 \<Longrightarrow> abit a (16 * i + j) \<longleftrightarrow> bit (htons (s6_addr16 a i)) (15 - j)"
  by (auto simp add: abit_def)

lemma abit_word_rev:
  "i < 8 \<Longrightarrow> j < 16 \<Longrightarrow> bit (htons (s6_addr16 a i)) j \<longleftrightarrow> abit a (16 * i + (15 - j))"
  using abit_word [of i "15 - j" a] by simp

lemma in6_addr_eqI:
  assumes "\<And>k. k < 128 \<Longrightarrow> abit a k = abit b k"
  shows "a = b"
proof (rule s6_eqI)
  fix i :: nat assume i: "i < 8"
  have "htons (s6_addr16 a i) = htons (s6_addr16 b i)"
  proof (rule bit_word_eqI)
    fix n assume "n < LENGTH(16)"
    then show "bit (htons (s6_addr16 a i)) n = bit (htons (s6_addr16 b i)) n"
      using i assms [of "16 * i + (15 - n)"] by (simp add: abit_word_rev)
  qed
  then show "s6_addr16 a i = s6_addr16 b i" by simp
qed

lemma in6_addr_neqE:
  assumes "a \<noteq> b" obtains k where "k < 128" and "abit a k \<noteq> abit b k"
  using assms in6_addr_eqI by blast

lemma abit_zero [simp]: "\<not> abit zero_addr k"
  by (auto simp add: abit_def)

lemma abit_set [bit_simps]:
  "i < 8 \<Longrightarrow> abit (s6_set a i v) k =
     (if k div 16 = i then bit (htons v) (15 - k mod 16) else abit a k)"
  by (auto simp add: abit_def)

lemma abit_build [bit_simps]:
  "k < 128 \<Longrightarrow> abit (s6_build f) k \<longleftrightarrow> bit (htons (f (k div 16))) (15 - k mod 16)"
  by (simp add: abit_def)

text \<open>\<open>memcmp\<close> on two addresses orders them as their network-order words.\<close>

instantiation in6_addr :: linorder
begin

definition less_eq_in6_addr :: "in6_addr \<Rightarrow> in6_addr \<Rightarrow> bool" where
  "a \<le> b \<longleftrightarrow> map htons (s6_words a) \<le> map htons (s6_words b)"

definition less_in6_addr :: "in6_addr \<Rightarrow> in6_addr \<Rightarrow> bool" where
  "a < b \<longleftrightarrow> map htons (s6_words a) < map htons (s6_words b)"

instance
proof
  fix a b c :: in6_addr
  have "inj htons" by (rule injI) simp
  then show "a \<le> b \<Longrightarrow> b \<le> a \<Longrightarrow> a = b"
    by (auto simp add: less_eq_in6_addr_def dest!: antisym dest: injD [OF inj_mapI])
qed (auto simp add: less_eq_in6_addr_def less_in6_addr_def)

end

end
