(* ===== verification/Antop_Defs.thy ===== *)
theory Antop_Defs
  imports In6_Addr
begin

text \<open>
  The data of the daemon (\<open>defs.h\<close>, \<open>antop_packet.h\<close>, the constants of \<open>labels.h\<close>) and its global
  variables, gathered in one record \<open>node\<close>. A linked list is a HOL list in list order and a null
  list is \<open>[]\<close>; a C flag is a \<open>bool\<close>; an \<open>unsigned char\<close> is an \<open>8 word\<close>, so that masks and network
  numbers wrap as they do in C; the \<open>int\<close> counters of the neighbours are \<open>int\<close>.
  What a node does to the outside (datagrams, interface addresses, timers, pauses, shell commands)
  is appended to the \<open>trace\<close> of its state. What it reads from outside, the contents of
  uninitialised memory included, is a parameter, the record \<open>env\<close>.
\<close>

type_synonym byte = "8 word"

section \<open>Constants of labels.h and antop_packet.h\<close>

definition PAR :: byte where "PAR = 1"
definition PAP :: byte where "PAP = 2"
definition PAN :: byte where "PAN = 3"
definition PANC :: byte where "PANC = 4"
definition HB :: byte where "HB = 6"
definition SAP :: byte where "SAP = 7"
definition SAN :: byte where "SAN = 8"
definition MAX_CTRL_TYPE :: byte where "MAX_CTRL_TYPE = 8"
definition RV_REG :: byte where "RV_REG = 9"
definition RV_ADDR_LOOKUP :: byte where "RV_ADDR_LOOKUP = 10"
definition RV_ADDR_SOLVE :: byte where "RV_ADDR_SOLVE = 11"
definition FAR :: byte where "FAR = 12"
definition FAN :: byte where "FAN = 13"
definition MAR1 :: byte where "MAR1 = 14"
definition MAR2 :: byte where "MAR2 = 15"
definition MAN1 :: byte where "MAN1 = 16"
definition MAN2 :: byte where "MAN2 = 17"

definition T_SAN :: int where "T_SAN = 2"
definition MAX_RCVD_PAP :: nat where "MAX_RCVD_PAP = 10"
definition T_HB :: int where "T_HB = 5000"
definition T_RV :: int where "T_RV = 3000"
definition PLUS_HB :: int where "PLUS_HB = 3000"
definition T_LHB :: int where "T_LHB = T_HB + PLUS_HB"
definition N_INACT :: int where "N_INACT = 1"
definition MASK_SOLVED :: byte where "MASK_SOLVED = 1"
definition ANTOP_PORT :: int where "ANTOP_PORT = 4469"
definition NSERVER_RV :: nat where "NSERVER_RV = 2"

lemmas packet_type_defs =
  PAR_def PAP_def PAN_def PANC_def HB_def SAP_def SAN_def RV_REG_def RV_ADDR_LOOKUP_def
  RV_ADDR_SOLVE_def FAR_def FAN_def MAR1_def MAR2_def MAN1_def MAN2_def

section \<open>Tables\<close>

record neighbor =
  n_prim_addr :: in6_addr
  n_sec_addr_conn :: int
  n_count :: int
  n_prim_mask :: byte
  n_prim_mask_inicial :: byte
  n_available :: byte

record recovered_addr =
  r_prim_mask :: byte
  r_prim_addr :: in6_addr

record n_s_l =
  l_addr :: in6_addr
  l_mask :: byte

record neighbor_to_root =
  nr_addr :: in6_addr
  nr_distance :: nat

record route =
  rt_dst :: in6_addr
  rt_gtw :: in6_addr
  rt_metric :: int
  rt_dst_mask :: int
  rt_distance :: int
  rt_table :: byte

section \<open>Packets\<close>

record additional_addr =
  t_lenght :: byte
  addr_bit_len :: byte
  a_addr :: in6_addr
  a_mask :: byte
  conn_count :: byte
  a_red_numero :: byte

record ctrl_pkt =
  pkt_type_f :: byte
  t_length :: byte
  p_src_addr :: in6_addr
  prim_addr_len :: byte
  p_prim_addr :: in6_addr
  ad_addr :: additional_addr

text \<open>\<open>rv_univ_addr\<close> holds the 50 bytes of the array, terminator and what follows it included.\<close>

record rv_ctrl_pkt =
  rv_type :: byte
  rv_flags :: byte
  rv_id :: "32 word"
  rv_n :: "32 word"
  rv_prim_addr :: in6_addr
  rv_univ_addr :: "byte list"
  rv_src_addr :: in6_addr

text \<open>An entry of the rendezvous tables; the name is the C string up to its terminator.\<close>

record lookup_table =
  univ_name :: "byte list"
  hc_addr :: in6_addr

text \<open>A DNS query that waits for its answer: the packet, and the two ports as they stand in it (network byte order).\<close>

record dns_q_queue =
  q_pkt :: "byte list"
  q_dst_port :: "16 word"
  q_src_port :: "16 word"

section \<open>Effects, environment and global state\<close>

datatype timer_id = Hb_T | Chk_Neigh_T | San_T | Rv_T

datatype packet = Ctrl ctrl_pkt | Rv rv_ctrl_pkt

text \<open>
  \<open>Sendmsg pkt src dst sock port\<close> is a datagram handed to the socket; \<open>Ifaddr_Add\<close> and
  \<open>Ifaddr_Del\<close> are the ioctls of \<open>add\<close> and \<open>del\<close>; \<open>Set_If_Addr\<close> is \<open>set_if_addr2\<close>;
  \<open>Arm_Timer t ms\<close> is \<open>timer_add_msec\<close>; \<open>Ndisc6 a\<close> is the shell command on neighbour \<open>a\<close>;
  \<open>Send_Bytes bs src dst sock port\<close> is a datagram that is not one of the protocol, a DNS response.
\<close>

datatype effect =
    Sendmsg packet in6_addr in6_addr int int
  | Ifaddr_Add in6_addr
  | Ifaddr_Del in6_addr
  | Set_If_Addr in6_addr
  | Arm_Timer timer_id int
  | Sleep nat
  | Ndisc6 in6_addr
  | Send_Bytes "byte list" in6_addr in6_addr int int

text \<open>
  What the handlers read from outside the program: byte 4 of the MAC address, the answer of
  \<open>ping6\<close>, the address of the interface, the indeterminate contents of freshly allocated packets
  and table entries, the indeterminate mask of a local \<open>struct neighbor\<close>, the indeterminate socket and port of a
  call with missing arguments, the contents of a fresh buffer, what the link of a query reads after it has been freed, and
  the address that the first entry of the cache is allocated with.
\<close>

record env =
  mac4 :: byte
  ping6 :: "in6_addr \<Rightarrow> int"
  if_addr :: in6_addr
  ctrl_junk :: ctrl_pkt
  rv_junk :: rv_ctrl_pkt
  mask_junk :: byte
  nb_junk :: neighbor
  arg_junk :: "int \<times> int"
  heap_junk :: "nat \<Rightarrow> byte"
  freed_next :: "dns_q_queue list \<Rightarrow> dns_q_queue list"
  cache_junk :: in6_addr

record node =
  prim_addr :: in6_addr
  prim_mask :: byte
  prim_mask_inicial :: byte
  prim_addr_flag :: bool
  prim_addr_aux :: in6_addr
  sec_addr :: in6_addr
  sec_mask :: byte
  sec_addr_flag :: bool
  root :: in6_addr
  dir_default :: in6_addr
  hc_dim :: nat
  red_numero :: byte
  flag_conexion :: bool
  flag_init :: bool
  flag_fragmentacion :: bool
  flag_fragmentacion_primaria :: bool
  flag_fragmentacion_secundaria :: bool
  flag_mezcla :: bool
  flag_mezcla_primaria :: bool
  flag_mezcla_secundaria :: bool
  prim_mask_mezcla :: byte
  neigh_table :: "neighbor list"
  neighbor_to_root :: neighbor_to_root
  rcvd_addr :: "recovered_addr list"
  rcvd_offered :: "in6_addr option"
  flag_addr_avai :: bool
  addr_node_secondary_link :: in6_addr
  flag_neigh_by_second :: bool
  n_s_l_table :: "n_s_l list"
  route_t :: "route list"
  univ_addr :: "byte list"
  rv_table :: "lookup_table list"
  cached_table :: "lookup_table list"
  rv_servers :: "in6_addr list"
  rv_servers_dst :: "in6_addr list"
  main_rv_server :: in6_addr
  dns :: "dns_q_queue list"
  socket_global :: int
  socket_global_mdns :: int
  socket_global_dns :: int
  trace :: "effect list"

type_synonym handler = "node \<Rightarrow> node result"

definition emit :: "effect \<Rightarrow> node \<Rightarrow> node" where
  "emit e s = s\<lparr>trace := trace s @ [e]\<rparr>"

lemma emit_frame [simp, frame_simps]:
  "prim_addr (emit e s) = prim_addr s" "prim_mask (emit e s) = prim_mask s"
  "prim_mask_inicial (emit e s) = prim_mask_inicial s" "prim_addr_flag (emit e s) = prim_addr_flag s"
  "prim_addr_aux (emit e s) = prim_addr_aux s" "sec_addr (emit e s) = sec_addr s"
  "sec_mask (emit e s) = sec_mask s" "sec_addr_flag (emit e s) = sec_addr_flag s"
  "root (emit e s) = root s" "dir_default (emit e s) = dir_default s" "hc_dim (emit e s) = hc_dim s"
  "red_numero (emit e s) = red_numero s" "flag_conexion (emit e s) = flag_conexion s"
  "flag_init (emit e s) = flag_init s" "flag_fragmentacion (emit e s) = flag_fragmentacion s"
  "flag_fragmentacion_primaria (emit e s) = flag_fragmentacion_primaria s"
  "flag_fragmentacion_secundaria (emit e s) = flag_fragmentacion_secundaria s"
  "flag_mezcla (emit e s) = flag_mezcla s" "flag_mezcla_primaria (emit e s) = flag_mezcla_primaria s"
  "flag_mezcla_secundaria (emit e s) = flag_mezcla_secundaria s"
  "prim_mask_mezcla (emit e s) = prim_mask_mezcla s" "neigh_table (emit e s) = neigh_table s"
  "neighbor_to_root (emit e s) = neighbor_to_root s" "rcvd_addr (emit e s) = rcvd_addr s"
  "rcvd_offered (emit e s) = rcvd_offered s" "flag_addr_avai (emit e s) = flag_addr_avai s"
  "addr_node_secondary_link (emit e s) = addr_node_secondary_link s"
  "flag_neigh_by_second (emit e s) = flag_neigh_by_second s" "n_s_l_table (emit e s) = n_s_l_table s"
  "route_t (emit e s) = route_t s" "univ_addr (emit e s) = univ_addr s"
  "rv_table (emit e s) = rv_table s" "cached_table (emit e s) = cached_table s"
  "rv_servers (emit e s) = rv_servers s" "rv_servers_dst (emit e s) = rv_servers_dst s"
  "main_rv_server (emit e s) = main_rv_server s" "socket_global (emit e s) = socket_global s"
  "dns (emit e s) = dns s" "socket_global_mdns (emit e s) = socket_global_mdns s"
  "socket_global_dns (emit e s) = socket_global_dns s"
  "trace (emit e s) = trace s @ [e]"
  by (simp_all add: emit_def)

section \<open>Addresses and network numbers of the node\<close>

text \<open>\<open>funciones.c\<close>: the network number is derived from byte 4 of the MAC address.\<close>

definition mac_address :: "env \<Rightarrow> int" where
  "mac_address E = uint (mac4 E) + 50"

definition add :: "in6_addr \<Rightarrow> node \<Rightarrow> node" where
  "add a s = emit (Ifaddr_Add a) s"

definition del :: "in6_addr \<Rightarrow> node \<Rightarrow> node" where
  "del a s = emit (Ifaddr_Del a) s"

text \<open>
  Replaces an address of the interface; \<open>flag = 0\<close> protects the primary address, \<open>flag = 1\<close> the
  secondary one, \<open>flag = 2\<close> none. The arguments are read when the call is made.
\<close>

definition del_and_addnew :: "in6_addr \<Rightarrow> in6_addr \<Rightarrow> int \<Rightarrow> node \<Rightarrow> node" where
  "del_and_addnew delold addnew flag s =
     (if flag = 0 then
        (if addnew = prim_addr s then del delold s
         else if delold = prim_addr s then add addnew s
         else add addnew (del delold s))
      else if flag = 1 then
        (if addnew = sec_addr s then del delold s
         else if delold = sec_addr s then add addnew s
         else add addnew (del delold s))
      else if flag = 2 then add addnew (del delold s)
      else s)"

definition sleep :: "nat \<Rightarrow> node \<Rightarrow> node" where
  "sleep n s = emit (Sleep n) s"

text \<open>
  \<open>antop_socket.c\<close>: the source of a datagram is the primary address once the node has one, and
  the address of the interface before. The hop limit is not passed to the socket.
\<close>

definition antop_socket_send :: "env \<Rightarrow> packet \<Rightarrow> in6_addr \<Rightarrow> int \<Rightarrow> int \<Rightarrow> node \<Rightarrow> node" where
  "antop_socket_send E msg dst sock port s =
     emit (Sendmsg msg (if prim_addr_flag s then prim_addr s else if_addr E) dst sock port) s"

text \<open>The same function on a buffer of bytes.\<close>

definition antop_socket_send_bytes :: "env \<Rightarrow> byte list \<Rightarrow> in6_addr \<Rightarrow> int \<Rightarrow> int \<Rightarrow> node \<Rightarrow> node" where
  "antop_socket_send_bytes E msg dst sock port s =
     emit (Send_Bytes msg (if prim_addr_flag s then prim_addr s else if_addr E) dst sock port) s"

definition arm_timer :: "timer_id \<Rightarrow> int \<Rightarrow> node \<Rightarrow> node" where
  "arm_timer t ms s = emit (Arm_Timer t ms) s"

lemmas io_defs = add_def del_def sleep_def antop_socket_send_def antop_socket_send_bytes_def arm_timer_def

text \<open>The link-local multicast group \<open>ff02::1\<close> every node listens to.\<close>

definition multicast :: in6_addr where
  "multicast = In6 0x02ff 0 0 0 0 0 0 0x0100"

section \<open>The initial node\<close>

text \<open>
  \<open>prim_addr_init\<close> of \<open>hcb_address.c\<close> and the initialisers of the globals: every node starts with the
  root address \<open>2001:db8::1\<close>. Dimension, universal name and the sockets come from the start of the program.
  \<open>net_root\<close> and \<open>net_default\<close> are the two addresses written there.
\<close>

definition net_root :: in6_addr where
  "net_root = In6 0x0120 0xb80d 0 0 0 0 0 0x0100"

definition net_default :: in6_addr where
  "net_default = In6 0x0120 0xb80d 0 0 0 0 0 0x0a00"

definition prim_addr_init :: "nat \<Rightarrow> byte list \<Rightarrow> int \<Rightarrow> int \<Rightarrow> int \<Rightarrow> node" where
  "prim_addr_init dim name sock mdns_sock dns_sock =
     \<lparr>prim_addr = net_root, prim_mask = 0, prim_mask_inicial = 0, prim_addr_flag = False,
      prim_addr_aux = zero_addr, sec_addr = zero_addr, sec_mask = 0, sec_addr_flag = False,
      root = net_root, dir_default = net_default, hc_dim = dim, red_numero = 0,
      flag_conexion = False, flag_init = False, flag_fragmentacion = False,
      flag_fragmentacion_primaria = False, flag_fragmentacion_secundaria = False,
      flag_mezcla = False, flag_mezcla_primaria = False, flag_mezcla_secundaria = False,
      prim_mask_mezcla = 0, neigh_table = [],
      neighbor_to_root = \<lparr>nr_addr = zero_addr, nr_distance = 99\<rparr>,
      rcvd_addr = [], rcvd_offered = None, flag_addr_avai = True,
      addr_node_secondary_link = zero_addr, flag_neigh_by_second = False, n_s_l_table = [],
      route_t = [], univ_addr = name, rv_table = [], cached_table = [], rv_servers = [],
      rv_servers_dst = [], main_rv_server = zero_addr, dns = [], socket_global = sock,
      socket_global_mdns = mdns_sock, socket_global_dns = dns_sock, trace = []\<rparr>"

text \<open>A node and an environment for examples.\<close>

definition null_ctrl :: ctrl_pkt where
  "null_ctrl = \<lparr>pkt_type_f = 0, t_length = 0, p_src_addr = zero_addr, prim_addr_len = 0, p_prim_addr = zero_addr,
     ad_addr = \<lparr>t_lenght = 0, addr_bit_len = 0, a_addr = zero_addr, a_mask = 0, conn_count = 0, a_red_numero = 0\<rparr>\<rparr>"

definition null_rv :: rv_ctrl_pkt where
  "null_rv = \<lparr>rv_type = 0, rv_flags = 0, rv_id = 0, rv_n = 0, rv_prim_addr = zero_addr,
     rv_univ_addr = replicate 50 0, rv_src_addr = zero_addr\<rparr>"

definition sample_env :: env where
  "sample_env = \<lparr>mac4 = 7, ping6 = (\<lambda>_. 1), if_addr = In6 0x80fe 0 0 0 0 0 0 0x0500, ctrl_junk = null_ctrl,
     rv_junk = null_rv, mask_junk = 0,
     nb_junk = \<lparr>n_prim_addr = zero_addr, n_sec_addr_conn = 0, n_count = 0, n_prim_mask = 0, n_prim_mask_inicial = 0, n_available = 0\<rparr>,
     arg_junk = (0, 0), heap_junk = (\<lambda>_. 0), freed_next = (\<lambda>q. q), cache_junk = zero_addr\<rparr>"

definition sample_node :: node where
  "sample_node = prim_addr_init 64 [110, 49] 3 4 5"

lemma sample_env_sel [simp]:
  "mac4 sample_env = 7" "ping6 sample_env a = 1" "ctrl_junk sample_env = null_ctrl" "rv_junk sample_env = null_rv"
  "mask_junk sample_env = 0" "length (rv_univ_addr null_rv) = 50" "heap_junk sample_env k = 0"
  "freed_next sample_env q = q" "rv_src_addr null_rv = zero_addr"
  by (simp_all add: sample_env_def null_rv_def)

lemma sample_node_sel [simp]:
  "prim_addr sample_node = net_root" "prim_mask sample_node = 0" "prim_mask_inicial sample_node = 0"
  "prim_addr_flag sample_node = False" "prim_addr_aux sample_node = zero_addr" "sec_addr sample_node = zero_addr"
  "sec_mask sample_node = 0" "sec_addr_flag sample_node = False" "root sample_node = net_root"
  "dir_default sample_node = net_default" "hc_dim sample_node = 64" "red_numero sample_node = 0"
  "flag_conexion sample_node = False" "flag_init sample_node = False" "flag_fragmentacion sample_node = False"
  "flag_fragmentacion_primaria sample_node = False" "flag_fragmentacion_secundaria sample_node = False"
  "flag_mezcla sample_node = False" "flag_mezcla_primaria sample_node = False"
  "flag_mezcla_secundaria sample_node = False" "prim_mask_mezcla sample_node = 0" "neigh_table sample_node = []"
  "neighbor_to_root sample_node = \<lparr>nr_addr = zero_addr, nr_distance = 99\<rparr>" "rcvd_addr sample_node = []"
  "rcvd_offered sample_node = None" "flag_addr_avai sample_node = True"
  "addr_node_secondary_link sample_node = zero_addr" "flag_neigh_by_second sample_node = False"
  "n_s_l_table sample_node = []" "route_t sample_node = []" "univ_addr sample_node = [110, 49]"
  "rv_table sample_node = []" "cached_table sample_node = []" "rv_servers sample_node = []"
  "rv_servers_dst sample_node = []" "main_rv_server sample_node = zero_addr" "socket_global sample_node = 3"
  "dns sample_node = []" "socket_global_mdns sample_node = 4" "socket_global_dns sample_node = 5"
  "trace sample_node = []"
  by (simp_all add: sample_node_def prim_addr_init_def)

end
