(* ===== verification/Hypercube.thy ===== *)
theory Hypercube
  imports Antop_Defs
begin

text \<open>
  The arithmetic of hypercube addresses: distances and address spaces (\<open>pkt_handle.c\<close>), the
  child address a node offers (\<open>hcb_address.c\<close>), and the shifts that move addresses when networks
  fragment (\<open>funciones.c\<close>) or merge (\<open>mezcla.c\<close>). The loops over words and bits are those of the
  code; the lemmas relate them to the coordinates \<open>abit a (64 + m)\<close> of the cube.
\<close>

section \<open>Distances\<close>

text \<open>The test on one bit: the masked words differ.\<close>

definition word_bit_differs :: "16 word \<Rightarrow> 16 word \<Rightarrow> nat \<Rightarrow> bool" where
  "word_bit_differs v w j =
     (let mask = htons (2 ^ j); aux1 = v AND mask; aux2 = w AND mask in aux1 \<noteq> aux2)"

lemma word_bit_differs_iff [bit_simps]:
  "j < 16 \<Longrightarrow> word_bit_differs v w j \<longleftrightarrow> bit (htons v) j \<noteq> bit (htons w) j"
  by (simp add: word_bit_differs_def Let_def htons_mask_eq_iff)

definition dist :: "in6_addr \<Rightarrow> neighbor \<Rightarrow> nat" where
  "dist d neigh =
     fold (\<lambda>i count.
        fold (\<lambda>j count.
            if word_bit_differs (s6_addr16 d i) (s6_addr16 (n_prim_addr neigh) i) j
            then count + 1 else count)
          [0..<16] count)
       [4..<8] 0"

text \<open>A read of \<open>s6_addr16[i]\<close>, with the fault of an index outside the array.\<close>

definition s6_read :: "in6_addr \<Rightarrow> nat \<Rightarrow> 16 word result" where
  "s6_read a i = (if i < 8 then Inr (s6_addr16 a i) else Inl Out_Of_Bounds)"

fun dist_w_mask_words :: "in6_addr \<Rightarrow> in6_addr \<Rightarrow> nat list \<Rightarrow> nat \<Rightarrow> nat result" where
  "dist_w_mask_words d n [] count = Inr count"
| "dist_w_mask_words d n (i # is) count =
     bind (s6_read d i) (\<lambda>v. bind (s6_read n i) (\<lambda>w.
       dist_w_mask_words d n is
         (fold (\<lambda>j count. if word_bit_differs v w j then count + 1 else count) [0..<16] count)))"

fun dist_w_mask_bits :: "in6_addr \<Rightarrow> in6_addr \<Rightarrow> nat \<Rightarrow> nat list \<Rightarrow> nat \<Rightarrow> nat result" where
  "dist_w_mask_bits d n i [] count = Inr count"
| "dist_w_mask_bits d n i (j # js) count =
     bind (s6_read d i) (\<lambda>v. bind (s6_read n i) (\<lambda>w.
       dist_w_mask_bits d n i js (if word_bit_differs v w j then count + 1 else count)))"

definition dist_w_mask :: "in6_addr \<Rightarrow> neighbor \<Rightarrow> nat result" where
  "dist_w_mask d neigh =
     (let words = 4 + unat (n_prim_mask neigh) div 16;
          bits = 15 - unat (n_prim_mask neigh) mod 16
      in bind (dist_w_mask_words d (n_prim_addr neigh) [4..<words] 0)
           (dist_w_mask_bits d (n_prim_addr neigh) words (rev [bits + 1..<16])))"

text \<open>The Hamming distance on the first \<open>m\<close> coordinates of the cube.\<close>

definition hamming_upto :: "nat \<Rightarrow> in6_addr \<Rightarrow> in6_addr \<Rightarrow> nat" where
  "hamming_upto m a b = length (filter (\<lambda>k. abit a (64 + k) \<noteq> abit b (64 + k)) [0..<m])"

abbreviation hamming :: "in6_addr \<Rightarrow> in6_addr \<Rightarrow> nat" where
  "hamming \<equiv> hamming_upto 64"

lemma hamming_upto_0 [simp]: "hamming_upto 0 a b = 0"
  by (simp add: hamming_upto_def)

lemma hamming_upto_commute: "hamming_upto m a b = hamming_upto m b a"
  unfolding hamming_upto_def by (intro arg_cong [where f = length] filter_cong) auto

lemma hamming_upto_refl [simp]: "hamming_upto m a a = 0"
  by (simp add: hamming_upto_def)

lemma hamming_upto_card:
  "hamming_upto m a b = card {k. k < m \<and> abit a (64 + k) \<noteq> abit b (64 + k)}"
  by (simp add: hamming_upto_def distinct_length_filter Int_def conj_commute)

lemma hamming_upto_eq_0_iff:
  "hamming_upto m a b = 0 \<longleftrightarrow> (\<forall>k<m. abit a (64 + k) = abit b (64 + k))"
  by (auto simp add: hamming_upto_def filter_empty_conv)

lemma hamming_upto_triangle: "hamming_upto m a c \<le> hamming_upto m a b + hamming_upto m b c"
proof -
  let ?D = "\<lambda>x y. {k. k < m \<and> abit x (64 + k) \<noteq> abit y (64 + k)}"
  have "card (?D a c) \<le> card (?D a b \<union> ?D b c)" by (rule card_mono) auto
  also have "\<dots> \<le> card (?D a b) + card (?D b c)" by (rule card_Un_le)
  finally show ?thesis by (simp add: hamming_upto_card)
qed

lemma hamming_upto_le: "hamming_upto m a b \<le> m"
  by (metis hamming_upto_def length_filter_le length_upt diff_zero)

lemma hamming_upto_mono: "m \<le> n \<Longrightarrow> hamming_upto m a b \<le> hamming_upto n a b"
  unfolding hamming_upto_card by (rule card_mono) auto

lemma hamming_upto_add:
  "hamming_upto (m + n) a b =
     hamming_upto m a b + length (filter (\<lambda>k. abit a (64 + k) \<noteq> abit b (64 + k)) [m..<m + n])"
  using upt_add_eq_append [of 0 m n] by (simp add: hamming_upto_def)

text \<open>One word of the loop counts the differing coordinates of that word.\<close>

lemma length_filter_range: "length (filter P [l..<m]) = card {j. l \<le> j \<and> j < m \<and> P j}"
proof -
  have "{j. l \<le> j \<and> j < m \<and> P j} = set (filter P [l..<m])" by auto
  then show ?thesis by (simp only: distinct_card distinct_filter distinct_upt)
qed

lemma length_filter_rev_range:
  "length (filter (\<lambda>j. P (15 - j)) [l..<16]) = length (filter P [0..<16 - l])"
proof -
  have "bij_betw (\<lambda>j. 15 - j) {j. l \<le> j \<and> j < 16 \<and> P (15 - j)} {k. 0 \<le> k \<and> k < 16 - l \<and> P k}"
    by (rule bij_betw_byWitness [where f' = "\<lambda>k. 15 - k"]) auto
  then show ?thesis
    unfolding length_filter_range by (rule bij_betw_same_card)
qed

lemma length_filter_shift:
  "length (filter P [m..<m + n]) = length (filter (\<lambda>k. P (m + k)) [0..<n])"
  by (induction n) simp_all

lemma word_loop:
  assumes "4 \<le> i" and "i < 8"
  shows "length (filter (word_bit_differs (s6_addr16 a i) (s6_addr16 b i)) [l..<16]) =
    length (filter (\<lambda>k. abit a (64 + k) \<noteq> abit b (64 + k)) [16 * (i - 4)..<16 * (i - 4) + (16 - l)])"
proof -
  have "length (filter (word_bit_differs (s6_addr16 a i) (s6_addr16 b i)) [l..<16]) =
      length (filter (\<lambda>j. abit a (16 * i + (15 - j)) \<noteq> abit b (16 * i + (15 - j))) [l..<16])"
    using assms by (intro arg_cong [where f = length] filter_cong)
      (auto simp add: word_bit_differs_iff abit_word_rev)
  also have "\<dots> = length (filter (\<lambda>k. abit a (16 * i + k) \<noteq> abit b (16 * i + k)) [0..<16 - l])"
    by (rule length_filter_rev_range)
  also have "\<dots> = length (filter (\<lambda>k. abit a (64 + k) \<noteq> abit b (64 + k)) [16 * (i - 4)..<16 * (i - 4) + (16 - l)])"
    using assms(1) by (simp only: length_filter_shift) (simp add: diff_mult_distrib2)
  finally show ?thesis .
qed

lemma dist_hamming [simp]: "dist a n = hamming a (n_prim_addr n)"
proof -
  let ?P = "\<lambda>k. abit a (64 + k) \<noteq> abit (n_prim_addr n) (64 + k)"
  have words: "[4..<8] = [4, 5, 6, 7 :: nat]"
    by (simp add: upt_rec)
  have "dist a n = length (filter ?P [0..<16]) + length (filter ?P [16..<32]) +
      length (filter ?P [32..<48]) + length (filter ?P [48..<64])"
    unfolding dist_def words fold_count
    using word_loop [of 4 a "n_prim_addr n" 0] word_loop [of 5 a "n_prim_addr n" 0]
      word_loop [of 6 a "n_prim_addr n" 0] word_loop [of 7 a "n_prim_addr n" 0]
    by (simp del: upt_rec_numeral)
  moreover have "[0..<64] = [0..<16] @ [16..<32] @ [32..<48] @ [48..<64 :: nat]"
    using upt_add_eq_append [of 0 16 48] upt_add_eq_append [of 16 32 32]
      upt_add_eq_append [of 32 48 16] by (simp del: upt_rec_numeral)
  ultimately show ?thesis
    by (simp only: hamming_upto_def filter_append length_append add.assoc)
qed

definition word_diffs :: "in6_addr \<Rightarrow> in6_addr \<Rightarrow> nat \<Rightarrow> nat" where
  "word_diffs a b i = length (filter (word_bit_differs (s6_addr16 a i) (s6_addr16 b i)) [0..<16])"

lemma sum_word_diffs:
  "w \<le> 4 \<Longrightarrow> (\<Sum>i\<leftarrow>[4..<4 + w]. word_diffs a b i) = hamming_upto (16 * w) a b"
proof (induction w)
  case 0
  then show ?case by simp
next
  case (Suc w)
  have "hamming_upto (16 * w + 16) a b = hamming_upto (16 * w) a b + word_diffs a b (4 + w)"
    using Suc.prems by (simp only: hamming_upto_add word_diffs_def) (simp add: word_loop)
  moreover have "[4..<4 + Suc w] = [4..<4 + w] @ [4 + w]"
    by (simp only: add_Suc_right upt_Suc le_add1 if_True)
  ultimately show ?case using Suc
    by (simp only: map_append sum_list_append mult_Suc_right add.commute [of 16]) simp
qed

lemma dist_w_mask_words_eq:
  "\<forall>i\<in>set is. i < 8 \<Longrightarrow>
     dist_w_mask_words d n is c = Inr (c + (\<Sum>i\<leftarrow>is. word_diffs d n i))"
  by (induction "is" arbitrary: c) (simp_all add: s6_read_def fold_count word_diffs_def add.assoc
      del: upt_rec_numeral)

lemma dist_w_mask_words_fault:
  "\<exists>i\<in>set is. 8 \<le> i \<Longrightarrow> dist_w_mask_words d n is c = Inl Out_Of_Bounds"
  by (induction "is" arbitrary: c) (auto simp add: s6_read_def simp del: upt_rec_numeral)

lemma dist_w_mask_bits_eq:
  "i < 8 \<Longrightarrow> dist_w_mask_bits d n i js c =
     Inr (c + length (filter (word_bit_differs (s6_addr16 d i) (s6_addr16 n i)) js))"
  by (induction js arbitrary: c) (simp_all add: s6_read_def)

lemma dist_w_mask_bits_fault:
  "8 \<le> i \<Longrightarrow> js \<noteq> [] \<Longrightarrow> dist_w_mask_bits d n i js c = Inl Out_Of_Bounds"
  by (cases js) (simp_all add: s6_read_def)

lemma length_filter_rev: "length (filter P (rev xs)) = length (filter P xs)"
  by (simp add: rev_filter [symmetric])

lemma dist_w_mask_ok:
  assumes "unat (n_prim_mask n) \<le> 64"
  shows "dist_w_mask a n = Inr (hamming_upto (unat (n_prim_mask n)) a (n_prim_addr n))"
proof -
  define m where "m = unat (n_prim_mask n)"
  define w where "w = m div 16"
  define r where "r = m mod 16"
  have m: "m = 16 * w + r" and w: "w \<le> 4" and r: "r < 16" and wr: "w < 4 \<or> r = 0"
    using assms unfolding m_def [symmetric] w_def r_def by presburger+
  have words: "dist_w_mask_words a (n_prim_addr n) [4..<4 + w] 0 =
      Inr (hamming_upto (16 * w) a (n_prim_addr n))"
    using w by (subst dist_w_mask_words_eq) (simp_all only: sum_word_diffs, simp_all)
  have "bind (dist_w_mask_words a (n_prim_addr n) [4..<4 + w] 0)
      (dist_w_mask_bits a (n_prim_addr n) (4 + w) (rev [15 - r + 1..<16])) =
    Inr (hamming_upto (16 * w + r) a (n_prim_addr n))"
  proof (cases "r = 0")
    case True
    then show ?thesis by (simp add: words)
  next
    case False
    with wr r have "4 + w < 8" and "16 - (15 - r + 1) = r" by simp_all
    then show ?thesis
      by (simp only: words bind_simps dist_w_mask_bits_eq length_filter_rev hamming_upto_add
          word_loop le_add1) simp
  qed
  then show ?thesis by (simp add: dist_w_mask_def Let_def m_def [symmetric] w_def [symmetric] r_def [symmetric] m [symmetric])
qed

lemma dist_w_mask_fault:
  assumes "64 < unat (n_prim_mask n)"
  shows "dist_w_mask a n = Inl Out_Of_Bounds"
proof (cases "unat (n_prim_mask n) div 16 = 4")
  case True
  then have "unat (n_prim_mask n) mod 16 \<noteq> 0" using assms by presburger
  then have "[15 - unat (n_prim_mask n) mod 16 + 1..<16] \<noteq> []" by simp
  then show ?thesis
    unfolding dist_w_mask_def Let_def True
    by (subst dist_w_mask_words_eq) (simp_all add: dist_w_mask_bits_fault del: upt_rec_numeral)
next
  case False
  then have "8 \<in> set [4..<4 + unat (n_prim_mask n) div 16]" using assms by auto
  then show ?thesis
    unfolding dist_w_mask_def Let_def by (subst dist_w_mask_words_fault) auto
qed

section \<open>Address spaces\<close>

text \<open>
  \<open>check_addr_space addr addr2 mask\<close> returns 0 when the first \<open>mask\<close> coordinates agree and 1
  otherwise: whole words first, then the bits of the next word under a mask shifted to the right.
\<close>

fun cas_words :: "in6_addr \<Rightarrow> in6_addr \<Rightarrow> nat list \<Rightarrow> bool result" where
  "cas_words address1 address2 [] = Inr False"
| "cas_words address1 address2 (i # is) =
     bind (s6_read address2 (i + 4)) (\<lambda>w2. bind (s6_read address1 (i + 4)) (\<lambda>w1.
       if w2 \<noteq> w1 then Inr True else cas_words address1 address2 is))"

fun cas_bits :: "in6_addr \<Rightarrow> in6_addr \<Rightarrow> nat \<Rightarrow> nat \<Rightarrow> 16 word \<Rightarrow> bool result" where
  "cas_bits address1 address2 i 0 msk = Inr False"
| "cas_bits address1 address2 i (Suc bits) msk =
     bind (s6_read address2 (i + 4)) (\<lambda>w2. bind (s6_read address1 (i + 4)) (\<lambda>w1.
       if htons (htons w2 AND msk) \<noteq> htons (htons w1 AND msk) then Inr True
       else cas_bits address1 address2 i bits (drop_bit 1 msk)))"

definition check_addr_space :: "in6_addr \<Rightarrow> in6_addr \<Rightarrow> byte \<Rightarrow> int result" where
  "check_addr_space addr addr2 mask_addr =
     (let words = unat mask_addr div 16; bits = unat mask_addr mod 16
      in bind (cas_words addr addr2 [0..<words]) (\<lambda>d.
           if d then Inr 1
           else bind (cas_bits addr addr2 words bits (2 ^ 15)) (\<lambda>d.
             if d then Inr 1 else Inr 0)))"

lemma cas_words_eq:
  "\<forall>i\<in>set is. i < 4 \<Longrightarrow>
     cas_words a b is = Inr (\<exists>i\<in>set is. s6_addr16 a (i + 4) \<noteq> s6_addr16 b (i + 4))"
  by (induction "is") (auto simp add: s6_read_def)

lemma and_two_power_eq_iff:
  "v AND 2 ^ n = w AND 2 ^ n \<longleftrightarrow> bit v n = bit w n" if "n < 16" for v w :: "16 word"
  using htons_mask_eq_iff [OF that, of "htons v" "htons w"]
  by (metis htons_and htons_eq_iff htons_htons)

lemma cas_bits_eq:
  "i < 4 \<Longrightarrow> bits \<le> Suc n \<Longrightarrow> n < 16 \<Longrightarrow> cas_bits a b i bits (2 ^ n) =
     Inr (\<exists>j<bits. bit (htons (s6_addr16 a (i + 4))) (n - j) \<noteq> bit (htons (s6_addr16 b (i + 4))) (n - j))"
proof (induction bits arbitrary: n)
  case 0
  then show ?case by simp
next
  case (Suc bits)
  have shift: "drop_bit 1 (2 ^ n) = (2 ^ (n - 1) :: 16 word)" if "0 < n"
    using Suc.prems that by (intro bit_word_eqI) (auto simp add: bit_drop_bit_eq bit_exp_iff)
  let ?d = "\<lambda>k. bit (htons (s6_addr16 a (i + 4))) k \<noteq> bit (htons (s6_addr16 b (i + 4))) k"
  have split: "(\<exists>j<Suc bits. ?d (n - j)) \<longleftrightarrow> ?d n \<or> (\<exists>j<bits. ?d (n - 1 - j))"
    by (auto simp add: less_Suc_eq_0_disj)
  show ?case
  proof (cases "n = 0")
    case True
    then have "bits = 0" using Suc.prems by simp
    with True show ?thesis using Suc.prems
      by (auto simp add: s6_read_def and_two_power_eq_iff [of 0, simplified])
  next
    case False
    then show ?thesis using Suc.prems Suc.IH [of "n - 1"]
      by (simp only: cas_bits.simps split shift) (auto simp add: s6_read_def and_two_power_eq_iff)
  qed
qed

lemma same_word_iff:
  assumes "i < 8"
  shows "s6_addr16 a i = s6_addr16 b i \<longleftrightarrow> (\<forall>j<16. abit a (16 * i + j) = abit b (16 * i + j))"
proof
  assume "s6_addr16 a i = s6_addr16 b i"
  with assms show "\<forall>j<16. abit a (16 * i + j) = abit b (16 * i + j)" by (simp add: abit_word)
next
  assume eq: "\<forall>j<16. abit a (16 * i + j) = abit b (16 * i + j)"
  have "htons (s6_addr16 a i) = htons (s6_addr16 b i)"
  proof (rule bit_word_eqI)
    fix n assume "n < LENGTH(16)"
    then have "n < 16" and "15 - n < 16" by simp_all
    with eq assms show "bit (htons (s6_addr16 a i)) n = bit (htons (s6_addr16 b i)) n"
      by (simp only: abit_word_rev)
  qed
  then show "s6_addr16 a i = s6_addr16 b i" by simp
qed

lemma all_less_mult:
  "(\<forall>k<16 * w + r. P k) \<longleftrightarrow> (\<forall>i<w. \<forall>j<16. P (16 * i + j)) \<and> (\<forall>j<r. P (16 * w + j))"
  for w r :: nat
proof (intro iffI conjI allI impI; (elim conjE)?)
  fix i j :: nat assume "\<forall>k<16 * w + r. P k" and "i < w" and "j < 16"
  then show "P (16 * i + j)" by simp
next
  fix j assume "\<forall>k<16 * w + r. P k" and "j < r"
  then show "P (16 * w + j)" by simp
next
  fix k assume k: "k < 16 * w + r" and lo: "\<forall>i<w. \<forall>j<16. P (16 * i + j)" and hi: "\<forall>j<r. P (16 * w + j)"
  show "P k"
  proof (cases "k < 16 * w")
    case True
    then have "k div 16 < w" and "k mod 16 < 16" by auto
    then show ?thesis using lo [rule_format, of "k div 16" "k mod 16"] by simp
  next
    case False
    then show ?thesis using hi [rule_format, of "k - 16 * w"] k by simp
  qed
qed

text \<open>The coordinates of \<open>a\<close> and \<open>b\<close> below \<open>m\<close> agree: \<open>a\<close> is in the address space \<open>b/m\<close>.\<close>

definition in_space :: "in6_addr \<Rightarrow> in6_addr \<Rightarrow> nat \<Rightarrow> bool" where
  "in_space a b m \<longleftrightarrow> (\<forall>k<m. abit a (64 + k) = abit b (64 + k))"

lemma in_space_hamming: "in_space a b m \<longleftrightarrow> hamming_upto m a b = 0"
  by (simp add: in_space_def hamming_upto_eq_0_iff)

lemma check_addr_space_ok:
  assumes "unat m \<le> 64"
  shows "check_addr_space a b m = Inr (if in_space a b (unat m) then 0 else 1)"
proof -
  define w where "w = unat m div 16"
  define r where "r = unat m mod 16"
  have m: "unat m = 16 * w + r" and w: "w \<le> 4" and r: "r < 16" and wr: "w < 4 \<or> r = 0"
    using assms unfolding w_def r_def by presburger+
  have words: "(\<exists>i\<in>set [0..<w]. s6_addr16 a (i + 4) \<noteq> s6_addr16 b (i + 4)) \<longleftrightarrow>
      \<not> (\<forall>i<w. \<forall>j<16. abit a (64 + (16 * i + j)) = abit b (64 + (16 * i + j)))"
  proof -
    have "s6_addr16 a (i + 4) = s6_addr16 b (i + 4) \<longleftrightarrow>
        (\<forall>j<16. abit a (64 + (16 * i + j)) = abit b (64 + (16 * i + j)))" if "i < w" for i
    proof -
      have e: "16 * (i + 4) + j = 64 + (16 * i + j)" for j :: nat by simp
      show ?thesis using same_word_iff [of "i + 4" a b, unfolded e] that w by simp
    qed
    then show ?thesis by auto
  qed
  have bits: "(\<exists>j<r. bit (htons (s6_addr16 a (w + 4))) (15 - j) \<noteq> bit (htons (s6_addr16 b (w + 4))) (15 - j))
      \<longleftrightarrow> \<not> (\<forall>j<r. abit a (64 + (16 * w + j)) = abit b (64 + (16 * w + j)))" if "w < 4"
  proof -
    have "abit x (64 + (16 * w + j)) = bit (htons (s6_addr16 x (w + 4))) (15 - j)" if "j < r" for x j
      using abit_word [of "w + 4" j x] that r \<open>w < 4\<close> by (simp add: algebra_simps)
    then show ?thesis by auto
  qed
  have ws: "cas_words a b [0..<w] = Inr (\<exists>i\<in>set [0..<w]. s6_addr16 a (i + 4) \<noteq> s6_addr16 b (i + 4))"
    using w by (intro cas_words_eq) auto
  have unf: "check_addr_space a b m = bind (cas_words a b [0..<w])
      (\<lambda>d. if d then Inr 1 else bind (cas_bits a b w r (2 ^ 15)) (\<lambda>d. if d then Inr 1 else Inr 0))"
    by (simp only: check_addr_space_def Let_def w_def r_def)
  have sp: "in_space a b (unat m) \<longleftrightarrow>
      (\<forall>i<w. \<forall>j<16. abit a (64 + (16 * i + j)) = abit b (64 + (16 * i + j))) \<and>
      (\<forall>j<r. abit a (64 + (16 * w + j)) = abit b (64 + (16 * w + j)))"
    by (simp only: in_space_def m all_less_mult)
  have bs: "cas_bits a b w r (2 ^ 15) =
      Inr (\<not> (\<forall>j<r. abit a (64 + (16 * w + j)) = abit b (64 + (16 * w + j))))"
  proof (cases "r = 0")
    case True
    then show ?thesis by simp
  next
    case False
    with wr have "w < 4" by simp
    then show ?thesis using cas_bits_eq [of w r 15 a b] r bits by simp
  qed
  show ?thesis
    unfolding unf sp ws words bs bind_simps by auto
qed

lemma in_space_refl [simp]: "in_space a a m"
  by (simp add: in_space_def)

lemma in_space_sym: "in_space a b m \<Longrightarrow> in_space b a m"
  by (simp add: in_space_def)

lemma in_space_trans: "in_space a b m \<Longrightarrow> in_space b c m \<Longrightarrow> in_space a c m"
  by (simp add: in_space_def)

lemma in_space_mono: "in_space a b m \<Longrightarrow> n \<le> m \<Longrightarrow> in_space a b n"
  by (simp add: in_space_def)

lemma in_space_Suc: "in_space a b (Suc m) \<longleftrightarrow> in_space a b m \<and> abit a (64 + m) = abit b (64 + m)"
  by (auto simp add: in_space_def less_Suc_eq)


section \<open>The child address\<close>

text \<open>
  The arithmetic of \<open>send_pap\<close> (\<open>hcb_address.c\<close>): coordinate \<open>prim_mask\<close> of the node's own address
  is toggled, by adding or subtracting the byte-swapped power in the word that holds it.
\<close>

definition split_addr :: "in6_addr \<Rightarrow> byte \<Rightarrow> in6_addr result" where
  "split_addr addr msk =
     (let bit_index = 15 - unat msk mod 16;
          word_index = 4 + unat msk div 16;
          power = htons (2 ^ bit_index)
      in bind (s6_read addr word_index) (\<lambda>w.
           if w AND power \<noteq> 0 then Inr (s6_set addr word_index (w - power))
           else Inr (s6_set addr word_index (w + power))))"

text \<open>The same as a function on coordinates.\<close>

definition toggle :: "in6_addr \<Rightarrow> nat \<Rightarrow> in6_addr" where
  "toggle a m = s6_set a (4 + m div 16) (s6_addr16 a (4 + m div 16) XOR htons (2 ^ (15 - m mod 16)))"

lemma bit_xor_power: "n < 16 \<Longrightarrow> bit (w XOR 2 ^ n) j \<longleftrightarrow> bit w j \<noteq> (j = n)" for w :: "16 word"
  by (auto simp add: bit_xor_iff bit_exp_iff)

lemma word_offset_eq_iff:
  fixes k m :: nat
  assumes "k div 16 = 4 + m div 16"
  shows "15 - k mod 16 = 15 - m mod 16 \<longleftrightarrow> k = 64 + m"
proof -
  have *: "15 - a = 15 - b \<longleftrightarrow> 16 * (4 + q) + a = 64 + (16 * q + b)" if "a < 16" "b < 16" for a b q :: nat
    using that by auto
  have "16 * (4 + m div 16) + k mod 16 = k" and "16 * (m div 16) + m mod 16 = m"
    using assms by (metis mult_div_mod_eq) simp
  with * [of "k mod 16" "m mod 16" "m div 16"] show ?thesis by (simp only: mod_less_divisor zero_less_numeral)
qed

lemma abit_toggle [bit_simps]:
  "m < 64 \<Longrightarrow> abit (toggle a m) k = (if k = 64 + m then \<not> abit a k else abit a k)"
proof -
  assume m: "m < 64"
  have i: "4 + m div 16 < 8" using m by presburger
  show ?thesis
  proof (cases "k div 16 = 4 + m div 16")
    case True
    then have k: "k < 128" using i by linarith
    have km: "15 - k mod 16 = 15 - m mod 16 \<longleftrightarrow> k = 64 + m"
      using True by (rule word_offset_eq_iff)
    have "15 - m mod 16 < 16" by simp
    then have "abit (toggle a m) k \<longleftrightarrow>
        (bit (htons (s6_addr16 a (k div 16))) (15 - k mod 16) \<noteq> (15 - k mod 16 = 15 - m mod 16))"
      using i True unfolding toggle_def by (simp only: abit_set htons_xor htons_htons bit_xor_power if_True refl)
    then show ?thesis
      using k unfolding km by (simp only: abit_def) simp
  next
    case False
    then have "k \<noteq> 64 + m" by (auto simp add: div_add1_eq [of 64])
    then show ?thesis using i False by (simp add: toggle_def abit_set)
  qed
qed

lemma split_addr_ok: "unat msk < 64 \<Longrightarrow> split_addr a msk = Inr (toggle a (unat msk))"
proof -
  assume "unat msk < 64"
  then have i: "4 + unat msk div 16 < 8" by presburger
  define j where "j = 15 - unat msk mod 16"
  have "j < 16" by (simp add: j_def)
  show ?thesis
    using i \<open>j < 16\<close> unfolding split_addr_def Let_def j_def [symmetric] toggle_def
    by (auto simp add: s6_read_def htons_two_power and_two_power_eq_0 plus_single_bit minus_single_bit)
qed

lemma split_addr_fault: "64 \<le> unat msk \<Longrightarrow> split_addr a msk = Inl Out_Of_Bounds"
proof -
  assume "64 \<le> unat msk"
  then have "\<not> 4 + unat msk div 16 < 8" by presburger
  then show ?thesis by (simp add: split_addr_def Let_def s6_read_def)
qed

lemma toggle_toggle [simp]: "m < 64 \<Longrightarrow> toggle (toggle a m) m = a"
  by (rule in6_addr_eqI) (simp add: abit_toggle)

lemma toggle_neq [simp]: "m < 64 \<Longrightarrow> toggle a m \<noteq> a"
  by (metis abit_toggle)

lemma hamming_upto_toggle:
  assumes "m < 64"
  shows "hamming_upto n (toggle a m) a = (if m < n then 1 else 0)"
proof -
  have "{k. k < n \<and> abit (toggle a m) (64 + k) \<noteq> abit a (64 + k)} = (if m < n then {m} else {})"
    using assms by (auto simp add: abit_toggle)
  then show ?thesis by (simp add: hamming_upto_card)
qed

lemma in_space_toggle: "m < 64 \<Longrightarrow> n \<le> m \<Longrightarrow> in_space (toggle a m) a n"
  by (simp add: in_space_hamming hamming_upto_toggle)

lemma in_space_split:
  assumes "m < 64"
  shows "in_space x a m \<longleftrightarrow> in_space x a (Suc m) \<or> in_space x (toggle a m) (Suc m)"
    and "\<not> (in_space x a (Suc m) \<and> in_space x (toggle a m) (Suc m))"
  using assms by (auto simp add: in_space_def abit_toggle less_Suc_eq)

text \<open>The only coordinate that is set in the root address is the last one.\<close>

lemma abit_net_root [simp]: "k < 64 \<Longrightarrow> abit net_root (64 + k) \<longleftrightarrow> k = 63"
proof -
  assume k: "k < 64"
  have r: "net_root = s6_set (s6_set (s6_set zero_addr 0 0x0120) 1 0xb80d) 7 0x0100"
    by (simp add: net_root_def s6_set_def zero_addr_def s6_of_words_def)
  have h: "htons 0x0100 = (2 ^ 0 :: 16 word)" using htons_two_power [of 8] by (simp add: swap_index_def)
  have d: "4 \<le> (64 + k) div 16" by simp
  have "abit net_root (64 + k) \<longleftrightarrow> (64 + k) div 16 = 7 \<and> 15 - (64 + k) mod 16 = 0"
    unfolding r using d by (auto simp add: abit_set h bit_1_iff)
  also have "\<dots> \<longleftrightarrow> k = 63"
  proof
    assume "(64 + k) div 16 = 7 \<and> 15 - (64 + k) mod 16 = 0"
    then have "15 \<le> (64 + k) mod 16" and "(64 + k) div 16 = 7" by simp_all
    then show "k = 63" using k mult_div_mod_eq [of 16 "64 + k"] by linarith
  qed simp
  finally show ?thesis .
qed

definition sample_neighbor :: "in6_addr \<Rightarrow> int \<Rightarrow> neighbor" where
  "sample_neighbor a c = \<lparr>n_prim_addr = a, n_sec_addr_conn = 0, n_count = c, n_prim_mask = 1,
     n_prim_mask_inicial = 1, n_available = 1\<rparr>"

lemma sample_neighbor_sel [simp]:
  "n_prim_addr (sample_neighbor a c) = a" "n_count (sample_neighbor a c) = c"
  "n_prim_mask (sample_neighbor a c) = 1" "n_prim_mask_inicial (sample_neighbor a c) = 1"
  by (simp_all add: sample_neighbor_def)

section \<open>Properties\<close>

text \<open>The routing test \<open>dist_w_mask\<close> and the membership test
  \<open>check_addr_space\<close> agree: for a mask of at most 64 coordinates both terminate without a fault, and
  the masked distance of a destination to a neighbour is 0 exactly when \<open>check_addr_space\<close> places the
  destination in the address space of the neighbour; for a larger mask the distance faults.\<close>

theorem space_test_is_masked_distance:
  "if unat (n_prim_mask n) \<le> 64
   then (\<exists>m. dist_w_mask d n = Inr m \<and>
          check_addr_space d (n_prim_addr n) (n_prim_mask n) = Inr (if m = 0 then 0 else 1) \<and>
          (\<forall>e. \<exists>m'. dist_w_mask e n = Inr m' \<and> dist d (n\<lparr>n_prim_addr := e\<rparr>) + m' \<ge> m))
   else dist_w_mask d n = Inl Out_Of_Bounds"
proof (cases "unat (n_prim_mask n) \<le> 64")
  case True
  have "hamming_upto k d a \<le> hamming d e + hamming_upto k e a" if "k \<le> 64" for k e a
    using hamming_upto_triangle [of k d a e] hamming_upto_mono [OF that, of d e] by linarith
  with True show ?thesis by (simp add: check_addr_space_ok dist_w_mask_ok in_space_hamming)
next
  case False
  then show ?thesis by (simp add: dist_w_mask_fault)
qed

text \<open>C3: The child address a node offers is a neighbour of the node (distance
  1), splitting it again gives the node back, and one more coordinate of mask divides the address space:
  every address of the space \<open>a/m\<close> is in exactly one of the spaces \<open>a/(m+1)\<close>, which the node keeps, and
  \<open>c/(m+1)\<close>, which it gives away; no other address is in either.\<close>

theorem split_partitions_space:
  assumes "unat m < 64"
  shows "\<exists>c. split_addr a m = Inr c \<and> split_addr c m = Inr a \<and> dist c (sample_neighbor a 0) = 1 \<and>
    (\<forall>x. (check_addr_space x a m = Inr 0) = (check_addr_space x a (m + 1) = Inr 0 \<or> check_addr_space x c (m + 1) = Inr 0) \<and>
         \<not> (check_addr_space x a (m + 1) = Inr 0 \<and> check_addr_space x c (m + 1) = Inr 0))"
proof (intro exI conjI)
  have m1: "unat (m + 1) = Suc (unat m)"
    using assms by (simp add: unat_word_ariths)
  show "split_addr a m = Inr (toggle a (unat m))" using assms by (rule split_addr_ok)
  show "split_addr (toggle a (unat m)) m = Inr a" using assms by (simp add: split_addr_ok)
  show "dist (toggle a (unat m)) (sample_neighbor a 0) = 1" using assms by (simp add: hamming_upto_toggle)
  show "\<forall>x. (check_addr_space x a m = Inr 0) = (check_addr_space x a (m + 1) = Inr 0 \<or>
        check_addr_space x (toggle a (unat m)) (m + 1) = Inr 0) \<and>
      \<not> (check_addr_space x a (m + 1) = Inr 0 \<and> check_addr_space x (toggle a (unat m)) (m + 1) = Inr 0)"
  proof (rule allI)
    fix x
    show "(check_addr_space x a m = Inr 0) = (check_addr_space x a (m + 1) = Inr 0 \<or>
        check_addr_space x (toggle a (unat m)) (m + 1) = Inr 0) \<and>
      \<not> (check_addr_space x a (m + 1) = Inr 0 \<and> check_addr_space x (toggle a (unat m)) (m + 1) = Inr 0)"
      using assms in_space_split [OF assms, of x a] by (simp add: check_addr_space_ok m1)
  qed
qed

lemma split_partitions_space_witness:
  "split_addr net_root 5 = Inr (In6 0x0120 0xb80d 0 0 0x0004 0 0 0x0100) \<and>
   (\<exists>c. split_addr net_root 5 = Inr c \<and> dist c (sample_neighbor net_root 0) = 1)"
proof
  show "split_addr net_root 5 = Inr (In6 0x0120 0xb80d 0 0 0x0004 0 0 0x0100)"
    by code_simp
  show "\<exists>c. split_addr net_root 5 = Inr c \<and> dist c (sample_neighbor net_root 0) = 1"
    using split_partitions_space [of 5 net_root] by auto
qed

end
