(* ===== verification/Shifts.thy ===== *)
theory Shifts
  imports Hypercube
begin

text \<open>
  The shifts of \<open>funciones.c\<close> and \<open>mezcla.c\<close>: addresses are shifted as 128-bit numbers, one bit per
  round, with a carry that runs from word to word. \<open>shift_unos\<close> shifts the whole address, \<open>shift\<close>
  only the part that differs from the root and lies in the cube, and \<open>shift_mezcla\<close> re-hangs an
  address below that of a node of the network it joins.
\<close>

section \<open>One-bit shifts with carry\<close>

text \<open>The byte swap of the shift functions, through the two halves of each word.\<close>

definition swap_bytes :: "16 word \<Rightarrow> 16 word" where
  "swap_bytes w = (let aux1 = drop_bit 8 (w AND 0xff00); aux2 = push_bit 8 (w AND 0x00ff) in aux1 + aux2)"

lemma swap_bytes_htons [simp]: "swap_bytes w = htons w"
proof -
  have "drop_bit 8 (w AND 0xff00) AND push_bit 8 (w AND 0x00ff) = 0"
    by (rule bit_word_eqI)
       (simp only: bit_and_iff bit_drop_bit_eq bit_push_bit_iff bit_high_byte bit_low_byte o_def
         bit_0_eq bot_apply, auto)
  then have "swap_bytes w = drop_bit 8 (w AND 0xff00) OR push_bit 8 (w AND 0x00ff)"
    by (simp only: swap_bytes_def Let_def disjunctive_add_eq_or)
  then show ?thesis by (simp only: htons_def or.commute)
qed

text \<open>
  The inner loops. To the left the words are visited from the last to the first, so \<open>shl_words\<close>
  takes them in that order; to the right from the first to the last. The flag is the carry.
\<close>

fun shl_words :: "bool \<Rightarrow> 16 word list \<Rightarrow> 16 word list" where
  "shl_words carry1 [] = []"
| "shl_words carry1 (w # ws) =
     (let carry2 = (w AND 0x8000 \<noteq> 0); r = push_bit 1 w
      in (if carry1 then r OR 0x0001 else r) # shl_words carry2 ws)"

fun shr_words :: "bool \<Rightarrow> 16 word list \<Rightarrow> 16 word list" where
  "shr_words carry1 [] = []"
| "shr_words carry1 (w # ws) =
     (let carry2 = (w AND 0x0001 \<noteq> 0); r = drop_bit 1 w
      in (if carry1 then r OR 0x8000 else r) # shr_words carry2 ws)"

definition shl_round :: "16 word list \<Rightarrow> 16 word list" where
  "shl_round ws = rev (shl_words False (rev ws))"

definition shr_round :: "16 word list \<Rightarrow> 16 word list" where
  "shr_round ws = shr_words False ws"

text \<open>\<open>izq_der\<close> is 1 for a shift to the left, 0 for one to the right.\<close>

definition shift_words :: "int \<Rightarrow> nat \<Rightarrow> 16 word list \<Rightarrow> 16 word list" where
  "shift_words izq_der cantidad ws =
     (let ws1 = (if izq_der = 1 then (shl_round ^^ cantidad) ws else ws)
      in if izq_der = 0 then (shr_round ^^ cantidad) ws1 else ws1)"

definition shift_unos :: "int \<Rightarrow> nat \<Rightarrow> in6_addr \<Rightarrow> in6_addr" where
  "shift_unos izq_der cantidad addr =
     s6_of_words (map swap_bytes (shift_words izq_der cantidad (map swap_bytes (s6_words addr))))"

text \<open>Clearing the words above the dimension of the cube.\<close>

definition clear_prefix :: "nat \<Rightarrow> in6_addr \<Rightarrow> in6_addr" where
  "clear_prefix dim a = s6_build (\<lambda>i. if i < (128 - dim) div 16 then 0 else s6_addr16 a i)"

definition shift :: "nat \<Rightarrow> int \<Rightarrow> nat \<Rightarrow> in6_addr \<Rightarrow> in6_addr \<Rightarrow> in6_addr" where
  "shift dim izq_der cantidad root_addr addr =
     (let result = s6_build (\<lambda>i. NOT (s6_addr16 root_addr i OR 0));
          result = clear_prefix dim result;
          result = s6_build (\<lambda>i. s6_addr16 result i AND s6_addr16 addr i);
          result = shift_unos izq_der cantidad result;
          result = clear_prefix dim result
      in s6_build (\<lambda>i. s6_addr16 result i OR s6_addr16 root_addr i))"

text \<open>
  \<open>shift_mezcla\<close>, with the dimension and the root of the node as arguments; \<open>mf = 0\<close> is the root
  of a network, whose new address needs a bit of its own.
\<close>

definition uno :: in6_addr where
  "uno = In6 0x0080 0 0 0 0 0 0 0"

definition s6_or :: "in6_addr \<Rightarrow> in6_addr \<Rightarrow> in6_addr" where
  "s6_or a b = s6_build (\<lambda>j. s6_addr16 a j OR s6_addr16 b j)"

definition shift_mezcla :: "nat \<Rightarrow> in6_addr \<Rightarrow> in6_addr \<Rightarrow> in6_addr \<Rightarrow> nat \<Rightarrow> nat \<Rightarrow> in6_addr" where
  "shift_mezcla dim rt src addr src_mask mf =
     (if 0 \<le> int mf - 1 then
        s6_or (shift dim 0 src_mask rt (shift dim 1 (mf - 1) rt addr)) src
      else
        s6_or (s6_or (shift dim 0 (src_mask + 1) rt addr)
                     (shift_unos 0 (nat ((128 - int dim) + int src_mask)) uno)) src)"

section \<open>Shifts on coordinates\<close>

text \<open>Bit \<open>k\<close> of a list of words, the most significant bit of the first word first.\<close>

definition wbit :: "16 word list \<Rightarrow> nat \<Rightarrow> bool" where
  "wbit ws k \<longleftrightarrow> k < 16 * length ws \<and> bit (ws ! (k div 16)) (15 - k mod 16)"

lemma length_shl_words [simp]: "length (shl_words c ws) = length ws"
  by (induction c ws rule: shl_words.induct) (simp_all add: Let_def)

lemma length_shr_words [simp]: "length (shr_words c ws) = length ws"
  by (induction c ws rule: shr_words.induct) (simp_all add: Let_def)

lemma length_rounds [simp]: "length (shl_round ws) = length ws" "length (shr_round ws) = length ws"
  by (simp_all add: shl_round_def shr_round_def)

lemma bit_or_power: "n < 16 \<Longrightarrow> bit (w OR 2 ^ n) j \<longleftrightarrow> bit w j \<or> j = n" for w :: "16 word"
  by (auto simp add: bit_or_iff bit_exp_iff)

lemma bit_shr_cell:
  "bit (if c then drop_bit 1 w OR 0x8000 else drop_bit 1 w) n \<longleftrightarrow> bit w (Suc n) \<or> (c \<and> n = 15)"
  for w :: "16 word"
proof -
  have "(0x8000 :: 16 word) = 2 ^ 15" by simp
  moreover have "bit (drop_bit 1 w) n \<longleftrightarrow> bit w (Suc n)" by (simp only: bit_drop_bit_eq o_def) simp
  ultimately show ?thesis using bit_or_power [of 15 "drop_bit 1 w" n] by (simp split: if_splits)
qed

lemma bit_shl_cell:
  "bit (if c then push_bit 1 w OR 0x0001 else push_bit 1 w) n \<longleftrightarrow>
     (0 < n \<and> n < 16 \<and> bit w (n - 1)) \<or> (c \<and> n = 0)"
  for w :: "16 word"
proof -
  have "bit (push_bit 1 w) n \<longleftrightarrow> 0 < n \<and> n < 16 \<and> bit w (n - 1)"
    by (simp only: bit_push_bit_iff) auto
  moreover have "bit (push_bit 1 w OR 0x0001) n \<longleftrightarrow> bit (push_bit 1 w) n \<or> n = 0"
    using bit_or_power [of 0 "push_bit 1 w" n] by (simp only: power_0)
  ultimately show ?thesis by auto
qed

lemma carry_bits: "w AND 0x0001 \<noteq> 0 \<longleftrightarrow> bit w 0" "w AND 0x8000 \<noteq> 0 \<longleftrightarrow> bit w 15" for w :: "16 word"
  using and_two_power_eq_0 [of w 0] and_two_power_eq_0 [of w 15] by simp_all

lemma bit_nth_shr_words:
  "i < length ws \<Longrightarrow> bit (shr_words c ws ! i) n \<longleftrightarrow>
     bit (ws ! i) (Suc n) \<or> ((if i = 0 then c else bit (ws ! (i - 1)) 0) \<and> n = 15)"
proof (induction c ws arbitrary: i rule: shr_words.induct)
  case (1 c)
  then show ?case by simp
next
  case (2 c w ws)
  then show ?case
    by (cases i; simp only: shr_words.simps Let_def carry_bits nth_Cons_0 nth_Cons_Suc bit_shr_cell)
       (auto simp add: nth_Cons')
qed

lemma bit_nth_shl_words:
  "i < length ws \<Longrightarrow> bit (shl_words c ws ! i) n \<longleftrightarrow>
     (0 < n \<and> n < 16 \<and> bit (ws ! i) (n - 1)) \<or> ((if i = 0 then c else bit (ws ! (i - 1)) 15) \<and> n = 0)"
proof (induction c ws arbitrary: i rule: shl_words.induct)
  case (1 c)
  then show ?case by simp
next
  case (2 c w ws)
  then show ?case
    by (cases i; simp only: shl_words.simps Let_def carry_bits nth_Cons_0 nth_Cons_Suc bit_shl_cell)
       (auto simp add: nth_Cons')
qed

lemma wbit_word: "i < length ws \<Longrightarrow> j < 16 \<Longrightarrow> wbit ws (16 * i + j) \<longleftrightarrow> bit (ws ! i) (15 - j)"
  by (simp add: wbit_def)

lemma wbit_split:
  assumes "k < 16 * n"
  obtains i j where "k = 16 * i + j" and "i < n" and "j < (16 :: nat)"
proof
  show "k = 16 * (k div 16) + k mod 16" by simp
  show "k div 16 < n" using assms by auto
  show "k mod 16 < 16" by simp
qed

lemma wbit_shr_round:
  assumes "k < 16 * length ws"
  shows "wbit (shr_round ws) k \<longleftrightarrow> 0 < k \<and> wbit ws (k - 1)"
proof -
  from assms obtain i j where k: "k = 16 * i + j" and i: "i < length ws" and j: "j < 16"
    by (rule wbit_split)
  have r: "bit (shr_round ws ! i) (15 - j) \<longleftrightarrow>
      bit (ws ! i) (Suc (15 - j)) \<or> (i \<noteq> 0 \<and> bit (ws ! (i - 1)) 0 \<and> j = 0)"
    using i j by (auto simp add: shr_round_def bit_nth_shr_words)
  show ?thesis
  proof (cases "j = 0")
    case True
    have "\<not> bit (ws ! i) 16" by (auto dest: bit_imp_le_length)
    moreover have "wbit ws (16 * i - 1) \<longleftrightarrow> bit (ws ! (i - 1)) 0" if "i \<noteq> 0"
      using wbit_word [of "i - 1" ws 15] that i by (simp add: diff_mult_distrib2)
    ultimately show ?thesis
      using True i r wbit_word [of i "shr_round ws" 0] unfolding k by auto
  next
    case False
    then have "Suc (15 - j) = 15 - (j - 1)" using j by simp
    moreover have "wbit ws (k - 1) \<longleftrightarrow> bit (ws ! i) (15 - (j - 1))"
      using wbit_word [of i ws "j - 1"] False i j by (simp add: k)
    ultimately show ?thesis
      using False i j r by (simp add: k wbit_word)
  qed
qed

lemma wbit_shl_round:
  assumes "k < 16 * length ws"
  shows "wbit (shl_round ws) k \<longleftrightarrow> wbit ws (Suc k)"
proof -
  from assms obtain i j where k: "k = 16 * i + j" and i: "i < length ws" and j: "j < 16"
    by (rule wbit_split)
  define n where "n = length ws"
  have "shl_round ws ! i = shl_words False (rev ws) ! (n - Suc i)"
    using i by (simp add: shl_round_def rev_nth n_def)
  moreover have "rev ws ! (n - Suc i) = ws ! i"
    using i by (simp add: n_def rev_nth Suc_diff_Suc)
  moreover have "rev ws ! (n - Suc i - 1) = ws ! Suc i" if "Suc i < n"
    using that by (simp add: n_def rev_nth Suc_diff_Suc)
  moreover have "n - Suc i = 0 \<longleftrightarrow> \<not> Suc i < n" using i by (auto simp add: n_def)
  ultimately have r: "bit (shl_round ws ! i) (15 - j) \<longleftrightarrow>
      (j \<noteq> 15 \<and> bit (ws ! i) (15 - Suc j)) \<or> (Suc i < n \<and> bit (ws ! Suc i) 15 \<and> j = 15)"
    using i j bit_nth_shl_words [of "n - Suc i" "rev ws" False "15 - j"] by (auto simp add: n_def)
  show ?thesis
  proof (cases "j = 15")
    case True
    then have e: "Suc k = 16 * Suc i + 0" by (simp add: k)
    show ?thesis
    proof (cases "Suc i < n")
      case True
      then show ?thesis
        using \<open>j = 15\<close> i r wbit_word [of "Suc i" ws 0] unfolding e
        by (simp add: k wbit_word n_def)
    next
      case False
      then have "\<not> wbit ws (Suc k)" using i unfolding e by (simp add: wbit_def n_def)
      with False show ?thesis using \<open>j = 15\<close> i r by (simp add: k wbit_word)
    qed
  next
    case False
    then have "Suc k = 16 * i + Suc j" and "Suc j < 16" using j by (simp_all add: k)
    then show ?thesis using False i j r wbit_word [of i ws "Suc j"] by (simp add: k wbit_word)
  qed
qed

lemma length_round_pow [simp]:
  "length ((shl_round ^^ n) ws) = length ws" "length ((shr_round ^^ n) ws) = length ws"
  by (induction n) simp_all

lemma wbit_bound: "wbit ws k \<Longrightarrow> k < 16 * length ws"
  by (simp add: wbit_def)

lemma wbit_shl: "k < 16 * length ws \<Longrightarrow> wbit ((shl_round ^^ n) ws) k \<longleftrightarrow> wbit ws (k + n)"
proof (induction n arbitrary: k)
  case 0
  then show ?case by simp
next
  case (Suc n)
  show ?case
  proof (cases "Suc k < 16 * length ws")
    case True
    with Suc show ?thesis by (simp add: wbit_shl_round)
  next
    case False
    then show ?thesis using Suc.prems wbit_bound [of "(shl_round ^^ n) ws" "Suc k"] wbit_bound [of ws "Suc (k + n)"]
      by (auto simp add: wbit_shl_round)
  qed
qed

lemma wbit_shr: "k < 16 * length ws \<Longrightarrow> wbit ((shr_round ^^ n) ws) k \<longleftrightarrow> n \<le> k \<and> wbit ws (k - n)"
proof (induction n arbitrary: k)
  case 0
  then show ?case by simp
next
  case (Suc n)
  then show ?case by (cases k) (auto simp add: wbit_shr_round Suc_le_eq less_Suc_eq_le)
qed

lemma abit_of_words:
  "length ws = 8 \<Longrightarrow> k < 128 \<Longrightarrow> abit (s6_of_words (map swap_bytes ws)) k \<longleftrightarrow> wbit ws k"
  by (simp add: abit_def s6_addr16_def wbit_def)

lemma wbit_words: "wbit (map swap_bytes (s6_words a)) k \<longleftrightarrow> abit a k"
  by (auto simp add: abit_def s6_addr16_def wbit_def)

lemma abit_shift_left [bit_simps]:
  "abit (shift_unos 1 n a) k \<longleftrightarrow> k < 128 \<and> abit a (k + n)"
  using abit_bound [of "shift_unos 1 n a" k]
  by (cases "k < 128") (auto simp add: shift_unos_def shift_words_def Let_def abit_of_words wbit_shl wbit_words)

lemma abit_shift_right [bit_simps]:
  "abit (shift_unos 0 n a) k \<longleftrightarrow> k < 128 \<and> n \<le> k \<and> abit a (k - n)"
  using abit_bound [of "shift_unos 0 n a" k]
  by (cases "k < 128") (auto simp add: shift_unos_def shift_words_def Let_def abit_of_words wbit_shr wbit_words)

lemma abit_clear_prefix [bit_simps]:
  "abit (clear_prefix dim a) k \<longleftrightarrow> 16 * ((128 - dim) div 16) \<le> k \<and> abit a k"
proof (cases "k < 128")
  case True
  then show ?thesis
    by (auto simp add: clear_prefix_def abit_build) (auto simp add: abit_def less_eq_div_iff_mult_less_eq not_less)
next
  case False
  then show ?thesis by (simp add: abit_def)
qed

lemma abit_or [bit_simps]:
  "abit (s6_or a b) k \<longleftrightarrow> abit a k \<or> abit b k"
  by (cases "k < 128") (auto simp add: s6_or_def abit_build htons_or bit_or_iff, auto simp add: abit_def)

lemma uno_words: "i < 8 \<Longrightarrow> s6_addr16 uno i = (if i = 0 then 0x0080 else 0)"
proof -
  assume i: "i < 8"
  have "uno = s6_set zero_addr 0 0x0080" by (simp add: uno_def s6_set_def zero_addr_def s6_of_words_def)
  then have "s6_addr16 uno i = s6_addr16 (s6_set zero_addr 0 0x0080) i" by (rule arg_cong)
  then show ?thesis using i by simp
qed

lemma abit_uno [bit_simps]: "abit uno k \<longleftrightarrow> k = 0"
proof (cases "k < 128")
  case True
  have "htons 0x0080 = (2 ^ 15 :: 16 word)" using htons_two_power [of 7] by (simp add: swap_index_def)
  then have "abit uno k \<longleftrightarrow> k div 16 = 0 \<and> bit (2 ^ 15 :: 16 word) (15 - k mod 16)"
    using True by (simp add: abit_def uno_words)
  also have "\<dots> \<longleftrightarrow> k div 16 = 0 \<and> 15 - k mod 16 = 15"
    by (simp only: bit_exp_iff) auto
  also have "\<dots> \<longleftrightarrow> k = 0"
    using mult_div_mod_eq [of 16 k] by auto
  finally show ?thesis .
next
  case False
  then show ?thesis by (simp add: abit_def)
qed

lemma abit_shift_base:
  "k < 128 \<Longrightarrow>
     abit (s6_build (\<lambda>i. s6_addr16 (clear_prefix dim (s6_build (\<lambda>i. NOT (s6_addr16 rt i OR 0)))) i AND s6_addr16 a i)) k
     \<longleftrightarrow> 16 * ((128 - dim) div 16) \<le> k \<and> \<not> abit rt k \<and> abit a k"
proof -
  assume k: "k < 128"
  have "abit (s6_build (\<lambda>i. s6_addr16 x i AND s6_addr16 y i)) k \<longleftrightarrow> abit x k \<and> abit y k" for x y
    using k by (simp add: abit_build htons_and bit_and_iff) (simp add: abit_def)
  moreover have "abit (s6_build (\<lambda>i. NOT (s6_addr16 rt i OR 0))) k \<longleftrightarrow> \<not> abit rt k"
    using k by (auto simp add: abit_def bit_htons bit_not_iff)
  ultimately show ?thesis by (auto simp add: abit_clear_prefix)
qed

definition cube_start :: "nat \<Rightarrow> nat" where
  "cube_start dim = 16 * ((128 - dim) div 16)"

definition shift_base :: "nat \<Rightarrow> in6_addr \<Rightarrow> in6_addr \<Rightarrow> in6_addr" where
  "shift_base dim rt a = s6_build (\<lambda>i.
     s6_addr16 (clear_prefix dim (s6_build (\<lambda>i. NOT (s6_addr16 rt i OR 0)))) i AND s6_addr16 a i)"

lemma abit_base:
  "abit (shift_base dim rt a) k \<longleftrightarrow> cube_start dim \<le> k \<and> \<not> abit rt k \<and> abit a k"
proof (cases "k < 128")
  case True
  then show ?thesis unfolding shift_base_def cube_start_def by (rule abit_shift_base)
next
  case False
  then show ?thesis by (auto dest: abit_bound)
qed

lemma shift_alt:
  "shift dim d n rt a = s6_or (clear_prefix dim (shift_unos d n (shift_base dim rt a))) rt"
  by (simp only: shift_def shift_base_def s6_or_def Let_def)

lemma abit_shift [bit_simps]:
  "abit (shift dim 1 n rt a) k \<longleftrightarrow>
     k < 128 \<and> (abit rt k \<or> (cube_start dim \<le> k \<and> \<not> abit rt (k + n) \<and> abit a (k + n)))"
  "abit (shift dim 0 n rt a) k \<longleftrightarrow>
     k < 128 \<and> (abit rt k \<or> (cube_start dim + n \<le> k \<and> \<not> abit rt (k - n) \<and> abit a (k - n)))"
  unfolding shift_alt abit_or abit_clear_prefix abit_shift_left abit_shift_right abit_base
    cube_start_def [symmetric]
  using abit_bound [of rt k] by auto

end
