(* ===== verification/Linked_Tables.thy ===== *)
theory Linked_Tables
  imports Antop_Prelude
begin

text \<open>
  The two kinds of tables of the daemon as interfaces. \<open>unlink_table\<close>: a list of entries with a
  key, from which the first entry with a given key can be unlinked (rendezvous entries, recovered
  address spaces). \<open>sentinel_table\<close>: such a table that also marks emptiness by a single entry with
  the null key, which the first insertion overwrites (neighbours, secondary links).
  The laws are proved here once; the components interpret the locales on their own operations.
\<close>

section \<open>Tables with unlinking\<close>

locale unlink_table =
  fixes key :: "'e \<Rightarrow> 'k"
    and unlink :: "'k \<Rightarrow> 'e list \<Rightarrow> 'e list"
  assumes unlink_other: "k' \<noteq> k \<Longrightarrow> filter (\<lambda>e. key e = k') (unlink k xs) = filter (\<lambda>e. key e = k') xs"
    and unlink_key: "filter (\<lambda>e. key e = k) (unlink k xs) = tl (filter (\<lambda>e. key e = k) xs)"
    and unlink_subset: "set (unlink k xs) \<subseteq> set xs"
    and unlink_distinct: "distinct (map key xs) \<Longrightarrow> distinct (map key (unlink k xs))"
begin

lemma unlink_mem_other:
  assumes "key e \<noteq> k"
  shows "e \<in> set (unlink k xs) \<longleftrightarrow> e \<in> set xs"
proof -
  have "e \<in> set (filter (\<lambda>x. key x = key e) (unlink k xs)) \<longleftrightarrow> e \<in> set (filter (\<lambda>x. key x = key e) xs)"
    using unlink_other [OF assms, of xs] by (rule arg_cong [where f = "\<lambda>ys. e \<in> set ys"])
  then show ?thesis by simp
qed

lemma unlink_absent:
  assumes "distinct (map key xs)"
  shows "k \<notin> key ` set (unlink k xs)"
proof -
  have "tl (filter (\<lambda>e. key e = k) xs) = []"
  proof (cases "filter (\<lambda>e. key e = k) xs")
    case (Cons x ys)
    have "distinct (map key (filter (\<lambda>e. key e = k) xs))"
      using assms by (simp add: distinct_map_filter)
    moreover have "key y = k" if "y \<in> set (x # ys)" for y
    proof -
      have "y \<in> set (filter (\<lambda>e. key e = k) xs)" using that Cons by simp
      then show ?thesis by simp
    qed
    ultimately have "ys = []" using Cons by (cases ys) auto
    with Cons show ?thesis by simp
  qed simp
  then have "filter (\<lambda>e. key e = k) (unlink k xs) = []" by (simp only: unlink_key)
  then show ?thesis by (auto simp add: filter_empty_conv)
qed

lemma unlink_keys:
  "distinct (map key xs) \<Longrightarrow> key ` set (unlink k xs) = key ` set xs - {k}"
  using unlink_absent [of xs k] unlink_subset [of k xs] unlink_mem_other [of _ k xs] by blast

lemma unlink_none:
  "k \<notin> key ` set xs \<Longrightarrow> set (unlink k xs) = set xs"
proof (rule subset_antisym [OF unlink_subset], rule subsetI)
  fix e assume "k \<notin> key ` set xs" and "e \<in> set xs"
  then show "e \<in> set (unlink k xs)" by (subst unlink_mem_other) auto
qed

end

section \<open>Tables with a sentinel\<close>

locale sentinel_table = unlink_table key unlink
  for key :: "'e \<Rightarrow> 'k" and unlink :: "'k \<Rightarrow> 'e list \<Rightarrow> 'e list" +
  fixes null :: 'k
    and ins :: "'e \<Rightarrow> 'e list \<Rightarrow> 'e list result"
  assumes ins_null: "ins e [] = Inl Null_Deref"
    and ins_sentinel: "key x = null \<Longrightarrow> ins e (x # xs) = Inr [e]"
    and ins_append: "key x \<noteq> null \<Longrightarrow> ins e (x # xs) = Inr (x # xs @ [e])"
begin

text \<open>The entries proper, and tables in which the null key occurs only as the sentinel.\<close>

definition entries :: "'e list \<Rightarrow> 'e list" where
  "entries xs = filter (\<lambda>e. key e \<noteq> null) xs"

definition well_formed :: "'e list \<Rightarrow> bool" where
  "well_formed xs \<longleftrightarrow> (\<forall>e\<in>set xs. key e \<noteq> null) \<or> (\<exists>s. xs = [s] \<and> key s = null)"

lemma ins_total: "xs \<noteq> [] \<Longrightarrow> \<exists>ys. ins e xs = Inr ys"
  using ins_sentinel ins_append by (cases xs) blast+

lemma entries_ins:
  assumes "well_formed xs" and "key e \<noteq> null" and "ins e xs = Inr ys"
  shows "entries ys = entries xs @ [e]" and "well_formed ys" and "ys \<noteq> []"
proof -
  obtain x zs where xs: "xs = x # zs" using assms(3) ins_null by (cases xs) auto
  have "ys = (if key x = null then [e] else x # zs @ [e])"
    using assms(3) ins_sentinel [of x e zs] ins_append [of x e zs] by (auto simp add: xs)
  then show "entries ys = entries xs @ [e]" and "well_formed ys" and "ys \<noteq> []"
    using assms(1,2) by (auto simp add: entries_def well_formed_def xs)
qed

lemma well_formed_unlink:
  assumes "well_formed xs"
  shows "well_formed (unlink k xs)"
  using assms unfolding well_formed_def
proof (elim disjE exE conjE)
  assume "\<forall>e\<in>set xs. key e \<noteq> null"
  then show "(\<forall>e\<in>set (unlink k xs). key e \<noteq> null) \<or> (\<exists>s. unlink k xs = [s] \<and> key s = null)"
    using unlink_subset by blast
next
  fix s assume xs: "xs = [s]" and s: "key s = null"
  show "(\<forall>e\<in>set (unlink k xs). key e \<noteq> null) \<or> (\<exists>s. unlink k xs = [s] \<and> key s = null)"
  proof (cases "k = null")
    case True
    have "filter (\<lambda>e. key e = k) (unlink k xs) = []"
      by (simp only: unlink_key) (simp add: xs s True)
    then show ?thesis using True by (auto simp add: filter_empty_conv)
  next
    case False
    have "filter (\<lambda>e. key e = null) (unlink k xs) = [s]"
      using False by (subst unlink_other) (simp_all add: xs s)
    moreover have "filter (\<lambda>e. key e = null) (unlink k xs) = unlink k xs"
      using unlink_subset [of k xs] by (intro filter_True) (auto simp add: xs s)
    ultimately show ?thesis using s by auto
  qed
qed

lemma entries_keys_unlink:
  assumes "distinct (map key xs)"
  shows "key ` set (entries (unlink k xs)) = key ` set (entries xs) - {k}"
  using unlink_keys [OF assms, of k] unlink_mem_other [of _ k xs] unlink_subset [of k xs]
  by (auto simp add: entries_def)

end

section \<open>The unlinking loop of the program\<close>

text \<open>Every deletion loop unlinks the first node whose key matches; \<open>unlink_by\<close> is that loop.\<close>

definition unlink_by :: "('e \<Rightarrow> 'k) \<Rightarrow> 'k \<Rightarrow> 'e list \<Rightarrow> 'e list" where
  "unlink_by key k = remove_first (\<lambda>e. key e = k)"

lemma unlink_by_simps [simp, table_simps]:
  "unlink_by key k [] = []"
  "unlink_by key k (x # xs) = (if key x = k then xs else x # unlink_by key k xs)"
  by (simp_all add: unlink_by_def)

lemma unlink_by_filter:
  "k' \<noteq> k \<Longrightarrow> filter (\<lambda>e. key e = k') (unlink_by key k xs) = filter (\<lambda>e. key e = k') xs"
  "filter (\<lambda>e. key e = k) (unlink_by key k xs) = tl (filter (\<lambda>e. key e = k) xs)"
  "set (unlink_by key k xs) \<subseteq> set xs"
  "distinct (map key xs) \<Longrightarrow> distinct (map key (unlink_by key k xs))"
proof -
  show "k' \<noteq> k \<Longrightarrow> filter (\<lambda>e. key e = k') (unlink_by key k xs) = filter (\<lambda>e. key e = k') xs"
    by (induction xs) auto
  show "filter (\<lambda>e. key e = k) (unlink_by key k xs) = tl (filter (\<lambda>e. key e = k) xs)"
    by (induction xs) auto
  show "set (unlink_by key k xs) \<subseteq> set xs"
    by (simp add: unlink_by_def set_remove_first_subset)
  show "distinct (map key xs) \<Longrightarrow> distinct (map key (unlink_by key k xs))"
    unfolding unlink_by_def by (rule distinct_map_remove_first)
qed

end
