(* ===== verification/Rendezvous.thy ===== *)
theory Rendezvous
  imports Shifts Linked_Tables "HOL-Library.Signed_Division"
begin

text \<open>
  The rendezvous service (\<open>rendezvous.c\<close>): a node registers its universal name at servers whose
  hypercube addresses are hashes of the name, and resolves a name by asking one of the servers of
  that name. A C string is the list of its bytes without the terminator; \<open>rv_univ_addr\<close> of a packet
  is the whole array. \<open>distribute_in_hc\<close> computes \<open>last_bit\<close> and \<open>rem_zeros\<close> in floating point and
  uses neither, so they are left out; its branch bits are \<open>log2 64 = 6\<close>.
\<close>

section \<open>Strings\<close>

text \<open>The C string at the start of an array; running past the array is a fault.\<close>

definition c_string :: "byte list \<Rightarrow> byte list result" where
  "c_string bs = (if 0 \<in> set bs then Inr (takeWhile (\<lambda>b. b \<noteq> 0) bs) else Inl Out_Of_Bounds)"

text \<open>\<open>memcpy(dst, src, strlen(src))\<close>: the terminator is not copied.\<close>

definition overlay :: "byte list \<Rightarrow> byte list \<Rightarrow> byte list result" where
  "overlay dst src =
     (if length src \<le> length dst then Inr (src @ drop (length src) dst) else Inl Buffer_Overflow)"

section \<open>Servers of a name\<close>

text \<open>\<open>char\<close> is signed on the platforms of the daemon.\<close>

definition hash_words :: "byte list \<Rightarrow> 64 word list" where
  "hash_words u_addr =
     (let hc0 = fold (\<lambda>c hc. hc * 31 + scast c) u_addr 0
      in map (\<lambda>i. ((\<lambda>hc. (hc + 17) * 31) ^^ i) hc0) [0..<8])"

definition hash_base :: in6_addr where
  "hash_base = In6 0x0120 0xb80d 0 0 0 0 0 0"

fun hash_whole :: "64 word list \<Rightarrow> nat list \<Rightarrow> in6_addr \<Rightarrow> in6_addr result" where
  "hash_whole hc [] addr = Inr addr"
| "hash_whole hc (i # is) addr =
     (if 4 + i < 8 \<and> 2 * i < 8 then hash_whole hc is (s6_set addr (4 + i) (ucast (hc ! (2 * i))))
      else Inl Out_Of_Bounds)"

fun hash_rest :: "64 word list \<Rightarrow> nat \<Rightarrow> nat list \<Rightarrow> in6_addr \<Rightarrow> in6_addr result" where
  "hash_rest hc i [] addr = Inr addr"
| "hash_rest hc i (j # js) addr =
     (if 4 + i < 8 \<and> 2 * i < 8
      then hash_rest hc i js
        (s6_set addr (4 + i) (s6_addr16 addr (4 + i) + (htons (2 ^ j) AND ucast (hc ! (2 * i)))))
      else Inl Out_Of_Bounds)"

definition hash_2_hc :: "nat \<Rightarrow> byte list \<Rightarrow> in6_addr result" where
  "hash_2_hc dim u_addr =
     (let hc = hash_words u_addr
      in bind (hash_whole hc [0..<dim div 16] hash_base)
           (hash_rest hc (dim div 16) [0..<dim mod 16]))"

definition branch_bits :: nat where
  "branch_bits = 6"

text \<open>
  The branch of server \<open>i\<close>, from the first and the last character of the name; the conversion to
  \<open>uint16_t\<close> wraps.
\<close>

definition server_branch :: "nat \<Rightarrow> byte list \<Rightarrow> 16 word" where
  "server_branch i u_addr =
     (let first = sint (hd u_addr); final = sint (last u_addr)
      in if i = 0 then
           (let msk = word_of_int ((5 * first) smod final) :: 16 word
            in if msk > 64 then msk div 4 else if msk < 1 then msk * 7 else msk)
         else
           (let msk = word_of_int ((7 * final) smod first) :: 16 word
            in if msk > 64 then msk div 4 else if msk < 1 then msk * 9 else msk))"

definition server_addr :: "nat \<Rightarrow> nat \<Rightarrow> byte list \<Rightarrow> in6_addr result" where
  "server_addr dim i u_addr =
     bind (hash_2_hc dim u_addr) (\<lambda>addr.
       if u_addr = [] then Inl Out_Of_Bounds
       else
         let msk = NOT (push_bit (16 - branch_bits) (sum_list (map (\<lambda>j. 2 ^ j) [0..<branch_bits])));
             word4 = htons (s6_addr16 addr 4 AND htons msk);
             branch = push_bit (16 - branch_bits) (server_branch i u_addr)
         in Inr (s6_set addr 4 (htons word4 OR htons branch)))"

fun server_list :: "nat \<Rightarrow> nat list \<Rightarrow> byte list \<Rightarrow> in6_addr list result" where
  "server_list dim [] u_addr = Inr []"
| "server_list dim (i # is) u_addr =
     bind (server_addr dim i u_addr) (\<lambda>a. bind (server_list dim is u_addr) (\<lambda>as. Inr (a # as)))"

text \<open>\<open>dst = 0\<close>: the servers of our own name, otherwise those of a name to resolve.\<close>

definition distribute_in_hc :: "nat \<Rightarrow> byte list \<Rightarrow> int \<Rightarrow> handler" where
  "distribute_in_hc server_count u_addr dst s =
     bind (server_list (hc_dim s) [0..<server_count] u_addr) (\<lambda>servers.
       if dst = 0 then Inr (s\<lparr>rv_servers := servers\<rparr>)
       else Inr (s\<lparr>rv_servers_dst := servers\<rparr>))"

section \<open>Registration\<close>

definition clear_rv_tables :: "node \<Rightarrow> node" where
  "clear_rv_tables s =
     s\<lparr>rv_table := [], rv_servers := [], rv_servers_dst := [], cached_table := [],
       dns := [], main_rv_server := zero_addr\<rparr>"

text \<open>The cache starts with an entry that has an empty name; its address is whatever the fresh memory holds.\<close>

definition rv_tables_init :: "env \<Rightarrow> node \<Rightarrow> node" where
  "rv_tables_init E s = s\<lparr>cached_table := [\<lparr>univ_name = [], hc_addr = cache_junk E\<rparr>]\<rparr>"

definition register_rv :: "env \<Rightarrow> handler" where
  "register_rv E s =
     (if flag_mezcla s then Inr s
      else if flag_fragmentacion s then Inr s
      else
        bind (if rv_servers s = [] then distribute_in_hc NSERVER_RV (univ_addr s) 0 s else Inr s) (\<lambda>s.
        bind (overlay (rv_univ_addr (rv_junk E)) (univ_addr s)) (\<lambda>name.
          let rv_msg = (rv_junk E)\<lparr>rv_type := RV_REG, rv_prim_addr := prim_addr s, rv_univ_addr := name\<rparr>;
              s = arm_timer Rv_T T_RV s;
              s = fold (\<lambda>a. antop_socket_send E (Rv rv_msg) a (socket_global s) ANTOP_PORT) (rv_servers s) s
          in if sec_addr_flag s then
               let rv_msg = rv_msg\<lparr>rv_prim_addr := sec_addr s\<rparr>
               in Inr (fold (\<lambda>a. antop_socket_send E (Rv rv_msg) a (fst (arg_junk E)) (snd (arg_junk E)))
                        (rv_servers s) s)
             else Inr s)))"

definition timer_rv_init :: "node \<Rightarrow> node" where
  "timer_rv_init s = arm_timer Rv_T T_RV s"

text \<open>
  \<open>str_aux\<close> and the names of the table have 20 bytes, terminator included. An entry for the name
  gets the new address; otherwise one is appended.
\<close>

definition NAME_SIZE :: nat where "NAME_SIZE = 20"

fun rv_update :: "byte list \<Rightarrow> in6_addr \<Rightarrow> lookup_table list \<Rightarrow> lookup_table list" where
  "rv_update name a [] = []"
| "rv_update name a (e # es) =
     (if univ_name e = name then e\<lparr>hc_addr := a\<rparr> # es else e # rv_update name a es)"

definition rv_table_add :: "rv_ctrl_pkt \<Rightarrow> handler" where
  "rv_table_add rv_pkt s =
     bind (c_string (rv_univ_addr rv_pkt)) (\<lambda>name.
       if \<exists>e\<in>set (rv_table s). univ_name e = name
       then Inr (s\<lparr>rv_table := rv_update name (rv_prim_addr rv_pkt) (rv_table s)\<rparr>)
       else if length name < NAME_SIZE
       then Inr (s\<lparr>rv_table := rv_table s @ [\<lparr>univ_name = name, hc_addr = rv_prim_addr rv_pkt\<rparr>]\<rparr>)
       else Inl Buffer_Overflow)"

definition rv_table_delete :: "in6_addr \<Rightarrow> node \<Rightarrow> node" where
  "rv_table_delete addr s = s\<lparr>rv_table := unlink_by hc_addr addr (rv_table s)\<rparr>"

section \<open>Resolution\<close>

text \<open>
  The test on a cached entry: a shorter name is compared with the start of the entry; otherwise the
  length passed to \<open>memcmp\<close> is a pointer, so equal strings are read past their end.
\<close>

definition cache_match :: "byte list \<Rightarrow> byte list \<Rightarrow> bool result" where
  "cache_match uaddr name =
     (if length uaddr < length name then Inr (take (length uaddr) name = uaddr)
      else if uaddr = name then Inl Out_Of_Bounds else Inr False)"

fun cache_find :: "byte list \<Rightarrow> lookup_table list \<Rightarrow> lookup_table option result" where
  "cache_find uaddr [] = Inr None"
| "cache_find uaddr (e # es) =
     bind (cache_match uaddr (univ_name e)) (\<lambda>m. if m then Inr (Some e) else cache_find uaddr es)"

text \<open>The server at the least distance; \<open>neigh.prim_mask\<close> is not initialised, so it is a parameter.\<close>

fun nearest :: "byte \<Rightarrow> in6_addr \<Rightarrow> in6_addr list \<Rightarrow> nat \<Rightarrow> in6_addr \<Rightarrow> in6_addr result" where
  "nearest msk a [] min_dist best = Inr best"
| "nearest msk a (srv # srvs) min_dist best =
     bind (dist_w_mask a \<lparr>n_prim_addr = srv, n_sec_addr_conn = 0, n_count = 0, n_prim_mask = msk,
             n_prim_mask_inicial = 0, n_available = 0\<rparr>) (\<lambda>d.
       if d < min_dist then nearest msk a srvs d srv else nearest msk a srvs min_dist best)"

text \<open>Returns the cached address, or \<open>None\<close> after the query has been sent.\<close>

definition solve_name :: "env \<Rightarrow> byte list \<Rightarrow> int \<Rightarrow> node \<Rightarrow> (in6_addr option \<times> node) result" where
  "solve_name E uaddr sock s =
     bind (cache_find uaddr (cached_table s)) (\<lambda>hit.
       case hit of
         Some e \<Rightarrow> Inr (Some (hc_addr e), s)
       | None \<Rightarrow>
           bind (overlay (rv_univ_addr (rv_junk E)) uaddr) (\<lambda>name.
             let rv_msg = (rv_junk E)\<lparr>rv_type := RV_ADDR_LOOKUP, rv_prim_addr := prim_addr s,
                             rv_univ_addr := name, rv_src_addr := prim_addr s\<rparr>
             in bind (distribute_in_hc NSERVER_RV uaddr 1 s) (\<lambda>s.
                bind (nearest (mask_junk E) (prim_addr s) (rv_servers_dst s) 1000 (main_rv_server s)) (\<lambda>m.
                  let s = s\<lparr>main_rv_server := m\<rparr>
                  in Inr (None, antop_socket_send E (Rv rv_msg) m sock ANTOP_PORT s)))))"

text \<open>
  The answer of a server: the first entry whose name starts the queried name. The flags of the
  answer are those of uninitialised memory with the bit \<open>MASK_SOLVED\<close> set.
\<close>

definition rv_lookup :: "byte list \<Rightarrow> lookup_table list \<Rightarrow> lookup_table option" where
  "rv_lookup arr es = find (\<lambda>e. take (length (univ_name e)) arr = univ_name e) es"

definition answer_rv_query :: "env \<Rightarrow> rv_ctrl_pkt \<Rightarrow> int \<Rightarrow> handler" where
  "answer_rv_query E rv_pkt sock s =
     (let rv_msg = (rv_junk E)\<lparr>rv_type := RV_ADDR_SOLVE\<rparr>;
          rv_msg = (case rv_lookup (rv_univ_addr rv_pkt) (rv_table s) of
                      Some e \<Rightarrow> rv_msg\<lparr>rv_flags := rv_flags rv_msg OR MASK_SOLVED, rv_prim_addr := hc_addr e\<rparr>
                    | None \<Rightarrow> rv_msg\<lparr>rv_flags := 0\<rparr>)
      in bind (c_string (rv_univ_addr rv_pkt)) (\<lambda>name.
         bind (overlay (rv_univ_addr rv_msg) name) (\<lambda>arr.
           Inr (antop_socket_send E (Rv (rv_msg\<lparr>rv_univ_addr := arr\<rparr>)) (rv_src_addr rv_pkt) sock ANTOP_PORT s))))"

section \<open>Lemmas\<close>

interpretation rv_tab: unlink_table hc_addr "unlink_by hc_addr"
  by unfold_locales (rule unlink_by_filter; assumption?)+

lemma univ_names_update [simp]: "map univ_name (rv_update name a es) = map univ_name es"
  by (induction es) auto

text \<open>The invariant of the table: one entry per name, each short enough for its buffer.\<close>

definition rv_ok :: "lookup_table list \<Rightarrow> bool" where
  "rv_ok es \<longleftrightarrow> distinct (map univ_name es) \<and>
     (\<forall>e\<in>set es. length (univ_name e) < NAME_SIZE \<and> 0 \<notin> set (univ_name e))"

lemma rv_ok_names: "map univ_name es = map univ_name es' \<Longrightarrow> rv_ok es = rv_ok es'"
proof -
  assume eq: "map univ_name es = map univ_name es'"
  have "rv_ok es \<longleftrightarrow> distinct (map univ_name es) \<and>
      (\<forall>n\<in>set (map univ_name es). length n < NAME_SIZE \<and> 0 \<notin> set n)" for es
    by (auto simp add: rv_ok_def)
  then show ?thesis by (simp only: eq)
qed

lemma c_string_no_null: "c_string bs = Inr name \<Longrightarrow> 0 \<notin> set name"
  by (auto simp add: c_string_def split: if_splits dest: set_takeWhileD)

lemma rv_ok_add:
  assumes "rv_ok (rv_table s)" and "rv_table_add p s = Inr s'"
  shows "rv_ok (rv_table s')"
proof -
  from assms(2) obtain name where name: "c_string (rv_univ_addr p) = Inr name"
    unfolding rv_table_add_def by (rule bind_InrE)
  show ?thesis
  proof (cases "\<exists>e\<in>set (rv_table s). univ_name e = name")
    case True
    then have "rv_table s' = rv_update name (rv_prim_addr p) (rv_table s)"
      using assms(2) name by (auto simp add: rv_table_add_def)
    then show ?thesis using assms(1) rv_ok_names [of "rv_table s'" "rv_table s"] by simp
  next
    case False
    then have "length name < NAME_SIZE" and "rv_table s' = rv_table s @ [\<lparr>univ_name = name, hc_addr = rv_prim_addr p\<rparr>]"
      using assms(2) name by (auto simp add: rv_table_add_def split: if_splits)
    then show ?thesis using assms(1) False c_string_no_null [OF name] by (auto simp add: rv_ok_def)
  qed
qed

lemma rv_ok_delete: "rv_ok (rv_table s) \<Longrightarrow> rv_ok (rv_table (rv_table_delete a s))"
proof -
  have "distinct (map univ_name es) \<Longrightarrow> distinct (map univ_name (unlink_by hc_addr a es))" for es
    unfolding unlink_by_def by (rule distinct_map_remove_first)
  then show "rv_ok (rv_table s) \<Longrightarrow> ?thesis"
    using rv_tab.unlink_subset [of a "rv_table s"] by (auto simp add: rv_ok_def rv_table_delete_def)
qed

text \<open>\<open>no_prefix name es\<close>: no other name of the table is a prefix of \<open>name\<close>.\<close>

definition no_prefix :: "byte list \<Rightarrow> lookup_table list \<Rightarrow> bool" where
  "no_prefix name es \<longleftrightarrow> (\<forall>e\<in>set es. univ_name e \<noteq> name \<longrightarrow> take (length (univ_name e)) name \<noteq> univ_name e)"

lemma take_array:
  assumes "c_string arr = Inr name" and "0 \<notin> set n"
  shows "take (length n) arr = n \<longleftrightarrow> take (length n) name = n"
proof -
  have name: "name = takeWhile (\<lambda>b. b \<noteq> 0) arr" and "0 \<in> set arr"
    using assms(1) by (auto simp add: c_string_def split: if_splits)
  then obtain rest where arr: "arr = name @ 0 # rest"
    using split_list_first [of 0 arr] by (fastforce simp add: takeWhile_append)
  show ?thesis
  proof (cases "length n \<le> length name")
    case True
    then show ?thesis by (simp add: arr)
  next
    case False
    then have "0 \<in> set (take (length n) arr)" by (simp add: arr take_Cons')
    moreover have "take (length n) name \<noteq> n" using False by (metis length_take min_less_iff_conj not_le order_less_irrefl)
    ultimately show ?thesis using assms(2) by auto
  qed
qed

lemma rv_lookup_find:
  assumes "c_string arr = Inr name" and "rv_ok es" and "no_prefix name es" and "e \<in> set es" and "univ_name e = name"
  shows "rv_lookup arr es = Some e"
proof -
  have hit: "take (length (univ_name x)) arr = univ_name x \<longleftrightarrow> x = e" if "x \<in> set es" for x
  proof
    assume "x = e"
    then show "take (length (univ_name x)) arr = univ_name x"
      using take_array [OF assms(1), of "univ_name x"] assms that by (auto simp add: rv_ok_def)
  next
    assume t: "take (length (univ_name x)) arr = univ_name x"
    have "take (length (univ_name x)) name = univ_name x"
      using take_array [OF assms(1), of "univ_name x"] t assms(2) that by (auto simp add: rv_ok_def)
    then have "univ_name x = name" using assms(3) that by (auto simp add: no_prefix_def)
    then show "x = e"
      using assms(2,4,5) that unfolding rv_ok_def distinct_map inj_on_def by blast
  qed
  have "rv_lookup arr es = find (\<lambda>x. x = e) es"
    unfolding rv_lookup_def by (rule find_cong) (simp_all add: hit)
  also have "\<dots> = Some e" using assms(4) by (induction es) auto
  finally show ?thesis .
qed

lemma rv_update_mem:
  "\<exists>e\<in>set es. univ_name e = name \<Longrightarrow> \<exists>e\<in>set (rv_update name a es). univ_name e = name \<and> hc_addr e = a"
  by (induction es) auto

lemma rv_add_mem:
  assumes "rv_table_add p s = Inr s'" and "c_string (rv_univ_addr p) = Inr name"
  obtains e where "e \<in> set (rv_table s')" and "univ_name e = name" and "hc_addr e = rv_prim_addr p"
proof (cases "\<exists>e\<in>set (rv_table s). univ_name e = name")
  case True
  then show thesis
    using assms rv_update_mem [OF True, of "rv_prim_addr p"] that by (auto simp add: rv_table_add_def)
next
  case False
  then have "s' = s\<lparr>rv_table := rv_table s @ [\<lparr>univ_name = name, hc_addr = rv_prim_addr p\<rparr>]\<rparr>"
    using assms by (auto simp add: rv_table_add_def split: if_splits)
  then show thesis using that [of "\<lparr>univ_name = name, hc_addr = rv_prim_addr p\<rparr>"] by simp
qed

lemma set_names_update: "univ_name ` set (rv_update name a es) = univ_name ` set es"
  by (metis list.set_map univ_names_update)

lemma no_prefix_add:
  assumes "rv_table_add p s = Inr s'" and "c_string (rv_univ_addr p) = Inr name" and "no_prefix name (rv_table s)"
  shows "no_prefix name (rv_table s')"
proof -
  have "univ_name ` set (rv_table s') \<subseteq> insert name (univ_name ` set (rv_table s))"
    using assms(1,2) set_names_update [of name "rv_prim_addr p" "rv_table s"]
    by (auto simp add: rv_table_add_def split: if_splits)
  then have "univ_name e \<in> univ_name ` set (rv_table s)" if "e \<in> set (rv_table s')" "univ_name e \<noteq> name" for e
    using that by auto
  moreover have "take (length n) name \<noteq> n" if "n \<in> univ_name ` set (rv_table s)" "n \<noteq> name" for n
    using assms(3) that by (auto simp add: no_prefix_def)
  ultimately show ?thesis unfolding no_prefix_def by simp
qed

text \<open>The servers depend on the name and the dimension alone.\<close>

lemma distribute_servers:
  "distribute_in_hc n u 0 s = Inr s' \<Longrightarrow>
     server_list (hc_dim s) [0..<n] u = Inr (rv_servers s') \<and> s' = s\<lparr>rv_servers := rv_servers s'\<rparr>"
  "distribute_in_hc n u 1 s = Inr s' \<Longrightarrow>
     server_list (hc_dim s) [0..<n] u = Inr (rv_servers_dst s') \<and> s' = s\<lparr>rv_servers_dst := rv_servers_dst s'\<rparr>"
  by (auto simp add: distribute_in_hc_def elim!: bind_InrE)

lemma length_server_list: "server_list dim is u = Inr as \<Longrightarrow> length as = length is"
  by (induction "is" arbitrary: as) (auto elim!: bind_InrE)

lemma nearest_mem:
  assumes "unat msk \<le> 64" and "nearest msk a srvs min_dist best = Inr m"
  shows "m \<in> set srvs \<or> m = best"
  using assms(2)
proof (induction srvs arbitrary: min_dist best)
  case Nil
  then show ?case by simp
next
  case (Cons srv srvs)
  then show ?case by (fastforce elim!: bind_InrE split: if_splits)
qed

lemma nearest_far:
  assumes "unat msk \<le> 64" and "srvs \<noteq> []" and "64 < min_dist" and "nearest msk a srvs min_dist best = Inr m"
  shows "m \<in> set srvs"
proof (cases srvs)
  case (Cons srv rest)
  have "hamming_upto (unat msk) a srv < min_dist"
    using hamming_upto_le [of "unat msk" a srv] assms(1,3) by linarith
  then have "nearest msk a rest (hamming_upto (unat msk) a srv) srv = Inr m"
    using assms(1,4) by (simp add: Cons dist_w_mask_ok)
  from nearest_mem [OF assms(1) this] show ?thesis by (auto simp add: Cons)
qed (use assms(2) in simp)

lemma fold_send:
  "fold (\<lambda>a. antop_socket_send E p a sk pt) as s =
     s\<lparr>trace := trace s @ map (\<lambda>a. Sendmsg p (if prim_addr_flag s then prim_addr s else if_addr E) a sk pt) as\<rparr>"
  by (induction as arbitrary: s) (simp_all add: antop_socket_send_def emit_def)

lemma rv_answer:
  assumes "length (rv_univ_addr (rv_junk E)) = 50" and "length (rv_univ_addr q) = 50"
    and "c_string (rv_univ_addr q) = Inr name" and "rv_lookup (rv_univ_addr q) (rv_table s) = Some e"
  shows "\<exists>r. answer_rv_query E q sk s =
      Inr (antop_socket_send E (Rv r) (rv_src_addr q) sk ANTOP_PORT s) \<and>
    rv_type r = RV_ADDR_SOLVE \<and> rv_prim_addr r = hc_addr e \<and> rv_flags r AND MASK_SOLVED \<noteq> 0"
proof -
  have "length name \<le> 50"
    using assms(2,3) by (auto simp add: c_string_def split: if_splits intro: order_trans [OF length_takeWhile_le])
  moreover have "(x OR MASK_SOLVED) AND MASK_SOLVED \<noteq> 0" for x
    by (simp add: MASK_SOLVED_def word_ao_dist)
  ultimately show ?thesis
    using assms by (auto simp add: answer_rv_query_def Let_def overlay_def intro!: exI)
qed

text \<open>What \<open>register_rv\<close> does: it computes the servers if need be, and sends the registrations.\<close>

definition src_addr :: "env \<Rightarrow> node \<Rightarrow> in6_addr" where
  "src_addr E s = (if prim_addr_flag s then prim_addr s else if_addr E)"

lemma register_rv_shape:
  assumes "register_rv E s = Inr s'" and "\<not> flag_mezcla s" and "\<not> flag_fragmentacion s"
  obtains sv reg reg2 where
    "(if rv_servers s = [] then distribute_in_hc NSERVER_RV (univ_addr s) 0 s else Inr s) = Inr (s\<lparr>rv_servers := sv\<rparr>)"
    and "rv_type reg = RV_REG" and "rv_prim_addr reg = prim_addr s"
    and "s' = s\<lparr>rv_servers := sv, trace := trace s @ [Arm_Timer Rv_T T_RV] @
      map (\<lambda>a. Sendmsg (Rv reg) (src_addr E s) a (socket_global s) ANTOP_PORT) sv @
      (if sec_addr_flag s
       then map (\<lambda>a. Sendmsg (Rv reg2) (src_addr E s) a (fst (arg_junk E)) (snd (arg_junk E))) sv
       else [])\<rparr>"
proof -
  from assms obtain s1 where s1: "(if rv_servers s = [] then distribute_in_hc NSERVER_RV (univ_addr s) 0 s else Inr s) = Inr s1"
    by (auto simp add: register_rv_def elim!: bind_InrE)
  then obtain sv where sv: "s1 = s\<lparr>rv_servers := sv\<rparr>"
    using distribute_servers(1) [of NSERVER_RV "univ_addr s" s s1] by (cases "rv_servers s = []") (auto intro: that [of "rv_servers s"])
  note s2 = s1 [unfolded sv]
  from assms s2 obtain name where name: "overlay (rv_univ_addr (rv_junk E)) (univ_addr s) = Inr name"
    by (auto simp add: register_rv_def elim!: bind_InrE)
  show thesis
    using assms name
    by (intro that [OF s2, of "(rv_junk E)\<lparr>rv_type := RV_REG, rv_prim_addr := prim_addr s, rv_univ_addr := name\<rparr>"
       "(rv_junk E)\<lparr>rv_type := RV_REG, rv_prim_addr := sec_addr s, rv_univ_addr := name\<rparr>"])
      (auto simp add: register_rv_def s2 Let_def fold_send arm_timer_def emit_def src_addr_def)
qed

text \<open>Within the dimensions of the cube the computation of the servers never faults.\<close>

lemma hash_whole_total: "\<forall>i\<in>set is. i < 4 \<Longrightarrow> \<exists>b. hash_whole hc is a = Inr b"
  by (induction "is" arbitrary: a) auto

lemma hash_rest_total: "i < 4 \<or> js = [] \<Longrightarrow> \<exists>b. hash_rest hc i js a = Inr b"
  by (induction js arbitrary: a) auto

lemma hash_total: "dim \<le> 64 \<Longrightarrow> \<exists>a. hash_2_hc dim u = Inr a"
proof -
  assume dim: "dim \<le> 64"
  obtain b where "hash_whole (hash_words u) [0..<dim div 16] hash_base = Inr b"
    using hash_whole_total [of "[0..<dim div 16]"] dim by fastforce
  moreover have "dim div 16 < 4 \<or> [0..<dim mod 16] = []"
  proof (cases "dim = 64")
    case False
    with dim have "dim div 16 < 4" by (simp add: less_mult_imp_div_less)
    then show ?thesis ..
  qed simp
  ultimately show ?thesis
    using hash_rest_total [of "dim div 16" "[0..<dim mod 16]" "hash_words u" b]
    by (simp add: hash_2_hc_def Let_def)
qed

lemma server_list_total: "dim \<le> 64 \<Longrightarrow> u \<noteq> [] \<Longrightarrow> \<exists>as. server_list dim is u = Inr as"
proof (induction "is")
  case (Cons i "is")
  with hash_total [of dim u] show ?case by (auto simp add: server_addr_def Let_def)
qed simp

lemma register_rv_total:
  assumes "hc_dim s \<le> 64" and "univ_addr s \<noteq> []" and "length (univ_addr s) \<le> length (rv_univ_addr (rv_junk E))"
  shows "\<exists>s'. register_rv E s = Inr s'"
proof -
  obtain as where "server_list (hc_dim s) [0..<NSERVER_RV] (univ_addr s) = Inr as"
    using server_list_total [OF assms(1,2)] by blast
  then show ?thesis
    using assms(3) by (auto simp add: register_rv_def distribute_in_hc_def overlay_def Let_def)
qed

lemma nearest_total: "unat msk \<le> 64 \<Longrightarrow> \<exists>m. nearest msk a srvs d best = Inr m"
  by (induction srvs arbitrary: d best) (auto simp add: dist_w_mask_ok)

lemma solve_name_total:
  assumes "hc_dim s \<le> 64" and "u \<noteq> []" and "length u \<le> length (rv_univ_addr (rv_junk E))"
    and "unat (mask_junk E) \<le> 64" and "cached_table s = []"
  shows "\<exists>s'. solve_name E u sk s = Inr (None, s')"
proof -
  obtain as where "server_list (hc_dim s) [0..<NSERVER_RV] u = Inr as"
    using server_list_total [OF assms(1,2)] by blast
  moreover obtain m where "nearest (mask_junk E) (prim_addr s) as 1000 (main_rv_server s) = Inr m"
    using nearest_total [OF assms(4)] by blast
  ultimately show ?thesis
    using assms(3,5) by (simp add: solve_name_def distribute_in_hc_def overlay_def Let_def)
qed

section \<open>Properties\<close>

text \<open>C6: After a server has processed the registration of a name, it answers a
  query for that name with the registered address and the flag \<open>solved\<close>, and its table keeps one short entry per name. The table of the server
  is so before (\<open>rv_ok\<close>), and no other name in it is a prefix of the name (\<open>no_prefix\<close>): the entries are compared over the length
  of the stored name, so that a prefix would be answered instead (\<open>resolve_confuses_prefix\<close>). The names in the messages end within
  their 50 bytes.\<close>

theorem register_then_resolve:
  assumes "rv_ok (rv_table s)" and "c_string (rv_univ_addr p) = Inr name"
    and "no_prefix name (rv_table s)" and "rv_table_add p s = Inr s'"
    and "c_string (rv_univ_addr q) = Inr name" and "length (rv_univ_addr q) = 50"
    and "length (rv_univ_addr (rv_junk E)) = 50"
  shows "rv_ok (rv_table s') \<and>
    (\<exists>r. answer_rv_query E q sk s' =
        Inr (antop_socket_send E (Rv r) (rv_src_addr q) sk ANTOP_PORT s') \<and>
      rv_type r = RV_ADDR_SOLVE \<and> rv_prim_addr r = rv_prim_addr p \<and> rv_flags r AND MASK_SOLVED \<noteq> 0)"
proof -
  have ok: "rv_ok (rv_table s')" using assms(1,4) by (rule rv_ok_add)
  from rv_add_mem [OF assms(4,2)] obtain e where e: "e \<in> set (rv_table s')" "univ_name e = name" "hc_addr e = rv_prim_addr p" .
  have "rv_lookup (rv_univ_addr q) (rv_table s') = Some e"
    by (rule rv_lookup_find [OF assms(5) ok no_prefix_add [OF assms(4,2,3)] e(1,2)])
  from rv_answer [OF assms(7,6,5) this] ok e(3) show ?thesis by simp
qed

theorem register_then_resolve_witness:
  "\<exists>s' r. rv_table_add (null_rv\<lparr>rv_prim_addr := net_default, rv_univ_addr := 110 # replicate 49 0\<rparr>) sample_node = Inr s' \<and>
     answer_rv_query sample_env (null_rv\<lparr>rv_univ_addr := 110 # replicate 49 0\<rparr>) 3 s' =
       Inr (antop_socket_send sample_env (Rv r) zero_addr 3 ANTOP_PORT s') \<and> rv_prim_addr r = net_default"
proof -
  let ?p = "null_rv\<lparr>rv_prim_addr := net_default, rv_univ_addr := 110 # replicate 49 0\<rparr>"
  let ?s = "sample_node\<lparr>rv_table := [\<lparr>univ_name = [110], hc_addr = net_default\<rparr>]\<rparr>"
  have c: "c_string (110 # replicate 49 0) = Inr [110]"
    by (simp add: c_string_def)
  have a: "rv_table_add ?p sample_node = Inr ?s"
    by (simp add: rv_table_add_def c NAME_SIZE_def)
  show ?thesis
    using register_then_resolve [of sample_node ?p "[110]" ?s "null_rv\<lparr>rv_univ_addr := 110 # replicate 49 0\<rparr>" sample_env 3] a c
    by (auto simp add: rv_ok_def no_prefix_def)
qed

text \<open>The comparison stops at the end of the stored name, so a query for a name
  that extends an earlier registered one is answered with the address of that other node.\<close>

theorem resolve_confuses_prefix:
  assumes "univ_name e = n" and "rv_table s = e # es" and "c_string (rv_univ_addr q) = Inr (n @ x)"
    and "length (rv_univ_addr q) = 50" and "length (rv_univ_addr (rv_junk E)) = 50" and "0 \<notin> set n"
  shows "\<exists>r. answer_rv_query E q sk s =
        Inr (antop_socket_send E (Rv r) (rv_src_addr q) sk ANTOP_PORT s) \<and>
      rv_prim_addr r = hc_addr e \<and> rv_flags r AND MASK_SOLVED \<noteq> 0"
proof -
  have "rv_lookup (rv_univ_addr q) (rv_table s) = Some e"
    using take_array [OF assms(3,6)] by (simp add: rv_lookup_def assms(1,2))
  from rv_answer [OF assms(5,4,3) this] show ?thesis by blast
qed

theorem resolve_confuses_prefix_witness:
  "\<exists>r. answer_rv_query sample_env (null_rv\<lparr>rv_univ_addr := 110 # 49 # replicate 48 0\<rparr>) 3
        (sample_node\<lparr>rv_table := [\<lparr>univ_name = [110], hc_addr = net_default\<rparr>]\<rparr>) =
      Inr (antop_socket_send sample_env (Rv r) zero_addr 3 ANTOP_PORT
        (sample_node\<lparr>rv_table := [\<lparr>univ_name = [110], hc_addr = net_default\<rparr>]\<rparr>)) \<and>
     rv_prim_addr r = net_default"
proof -
  have c: "c_string (110 # 49 # replicate 48 0) = Inr ([110] @ [49])"
    by (simp add: c_string_def)
  show ?thesis
    using resolve_confuses_prefix [of "\<lparr>univ_name = [110], hc_addr = net_default\<rparr>" "[110]"
        "sample_node\<lparr>rv_table := [\<lparr>univ_name = [110], hc_addr = net_default\<rparr>]\<rparr>" "[]"
        "null_rv\<lparr>rv_univ_addr := 110 # 49 # replicate 48 0\<rparr>" "[49]" sample_env 3] c
    by auto
qed

text \<open>C29: A node that registers a name and a node of the same dimension that resolves it
  compute the same servers: the query is sent to one of the servers to which the registration
  was sent.\<close>

theorem rendezvous_meets:
  assumes "register_rv E1 s1 = Inr s1'" and "rv_servers s1 = []"
    and "\<not> flag_mezcla s1" and "\<not> flag_fragmentacion s1"
    and "solve_name E2 (univ_addr s1) sk s2 = Inr (None, s2')" and "hc_dim s2 = hc_dim s1"
    and "unat (mask_junk E2) \<le> 64"
  shows "\<exists>srv reg qry src1 src2. srv \<in> set (rv_servers s1') \<and>
    Sendmsg (Rv reg) src1 srv (socket_global s1) ANTOP_PORT \<in> set (trace s1') \<and>
    rv_type reg = RV_REG \<and> rv_prim_addr reg = prim_addr s1 \<and>
    last (trace s2') = Sendmsg (Rv qry) src2 srv sk ANTOP_PORT \<and> rv_type qry = RV_ADDR_LOOKUP"
proof -
  define n where "n = univ_addr s1"
  from register_rv_shape [OF assms(1,3,4)] obtain sv reg reg2 where
    d1: "(if rv_servers s1 = [] then distribute_in_hc NSERVER_RV (univ_addr s1) 0 s1 else Inr s1) = Inr (s1\<lparr>rv_servers := sv\<rparr>)"
    and reg: "rv_type reg = RV_REG" "rv_prim_addr reg = prim_addr s1"
    and s1': "s1' = s1\<lparr>rv_servers := sv, trace := trace s1 @ [Arm_Timer Rv_T T_RV] @
      map (\<lambda>a. Sendmsg (Rv reg) (src_addr E1 s1) a (socket_global s1) ANTOP_PORT) sv @
      (if sec_addr_flag s1
       then map (\<lambda>a. Sendmsg (Rv reg2) (src_addr E1 s1) a (fst (arg_junk E1)) (snd (arg_junk E1))) sv
       else [])\<rparr>" .
  have sv1: "server_list (hc_dim s1) [0..<NSERVER_RV] n = Inr sv"
    using d1 assms(2) distribute_servers(1) [of NSERVER_RV n s1] by (simp add: n_def)
  from assms(5) obtain s2a name m where d2: "distribute_in_hc NSERVER_RV n 1 s2 = Inr s2a"
    and near: "nearest (mask_junk E2) (prim_addr s2a) (rv_servers_dst s2a) 1000 (main_rv_server s2a) = Inr m"
    and last: "\<exists>qry src. last (trace s2') = Sendmsg (Rv qry) src m sk ANTOP_PORT \<and> rv_type qry = RV_ADDR_LOOKUP"
    by (auto simp add: solve_name_def n_def Let_def antop_socket_send_def emit_def
        elim!: bind_InrE split: option.splits)
  note sv2 = distribute_servers(2) [OF d2]
  have same: "rv_servers_dst s2a = sv" using sv1 sv2 assms(6) by simp
  have "sv \<noteq> []" using length_server_list [OF sv1] by (auto simp add: NSERVER_RV_def)
  then have m: "m \<in> set sv" using nearest_far [OF assms(7) _ _ near] same by simp
  have "Sendmsg (Rv reg) (src_addr E1 s1) m (socket_global s1) ANTOP_PORT \<in> set (trace s1')" and "rv_servers s1' = sv"
    using m by (auto simp add: s1')
  with m last reg show ?thesis by auto
qed

theorem rendezvous_meets_witness:
  "\<exists>s1' s2' srv reg qry src1 src2. register_rv sample_env sample_node = Inr s1' \<and>
     solve_name sample_env [110, 49] 3 (sample_node\<lparr>prim_addr := net_default\<rparr>) = Inr (None, s2') \<and>
     srv \<in> set (rv_servers s1') \<and> Sendmsg (Rv reg) src1 srv 3 ANTOP_PORT \<in> set (trace s1') \<and>
     last (trace s2') = Sendmsg (Rv qry) src2 srv 3 ANTOP_PORT"
proof -
  let ?s2 = "sample_node\<lparr>prim_addr := net_default\<rparr>"
  obtain s1' where r: "register_rv sample_env sample_node = Inr s1'"
    using register_rv_total [of sample_node sample_env] by auto
  obtain s2' where q: "solve_name sample_env [110, 49] 3 ?s2 = Inr (None, s2')"
    using solve_name_total [of ?s2 "[110, 49]" sample_env 3] by auto
  have "solve_name sample_env (univ_addr sample_node) 3 ?s2 = Inr (None, s2')" using q by simp
  from rendezvous_meets [OF r _ _ _ this] obtain srv reg qry src1 src2 where
    "srv \<in> set (rv_servers s1')" "Sendmsg (Rv reg) src1 srv (socket_global sample_node) ANTOP_PORT \<in> set (trace s1')"
    "last (trace s2') = Sendmsg (Rv qry) src2 srv 3 ANTOP_PORT"
    by auto
  then show ?thesis using r q by auto
qed

end
