(* ===== verification/Neighbors.thy ===== *)
theory Neighbors
  imports Rendezvous
begin

text \<open>
  The tables of \<open>heart_beat.c\<close>: the neighbours, kept alive by heart beats and aged by a timer, and
  the address spaces recovered from successors that have gone.
\<close>

section \<open>The neighbour table\<close>

definition init_neigh_table :: "env \<Rightarrow> node \<Rightarrow> node" where
  "init_neigh_table E s =
     (if neigh_table s = [] then s\<lparr>neigh_table := [(nb_junk E)\<lparr>n_prim_addr := zero_addr\<rparr>]\<rparr> else s)"

definition hb_neighbor :: "ctrl_pkt \<Rightarrow> bool \<Rightarrow> neighbor" where
  "hb_neighbor hb sec_flag =
     \<lparr>n_prim_addr = p_prim_addr hb, n_sec_addr_conn = (if sec_flag then 1 else 0), n_count = 0,
      n_prim_mask = a_mask (ad_addr hb), n_prim_mask_inicial = t_lenght (ad_addr hb), n_available = 1\<rparr>"

text \<open>The head with the null address is overwritten; otherwise the entry goes to the end.\<close>

definition neigh_insert :: "neighbor \<Rightarrow> neighbor list \<Rightarrow> neighbor list result" where
  "neigh_insert n tab =
     (case tab of
        [] \<Rightarrow> Inl Null_Deref
      | it # rest \<Rightarrow> if n_prim_addr it = zero_addr then Inr [n] else Inr (it # rest @ [n]))"

definition add_neighbor :: "ctrl_pkt \<Rightarrow> bool \<Rightarrow> handler" where
  "add_neighbor hb sec_flag s =
     bind (neigh_insert (hb_neighbor hb sec_flag) (neigh_table s)) (\<lambda>tab. Inr (s\<lparr>neigh_table := tab\<rparr>))"

text \<open>Returns 0, or -1 when there is no such neighbour; the name entries of the address go too.\<close>

definition delete_neighbor :: "neighbor \<Rightarrow> node \<Rightarrow> int \<times> node" where
  "delete_neighbor neigh s =
     (if n_prim_addr neigh \<in> n_prim_addr ` set (neigh_table s)
      then (0, rv_table_delete (n_prim_addr neigh)
                 (s\<lparr>neigh_table := unlink_by n_prim_addr (n_prim_addr neigh) (neigh_table s)\<rparr>))
      else (-1, s))"

definition find_neighbor :: "in6_addr \<Rightarrow> neighbor list \<Rightarrow> neighbor option result" where
  "find_neighbor p_addr tab =
     (case tab of
        [] \<Rightarrow> Inl Null_Deref
      | it # rest \<Rightarrow>
          if n_prim_addr it = zero_addr then Inr None
          else Inr (find (\<lambda>it. n_prim_addr it = p_addr) tab))"

text \<open>The update of \<open>process_hb\<close> through the pointer that \<open>find_neighbor\<close> returned.\<close>

fun refresh_neighbor :: "in6_addr \<Rightarrow> byte \<Rightarrow> neighbor list \<Rightarrow> neighbor list" where
  "refresh_neighbor a msk [] = []"
| "refresh_neighbor a msk (it # rest) =
     (if n_prim_addr it = a then it\<lparr>n_count := 0, n_prim_mask := msk\<rparr> # rest
      else it # refresh_neighbor a msk rest)"

section \<open>Successors\<close>

text \<open>
  The loop over equal bits, which has no bound: it does not end when the mask runs out of bits
  before a difference is found. \<open>None\<close> stands for this.
\<close>

partial_function (option) skip_equal :: "16 word \<Rightarrow> 16 word \<Rightarrow> 16 word \<Rightarrow> nat \<Rightarrow> (16 word \<times> nat) option" where
  "skip_equal p n msk j =
     (if p AND msk = n AND msk then skip_equal p n (drop_bit 1 msk) (Suc j) else Some (msk, j))"

declare skip_equal.simps [code]

function skip_zero :: "16 word \<Rightarrow> 16 word \<Rightarrow> 16 word \<Rightarrow> nat \<Rightarrow> 16 word \<times> nat" where
  "skip_zero p n msk j =
     (if p AND msk = n AND msk \<and> p AND msk = 0 \<and> j < 16 then skip_zero p n (drop_bit 1 msk) (Suc j)
      else (msk, j))"
  by auto
termination by (relation "measure (\<lambda>(p, n, msk, j). 16 - j)") auto

declare skip_zero.simps [simp del]

text \<open>
  The words 4 to 7; \<open>msk\<close> is set once, before the loop over the words. The result is the return
  value, or the fault of a loop without end.
\<close>

fun succ_words :: "in6_addr \<Rightarrow> in6_addr \<Rightarrow> nat list \<Rightarrow> 16 word \<Rightarrow> nat \<Rightarrow> bool \<Rightarrow> int result" where
  "succ_words prim neigh [] msk different_words succesor_flag =
     Inr (if different_words = 1 \<and> succesor_flag then 1 else 0)"
| "succ_words prim neigh (i # is) msk different_words succesor_flag =
     (if s6_addr16 prim i \<noteq> s6_addr16 neigh i then
        let p = htons (s6_addr16 prim i); n = htons (s6_addr16 neigh i)
        in case skip_equal p n msk 0 of
             None \<Rightarrow> Inl Diverges
           | Some (msk, j) \<Rightarrow>
               let flag = (if p AND msk = 0 then True else succesor_flag);
                   (msk, j) = skip_zero p n (drop_bit 1 msk) j
               in if j \<noteq> 16 then Inr 0
                  else succ_words prim neigh is msk (different_words + 1) flag
      else succ_words prim neigh is msk different_words succesor_flag)"

definition check_succesor :: "in6_addr \<Rightarrow> neighbor \<Rightarrow> int result" where
  "check_succesor prim neigh = succ_words prim (n_prim_addr neigh) [4..<8] (2 ^ 15) 0 False"

section \<open>Recovered address spaces\<close>

definition recover_addr_space :: "neighbor \<Rightarrow> node \<Rightarrow> node" where
  "recover_addr_space neigh s =
     s\<lparr>rcvd_addr := rcvd_addr s @ [\<lparr>r_prim_mask = n_prim_mask_inicial neigh, r_prim_addr = n_prim_addr neigh\<rparr>]\<rparr>"

definition del_rcvd_addr_table :: "in6_addr \<Rightarrow> node \<Rightarrow> int \<times> node" where
  "del_rcvd_addr_table addr s =
     (if addr \<in> r_prim_addr ` set (rcvd_addr s)
      then (0, s\<lparr>rcvd_addr := unlink_by r_prim_addr addr (rcvd_addr s)\<rparr>)
      else (-1, s))"

section \<open>Aging\<close>

text \<open>
  The loop of \<open>check_neighbors\<close>: \<open>done\<close> are the entries already visited, the second list those
  still to visit. Deleting \<open>it\<close> unlinks the first entry with its address, which is \<open>it\<close> or one
  before it; \<open>it->next\<close> stays what it was.
\<close>

fun check_loop :: "neighbor list \<Rightarrow> neighbor list \<Rightarrow> handler" where
  "check_loop done [] s = Inr (s\<lparr>neigh_table := done\<rparr>)"
| "check_loop done (it # rest) s =
     (if n_count it = 0 then check_loop (done @ [it\<lparr>n_count := -1\<rparr>]) rest s
      else if n_count it = -1 then check_loop (done @ [it\<lparr>n_count := 1\<rparr>]) rest s
      else if n_count it > 0 \<and> n_count it < N_INACT
        then check_loop (done @ [it\<lparr>n_count := n_count it + 1\<rparr>]) rest s
      else if n_count it \<ge> N_INACT then
        bind (check_succesor (prim_addr s) it) (\<lambda>c.
          let s = (if c \<noteq> 0 then recover_addr_space it s else s);
              s = snd (delete_neighbor it (s\<lparr>neigh_table := done @ [it]\<rparr>))
          in check_loop (neigh_table s) rest s)
      else check_loop (done @ [it]) rest s)"

definition check_neighbors :: handler where
  "check_neighbors s =
     bind (check_loop [] (neigh_table s) s) (\<lambda>s. Inr (arm_timer Chk_Neigh_T T_LHB s))"

section \<open>Lemmas on the tables\<close>

interpretation rcvd_tab: unlink_table r_prim_addr "unlink_by r_prim_addr"
  by unfold_locales (rule unlink_by_filter; assumption?)+

interpretation neigh_tab: sentinel_table n_prim_addr "unlink_by n_prim_addr" zero_addr neigh_insert
  by unfold_locales (auto simp add: neigh_insert_def unlink_by_filter intro: subsetD [OF unlink_by_filter(3)])

lemma rv_table_delete_frame [simp, frame_simps]:
  "neigh_table (rv_table_delete a s) = neigh_table s" "rcvd_addr (rv_table_delete a s) = rcvd_addr s"
  "prim_addr (rv_table_delete a s) = prim_addr s" "trace (rv_table_delete a s) = trace s"
  by (simp_all add: rv_table_delete_def)

lemma delete_neighbor_table:
  "neigh_table (snd (delete_neighbor n s)) = unlink_by n_prim_addr (n_prim_addr n) (neigh_table s)"
proof -
  have "unlink_by n_prim_addr a tab = tab" if "a \<notin> n_prim_addr ` set tab" for a tab
    using that unfolding unlink_by_def by (intro remove_first_none) auto
  from this [of "n_prim_addr n" "neigh_table s"] show ?thesis by (auto simp add: delete_neighbor_def)
qed

lemma delete_neighbor_frame [simp, frame_simps]:
  "rcvd_addr (snd (delete_neighbor n s)) = rcvd_addr s" "prim_addr (snd (delete_neighbor n s)) = prim_addr s"
  "trace (snd (delete_neighbor n s)) = trace s"
  by (simp_all add: delete_neighbor_def)

section \<open>Lemmas on successors\<close>

lemma skip_equal_nonzero:
  assumes "skip_equal p n msk j = Some r"
  shows "msk \<noteq> 0"
proof (rule skip_equal.raw_induct [where P = "\<lambda>p n msk j r. msk \<noteq> 0", OF _ assms])
  fix skip :: "16 word \<Rightarrow> 16 word \<Rightarrow> 16 word \<Rightarrow> nat \<Rightarrow> (16 word \<times> nat) option" and p n msk j r
  assume IH: "\<And>p n msk j r. skip p n msk j = Some r \<Longrightarrow> msk \<noteq> 0"
    and step: "(if p AND msk = n AND msk then skip p n (drop_bit 1 msk) (Suc j) else Some (msk, j)) = Some r"
  show "msk \<noteq> 0"
  proof
    assume "msk = 0"
    then have "skip p n 0 (Suc j) = Some r" using step by simp
    from IH [OF this] show False by simp
  qed
qed

lemma skip_equal_0 [simp]: "skip_equal p n 0 j = None"
  using skip_equal_nonzero [of p n 0 j] by (cases "skip_equal p n 0 j") auto

lemma drop_bit_power: "Suc n < 16 \<Longrightarrow> drop_bit (Suc 0) (2 ^ Suc n :: 16 word) = 2 ^ n"
  by (rule bit_word_eqI) (auto simp add: bit_drop_bit_eq bit_exp_iff simp del: power_Suc)

text \<open>The loop stops at the highest difference at or below bit \<open>n\<close>.\<close>

lemma skip_equal_power:
  "d \<le> n \<Longrightarrow> n < 16 \<Longrightarrow> bit p d \<noteq> bit q d \<Longrightarrow> (\<And>k. d < k \<Longrightarrow> k \<le> n \<Longrightarrow> bit p k = bit q k) \<Longrightarrow>
     skip_equal p q (2 ^ n) j = Some (2 ^ d, j + (n - d))"
proof (induction n arbitrary: j)
  case 0
  then show ?case by (subst skip_equal.simps) (auto simp add: and_two_power_eq_iff [of 0, simplified])
next
  case (Suc n)
  show ?case
  proof (cases "d = Suc n")
    case True
    then show ?thesis using Suc.prems
      by (subst skip_equal.simps) (auto simp add: and_two_power_eq_iff simp del: power_Suc)
  next
    case False
    then have "d \<le> n" and "bit p (Suc n) = bit q (Suc n)" using Suc.prems by auto
    then have "skip_equal p q (2 ^ Suc n) j = skip_equal p q (2 ^ n) (Suc j)"
      using Suc.prems by (subst skip_equal.simps) (simp add: and_two_power_eq_iff drop_bit_power del: power_Suc)
    also have "\<dots> = Some (2 ^ d, Suc j + (n - d))"
      using Suc.prems \<open>d \<le> n\<close> by (intro Suc.IH) auto
    finally show ?thesis using \<open>d \<le> n\<close> by simp
  qed
qed

lemma skip_zero_0: "j \<le> 16 \<Longrightarrow> skip_zero p q 0 j = (0, 16)"
proof (induction "16 - j" arbitrary: j)
  case 0
  then show ?case by (subst skip_zero.simps) simp
next
  case (Suc k)
  then have "j < 16" and "k = 16 - Suc j" by auto
  then show ?case using Suc.hyps(1) [of "Suc j"] by (subst skip_zero.simps) simp
qed

text \<open>The second loop reaches 16 exactly when the bits below are zero in both words.\<close>

lemma skip_zero_power:
  "n < 16 \<Longrightarrow> j + n = 14 \<Longrightarrow>
     (if \<forall>k\<le>n. \<not> bit p k \<and> \<not> bit q k then skip_zero p q (2 ^ n) j = (0, 16)
      else snd (skip_zero p q (2 ^ n) j) \<noteq> 16)"
proof (induction n arbitrary: j)
  case 0
  then show ?case
    using and_two_power_eq_0 [of p 0] and_two_power_eq_0 [of q 0]
    by (subst (1 2) skip_zero.simps) (auto simp add: and_two_power_eq_iff [of 0, simplified] skip_zero_0)
next
  case (Suc n)
  show ?case
  proof (cases "bit p (Suc n) \<or> bit q (Suc n)")
    case True
    then have "\<not> (p AND 2 ^ Suc n = q AND 2 ^ Suc n \<and> p AND 2 ^ Suc n = 0)"
      using Suc.prems by (auto simp only: and_two_power_eq_iff and_two_power_eq_0)
    then have "skip_zero p q (2 ^ Suc n) j = (2 ^ Suc n, j)" by (subst skip_zero.simps) auto
    then show ?thesis using True Suc.prems by auto
  next
    case False
    then have "skip_zero p q (2 ^ Suc n) j = skip_zero p q (2 ^ n) (Suc j)"
      using Suc.prems by (subst skip_zero.simps) (simp add: and_two_power_eq_iff and_two_power_eq_0 drop_bit_power del: power_Suc)
    then show ?thesis using Suc.IH [of "Suc j"] Suc.prems False by (auto simp add: le_Suc_eq split: if_splits)
  qed
qed

lemma succ_words_append:
  "\<forall>i\<in>set is. s6_addr16 a i = s6_addr16 b i \<Longrightarrow> succ_words a b (is @ js) msk dw f = succ_words a b js msk dw f"
  by (induction "is") auto

lemma succ_words_equal:
  "\<forall>i\<in>set is. s6_addr16 a i = s6_addr16 b i \<Longrightarrow>
     succ_words a b is msk dw f = Inr (if dw = 1 \<and> f then 1 else 0)"
  by (induction "is") auto

lemma succ_words_diverge:
  "\<exists>i\<in>set is. s6_addr16 a i \<noteq> s6_addr16 b i \<Longrightarrow> succ_words a b is 0 dw f = Inl Diverges"
  by (induction "is") auto

text \<open>The first word that differs, at bit \<open>d\<close>: the test passes and leaves an empty mask, or fails.\<close>

lemma succ_words_step:
  assumes "d < 16" and "bit (htons (s6_addr16 a i)) d \<noteq> bit (htons (s6_addr16 b i)) d"
    and "\<And>k. d < k \<Longrightarrow> k < 16 \<Longrightarrow> bit (htons (s6_addr16 a i)) k = bit (htons (s6_addr16 b i)) k"
  shows "succ_words a b (i # is) (2 ^ 15) 0 False =
    (if \<exists>k<d. bit (htons (s6_addr16 a i)) k \<or> bit (htons (s6_addr16 b i)) k then Inr 0
     else succ_words a b is 0 1 (\<not> bit (htons (s6_addr16 a i)) d))"
proof -
  define p q where "p = htons (s6_addr16 a i)" and "q = htons (s6_addr16 b i)"
  have neq: "s6_addr16 a i \<noteq> s6_addr16 b i" using assms(2) by auto
  have s1: "skip_equal p q (2 ^ 15) 0 = Some (2 ^ d, 15 - d)"
    using skip_equal_power [of d 15 p q 0] assms by (simp add: p_def q_def)
  have s2: "if \<forall>k<d. \<not> bit p k \<and> \<not> bit q k then skip_zero p q (drop_bit 1 (2 ^ d)) (15 - d) = (0, 16)
      else snd (skip_zero p q (drop_bit 1 (2 ^ d)) (15 - d)) \<noteq> 16"
  proof (cases d)
    case 0
    have "drop_bit 1 (2 ^ 0 :: 16 word) = 0" by (rule bit_word_eqI) (simp add: bit_drop_bit_eq bit_1_iff)
    then show ?thesis using skip_zero_0 [of 15 p q] by (simp only: 0) simp
  next
    case (Suc e)
    have "drop_bit 1 (2 ^ Suc e :: 16 word) = 2 ^ e" using drop_bit_power [of e] assms(1) Suc by simp
    then show ?thesis
      using skip_zero_power [of e "15 - d" p q] assms(1) unfolding Suc by (simp only: less_Suc_eq_le) simp
  qed
  have flag: "p AND 2 ^ d = 0 \<longleftrightarrow> \<not> bit p d" by (rule and_two_power_eq_0)
  show ?thesis
  proof (cases "\<exists>k<d. bit p k \<or> bit q k")
    case True
    then have "snd (skip_zero p q (drop_bit 1 (2 ^ d)) (15 - d)) \<noteq> 16" using s2 by (auto split: if_splits)
    then obtain m1 j1 where "skip_zero p q (drop_bit (Suc 0) (2 ^ d)) (15 - d) = (m1, j1)" and "j1 \<noteq> 16"
      by (cases "skip_zero p q (drop_bit (Suc 0) (2 ^ d)) (15 - d)") simp
    then show ?thesis
      using True neq s1 by (simp add: Let_def p_def [symmetric] q_def [symmetric])
  next
    case False
    then have "skip_zero p q (drop_bit 1 (2 ^ d)) (15 - d) = (0, 16)" using s2 by (auto split: if_splits)
    then show ?thesis
      using False neq s1 flag by (auto simp add: Let_def p_def [symmetric] q_def [symmetric])
  qed
qed

text \<open>Coordinates of the word of coordinate \<open>m\<close>.\<close>

lemma word_bit_coord:
  "m < 64 \<Longrightarrow> n < 16 \<Longrightarrow>
     bit (htons (s6_addr16 a (4 + m div 16))) n \<longleftrightarrow> abit a (64 + (16 * (m div 16) + (15 - n)))"
  using abit_word_rev [of "4 + m div 16" n a] by (simp add: algebra_simps)

lemma word_eq_coord:
  assumes "i < 4"
  shows "s6_addr16 a (4 + i) = s6_addr16 b (4 + i) \<longleftrightarrow>
    (\<forall>k. 16 * i \<le> k \<and> k < 16 * i + 16 \<longrightarrow> abit a (64 + k) = abit b (64 + k))"
proof -
  have "s6_addr16 a (4 + i) = s6_addr16 b (4 + i) \<longleftrightarrow>
      (\<forall>j<16. abit a (64 + (16 * i + j)) = abit b (64 + (16 * i + j)))"
    using same_word_iff [of "4 + i" a b] assms by (simp add: algebra_simps)
  also have "\<dots> \<longleftrightarrow> (\<forall>k. 16 * i \<le> k \<and> k < 16 * i + 16 \<longrightarrow> abit a (64 + k) = abit b (64 + k))"
  proof (rule iffI; rule allI; rule impI)
    fix k assume all: "\<forall>j<16. abit a (64 + (16 * i + j)) = abit b (64 + (16 * i + j))"
      and k: "16 * i \<le> k \<and> k < 16 * i + 16"
    then have "k - 16 * i < 16" and "16 * i + (k - 16 * i) = k" by linarith+
    then show "abit a (64 + k) = abit b (64 + k)" using all by metis
  qed simp
  finally show ?thesis .
qed

lemma check_succesor_first_difference:
  assumes "m < 64" and "abit a (64 + m) \<noteq> abit (n_prim_addr n) (64 + m)"
    and "in_space a (n_prim_addr n) m" and w: "w = 16 * (m div 16) + 16"
  shows "check_succesor a n =
    (if \<exists>k. m < k \<and> k < w \<and> (abit a (64 + k) \<or> abit (n_prim_addr n) (64 + k)) then Inr 0
     else if \<exists>k. w \<le> k \<and> k < 64 \<and> abit a (64 + k) \<noteq> abit (n_prim_addr n) (64 + k) then Inl Diverges
     else Inr (if abit a (64 + m) then 0 else 1))"
proof -
  define b where "b = n_prim_addr n"
  define q where "q = m div 16"
  define d where "d = 15 - m mod 16"
  have q: "q < 4" using assms(1) unfolding q_def by linarith
  have d: "d < 16" by (simp add: d_def)
  have md: "16 * q + (15 - d) = m" unfolding q_def d_def
    using mult_div_mod_eq [of 16 m] mod_less_divisor [of 16 m] by linarith
  have up: "[4..<8] = [4..<4 + q] @ (4 + q) # [4 + q + 1..<8]"
    using q upt_add_eq_append [of 4 "4 + q" "4 - q"] by (simp add: upt_conv_Cons)
  have pre: "\<forall>i\<in>set [4..<4 + q]. s6_addr16 a i = s6_addr16 b i"
  proof
    fix i assume "i \<in> set [4..<4 + q]"
    then obtain r where r: "i = 4 + r" "r < q" using le_Suc_ex by auto
    have "16 * r + 16 \<le> 16 * q" using r by simp
    then have "\<And>k. k < 16 * r + 16 \<Longrightarrow> k < m" using md by linarith
    then show "s6_addr16 a i = s6_addr16 b i"
      using assms(3) r q by (simp add: word_eq_coord in_space_def b_def)
  qed
  have bits: "bit (htons (s6_addr16 x (4 + q))) k \<longleftrightarrow> abit x (64 + (16 * q + (15 - k)))" if "k < 16" for x k
    using word_bit_coord [OF assms(1) that] by (simp add: q_def)
  have s: "check_succesor a n = (if \<exists>k<d. bit (htons (s6_addr16 a (4 + q))) k \<or> bit (htons (s6_addr16 b (4 + q))) k
      then Inr 0 else succ_words a b [4 + q + 1..<8] 0 1 (\<not> bit (htons (s6_addr16 a (4 + q))) d))"
    unfolding check_succesor_def b_def [symmetric] up succ_words_append [OF pre]
  proof (rule succ_words_step [OF d])
    show "bit (htons (s6_addr16 a (4 + q))) d \<noteq> bit (htons (s6_addr16 b (4 + q))) d"
      using assms(2) by (simp only: bits d md b_def) simp
    fix k assume "d < k" and "k < 16"
    then have "16 * q + (15 - k) < m" using md by linarith
    then have "abit a (64 + (16 * q + (15 - k))) = abit b (64 + (16 * q + (15 - k)))"
      using assms(3) by (simp only: in_space_def b_def)
    then show "bit (htons (s6_addr16 a (4 + q))) k = bit (htons (s6_addr16 b (4 + q))) k"
      by (simp only: bits [OF \<open>k < 16\<close>])
  qed
  have low: "(\<exists>k<d. bit (htons (s6_addr16 a (4 + q))) k \<or> bit (htons (s6_addr16 b (4 + q))) k) \<longleftrightarrow>
      (\<exists>k. m < k \<and> k < w \<and> (abit a (64 + k) \<or> abit b (64 + k)))"
  proof
    assume "\<exists>k<d. bit (htons (s6_addr16 a (4 + q))) k \<or> bit (htons (s6_addr16 b (4 + q))) k"
    then obtain k where k: "k < d" "abit a (64 + (16 * q + (15 - k))) \<or> abit b (64 + (16 * q + (15 - k)))"
      using d bits by (meson order.strict_trans)
    moreover have "m < 16 * q + (15 - k)" and "16 * q + (15 - k) < w"
      using k(1) d md w q_def by linarith+
    ultimately show "\<exists>k. m < k \<and> k < w \<and> (abit a (64 + k) \<or> abit b (64 + k))" by blast
  next
    assume "\<exists>k. m < k \<and> k < w \<and> (abit a (64 + k) \<or> abit b (64 + k))"
    then obtain k where k: "m < k" "k < w" "abit a (64 + k) \<or> abit b (64 + k)" by blast
    then have "16 * q + 15 - k < d" and "16 * q + (15 - (16 * q + 15 - k)) = k" and "16 * q + 15 - k < 16"
      using md d w q_def by linarith+
    then show "\<exists>k<d. bit (htons (s6_addr16 a (4 + q))) k \<or> bit (htons (s6_addr16 b (4 + q))) k"
      using k(3) bits by metis
  qed
  have rest: "(\<exists>i\<in>set [4 + q + 1..<8]. s6_addr16 a i \<noteq> s6_addr16 b i) \<longleftrightarrow>
      (\<exists>k. w \<le> k \<and> k < 64 \<and> abit a (64 + k) \<noteq> abit b (64 + k))"
  proof
    assume "\<exists>i\<in>set [4 + q + 1..<8]. s6_addr16 a i \<noteq> s6_addr16 b i"
    then obtain i where "4 + q + 1 \<le> i" "i < 8" "s6_addr16 a i \<noteq> s6_addr16 b i" by auto
    then obtain r where r: "i = 4 + r" "q + 1 \<le> r" "r < 4" "s6_addr16 a (4 + r) \<noteq> s6_addr16 b (4 + r)"
      by (metis add_Suc_right le_Suc_ex le_add1 add_lessD1 nat_add_left_cancel_le nat_add_left_cancel_less numeral_Bit0 add.assoc Suc_eq_plus1 order.trans)
    then obtain k where "16 * r \<le> k" "k < 16 * r + 16" "abit a (64 + k) \<noteq> abit b (64 + k)"
      using word_eq_coord by blast
    moreover have "w \<le> 16 * r" and "16 * r + 16 \<le> 64" using r w q_def by linarith+
    ultimately show "\<exists>k. w \<le> k \<and> k < 64 \<and> abit a (64 + k) \<noteq> abit b (64 + k)" by fastforce
  next
    assume "\<exists>k. w \<le> k \<and> k < 64 \<and> abit a (64 + k) \<noteq> abit b (64 + k)"
    then obtain k where k: "w \<le> k" "k < 64" "abit a (64 + k) \<noteq> abit b (64 + k)" by blast
    have "q + 1 \<le> k div 16" and "k div 16 < 4" using k w q_def by linarith+
    moreover have "16 * (k div 16) \<le> k" and "k < 16 * (k div 16) + 16" by linarith+
    ultimately have "s6_addr16 a (4 + k div 16) \<noteq> s6_addr16 b (4 + k div 16)" and "4 + k div 16 \<in> set [4 + q + 1..<8]"
      using k(3) word_eq_coord [of "k div 16" a b] by auto
    then show "\<exists>i\<in>set [4 + q + 1..<8]. s6_addr16 a i \<noteq> s6_addr16 b i" by blast
  qed
  have bd: "bit (htons (s6_addr16 a (4 + q))) d \<longleftrightarrow> abit a (64 + m)" using bits [OF d] by (simp only: md)
  show ?thesis
  proof (cases "\<exists>k. w \<le> k \<and> k < 64 \<and> abit a (64 + k) \<noteq> abit b (64 + k)")
    case True
    then show ?thesis using rest succ_words_diverge [of "[4 + q + 1..<8]" a b]
      unfolding s low b_def [symmetric] by auto
  next
    case False
    then have "succ_words a b [4 + q + 1..<8] 0 1 f = Inr (if f then 1 else 0)" for f
      using rest by (subst succ_words_equal) auto
    then show ?thesis using False unfolding s low b_def [symmetric] bd by auto
  qed
qed

section \<open>Aging as a map\<close>

text \<open>What one round does to an entry, and which entries it removes.\<close>

definition age :: "neighbor \<Rightarrow> neighbor" where
  "age n = (if n_count n = 0 then n\<lparr>n_count := -1\<rparr> else if n_count n = -1 then n\<lparr>n_count := 1\<rparr> else n)"

definition expired :: "neighbor \<Rightarrow> bool" where
  "expired n \<longleftrightarrow> N_INACT \<le> n_count n"

definition is_succesor :: "in6_addr \<Rightarrow> neighbor \<Rightarrow> bool" where
  "is_succesor prim n \<longleftrightarrow> (\<exists>c. check_succesor prim n = Inr c \<and> c \<noteq> 0)"

definition recovered :: "neighbor \<Rightarrow> recovered_addr" where
  "recovered n = \<lparr>r_prim_mask = n_prim_mask_inicial n, r_prim_addr = n_prim_addr n\<rparr>"

lemma unlink_snoc: "a \<notin> key ` set xs \<Longrightarrow> key x = a \<Longrightarrow> unlink_by key a (xs @ [x]) = xs"
  by (induction xs) auto

lemma age_addr [simp]: "n_prim_addr (age n) = n_prim_addr n"
  by (simp add: age_def)

lemma expired_bounds: "expired n \<Longrightarrow> 1 \<le> n_count n"
  by (simp add: expired_def N_INACT_def)

lemma check_loop_result:
  assumes "distinct (map n_prim_addr (done @ rest))"
    and "\<forall>n\<in>set rest. expired n \<longrightarrow> (\<exists>c. check_succesor (prim_addr s) n = Inr c)"
  shows "\<exists>s'. check_loop done rest s = Inr s' \<and>
    neigh_table s' = done @ map age (filter (\<lambda>n. \<not> expired n) rest) \<and>
    rcvd_addr s' = rcvd_addr s @ map recovered (filter (\<lambda>n. expired n \<and> is_succesor (prim_addr s) n) rest) \<and>
    prim_addr s' = prim_addr s \<and> trace s' = trace s"
  using assms
proof (induction rest arbitrary: "done" s)
  case Nil
  then show ?case by simp
next
  case (Cons it rest)
  show ?case
  proof (cases "expired it")
    case True
    then obtain c where c: "check_succesor (prim_addr s) it = Inr c" using Cons.prems(2) by auto
    define s1 where "s1 = (if c \<noteq> 0 then recover_addr_space it s else s)"
    define s2 where "s2 = snd (delete_neighbor it (s1\<lparr>neigh_table := done @ [it]\<rparr>))"
    have "n_prim_addr it \<notin> n_prim_addr ` set done" using Cons.prems(1) by auto
    then have t: "neigh_table s2 = done" by (simp add: s2_def delete_neighbor_table unlink_snoc)
    have p: "prim_addr s2 = prim_addr s" "trace s2 = trace s" by (simp_all add: s2_def s1_def recover_addr_space_def)
    have r: "rcvd_addr s2 = rcvd_addr s @ (if is_succesor (prim_addr s) it then [recovered it] else [])"
      by (auto simp add: s2_def s1_def recover_addr_space_def recovered_def is_succesor_def c)
    have "\<not> n_count it < N_INACT" and "n_count it \<noteq> 0" and "n_count it \<noteq> -1"
      using True expired_bounds [OF True] by (auto simp add: expired_def)
    then have "check_loop done (it # rest) s = check_loop done rest s2"
      using True t by (simp add: c s1_def [symmetric] s2_def [symmetric] Let_def expired_def)
    moreover have "\<exists>s'. check_loop done rest s2 = Inr s' \<and>
        neigh_table s' = done @ map age (filter (\<lambda>n. \<not> expired n) rest) \<and>
        rcvd_addr s' = rcvd_addr s2 @ map recovered (filter (\<lambda>n. expired n \<and> is_succesor (prim_addr s2) n) rest) \<and>
        prim_addr s' = prim_addr s2 \<and> trace s' = trace s2"
      using Cons.prems p by (intro Cons.IH) auto
    ultimately show ?thesis using True by (auto simp add: p r)
  next
    case False
    have "check_loop done (it # rest) s = check_loop (done @ [age it]) rest s"
      using False by (auto simp add: age_def expired_def N_INACT_def)
    moreover have "\<exists>s'. check_loop (done @ [age it]) rest s = Inr s' \<and>
        neigh_table s' = (done @ [age it]) @ map age (filter (\<lambda>n. \<not> expired n) rest) \<and>
        rcvd_addr s' = rcvd_addr s @ map recovered (filter (\<lambda>n. expired n \<and> is_succesor (prim_addr s) n) rest) \<and>
        prim_addr s' = prim_addr s \<and> trace s' = trace s"
      using Cons.prems by (intro Cons.IH) auto
    ultimately show ?thesis using False by simp
  qed
qed

section \<open>Properties\<close>

text \<open>The child that a node creates by toggling coordinate \<open>m\<close> of its address is
  recognised as a successor when the coordinates of the node from \<open>m\<close> on are zero within their
  word, whatever the other words hold.\<close>

theorem check_succesor_child:
  assumes "m < 64" and "n_prim_addr n = toggle a m"
    and "\<forall>k. m \<le> k \<and> k < 16 * (m div 16) + 16 \<longrightarrow> \<not> abit a (64 + k)"
  shows "check_succesor a n = Inr 1"
proof -
  have m: "m < 16 * (m div 16) + 16" using mult_div_mod_eq [of 16 m] mod_less_divisor [of 16 m] by linarith
  have "abit a (64 + m) \<noteq> abit (n_prim_addr n) (64 + m)" using assms(1,2) by (simp add: abit_toggle)
  moreover have "in_space a (n_prim_addr n) m"
    using in_space_sym [OF in_space_toggle [OF assms(1) order_refl]] assms(2) by simp
  ultimately show ?thesis
    using check_succesor_first_difference [OF assms(1), of a n "16 * (m div 16) + 16"] assms m
    by (auto simp add: abit_toggle)
qed

theorem check_succesor_child_witness: "check_succesor net_root (sample_neighbor (toggle net_root 5) 1) = Inr 1"
  by (rule check_succesor_child [of 5]) simp_all

text \<open>On a neighbour at distance 1 the search for the differing bit ends.\<close>

lemma check_succesor_near:
  assumes "hamming a (n_prim_addr n) = 1"
  shows "\<exists>c. check_succesor a n = Inr c"
proof -
  let ?D = "{k. k < 64 \<and> abit a (64 + k) \<noteq> abit (n_prim_addr n) (64 + k)}"
  have "card ?D = 1" using assms by (simp add: hamming_upto_card)
  then obtain m where D: "?D = {m}" by (auto simp add: card_1_singleton_iff)
  then have m: "m < 64" "abit a (64 + m) \<noteq> abit (n_prim_addr n) (64 + m)" by auto
  have same: "abit a (64 + k) = abit (n_prim_addr n) (64 + k)" if "k < 64" "k \<noteq> m" for k using D that by blast
  then have "in_space a (n_prim_addr n) m" using m(1) by (auto simp add: in_space_def)
  from check_succesor_first_difference [OF m this refl] show ?thesis using same by auto
qed

text \<open>C12: One round of \<open>check_neighbors\<close> over a table without double entries marks a fresh neighbour (0 becomes -1), makes
  a marked one inactive (-1 becomes 1) and removes the inactive ones; it appends to the recovered
  address spaces exactly those of the removed ones that \<open>check_succesor\<close> takes for successors, in order, and re-arms its timer. The
  neighbours that are removed have to be at distance 1 of the node, as those that a heart beat enters are: on others
  \<open>check_succesor\<close>, and the round with it, need not end (theorem \<open>check_succesor_diverges\<close>).\<close>

theorem check_neighbors_ages:
  assumes "distinct (map n_prim_addr (neigh_table s))"
    and "\<forall>n\<in>set (neigh_table s). expired n \<longrightarrow> hamming (prim_addr s) (n_prim_addr n) = 1"
  shows "\<exists>s'. check_neighbors s = Inr s' \<and>
    neigh_table s' = map age (filter (\<lambda>n. \<not> expired n) (neigh_table s)) \<and>
    rcvd_addr s' = rcvd_addr s @ map recovered (filter (\<lambda>n. expired n \<and> is_succesor (prim_addr s) n) (neigh_table s)) \<and>
    trace s' = trace s @ [Arm_Timer Chk_Neigh_T T_LHB]"
  using check_loop_result [of "[]" "neigh_table s" s] assms check_succesor_near
  by (auto simp add: check_neighbors_def arm_timer_def)

theorem check_neighbors_ages_witness:
  "\<exists>s'. check_neighbors (sample_node\<lparr>neigh_table := [sample_neighbor (toggle net_root 1) 0, sample_neighbor (toggle net_root 2) 1]\<rparr>) = Inr s' \<and>
     map n_count (neigh_table s') = [-1] \<and> map r_prim_addr (rcvd_addr s') = [toggle net_root 2]"
proof -
  let ?s = "sample_node\<lparr>neigh_table := [sample_neighbor (toggle net_root 1) 0, sample_neighbor (toggle net_root 2) 1]\<rparr>"
  have "abit (toggle net_root 1) (64 + 1) \<noteq> abit (toggle net_root 2) (64 + 1)"
    by (simp only: abit_toggle) simp
  then have ne: "toggle net_root 1 \<noteq> toggle net_root 2" by metis
  have h: "hamming net_root (toggle net_root 2) = 1" using hamming_upto_toggle [of 2 64 net_root] by (simp add: hamming_upto_commute)
  have "is_succesor net_root (sample_neighbor (toggle net_root 2) 1)"
    using check_succesor_child [of 2 "sample_neighbor (toggle net_root 2) 1" net_root] by (simp add: is_succesor_def)
  then show ?thesis
    using check_neighbors_ages [of ?s] ne h by (auto simp add: expired_def N_INACT_def age_def recovered_def)
qed

text \<open>The root address ends with the bit 1, and so does every address made
  from it. A successor that differs in the last word before that bit is never recognised, so its
  address space is not recovered.\<close>

theorem check_succesor_last_word:
  assumes "48 \<le> m" and "m < 63" and "n_prim_addr n = toggle a m" and "abit a (64 + 63)"
  shows "check_succesor a n = Inr 0"
proof -
  have m: "m < 64" and w: "16 * (m div 16) + 16 = 64" using assms(1,2) by auto
  have "abit a (64 + m) \<noteq> abit (n_prim_addr n) (64 + m)" using m assms(3) by (simp add: abit_toggle)
  moreover have "in_space a (n_prim_addr n) m"
    using in_space_sym [OF in_space_toggle [OF m order_refl]] assms(3) by simp
  moreover have "\<exists>k. m < k \<and> k < 64 \<and> (abit a (64 + k) \<or> abit (n_prim_addr n) (64 + k))"
    using assms(2,4) by (intro exI [of _ 63]) simp
  ultimately show ?thesis
    using check_succesor_first_difference [OF m, of a n "16 * (m div 16) + 16"] unfolding w by simp
qed

theorem check_succesor_last_word_witness: "check_succesor net_root (sample_neighbor (toggle net_root 50) 1) = Inr 0"
  using abit_net_root [of 63] by (intro check_succesor_last_word [of 50]) simp_all

text \<open>When the first differing word passes the test and a later word differs
  too, the loop over equal bits never ends: aging such a neighbour hangs the daemon.\<close>

theorem check_succesor_diverges:
  assumes "distinct (map n_prim_addr (neigh_table s))" and "neigh_table s = n # ns" and "expired n"
    and "m < 64" and "abit (prim_addr s) (64 + m) \<noteq> abit (n_prim_addr n) (64 + m)"
    and "in_space (prim_addr s) (n_prim_addr n) m"
    and "\<forall>k. m < k \<and> k < 16 * (m div 16) + 16 \<longrightarrow> \<not> abit (prim_addr s) (64 + k) \<and> \<not> abit (n_prim_addr n) (64 + k)"
    and "16 * (m div 16) + 16 \<le> k" and "k < 64" and "abit (prim_addr s) (64 + k) \<noteq> abit (n_prim_addr n) (64 + k)"
  shows "check_neighbors s = Inl Diverges"
proof -
  have "check_succesor (prim_addr s) n = Inl Diverges"
    using check_succesor_first_difference [OF assms(4-6) refl] assms(7-10) by auto
  moreover have "\<not> n_count n < N_INACT" and "n_count n \<noteq> 0" and "n_count n \<noteq> -1"
    using assms(3) expired_bounds [OF assms(3)] by (auto simp add: expired_def)
  ultimately show ?thesis using assms(2,3) by (simp add: check_neighbors_def expired_def)
qed

theorem check_succesor_diverges_witness:
  "check_neighbors (sample_node\<lparr>neigh_table := [sample_neighbor (toggle (toggle net_root 0) 16) 1]\<rparr>) = Inl Diverges"
proof (rule check_succesor_diverges [of _ "sample_neighbor (toggle (toggle net_root 0) 16) 1" "[]" 0 16])
  let ?b = "toggle (toggle net_root 0) 16"
  have b: "abit ?b (64 + k) \<longleftrightarrow> (if k = 0 \<or> k = 16 then \<not> abit net_root (64 + k) else abit net_root (64 + k))" for k
    by (simp add: abit_toggle)
  show "\<forall>k. 0 < k \<and> k < 16 * (0 div 16) + 16 \<longrightarrow>
      \<not> abit (prim_addr (sample_node\<lparr>neigh_table := [sample_neighbor ?b 1]\<rparr>)) (64 + k) \<and>
      \<not> abit (n_prim_addr (sample_neighbor ?b 1)) (64 + k)"
    by (auto simp add: b)
  show "abit (prim_addr (sample_node\<lparr>neigh_table := [sample_neighbor ?b 1]\<rparr>)) (64 + 0) \<noteq>
      abit (n_prim_addr (sample_neighbor ?b 1)) (64 + 0)"
    using b [of 0] by simp
  show "abit (prim_addr (sample_node\<lparr>neigh_table := [sample_neighbor ?b 1]\<rparr>)) (64 + 16) \<noteq>
      abit (n_prim_addr (sample_neighbor ?b 1)) (64 + 16)"
    using b [of 16] by simp
qed (simp_all add: expired_def N_INACT_def in_space_def)

end
