(* ===== verification/Secondary.thy ===== *)
theory Secondary
  imports Neighbors
begin

text \<open>
  Secondary addresses (\<open>secondary.c\<close>): a node that hears a neighbour at a distance greater than one
  proposes to it (SAP) an address of the node's own space that is at distance one from both; the
  other side confirms (SAN) and records the link in \<open>n_s_l_table\<close>. A packet is built in freshly
  allocated memory, so the fields the code does not set are those of \<open>ctrl_junk\<close>.
\<close>

section \<open>The table of secondary links\<close>

definition init_tables_secondary_link :: "node \<Rightarrow> node" where
  "init_tables_secondary_link s =
     (if n_s_l_table s = [] then s\<lparr>n_s_l_table := [\<lparr>l_addr = zero_addr, l_mask = 0\<rparr>]\<rparr> else s)"

definition n_s_l_insert :: "n_s_l \<Rightarrow> n_s_l list \<Rightarrow> n_s_l list result" where
  "n_s_l_insert e tab =
     (case tab of
        [] \<Rightarrow> Inl Null_Deref
      | it # rest \<Rightarrow> if l_addr it = zero_addr then Inr [e] else Inr (it # rest @ [e]))"

definition add_n_s_l_table :: "in6_addr \<Rightarrow> byte \<Rightarrow> handler" where
  "add_n_s_l_table addr msk s =
     bind (n_s_l_insert \<lparr>l_addr = addr, l_mask = msk\<rparr> (n_s_l_table s)) (\<lambda>tab. Inr (s\<lparr>n_s_l_table := tab\<rparr>))"

definition del_n_s_l_table :: "in6_addr \<Rightarrow> node \<Rightarrow> int \<times> node" where
  "del_n_s_l_table addr s =
     (if addr \<in> l_addr ` set (n_s_l_table s)
      then (0, s\<lparr>n_s_l_table := unlink_by l_addr addr (n_s_l_table s)\<rparr>)
      else (-1, s))"

definition check_addr_in_n_s_l_table :: "in6_addr \<Rightarrow> node \<Rightarrow> bool" where
  "check_addr_in_n_s_l_table addr s = list_ex (\<lambda>it. l_addr it = addr) (n_s_l_table s)"

text \<open>
  The clean-up loop. Its test is the assignment \<open>flag=0\<close>, whose value is 0, so the branch that
  deletes is never taken and the flag is reset in both branches.
\<close>

fun check_n_s_l_loop :: "n_s_l list \<Rightarrow> bool \<Rightarrow> node \<Rightarrow> node" where
  "check_n_s_l_loop [] flag s = s"
| "check_n_s_l_loop (it1 # rest) flag s =
     (let flag = fold (\<lambda>it2 f. if l_addr it1 = n_prim_addr it2 then True else f) (neigh_table s) flag;
          assigned = False; flag = assigned
      in if assigned then check_n_s_l_loop rest flag (snd (del_n_s_l_table (l_addr it1) s))
         else check_n_s_l_loop rest False s)"

definition check_n_s_l_table :: "node \<Rightarrow> node" where
  "check_n_s_l_table s =
     (let s = check_n_s_l_loop (n_s_l_table s) False s
      in if n_s_l_table s = [] then s\<lparr>flag_neigh_by_second := False\<rparr> else s)"

section \<open>Proposal and confirmation\<close>

text \<open>\<open>neighbor_aux\<close> with the node's own address and mask, for \<open>dist\<close>.\<close>

definition self_neighbor :: "node \<Rightarrow> neighbor" where
  "self_neighbor s = \<lparr>n_prim_addr = prim_addr s, n_sec_addr_conn = 0, n_count = 0, n_prim_mask = prim_mask s,
     n_prim_mask_inicial = 0, n_available = 0\<rparr>"

definition san_t_handler :: "node \<Rightarrow> node" where
  "san_t_handler s = (if \<not> flag_addr_avai s then s\<lparr>flag_addr_avai := True\<rparr> else s)"

definition sap_pkt :: "env \<Rightarrow> in6_addr \<Rightarrow> byte \<Rightarrow> node \<Rightarrow> ctrl_pkt" where
  "sap_pkt E sec msk s =
     (ctrl_junk E)\<lparr>pkt_type_f := SAP, p_prim_addr := prim_addr s, p_src_addr := prim_addr s,
       ad_addr := (ad_addr (ctrl_junk E))\<lparr>a_addr := sec, a_mask := msk, a_red_numero := red_numero s\<rparr>\<rparr>"

definition send_sap1 :: "env \<Rightarrow> int \<Rightarrow> in6_addr \<Rightarrow> in6_addr \<Rightarrow> byte \<Rightarrow> node \<Rightarrow> node" where
  "send_sap1 E sock dst sec msk s =
     (if \<not> flag_addr_avai s then s
      else if dist sec (self_neighbor s) \<noteq> 1 then s
      else
        let s1 = arm_timer San_T T_SAN s;
            s2 = antop_socket_send E (Ctrl (sap_pkt E sec msk s)) dst sock ANTOP_PORT s1
        in s2\<lparr>flag_addr_avai := False\<rparr>)"

definition san_pkt :: "in6_addr \<Rightarrow> byte \<Rightarrow> byte \<Rightarrow> node \<Rightarrow> ctrl_pkt" where
  "san_pkt sec msk prim_mask_source s =
     null_ctrl\<lparr>pkt_type_f := SAN, p_prim_addr := prim_addr s, p_src_addr := prim_addr s,
       ad_addr := (ad_addr null_ctrl)\<lparr>a_addr := sec, a_mask := msk, a_red_numero := red_numero s,
         t_lenght := prim_mask_source\<rparr>\<rparr>"

definition send_san1 :: "env \<Rightarrow> int \<Rightarrow> in6_addr \<Rightarrow> in6_addr \<Rightarrow> byte \<Rightarrow> byte \<Rightarrow> node \<Rightarrow> node" where
  "send_san1 E sock dst sec msk prim_mask_source s =
     antop_socket_send E (Ctrl (san_pkt sec msk prim_mask_source s)) dst sock ANTOP_PORT s"

definition process_sap1 :: "env \<Rightarrow> ctrl_pkt \<Rightarrow> handler" where
  "process_sap1 E msg s =
     (let s = (init_tables_secondary_link s)\<lparr>flag_neigh_by_second := True\<rparr>
      in bind (add_n_s_l_table (a_addr (ad_addr msg)) (a_mask (ad_addr msg)) s) (\<lambda>s.
           Inr (send_san1 E (socket_global s) (p_src_addr msg) (a_addr (ad_addr msg)) (a_mask (ad_addr msg))
                  (prim_mask s) s)))"

definition process_san1 :: "ctrl_pkt \<Rightarrow> handler" where
  "process_san1 msg s =
     (let msg_aux = msg\<lparr>ad_addr := (ad_addr msg)\<lparr>a_mask := t_lenght (ad_addr msg)\<rparr>\<rparr>;
          s = s\<lparr>sec_addr_flag := True, flag_addr_avai := True, sec_addr := a_addr (ad_addr msg),
                sec_mask := a_mask (ad_addr msg)\<rparr>;
          s = sleep 2 (add (a_addr (ad_addr msg)) s);
          flag = (dist (sec_addr s) (self_neighbor s) = 1);
          s = (if prim_mask s < a_mask (ad_addr msg) \<and> flag then s\<lparr>prim_mask := a_mask (ad_addr msg)\<rparr> else s);
          s = snd (del_rcvd_addr_table (a_addr (ad_addr msg)) s)
      in bind (add_neighbor msg_aux False s) (\<lambda>s. Inr (s\<lparr>addr_node_secondary_link := p_prim_addr msg_aux\<rparr>)))"

text \<open>
  Is there a secondary address for the neighbour? First among the recovered ones; then the
  addresses that differ from the primary one in a single later coordinate, whose bit travels to the
  right in \<open>aux1\<close>. The loop does not stop at the first proposal, but \<open>flag_addr_avai\<close> blocks the others.
\<close>

fun chk_sec_loop :: "env \<Rightarrow> neighbor \<Rightarrow> nat \<Rightarrow> in6_addr \<Rightarrow> byte \<Rightarrow> node \<Rightarrow> node" where
  "chk_sec_loop E neigh 0 aux1 prim_mask_aux s = s"
| "chk_sec_loop E neigh (Suc n) aux1 prim_mask_aux s =
     (let aux1 = shift_unos 0 1 aux1;
          prim_mask_aux = prim_mask_aux + 1;
          aux2 = s6_or (prim_addr s) aux1;
          s = (if dist aux2 neigh = 1
               then send_sap1 E (socket_global s) (n_prim_addr neigh) aux2 prim_mask_aux (init_tables_secondary_link s)
               else s)
      in chk_sec_loop E neigh n aux1 prim_mask_aux s)"

definition chk_sec_addr1 :: "env \<Rightarrow> neighbor \<Rightarrow> node \<Rightarrow> node" where
  "chk_sec_addr1 E neigh s =
     (if sec_addr_flag s then s
      else case find (\<lambda>it. dist (r_prim_addr it) neigh = 1) (rcvd_addr s) of
          Some it \<Rightarrow> send_sap1 E (socket_global s) (n_prim_addr neigh) (r_prim_addr it) (r_prim_mask it)
                       (init_tables_secondary_link s)
        | None \<Rightarrow>
            if unat (prim_mask s) \<ge> hc_dim s then s
            else chk_sec_loop E neigh (128 - (hc_dim s + unat (prim_mask s)))
                   (shift_unos 0 (hc_dim s + unat (prim_mask s) - 1) uno) (prim_mask s) s)"

text \<open>Gives the secondary address back when the link it served is gone.\<close>

definition check_neigh_of_secondary_address :: "node \<Rightarrow> node" where
  "check_neigh_of_secondary_address s =
     (if sec_addr_flag s then
        let flag = (if dist (sec_addr s) (self_neighbor s) \<noteq> 1 then False
                    else list_ex (\<lambda>it. n_prim_addr it = addr_node_secondary_link s \<and> dist (sec_addr s) it = 1)
                           (neigh_table s))
        in if \<not> flag then
             let neighbor_aux = \<lparr>n_prim_addr = sec_addr s, n_sec_addr_conn = 0, n_count = 0, n_prim_mask = sec_mask s,
                     n_prim_mask_inicial = sec_mask s, n_available = 0\<rparr>;
                 aux = sec_addr s;
                 s = s\<lparr>sec_addr_flag := False, sec_addr := zero_addr, addr_node_secondary_link := zero_addr\<rparr>;
                 s = (if prim_mask s = sec_mask s then s\<lparr>prim_mask := prim_mask s - 1, sec_mask := 0\<rparr>
                      else recover_addr_space neighbor_aux (s\<lparr>sec_mask := 0\<rparr>))
             in sleep 2 (del aux s)
           else s
      else s)"

section \<open>Lemmas\<close>

interpretation link_tab: sentinel_table l_addr "unlink_by l_addr" zero_addr n_s_l_insert
  by unfold_locales (auto simp add: n_s_l_insert_def unlink_by_filter intro: subsetD [OF unlink_by_filter(3)])

lemma self_neighbor_addr [simp]: "n_prim_addr (self_neighbor s) = prim_addr s"
  by (simp add: self_neighbor_def)

lemma check_n_s_l_loop_id: "check_n_s_l_loop ls flag s = s"
  by (induction ls flag s rule: check_n_s_l_loop.induct) (auto simp add: Let_def)

text \<open>The two effects of a proposal.\<close>

definition sap_effects :: "env \<Rightarrow> in6_addr \<Rightarrow> in6_addr \<Rightarrow> byte \<Rightarrow> node \<Rightarrow> effect list" where
  "sap_effects E dst sec msk s =
     [Arm_Timer San_T T_SAN, Sendmsg (Ctrl (sap_pkt E sec msk s)) (src_addr E s) dst (socket_global s) ANTOP_PORT]"

lemma send_sap1_result:
  "send_sap1 E (socket_global s) d sec msk s =
     (if flag_addr_avai s \<and> hamming sec (prim_addr s) = 1
      then s\<lparr>flag_addr_avai := False, trace := trace s @ sap_effects E d sec msk s\<rparr> else s)"
  by (simp add: send_sap1_def arm_timer_def antop_socket_send_def emit_def sap_effects_def src_addr_def Let_def)

lemma sap_pkt_link_table [simp]:
  "sap_pkt E sec msk (s\<lparr>n_s_l_table := t\<rparr>) = sap_pkt E sec msk s"
  "src_addr E (s\<lparr>n_s_l_table := t\<rparr>) = src_addr E s"
  by (simp_all add: sap_pkt_def src_addr_def)

text \<open>Addresses whose proposal the loop tries: one later coordinate added to the primary address.\<close>

lemma chk_sec_loop_blocked:
  "\<not> flag_addr_avai s \<Longrightarrow> \<exists>t. chk_sec_loop E neigh n aux1 m s = s\<lparr>n_s_l_table := t\<rparr>"
proof (induction n arbitrary: aux1 m s)
  case 0
  then show ?case by (auto intro: exI [of _ "n_s_l_table s"])
next
  case (Suc n)
  define a where "a = shift_unos 0 1 aux1"
  define s1 where "s1 = (if hamming (s6_or (prim_addr s) a) (n_prim_addr neigh) = 1 then init_tables_secondary_link s else s)"
  have s1: "\<exists>t. s1 = s\<lparr>n_s_l_table := t\<rparr>"
    by (auto simp add: s1_def init_tables_secondary_link_def intro: exI [of _ "n_s_l_table s"])
  then have "\<not> flag_addr_avai s1" using Suc.prems by auto
  from Suc.IH [OF this, of a "m + 1"] s1
  have "\<exists>t. chk_sec_loop E neigh n a (m + 1) s1 = s\<lparr>n_s_l_table := t\<rparr>" by auto
  moreover have "chk_sec_loop E neigh (Suc n) aux1 m s = chk_sec_loop E neigh n a (m + 1) s1"
    using Suc.prems
    by (simp add: Let_def a_def s1_def send_sap1_def init_tables_secondary_link_def)
  ultimately show ?case by simp
qed

lemma sap_effects_table [simp]:
  "sap_effects E d sec k (s\<lparr>n_s_l_table := t\<rparr>) = sap_effects E d sec k s"
  by (simp add: sap_effects_def)

text \<open>\<open>s'\<close> differs from \<open>s\<close> in the table of links, and at most by one proposal to \<open>neigh\<close>.\<close>

definition proposal_for :: "in6_addr \<Rightarrow> neighbor \<Rightarrow> node \<Rightarrow> bool" where
  "proposal_for sec neigh s \<longleftrightarrow> hamming sec (prim_addr s) = 1 \<and> hamming sec (n_prim_addr neigh) = 1"

definition one_sap :: "env \<Rightarrow> neighbor \<Rightarrow> node \<Rightarrow> node \<Rightarrow> bool" where
  "one_sap E neigh s s' \<longleftrightarrow> (\<exists>t. s' = s\<lparr>n_s_l_table := t\<rparr>) \<or>
     (\<exists>t sec k. flag_addr_avai s \<and> proposal_for sec neigh s \<and>
        s' = s\<lparr>n_s_l_table := t, flag_addr_avai := False, trace := trace s @ sap_effects E (n_prim_addr neigh) sec k s\<rparr>)"

lemma one_sap_refl: "one_sap E neigh s s"
  unfolding one_sap_def by (rule disjI1, rule exI [of _ "n_s_l_table s"]) simp

lemma one_sap_table: "one_sap E neigh (s\<lparr>n_s_l_table := t\<rparr>) s' \<Longrightarrow> one_sap E neigh s s'"
  by (simp add: one_sap_def proposal_for_def)

lemma one_sap_init: "one_sap E neigh (init_tables_secondary_link s) s' \<Longrightarrow> one_sap E neigh s s'"
  by (auto simp add: init_tables_secondary_link_def split: if_splits intro: one_sap_table)

lemma one_sap_send:
  "hamming sec (n_prim_addr neigh) = 1 \<Longrightarrow>
     one_sap E neigh s (send_sap1 E (socket_global s) (n_prim_addr neigh) sec k s)"
  unfolding send_sap1_result
proof (split if_split, intro conjI impI)
  assume "hamming sec (n_prim_addr neigh) = 1" and "flag_addr_avai s \<and> hamming sec (prim_addr s) = 1"
  then show "one_sap E neigh s (s\<lparr>flag_addr_avai := False, trace := trace s @ sap_effects E (n_prim_addr neigh) sec k s\<rparr>)"
    unfolding one_sap_def proposal_for_def
    by (intro disjI2 exI [of _ "n_s_l_table s"] exI [of _ sec] exI [of _ k]) simp
qed (rule one_sap_refl)

lemma chk_sec_loop_result: "one_sap E neigh s (chk_sec_loop E neigh n aux1 m s)"
proof (induction n arbitrary: aux1 m s)
  case 0
  then show ?case by (simp add: one_sap_refl)
next
  case (Suc n)
  define a where "a = shift_unos 0 1 aux1"
  define sec where "sec = s6_or (prim_addr s) a"
  define s0 where "s0 = init_tables_secondary_link s"
  obtain t0 where s0: "s0 = s\<lparr>n_s_l_table := t0\<rparr>"
    by (cases "n_s_l_table s = []") (auto simp add: s0_def init_tables_secondary_link_def intro: that [of "n_s_l_table s"])
  show ?case
  proof (cases "hamming sec (n_prim_addr neigh) = 1")
    case False
    then have "chk_sec_loop E neigh (Suc n) aux1 m s = chk_sec_loop E neigh n a (m + 1) s"
      by (simp add: Let_def a_def sec_def)
    then show ?thesis using Suc.IH [of s a "m + 1"] by simp
  next
    case True
    define s1 where "s1 = send_sap1 E (socket_global s) (n_prim_addr neigh) sec (m + 1) s0"
    have step: "chk_sec_loop E neigh (Suc n) aux1 m s = chk_sec_loop E neigh n a (m + 1) s1"
      using True by (simp add: Let_def a_def sec_def s0_def s1_def)
    have "one_sap E neigh s0 s1"
      using one_sap_send [OF True, of E s0 "m + 1"] by (simp add: s1_def s0)
    then consider t where "s1 = s0\<lparr>n_s_l_table := t\<rparr>"
      | t sec k where "flag_addr_avai s0" "proposal_for sec neigh s0"
          "s1 = s0\<lparr>n_s_l_table := t, flag_addr_avai := False, trace := trace s0 @ sap_effects E (n_prim_addr neigh) sec k s0\<rparr>"
      unfolding one_sap_def by blast
    then show ?thesis
    proof cases
      case (1 t)
      then show ?thesis using Suc.IH [of s1 a "m + 1"] unfolding step by (simp add: s0 one_sap_table)
    next
      case (2 t sec k)
      then obtain t' where "chk_sec_loop E neigh n a (m + 1) s1 = s1\<lparr>n_s_l_table := t'\<rparr>"
        using chk_sec_loop_blocked [of s1 E neigh n a "m + 1"] by auto
      then have "one_sap E neigh s0 (chk_sec_loop E neigh n a (m + 1) s1)"
        using 2 unfolding one_sap_def by (intro disjI2 exI [of _ t'] exI [of _ sec] exI [of _ k]) simp
      then show ?thesis unfolding step s0 by (rule one_sap_table)
    qed
  qed
qed

lemma chk_sec_addr1_result: "one_sap E neigh s (chk_sec_addr1 E neigh s)"
proof (cases "find (\<lambda>it. dist (r_prim_addr it) neigh = 1) (rcvd_addr s)")
  case None
  then show ?thesis by (simp add: chk_sec_addr1_def one_sap_refl chk_sec_loop_result)
next
  case (Some it)
  then have "hamming (r_prim_addr it) (n_prim_addr neigh) = 1" by (auto simp add: find_Some_iff)
  from one_sap_send [OF this, of E "init_tables_secondary_link s"]
  have "one_sap E neigh s (send_sap1 E (socket_global (init_tables_secondary_link s)) (n_prim_addr neigh) (r_prim_addr it)
      (r_prim_mask it) (init_tables_secondary_link s))" by (rule one_sap_init)
  moreover have "socket_global (init_tables_secondary_link s) = socket_global s"
    by (simp add: init_tables_secondary_link_def)
  ultimately show ?thesis using Some by (simp add: chk_sec_addr1_def one_sap_refl)
qed

lemma process_sap1_result:
  "\<exists>t. process_sap1 E msg s =
      Inr (s\<lparr>flag_neigh_by_second := True, n_s_l_table := t,
        trace := trace s @ [Sendmsg (Ctrl (san_pkt (a_addr (ad_addr msg)) (a_mask (ad_addr msg)) (prim_mask s) s))
          (src_addr E s) (p_src_addr msg) (socket_global s) ANTOP_PORT]\<rparr>) \<and>
     \<lparr>l_addr = a_addr (ad_addr msg), l_mask = a_mask (ad_addr msg)\<rparr> \<in> set t"
proof -
  define s1 where "s1 = (init_tables_secondary_link s)\<lparr>flag_neigh_by_second := True\<rparr>"
  define e where "e = \<lparr>l_addr = a_addr (ad_addr msg), l_mask = a_mask (ad_addr msg)\<rparr>"
  have "n_s_l_table s1 \<noteq> []" by (simp add: s1_def init_tables_secondary_link_def)
  then obtain t where t: "n_s_l_insert e (n_s_l_table s1) = Inr t" using link_tab.ins_total by blast
  then have "e \<in> set t" by (auto simp add: n_s_l_insert_def split: list.splits if_splits)
  moreover have "s1\<lparr>n_s_l_table := t\<rparr> = s\<lparr>flag_neigh_by_second := True, n_s_l_table := t\<rparr>"
    by (simp add: s1_def init_tables_secondary_link_def)
  ultimately show ?thesis
    using t by (intro exI [of _ t])
      (simp add: process_sap1_def Let_def s1_def [symmetric] add_n_s_l_table_def e_def [symmetric] send_san1_def
        antop_socket_send_def emit_def src_addr_def san_pkt_def)
qed

section \<open>Properties\<close>

text \<open>For a neighbour out of reach a node without secondary address sends at most
  one proposal, and only while no other one is unanswered; the proposed address is at distance one
  from the node and at distance one from the neighbour, and further proposals are blocked.\<close>

theorem secondary_proposal:
  "trace (chk_sec_addr1 E neigh s) = trace s \<or>
   (\<not> sec_addr_flag s \<and> flag_addr_avai s \<and> \<not> flag_addr_avai (chk_sec_addr1 E neigh s) \<and>
    (\<exists>p src. trace (chk_sec_addr1 E neigh s) =
        trace s @ [Arm_Timer San_T T_SAN, Sendmsg (Ctrl p) src (n_prim_addr neigh) (socket_global s) ANTOP_PORT] \<and>
      pkt_type_f p = SAP \<and> p_prim_addr p = prim_addr s \<and> a_red_numero (ad_addr p) = red_numero s \<and>
      hamming (a_addr (ad_addr p)) (prim_addr s) = 1 \<and> hamming (a_addr (ad_addr p)) (n_prim_addr neigh) = 1))"
proof (cases "sec_addr_flag s")
  case True
  then show ?thesis by (simp add: chk_sec_addr1_def)
next
  case False
  from chk_sec_addr1_result [of E neigh s] consider t where "chk_sec_addr1 E neigh s = s\<lparr>n_s_l_table := t\<rparr>"
    | t sec k where "flag_addr_avai s" "proposal_for sec neigh s" "chk_sec_addr1 E neigh s =
        s\<lparr>n_s_l_table := t, flag_addr_avai := False, trace := trace s @ sap_effects E (n_prim_addr neigh) sec k s\<rparr>"
    unfolding one_sap_def by blast
  then show ?thesis
  proof cases
    case (2 t sec k)
    then show ?thesis using False
      by (intro disjI2 conjI exI [of _ "sap_pkt E sec k s"] exI [of _ "src_addr E s"])
        (simp_all add: sap_effects_def sap_pkt_def proposal_for_def)
  qed simp
qed

text \<open>C14: When a neighbour confirms a proposed secondary address (SAP answered by SAN), the proposer itself takes
  exactly the address and mask it has proposed as its secondary address, linked to the confirming node, which becomes its
  neighbour; the confirming node has recorded the link, and the proposer may propose again. The proposer has a neighbour table already, and the
  confirming node has an address.\<close>

theorem secondary_handshake:
  assumes "process_sap1 E msg b = Inr b'" and "last (trace b') = Sendmsg (Ctrl san) src d sock port"
    and "neigh_table a \<noteq> []" and "prim_addr b \<noteq> zero_addr"
  shows "d = p_src_addr msg \<and> check_addr_in_n_s_l_table (a_addr (ad_addr msg)) b' \<and>
    (\<exists>a'. process_san1 san a = Inr a' \<and> sec_addr_flag a' \<and> sec_addr a' = a_addr (ad_addr msg) \<and>
       sec_mask a' = a_mask (ad_addr msg) \<and> addr_node_secondary_link a' = prim_addr b \<and> flag_addr_avai a' \<and>
       prim_addr b \<in> n_prim_addr ` set (neigh_table a'))"
proof -
  obtain t where b': "b' = b\<lparr>flag_neigh_by_second := True, n_s_l_table := t,
        trace := trace b @ [Sendmsg (Ctrl (san_pkt (a_addr (ad_addr msg)) (a_mask (ad_addr msg)) (prim_mask b) b))
          (src_addr E b) (p_src_addr msg) (socket_global b) ANTOP_PORT]\<rparr>"
    and t: "\<lparr>l_addr = a_addr (ad_addr msg), l_mask = a_mask (ad_addr msg)\<rparr> \<in> set t"
    using process_sap1_result [of E msg b] assms(1) by auto
  have san: "san = san_pkt (a_addr (ad_addr msg)) (a_mask (ad_addr msg)) (prim_mask b) b" and d: "d = p_src_addr msg"
    using assms(2) by (simp_all add: b')
  have link: "check_addr_in_n_s_l_table (a_addr (ad_addr msg)) b'"
    using t by (auto simp add: check_addr_in_n_s_l_table_def b' list_ex_iff intro!: bexI [OF _ t])
  obtain n ns where tab: "neigh_table a = n # ns" using assms(3) by (cases "neigh_table a") auto
  show ?thesis
    using d link
    by (auto simp add: san process_san1_def san_pkt_def null_ctrl_def Let_def io_defs emit_def add_neighbor_def
        del_rcvd_addr_table_def tab neigh_insert_def hb_neighbor_def)
qed

theorem secondary_handshake_witness:
  "\<exists>a' b'. process_sap1 sample_env (sap_pkt sample_env (toggle net_root 3) 4 sample_node) sample_node = Inr b' \<and>
     process_san1 (san_pkt (toggle net_root 3) 4 0 sample_node) (sample_node\<lparr>neigh_table := [sample_neighbor net_default 0]\<rparr>) = Inr a' \<and>
     sec_addr a' = toggle net_root 3"
proof -
  let ?msg = "sap_pkt sample_env (toggle net_root 3) 4 sample_node"
  let ?a = "sample_node\<lparr>neigh_table := [sample_neighbor net_default 0]\<rparr>"
  have addr: "a_addr (ad_addr ?msg) = toggle net_root 3" "a_mask (ad_addr ?msg) = 4"
    by (simp_all add: sap_pkt_def)
  obtain b' where b: "process_sap1 sample_env ?msg sample_node = Inr b'" and
    last: "last (trace b') = Sendmsg (Ctrl (san_pkt (toggle net_root 3) 4 0 sample_node))
      (src_addr sample_env sample_node) (p_src_addr ?msg) 3 ANTOP_PORT"
    using process_sap1_result [of sample_env ?msg sample_node] by (auto simp add: addr)
  have "prim_addr sample_node \<noteq> zero_addr" by (simp add: net_root_def zero_addr_def)
  from secondary_handshake [OF b last, of ?a] this b show ?thesis by (auto simp add: addr)
qed

text \<open>A confirmation that reaches a node without neighbour table makes the
  daemon dereference a null pointer; the handler does not ask whether a proposal is pending.\<close>

theorem san_without_table_faults:
  assumes "neigh_table s = []"
  shows "process_san1 msg s = Inl Null_Deref"
  using assms
  by (simp add: process_san1_def Let_def io_defs emit_def add_neighbor_def del_rcvd_addr_table_def neigh_insert_def)

theorem san_without_table_faults_witness: "process_san1 null_ctrl sample_node = Inl Null_Deref"
  by (rule san_without_table_faults) simp

text \<open>\<open>check_n_s_l_table\<close> is meant to delete the links whose neighbour has gone;
  it deletes none, whatever the neighbours are, and so the flag of a node with links stays set.\<close>

theorem links_never_pruned:
  "n_s_l_table (check_n_s_l_table s) = n_s_l_table s \<and>
   flag_neigh_by_second (check_n_s_l_table s) = (flag_neigh_by_second s \<and> n_s_l_table s \<noteq> [])"
  by (simp add: check_n_s_l_table_def Let_def check_n_s_l_loop_id)

text \<open>C39: A node keeps its secondary address only while it is at distance one
  from the primary address and from the linked neighbour, which must be in the table. Otherwise it
  removes the address and the space is not lost: it goes back to the node's own space, or to the
  recovered ones.\<close>

theorem secondary_kept_or_returned:
  assumes "sec_addr_flag s"
  defines "linked \<equiv> hamming (sec_addr s) (prim_addr s) = 1 \<and>
      (\<exists>n\<in>set (neigh_table s). n_prim_addr n = addr_node_secondary_link s \<and> hamming (sec_addr s) (n_prim_addr n) = 1)"
    and "s' \<equiv> check_neigh_of_secondary_address s"
  shows "if linked then s' = s
    else \<not> sec_addr_flag s' \<and> sec_addr s' = zero_addr \<and> sec_mask s' = 0 \<and>
      trace s' = trace s @ [Ifaddr_Del (sec_addr s), Sleep 2] \<and>
      (if prim_mask s = sec_mask s then prim_mask s' = prim_mask s - 1 \<and> rcvd_addr s' = rcvd_addr s
       else prim_mask s' = prim_mask s \<and>
         rcvd_addr s' = rcvd_addr s @ [\<lparr>r_prim_mask = sec_mask s, r_prim_addr = sec_addr s\<rparr>])"
proof (cases linked)
  case True
  then have "s' = s"
    using assms(1) unfolding linked_def s'_def check_neigh_of_secondary_address_def by (auto simp add: Let_def list_ex_iff)
  then show ?thesis using True by simp
next
  case False
  then show ?thesis
    using assms(1) unfolding linked_def s'_def check_neigh_of_secondary_address_def
    by (auto simp add: Let_def list_ex_iff io_defs emit_def recover_addr_space_def)
qed

theorem secondary_kept_or_returned_witness:
  "rcvd_addr (check_neigh_of_secondary_address
      (sample_node\<lparr>sec_addr_flag := True, sec_addr := toggle net_root 3, sec_mask := 4\<rparr>)) =
     [\<lparr>r_prim_mask = 4, r_prim_addr = toggle net_root 3\<rparr>]"
  using secondary_kept_or_returned [of "sample_node\<lparr>sec_addr_flag := True, sec_addr := toggle net_root 3, sec_mask := 4\<rparr>"]
  by (simp split: if_splits)

end
