(* ===== verification/Fragmentacion.thy ===== *)
theory Fragmentacion
  imports Secondary
begin

text \<open>
  Fragmentation (\<open>fragmentacion.c\<close>): a node that has lost its neighbour towards the root and does not
  reach the root any more (\<open>ping6\<close> returns 0) becomes the root of a new network. Its address and those of
  its descendants are shifted to the left; FAR messages carry the shift down the tree, FAN messages
  acknowledge it. The loops over the neighbour table delete the entries they visit; \<open>delete_neighbor\<close>
  leaves \<open>it->next\<close> as it was, so such a loop visits the entries of the table as it was at its start.
\<close>

section \<open>Messages\<close>

definition send_far :: "env \<Rightarrow> int \<Rightarrow> in6_addr \<Rightarrow> in6_addr \<Rightarrow> in6_addr \<Rightarrow> node \<Rightarrow> node" where
  "send_far E sock src dst src_old s =
     (let far = (ctrl_junk E)\<lparr>pkt_type_f := FAR, p_src_addr := src_old, p_prim_addr := src,
            ad_addr := (ad_addr (ctrl_junk E))\<lparr>a_addr := dst, a_mask := prim_mask_inicial s,
              a_red_numero := red_numero s\<rparr>\<rparr>
      in antop_socket_send E (Ctrl far) dst sock ANTOP_PORT s)"

definition send_fan :: "env \<Rightarrow> int \<Rightarrow> in6_addr \<Rightarrow> in6_addr \<Rightarrow> node \<Rightarrow> node" where
  "send_fan E sock src dst s =
     (let fan = (ctrl_junk E)\<lparr>pkt_type_f := FAN, p_src_addr := src,
            ad_addr := (ad_addr (ctrl_junk E))\<lparr>a_red_numero := red_numero s\<rparr>\<rparr>
      in antop_socket_send E (Ctrl fan) dst sock ANTOP_PORT s)"

text \<open>
  \<open>borrar_tabla_de_rutas\<close> (\<open>funciones.c\<close>): the condition of its loop is \<open>rt->next, i++\<close>, whose value is
  the old \<open>i\<close>, which is 0 at the first test; were it not, \<open>rt\<close> would never advance.
\<close>

definition borrar_tabla_de_rutas :: "route list \<Rightarrow> handler" where
  "borrar_tabla_de_rutas rt s =
     (let i = (0 :: int); condition = i
      in if rt = [] then Inl Null_Deref
         else if condition \<noteq> 0 then Inl Diverges
         else Inr s)"

definition borrar_rutas :: handler where
  "borrar_rutas s = (if route_t s \<noteq> [] then borrar_tabla_de_rutas (route_t s) s else Inr s)"

section \<open>A new root\<close>

text \<open>The shift of an entry of the recovered addresses.\<close>

definition shift_rcvd :: "nat \<Rightarrow> byte \<Rightarrow> in6_addr \<Rightarrow> recovered_addr \<Rightarrow> recovered_addr" where
  "shift_rcvd dim msk rt it2 =
     it2\<lparr>r_prim_addr := shift dim 1 (unat msk) rt (r_prim_addr it2), r_prim_mask := r_prim_mask it2 - msk\<rparr>"

text \<open>The neighbours that are announced the shift; the neighbour of the secondary link is only deleted.\<close>

definition far_cycle :: "env \<Rightarrow> in6_addr \<Rightarrow> in6_addr \<Rightarrow> node \<Rightarrow> node" where
  "far_cycle E aux1 aux2 s =
     fold (\<lambda>it s.
        if sec_addr_flag s \<and> dist (sec_addr s) it = 1 then snd (delete_neighbor it s)
        else snd (delete_neighbor it (send_far E (socket_global s) aux1 (n_prim_addr it) aux2 s)))
       (neigh_table s) s"

definition fragmentacion :: "env \<Rightarrow> handler" where
  "fragmentacion E s =
     (let root_aux = root s; aux1 = prim_addr s; aux2 = prim_addr s;
          s = s\<lparr>flag_fragmentacion := True\<rparr>;
          s = (if sec_addr_flag s then s\<lparr>flag_fragmentacion_primaria := True\<rparr> else s);
          s = s\<lparr>red_numero := word_of_int (mac_address E)\<rparr>;
          aux1 = shift (hc_dim s) 1 (unat (prim_mask_inicial s)) root_aux aux1;
          s = s\<lparr>prim_addr := aux1\<rparr>;
          s = sleep 2 (del_and_addnew aux2 aux1 1 s);
          s = s\<lparr>prim_mask := prim_mask s - prim_mask_inicial s\<rparr>;
          s = s\<lparr>rcvd_addr := map (shift_rcvd (hc_dim s) (prim_mask_inicial s) root_aux) (rcvd_addr s)\<rparr>
      in bind (borrar_rutas s) (\<lambda>s.
           let s = far_cycle E aux1 aux2 (clear_rv_tables s)
           in Inr (s\<lparr>prim_mask_inicial := 0\<rparr>)))"

text \<open>
  The neighbour towards the root: the last of those at distance one from the node, not linked by
  their secondary address, whose distance to the root is at most the recorded one.
\<close>

definition closest_to_root :: "node \<Rightarrow> neighbor_to_root" where
  "closest_to_root s =
     fold (\<lambda>it n.
        let distance = dist (root s) it; distancia_a_local = dist (prim_addr s) it
        in if distance \<le> nr_distance n \<and> distancia_a_local = 1 \<and> \<not> check_addr_in_n_s_l_table (n_prim_addr it) s
           then \<lparr>nr_addr = n_prim_addr it, nr_distance = distance\<rparr> else n)
       (neigh_table s) (neighbor_to_root s)"

definition detector_de_fragmentacion :: "env \<Rightarrow> handler" where
  "detector_de_fragmentacion E s =
     (if prim_addr s = root s then Inr s
      else
        let s = s\<lparr>neighbor_to_root := closest_to_root s\<rparr>;
            flag = list_ex (\<lambda>it. nr_addr (neighbor_to_root s) = n_prim_addr it) (neigh_table s)
        in if \<not> flag then (if ping6 E (root s) = 0 then fragmentacion E s else Inr s) else Inr s)"

section \<open>The descendants\<close>

definition end_fragmentacion :: "env \<Rightarrow> handler" where
  "end_fragmentacion E s =
     register_rv E (s\<lparr>flag_fragmentacion := False, flag_fragmentacion_primaria := False,
       flag_fragmentacion_secundaria := False\<rparr>)"

text \<open>FAR to the secondary address of the node.\<close>

definition process_far_sec :: "env \<Rightarrow> ctrl_pkt \<Rightarrow> handler" where
  "process_far_sec E msg s =
     (let s = s\<lparr>flag_fragmentacion_secundaria := True\<rparr>; aux1 = sec_addr s; aux2 = root s; aux3 = sec_addr s
      in bind (borrar_rutas s) (\<lambda>s.
         let s = send_fan E (socket_global s) aux1 (p_prim_addr msg) s;
             s = s\<lparr>red_numero := a_red_numero (ad_addr msg)\<rparr>;
             aux1 = shift (hc_dim s) 1 (unat (a_mask (ad_addr msg))) aux2 aux1;
             s = s\<lparr>sec_addr := aux1\<rparr>;
             s = sleep 2 (del_and_addnew aux3 aux1 0 s);
             s = s\<lparr>sec_mask := sec_mask s - a_mask (ad_addr msg)\<rparr>
         in if flag_fragmentacion_primaria s then end_fragmentacion E s else Inr s))"

text \<open>One round of the loop of \<open>process_far\<close>; the flag says whether a FAR was sent.\<close>

definition far_step :: "env \<Rightarrow> ctrl_pkt \<Rightarrow> in6_addr \<Rightarrow> in6_addr \<Rightarrow> neighbor \<Rightarrow> node \<times> bool \<Rightarrow> node \<times> bool" where
  "far_step E msg aux1 aux3 it sf =
     (let (s, flag) = sf
      in if nr_addr (neighbor_to_root s) \<noteq> n_prim_addr it \<and> prim_addr s \<noteq> n_prim_addr it \<and> p_src_addr msg \<noteq> n_prim_addr it
         then if sec_addr_flag s \<and> dist aux3 it > 1 then (snd (delete_neighbor it s), flag)
              else (snd (delete_neighbor it (send_far E (socket_global s) aux1 (n_prim_addr it) aux3 s)), True)
         else if p_src_addr msg = n_prim_addr it then (snd (delete_neighbor it s), flag)
         else (s, flag))"

text \<open>The node moves: parent, confirmation, network number, address and recovered addresses.\<close>

definition far_move :: "env \<Rightarrow> ctrl_pkt \<Rightarrow> node \<Rightarrow> node" where
  "far_move E msg s =
     (let aux1 = prim_addr s; aux2 = root s; aux3 = prim_addr s;
          msk = a_mask (ad_addr msg);
          aux_neighbor = (nb_junk E)\<lparr>n_prim_addr := p_prim_addr msg, n_prim_mask := msk\<rparr>;
          s = s\<lparr>neighbor_to_root := \<lparr>nr_addr = p_prim_addr msg, nr_distance = dist aux2 aux_neighbor\<rparr>\<rparr>;
          s = send_fan E (socket_global s) aux1 (p_prim_addr msg) s;
          s = s\<lparr>red_numero := a_red_numero (ad_addr msg)\<rparr>;
          aux1 = shift (hc_dim s) 1 (unat msk) aux2 aux1;
          s = s\<lparr>prim_addr := aux1\<rparr>;
          s = sleep 2 (del_and_addnew aux3 aux1 1 s)
      in s\<lparr>rcvd_addr := map (shift_rcvd (hc_dim s) msk aux2) (rcvd_addr s)\<rparr>)"

text \<open>The node passes the shift on and takes its new masks; \<open>ini\<close> is its initial mask before.\<close>

definition far_spread :: "env \<Rightarrow> ctrl_pkt \<Rightarrow> in6_addr \<Rightarrow> in6_addr \<Rightarrow> byte \<Rightarrow> handler" where
  "far_spread E msg aux1 aux3 ini s =
     (let msk = a_mask (ad_addr msg);
          (s, flag) = (if prim_mask s \<noteq> ini \<or> flag_neigh_by_second s
                       then fold (far_step E msg aux1 aux3) (neigh_table s) (s, False) else (s, False));
          s = s\<lparr>prim_mask := prim_mask s - msk, prim_mask_inicial := ini - msk\<rparr>
      in if \<not> flag \<and> (\<not> sec_addr_flag s \<or> flag_fragmentacion_secundaria s)
         then end_fragmentacion E s else Inr s)"

definition process_far_prim :: "env \<Rightarrow> ctrl_pkt \<Rightarrow> handler" where
  "process_far_prim E msg s =
     (let s = s\<lparr>flag_fragmentacion_primaria := True\<rparr>;
          aux3 = prim_addr s; aux_prim_mask_inicial = prim_mask_inicial s;
          s = s\<lparr>prim_mask_inicial := a_mask (ad_addr msg)\<rparr>
      in bind (add_neighbor msg False s) (\<lambda>s.
         let s = far_move E msg s
         in bind (borrar_rutas s) (\<lambda>s.
            far_spread E msg (prim_addr s) aux3 aux_prim_mask_inicial (clear_rv_tables s))))"

definition process_far :: "env \<Rightarrow> ctrl_pkt \<Rightarrow> handler" where
  "process_far E msg s =
     (let s = s\<lparr>flag_fragmentacion := True\<rparr>
      in if a_addr (ad_addr msg) = sec_addr s then process_far_sec E msg s
         else process_far_prim E msg s)"

definition process_fan :: "env \<Rightarrow> ctrl_pkt \<Rightarrow> handler" where
  "process_fan E msg s =
     (if flag_fragmentacion s \<and>
         (\<not> sec_addr_flag s \<or> (flag_fragmentacion_primaria s \<and> flag_fragmentacion_secundaria s))
      then end_fragmentacion E s else Inr s)"

text \<open>A node without neighbours starts again from the root address; \<open>sec_addr_flag\<close> is not reset.\<close>

definition check_if_i_am_only :: "env \<Rightarrow> node \<Rightarrow> node" where
  "check_if_i_am_only E s =
     (if neigh_table s = [] \<and> prim_addr s \<noteq> root s then
        (del_and_addnew (prim_addr s) (root s) 2 s)\<lparr>prim_addr := root s, prim_mask := 0, prim_mask_inicial := 0,
          red_numero := word_of_int (mac_address E),
          neighbor_to_root := (neighbor_to_root s)\<lparr>nr_distance := 99\<rparr>,
          sec_mask := 0, sec_addr := zero_addr,
          flag_fragmentacion := False, flag_fragmentacion_primaria := False, flag_fragmentacion_secundaria := False,
          flag_mezcla := False, flag_mezcla_primaria := False, flag_mezcla_secundaria := False, rcvd_addr := []\<rparr>
      else s)"

end
