(* ===== verification/Mezcla.thy ===== *)
theory Mezcla
  imports Fragmentacion
begin

text \<open>
  Merging of networks (\<open>mezcla.c\<close>): a node that hears the heart beat of a network with a larger number
  offers it a part of its own address space. It takes the default address meanwhile and sends MAR1; the
  node that receives it becomes the top of its network in the new one and passes MAR1 to the nodes below
  it and MAR2 to those above; MAN1 and MAN2 acknowledge. Addresses are moved by \<open>shift_mezcla\<close>.
\<close>

section \<open>Messages\<close>

definition mez_pkt :: "env \<Rightarrow> byte \<Rightarrow> in6_addr \<Rightarrow> in6_addr \<Rightarrow> in6_addr \<Rightarrow> byte \<Rightarrow> byte \<Rightarrow> ctrl_pkt" where
  "mez_pkt E ty src prim addr msk red =
     (ctrl_junk E)\<lparr>pkt_type_f := ty, p_src_addr := src, p_prim_addr := prim,
       ad_addr := (ad_addr (ctrl_junk E))\<lparr>a_addr := addr, a_mask := msk, a_red_numero := red\<rparr>\<rparr>"

definition send_mar1 :: "env \<Rightarrow> int \<Rightarrow> in6_addr \<Rightarrow> in6_addr \<Rightarrow> in6_addr \<Rightarrow> byte \<Rightarrow> byte \<Rightarrow> node \<Rightarrow> node" where
  "send_mar1 E sock prim dst src msk t_len s =
     (let mar1 = mez_pkt E MAR1 src prim dst msk (red_numero s);
          mar1 = mar1\<lparr>ad_addr := (ad_addr mar1)\<lparr>t_lenght := t_len\<rparr>\<rparr>
      in if prim = dir_default s then antop_socket_send E (Ctrl mar1) multicast sock ANTOP_PORT s
         else antop_socket_send E (Ctrl mar1) dst sock ANTOP_PORT s)"

definition send_mar2 :: "env \<Rightarrow> int \<Rightarrow> in6_addr \<Rightarrow> in6_addr \<Rightarrow> in6_addr \<Rightarrow> byte \<Rightarrow> node \<Rightarrow> node" where
  "send_mar2 E sock prim dst src msk s =
     antop_socket_send E (Ctrl (mez_pkt E MAR2 src prim dst msk (red_numero s))) dst sock ANTOP_PORT s"

definition send_man1 :: "env \<Rightarrow> int \<Rightarrow> in6_addr \<Rightarrow> in6_addr \<Rightarrow> in6_addr \<Rightarrow> byte \<Rightarrow> byte \<Rightarrow> node \<Rightarrow> node" where
  "send_man1 E sock src dst src_orig mask_orig red_num s =
     antop_socket_send E (Ctrl (mez_pkt E MAN1 src_orig src dst mask_orig red_num)) dst sock ANTOP_PORT s"

definition send_man2 :: "env \<Rightarrow> int \<Rightarrow> in6_addr \<Rightarrow> in6_addr \<Rightarrow> in6_addr \<Rightarrow> byte \<Rightarrow> byte \<Rightarrow> node \<Rightarrow> node" where
  "send_man2 E sock src dst src_orig mask_orig red_num s =
     antop_socket_send E (Ctrl (mez_pkt E MAN2 src_orig src dst mask_orig red_num)) dst sock ANTOP_PORT s"

definition delay :: "node \<Rightarrow> node" where
  "delay s = (let d = 2 in sleep d s)"

section \<open>The node that offers address space\<close>

text \<open>
  The mask to offer: that of the first recovered space with a non-zero mask, less one, or the node's own.
  The entry found is freed after \<open>del_rcvd_addr_table\<close> has unlinked the first entry with its address;
  with an earlier entry of the same address the table would keep the freed one.
\<close>

definition take_rcvd :: "node \<Rightarrow> (byte \<times> node) result" where
  "take_rcvd s =
     (case find (\<lambda>it. r_prim_mask it \<noteq> 0) (rcvd_addr s) of
        None \<Rightarrow> Inr (prim_mask s, s)
      | Some it \<Rightarrow>
          if find (\<lambda>it'. r_prim_addr it' = r_prim_addr it) (rcvd_addr s) = Some it
          then Inr (r_prim_mask it - 1, snd (del_rcvd_addr_table (r_prim_addr it) s))
          else Inl Use_After_Free)"

text \<open>\<open>prim_addr\<close> is already the default address when \<open>del_and_addnew\<close> is called.\<close>

definition mezcla :: "env \<Rightarrow> in6_addr \<Rightarrow> handler" where
  "mezcla E dst s =
     bind (take_rcvd s) (\<lambda>(mask_a_proponer, s).
       let s = delay (s\<lparr>flag_mezcla := True\<rparr>);
           s = s\<lparr>prim_addr_aux := prim_addr s\<rparr>;
           s = s\<lparr>prim_addr := dir_default s\<rparr>;
           s = sleep 2 (del_and_addnew (prim_addr s) (dir_default s) 2 s)
       in Inr (send_mar1 E (socket_global s) (prim_addr s) dst (prim_addr_aux s) mask_a_proponer 0 s))"

text \<open>
  Compares network numbers: 1 when a merge has been started, 0 for the same network, -1 for a smaller
  number. A larger number while the node connects falls off the end of the function.
\<close>

definition detector_de_mezcla :: "env \<Rightarrow> ctrl_pkt \<Rightarrow> node \<Rightarrow> (int \<times> node) result" where
  "detector_de_mezcla E hb s =
     (if red_numero s < a_red_numero (ad_addr hb) \<and> \<not> flag_conexion s \<and> flag_init s
      then bind (mezcla E (p_prim_addr hb) s) (\<lambda>s. Inr (1, s))
      else if red_numero s = a_red_numero (ad_addr hb) then Inr (0, s)
      else if red_numero s > a_red_numero (ad_addr hb) then Inr (-1, s)
      else Inl Missing_Return)"

section \<open>MAR1\<close>

definition end_mezcla :: "env \<Rightarrow> handler" where
  "end_mezcla E s =
     register_rv E (s\<lparr>flag_mezcla := False, flag_mezcla_primaria := False, flag_mezcla_secundaria := False\<rparr>)"

definition shift_mez :: "node \<Rightarrow> in6_addr \<Rightarrow> in6_addr \<Rightarrow> byte \<Rightarrow> byte \<Rightarrow> in6_addr" where
  "shift_mez s src addr src_mask mf = shift_mezcla (hc_dim s) (root s) src addr (unat src_mask) (unat mf)"

text \<open>The recovered addresses move with the node.\<close>

definition move_rcvd :: "in6_addr \<Rightarrow> byte \<Rightarrow> node \<Rightarrow> node" where
  "move_rcvd src msk s =
     s\<lparr>rcvd_addr := map (\<lambda>it2. it2\<lparr>r_prim_addr := shift_mez s src (r_prim_addr it2) msk (prim_mask_mezcla s),
          r_prim_mask := r_prim_mask it2 + msk - (prim_mask_mezcla s - 1)\<rparr>) (rcvd_addr s)\<rparr>"

text \<open>MAR1 to the secondary address of the node.\<close>

definition process_mar1_sec :: "env \<Rightarrow> ctrl_pkt \<Rightarrow> handler" where
  "process_mar1_sec E msg s =
     (let aux3 = p_src_addr msg; aux7 = sec_addr s; msk = a_mask (ad_addr msg);
          s = s\<lparr>flag_mezcla_secundaria := True\<rparr>
      in bind (borrar_rutas s) (\<lambda>s.
         let s = s\<lparr>sec_mask := sec_mask s + msk - (t_lenght (ad_addr msg) - 1), red_numero := a_red_numero (ad_addr msg)\<rparr>;
             s = send_man1 E (socket_global s) (sec_addr s) (p_prim_addr msg) (p_src_addr msg) msk (red_numero s) s;
             aux6 = shift_mez s aux3 (sec_addr s) msk (t_lenght (ad_addr msg));
             s = s\<lparr>sec_addr := aux6\<rparr>;
             s = sleep 2 (del_and_addnew aux7 aux6 0 s)
         in if flag_mezcla_primaria s then end_mezcla E s else Inr s))"

text \<open>
  The message comes from the default address: its sender is registered as a neighbour under the
  address it had, unless one has this address already. Returns the patched message and the flags
  \<open>flag_padre_caso_especial\<close> and \<open>flag_monitoreo\<close>.
\<close>

definition mar1_from_default :: "ctrl_pkt \<Rightarrow> node \<Rightarrow> (ctrl_pkt \<times> bool \<times> bool \<times> node) result" where
  "mar1_from_default msg s =
     (let aux_msg = msg\<lparr>p_prim_addr := p_src_addr msg\<rparr>;
          flag_padre_caso_especial = (neigh_table s \<noteq> []);
          same = filter (\<lambda>it. p_prim_addr aux_msg = n_prim_addr it) (neigh_table s);
          flag_monitoreo = (same \<noteq> []);
          s = fold (\<lambda>it. emit (Ndisc6 (n_prim_addr it))) same s
      in bind (if \<not> flag_monitoreo \<and> neigh_table s \<noteq> [] then add_neighbor aux_msg False s else Inr s) (\<lambda>s.
           Inr (aux_msg, flag_padre_caso_especial, flag_monitoreo,
             s\<lparr>neighbor_to_root := (neighbor_to_root s)\<lparr>nr_distance := 99\<rparr>, prim_mask_mezcla := prim_mask_inicial s\<rparr>)))"

definition mar1_prepare :: "ctrl_pkt \<Rightarrow> node \<Rightarrow> (ctrl_pkt \<times> bool \<times> bool \<times> node) result" where
  "mar1_prepare msg s =
     (if p_prim_addr msg = dir_default s then mar1_from_default msg s
      else Inr (msg, False, False,
             s\<lparr>prim_mask_mezcla := t_lenght (ad_addr msg), neighbor_to_root := (neighbor_to_root s)\<lparr>nr_distance := 99\<rparr>\<rparr>))"

text \<open>
  One round of the loop over the neighbours; \<open>aux5\<close> is shifted once more for every MAR2 that is sent.
\<close>

definition mar1_step :: "env \<Rightarrow> ctrl_pkt \<Rightarrow> ctrl_pkt \<Rightarrow> bool \<Rightarrow> in6_addr \<Rightarrow> nat \<Rightarrow> neighbor \<Rightarrow>
    node \<times> bool \<times> in6_addr \<Rightarrow> node \<times> bool \<times> in6_addr" where
  "mar1_step E msg aux_msg flag_monitoreo aux1 distancia_al_root it sfa =
     (let (s, flag, aux5) = sfa; msk = a_mask (ad_addr msg)
      in if p_prim_addr aux_msg \<noteq> n_prim_addr it \<or> flag_monitoreo then
           if sec_addr_flag s \<and> dist aux1 it > 1 then (snd (delete_neighbor it s), flag, aux5)
           else if distancia_al_root < dist (root s) it \<or> check_addr_in_n_s_l_table (n_prim_addr it) s
           then (snd (delete_neighbor it
                   (send_mar1 E (socket_global s) (prim_addr s) (n_prim_addr it) (p_src_addr msg) msk (prim_mask_mezcla s) s)),
                 True, aux5)
           else
             let aux5 = shift_mez s (p_src_addr msg) aux5 msk (prim_mask_mezcla s);
                 s = s\<lparr>prim_mask := prim_mask s + 1\<rparr>;
                 s = send_mar2 E (socket_global s) (prim_addr s) (n_prim_addr it) aux5 (prim_mask s) s
             in (snd (delete_neighbor it s), True, aux5)
         else (s, flag, aux5))"

text \<open>No message was sent: the node takes its new address at once.\<close>

definition mar1_leaf :: "env \<Rightarrow> ctrl_pkt \<Rightarrow> ctrl_pkt \<Rightarrow> handler" where
  "mar1_leaf E msg aux_msg s =
     (let aux3 = p_src_addr msg; aux4 = prim_addr s; msk = a_mask (ad_addr msg);
          man1 = (\<lambda>s. send_man1 E (socket_global s) (prim_addr s) (p_prim_addr msg) (p_src_addr msg) msk (red_numero s) s);
          flagy = (p_prim_addr msg = dir_default s \<and> neigh_table s = [])
      in bind (if flagy then add_neighbor aux_msg False (init_neigh_table E s) else Inr (man1 s)) (\<lambda>s.
         let aux1 = shift_mez s aux3 aux4 msk (prim_mask_mezcla s);
             s = s\<lparr>prim_addr := aux1\<rparr>;
             s = sleep 2 (del_and_addnew aux4 aux1 1 s);
             s = (if flagy then man1 s else s);
             s = move_rcvd aux3 msk s
         in if \<not> sec_addr_flag s \<or> flag_mezcla_secundaria s then end_mezcla E s else Inr s))"

text \<open>
  The new network number and masks, the loop over the neighbours and what follows it; \<open>cascade\<close> is the
  condition of the loop apart from the flag of the state.
\<close>

definition mar1_spread :: "env \<Rightarrow> ctrl_pkt \<Rightarrow> ctrl_pkt \<Rightarrow> bool \<Rightarrow> bool \<Rightarrow> in6_addr \<Rightarrow> handler" where
  "mar1_spread E msg aux_msg cascade flag_monitoreo aux1 s =
     (let msk = a_mask (ad_addr msg);
          s = s\<lparr>red_numero := a_red_numero (ad_addr msg)\<rparr>;
          s = s\<lparr>prim_mask := prim_mask s + msk - (prim_mask_mezcla s - 1),
                prim_mask_inicial := msk + 1 + (prim_mask_inicial s - prim_mask_mezcla s)\<rparr>;
          distancia_al_root = dist (root s) (self_neighbor s);
          s = clear_rv_tables s;
          (s, flag, aux5) =
            (if cascade \<or> flag_neigh_by_second s
             then fold (mar1_step E msg aux_msg flag_monitoreo aux1 distancia_al_root) (neigh_table s) (s, False, aux1)
             else (s, False, aux1))
      in if \<not> flag then mar1_leaf E msg aux_msg s
         else Inr (send_man1 E (socket_global s) (prim_addr s) (p_prim_addr msg) (p_src_addr msg) msk (red_numero s) s))"

definition process_mar1_prim :: "env \<Rightarrow> ctrl_pkt \<Rightarrow> handler" where
  "process_mar1_prim E msg s =
     (let aux1 = prim_addr s;
          flag_sin_sucesores = (prim_mask s = prim_mask_inicial s);
          s = s\<lparr>flag_mezcla_primaria := True\<rparr>
      in bind (mar1_prepare msg s) (\<lambda>(aux_msg, flag_padre_caso_especial, flag_monitoreo, s).
           mar1_spread E msg aux_msg (\<not> flag_sin_sucesores \<or> flag_padre_caso_especial) flag_monitoreo aux1 s))"

definition process_mar1 :: "env \<Rightarrow> ctrl_pkt \<Rightarrow> handler" where
  "process_mar1 E msg s =
     (let s = s\<lparr>flag_mezcla := True\<rparr>
      in if a_addr (ad_addr msg) = sec_addr s then process_mar1_sec E msg s
         else process_mar1_prim E msg s)"

section \<open>MAR2\<close>

text \<open>The address a MAR2 gives: that of the sender with the bit of the mask set.\<close>

definition mar2_addr :: "nat \<Rightarrow> in6_addr \<Rightarrow> byte \<Rightarrow> in6_addr" where
  "mar2_addr dim src msk = s6_or (shift_unos 0 (nat ((128 - int dim) + int (unat msk) - 1)) uno) src"

definition process_mar2_sec :: "env \<Rightarrow> ctrl_pkt \<Rightarrow> handler" where
  "process_mar2_sec E msg s =
     (let aux4 = sec_addr s; s = s\<lparr>flag_mezcla_secundaria := True\<rparr>
      in bind (borrar_rutas s) (\<lambda>s.
         let s = s\<lparr>sec_mask := a_mask (ad_addr msg), red_numero := a_red_numero (ad_addr msg)\<rparr>;
             s = send_man2 E (socket_global s) (sec_addr s) (p_prim_addr msg) (p_src_addr msg) (sec_mask s) (red_numero s) s;
             aux1 = mar2_addr (hc_dim s) (p_src_addr msg) (a_mask (ad_addr msg));
             s = s\<lparr>sec_addr := aux1\<rparr>;
             s = sleep 2 (del_and_addnew aux4 aux1 0 s)
         in if flag_mezcla_primaria s then end_mezcla E s else Inr s))"

definition mar2_step :: "env \<Rightarrow> ctrl_pkt \<Rightarrow> in6_addr \<Rightarrow> in6_addr \<Rightarrow> neighbor \<Rightarrow> node \<times> bool \<Rightarrow> node \<times> bool" where
  "mar2_step E msg aux1 aux3 it sf =
     (let (s, flag) = sf
      in if p_prim_addr msg \<noteq> n_prim_addr it then
           if sec_addr_flag s \<and> dist aux3 it > 1 then (snd (delete_neighbor it s), flag)
           else
             let s = s\<lparr>prim_mask := prim_mask s + 1\<rparr>;
                 s = send_mar2 E (socket_global s) (prim_addr s) (n_prim_addr it) aux1 (prim_mask s) s
             in (snd (delete_neighbor it s), True)
         else (s, flag))"

definition process_mar2_prim :: "env \<Rightarrow> ctrl_pkt \<Rightarrow> handler" where
  "process_mar2_prim E msg s =
     (let aux3 = prim_addr s;
          flag_sin_sucesores = (prim_mask s = prim_mask_inicial s);
          s = s\<lparr>flag_mezcla_primaria := True, red_numero := a_red_numero (ad_addr msg),
                prim_mask := a_mask (ad_addr msg), prim_mask_inicial := a_mask (ad_addr msg),
                neighbor_to_root := (neighbor_to_root s)\<lparr>nr_distance := 99\<rparr>\<rparr>;
          aux1 = mar2_addr (hc_dim s) (p_src_addr msg) (a_mask (ad_addr msg));
          s = clear_rv_tables s;
          (s, flag) = (if \<not> flag_sin_sucesores \<or> flag_neigh_by_second s
                       then fold (mar2_step E msg aux1 aux3) (neigh_table s) (s, False) else (s, False));
          s = send_man2 E (socket_global s) (prim_addr s) (p_prim_addr msg) (p_src_addr msg) (prim_mask s) (red_numero s) s
      in if \<not> flag then
           let s = s\<lparr>prim_addr := aux1\<rparr>;
               s = sleep 2 (del_and_addnew aux3 aux1 1 s);
               s = s\<lparr>rcvd_addr := []\<rparr>
           in if \<not> sec_addr_flag s \<or> flag_mezcla_secundaria s then end_mezcla E s else Inr s
         else Inr s)"

definition process_mar2 :: "env \<Rightarrow> ctrl_pkt \<Rightarrow> handler" where
  "process_mar2 E msg s =
     (let s = s\<lparr>flag_mezcla := True\<rparr>
      in if a_addr (ad_addr msg) = sec_addr s then process_mar2_sec E msg s
         else process_mar2_prim E msg s)"

section \<open>MAN1 and MAN2\<close>

definition man_done :: "node \<Rightarrow> bool" where
  "man_done s \<longleftrightarrow> \<not> sec_addr_flag s \<or> (flag_mezcla_primaria s \<and> flag_mezcla_secundaria s)"

text \<open>The node that offered the space takes back its address; any other one takes its new address.\<close>

definition process_man1 :: "env \<Rightarrow> ctrl_pkt \<Rightarrow> handler" where
  "process_man1 E msg s =
     (let aux3 = p_src_addr msg; aux4 = prim_addr s; aux1 = prim_addr s; msk = a_mask (ad_addr msg);
          s = (if flag_mezcla s \<and> prim_addr s = dir_default s then
                 let s = sleep 2 (del_and_addnew (prim_addr s) (prim_addr_aux s) 2 s);
                     s = s\<lparr>prim_addr := prim_addr_aux s\<rparr>;
                     s = (if msk = prim_mask s then s\<lparr>prim_mask := prim_mask s + 1\<rparr> else s)
                 in s\<lparr>flag_mezcla := False\<rparr>
               else s)
      in if flag_mezcla s then
           let aux1 = shift_mez s aux3 aux1 msk (prim_mask_mezcla s);
               s = s\<lparr>prim_addr := aux1\<rparr>;
               s = sleep 2 (del_and_addnew aux4 aux1 1 s);
               s = move_rcvd aux3 msk s
           in if man_done s then end_mezcla E s else Inr s
         else Inr s)"

definition process_man2 :: "env \<Rightarrow> ctrl_pkt \<Rightarrow> handler" where
  "process_man2 E msg s =
     (let aux1 = prim_addr s; aux2 = p_src_addr msg
      in if flag_mezcla s then
           let s = s\<lparr>prim_addr := p_src_addr msg\<rparr>;
               s = sleep 2 (del_and_addnew aux1 aux2 1 s);
               s = s\<lparr>rcvd_addr := []\<rparr>
           in if man_done s then end_mezcla E s else Inr s
         else Inr s)"

end
