(* ===== verification/Heart_Beat.thy ===== *)
theory Heart_Beat
  imports Mezcla
begin

text \<open>
  Heart beats (\<open>heart_beat.c\<close>): the periodic message that announces a node, and its processing, which
  keeps the neighbour table, proposes secondary addresses and runs the detectors of merging and of
  fragmentation.
\<close>

definition heart_beat_init :: "node \<Rightarrow> node" where
  "heart_beat_init s = arm_timer Chk_Neigh_T T_LHB (arm_timer Hb_T T_HB s)"

definition hb_pkt :: "env \<Rightarrow> node \<Rightarrow> ctrl_pkt" where
  "hb_pkt E s =
     (ctrl_junk E)\<lparr>pkt_type_f := HB, p_prim_addr := prim_addr s, p_src_addr := prim_addr s,
       ad_addr := (ad_addr (ctrl_junk E))\<lparr>t_lenght := prim_mask_inicial s, a_mask := prim_mask s,
         a_red_numero := red_numero s, a_addr := sec_addr s\<rparr>\<rparr>"

text \<open>The clean-up that precedes a heart beat outside fragmentation and merging.\<close>

definition hb_checks :: "env \<Rightarrow> node \<Rightarrow> node" where
  "hb_checks E s =
     (if \<not> flag_fragmentacion s \<and> \<not> flag_mezcla s
      then check_n_s_l_table (check_neigh_of_secondary_address (check_if_i_am_only E s)) else s)"

definition send_hb :: "env \<Rightarrow> int \<Rightarrow> bool \<Rightarrow> node \<Rightarrow> node" where
  "send_hb E sock timer s =
     (let s = hb_checks E s;
          s = (if timer then arm_timer Hb_T T_HB s else s);
          hb = hb_pkt E s;
          s = (if \<not> flag_fragmentacion s \<and> \<not> flag_mezcla s
               then antop_socket_send E (Ctrl hb) multicast sock ANTOP_PORT s else s)
      in if sec_addr_flag s then
           let hb = hb\<lparr>p_prim_addr := sec_addr s, ad_addr := (ad_addr hb)\<lparr>a_mask := sec_mask s\<rparr>\<rparr>
           in if \<not> flag_fragmentacion s \<and> \<not> flag_mezcla s
              then antop_socket_send E (Ctrl hb) multicast sock ANTOP_PORT s else s
         else s)"

text \<open>Whether the sender is reached, by its primary or by its secondary address, from the address \<open>from_addr\<close>.\<close>

definition hb_unreached :: "env \<Rightarrow> in6_addr \<Rightarrow> ctrl_pkt \<Rightarrow> bool" where
  "hb_unreached E from_addr hb =
     (let aux2 = (nb_junk E)\<lparr>n_prim_addr := p_src_addr hb\<rparr>;
          aux3 = (nb_junk E)\<lparr>n_prim_addr := a_addr (ad_addr hb)\<rparr>
      in dist from_addr aux2 \<noteq> 1 \<and> (dist from_addr aux3 \<noteq> 1 \<or> a_addr (ad_addr hb) = zero_addr))"

text \<open>The part of \<open>process_hb\<close> that enters the sender in the table.\<close>

definition hb_enter :: "env \<Rightarrow> ctrl_pkt \<Rightarrow> bool \<Rightarrow> handler" where
  "hb_enter E hb flag_aux s =
     (let s = init_neigh_table E s
      in bind (find_neighbor (p_prim_addr hb) (neigh_table s)) (\<lambda>aux.
         bind (case aux of
                 None \<Rightarrow> add_neighbor hb flag_aux s
               | Some _ \<Rightarrow> Inr (s\<lparr>neigh_table := refresh_neighbor (p_prim_addr hb) (a_mask (ad_addr hb)) (neigh_table s)\<rparr>))
           (detector_de_fragmentacion E)))"

text \<open>A heart beat of the own network.\<close>

definition hb_own_net :: "env \<Rightarrow> ctrl_pkt \<Rightarrow> handler" where
  "hb_own_net E hb s =
     (if p_prim_addr hb = prim_addr s then Inr s
      else if p_prim_addr hb = sec_addr s then Inr s
      else
        let aux = (nb_junk E)\<lparr>n_prim_addr := p_prim_addr hb\<rparr>
        in if dist (prim_addr s) aux \<noteq> 1 \<and> prim_addr_flag s then
             if \<not> sec_addr_flag s then
               Inr (if hb_unreached E (prim_addr s) hb then chk_sec_addr1 E aux s else s)
             else if dist (sec_addr s) aux \<noteq> 1 then
               Inr (if hb_unreached E (sec_addr s) hb then chk_sec_addr1 E aux s else s)
             else hb_enter E hb True s
           else hb_enter E hb False s)"

definition process_hb :: "env \<Rightarrow> ctrl_pkt \<Rightarrow> handler" where
  "process_hb E hb s =
     (if flag_fragmentacion s then Inr s
      else if flag_mezcla s then Inr s
      else bind (detector_de_mezcla E hb s) (\<lambda>(flag_detector_mezcla, s).
        if flag_detector_mezcla = -1 \<or> flag_detector_mezcla = 1 then Inr s
        else hb_own_net E hb s))"

end
