(* ===== verification/Hcb_Address.thy ===== *)
theory Hcb_Address
  imports Heart_Beat
begin

text \<open>
  The messages of the primary address (\<open>hcb_address.c\<close>): a new node asks for an address (PAR), nodes
  propose one (PAP), the new node announces its choice (PAN), and the node that made the proposal
  confirms it (PANC) and gives away half of its address space.
\<close>

text \<open>
  The proposal: the last recovered address while none has been offered yet, else the child address of
  the node; a node with no space left proposes mask 0. \<open>prim_addr_len\<close> of that message is junk.
\<close>

definition send_pap :: "env \<Rightarrow> int \<Rightarrow> in6_addr \<Rightarrow> handler" where
  "send_pap E sock dst_addr s =
     (let pap = (ctrl_junk E)\<lparr>pkt_type_f := PAP, p_prim_addr := prim_addr s\<rparr>
      in if rcvd_addr s \<noteq> [] \<and> rcvd_offered s = None then
           let rcvd_aux = last (rcvd_addr s);
               pap = pap\<lparr>ad_addr := (ad_addr pap)\<lparr>a_addr := r_prim_addr rcvd_aux, a_red_numero := red_numero s,
                       a_mask := r_prim_mask rcvd_aux\<rparr>, prim_addr_len := word_of_nat (hc_dim s)\<rparr>;
               s = s\<lparr>rcvd_offered := Some (r_prim_addr rcvd_aux)\<rparr>
           in Inr (antop_socket_send E (Ctrl pap) dst_addr sock ANTOP_PORT s)
         else if unat (prim_mask s) \<ge> hc_dim s then
           let pap = pap\<lparr>ad_addr := (ad_addr pap)\<lparr>a_red_numero := red_numero s, a_mask := 0\<rparr>\<rparr>
           in Inr (antop_socket_send E (Ctrl pap) dst_addr sock ANTOP_PORT s)
         else
           bind (split_addr (prim_addr s) (prim_mask s)) (\<lambda>addr.
             let pap = pap\<lparr>ad_addr := (ad_addr pap)\<lparr>a_addr := addr, a_red_numero := red_numero s,
                     a_mask := prim_mask s + 1\<rparr>, prim_addr_len := word_of_nat (hc_dim s)\<rparr>
             in Inr (antop_socket_send E (Ctrl pap) dst_addr sock ANTOP_PORT s)))"

definition send_panc :: "env \<Rightarrow> int \<Rightarrow> in6_addr \<Rightarrow> in6_addr \<Rightarrow> in6_addr \<Rightarrow> node \<Rightarrow> node" where
  "send_panc E sock dst_addr primary chosen_addr s =
     (let panc = (ctrl_junk E)\<lparr>pkt_type_f := PANC, ad_addr := (ad_addr (ctrl_junk E))\<lparr>a_mask := 5, a_addr := primary\<rparr>\<rparr>;
          s = (case rcvd_offered s of
                 None \<Rightarrow> s\<lparr>prim_mask := prim_mask s + 1\<rparr>
               | Some offered \<Rightarrow>
                   if chosen_addr \<noteq> offered then s\<lparr>prim_mask := prim_mask s + 1\<rparr>
                   else snd (del_rcvd_addr_table offered s))
      in antop_socket_send E (Ctrl panc) dst_addr sock ANTOP_PORT s)"

definition send_par :: "env \<Rightarrow> in6_addr \<Rightarrow> int \<Rightarrow> node \<Rightarrow> node" where
  "send_par E src sock s =
     (let par = (ctrl_junk E)\<lparr>pkt_type_f := PAR, p_src_addr := src\<rparr>
      in antop_socket_send E (Ctrl par) multicast sock ANTOP_PORT s)"

text \<open>Here \<open>prim_addr\<close> of the message holds the chosen address.\<close>

definition send_pan :: "env \<Rightarrow> in6_addr \<Rightarrow> int \<Rightarrow> in6_addr \<Rightarrow> node \<Rightarrow> node" where
  "send_pan E address sock chosen_addr s =
     (let pan = null_ctrl\<lparr>ad_addr := (ad_addr null_ctrl)\<lparr>a_addr := address, a_red_numero := red_numero s\<rparr>,
            p_prim_addr := chosen_addr, p_src_addr := if_addr E, pkt_type_f := PAN\<rparr>
      in antop_socket_send E (Ctrl pan) multicast sock ANTOP_PORT s)"

end
