(* ===== verification/Buffers.thy ===== *)
theory Buffers
  imports In6_Addr
begin

text \<open>
  Memory as lists of bytes: loads and stores of 16 and 32 bits on a little-endian host, the bytes of an address, and
  writes and reads at an offset, checked against the end of the buffer.
\<close>

section \<open>Integers in memory\<close>

definition le16 :: "8 word \<Rightarrow> 8 word \<Rightarrow> 16 word" where
  "le16 b0 b1 = ucast b0 OR push_bit 8 (ucast b1)"

definition store16 :: "16 word \<Rightarrow> 8 word list" where
  "store16 w = [ucast w, ucast (drop_bit 8 w)]"

definition load16 :: "8 word list \<Rightarrow> nat \<Rightarrow> 16 word" where
  "load16 m i = le16 (m ! i) (m ! (i + 1))"

definition le32 :: "8 word list \<Rightarrow> nat \<Rightarrow> 32 word" where
  "le32 pkt off = ucast (load16 pkt off) OR push_bit 16 (ucast (load16 pkt (off + 2)))"

definition store32 :: "32 word \<Rightarrow> 8 word list" where
  "store32 w = store16 (ucast w) @ store16 (ucast (drop_bit 16 w))"

text \<open>The 16 bytes of an address in memory, which are its bytes on the wire.\<close>

definition addr_bytes :: "in6_addr \<Rightarrow> 8 word list" where
  "addr_bytes a = concat (map (\<lambda>w. [ucast w, ucast (drop_bit 8 w)]) (s6_words a))"

definition addr_at :: "8 word list \<Rightarrow> nat \<Rightarrow> in6_addr" where
  "addr_at pkt off = s6_build (\<lambda>i. load16 pkt (off + 2 * i))"

lemma length_addr_bytes [simp]: "length (addr_bytes a) = 16"
  by (cases a) (simp add: addr_bytes_def)

lemma length_store16 [simp]: "length (store16 w) = 2"
  by (simp add: store16_def)

lemma length_store32 [simp]: "length (store32 w) = 4"
  by (simp add: store32_def)

lemma le16_bytes: "le16 (ucast w) (ucast (drop_bit 8 w)) = w" for w :: "16 word"
  by (rule bit_word_eqI) (auto simp add: le16_def bit_or_iff bit_push_bit_iff bit_ucast_iff bit_drop_bit_eq)

lemma le16_sum: "le16 b0 b1 = ucast b0 + push_bit 8 (ucast b1)"
proof -
  have "(ucast b0 :: 16 word) AND push_bit 8 (ucast b1) = 0"
    by (rule bit_word_eqI) (auto simp add: bit_and_iff bit_push_bit_iff bit_ucast_iff dest: bit_imp_le_length)
  then show ?thesis by (simp only: le16_def disjunctive_add_eq_or)
qed

lemma unat_byte: "unat b < 256" for b :: "8 word"
  using unsigned_less [of b] by simp

lemma unat_le16: "unat (le16 b0 b1) = unat b0 + 256 * unat b1"
proof -
  have "le16 b0 b1 = word_of_nat (unat b0 + 256 * unat b1)"
    by (simp add: le16_sum push_bit_eq_mult mult.commute)
  moreover have "unat b0 + 256 * unat b1 < 65536" using unat_byte [of b0] unat_byte [of b1] by linarith
  ultimately show ?thesis by (simp only: unsigned_of_nat) (simp add: take_bit_eq_mod)
qed

lemma ucast_le32: "ucast (le32 pkt off) = load16 pkt off"
  by (rule bit_word_eqI) (auto simp add: le32_def bit_or_iff bit_push_bit_iff bit_ucast_iff dest: bit_imp_le_length)

lemma load16_append: "length xs = off \<Longrightarrow> i + 1 < length ys \<Longrightarrow> load16 (xs @ ys @ zs) (off + i) = load16 ys i"
  by (auto simp add: load16_def nth_append)

lemma nth_at: "length xs = off \<Longrightarrow> i < length ys \<Longrightarrow> (xs @ ys @ zs) ! (off + i) = ys ! i"
  by (simp add: nth_append)

lemma le32_append: "length xs = off \<Longrightarrow> i + 3 < length ys \<Longrightarrow> le32 (xs @ ys @ zs) (off + i) = le32 ys i"
  using load16_append [of xs off i ys zs] load16_append [of xs off "i + 2" ys zs] by (simp add: le32_def add.assoc)

lemma load16_store16 [simp]: "load16 (store16 w @ zs) 0 = w"
  by (simp add: load16_def store16_def le16_bytes)

lemma le32_store32 [simp]: "le32 (store32 w @ zs) 0 = w"
proof -
  have "load16 (store32 w @ zs) 0 = ucast w" "load16 (store32 w @ zs) 2 = ucast (drop_bit 16 w)"
    by (simp_all add: store32_def load16_def store16_def le16_bytes)
  then have "le32 (store32 w @ zs) 0 = ucast (ucast w :: 16 word) OR push_bit 16 (ucast (ucast (drop_bit 16 w) :: 16 word))"
    by (simp only: le32_def add_0)
  then show ?thesis
    by (intro bit_word_eqI)
      (auto simp add: bit_or_iff bit_push_bit_iff bit_ucast_iff bit_drop_bit_eq dest: bit_imp_le_length)
qed

section \<open>Addresses in memory\<close>

lemma addr_at_cong:
  assumes "\<And>k. k < 16 \<Longrightarrow> p ! (off + k) = q ! (off' + k)"
  shows "addr_at p off = addr_at q off'"
proof -
  have "load16 p (off + 2 * i) = load16 q (off' + 2 * i)" if "i < 8" for i
    using assms [of "2 * i"] assms [of "2 * i + 1"] that by (simp add: load16_def)
  then have "map (\<lambda>i. load16 p (off + 2 * i)) [0..<8] = map (\<lambda>i. load16 q (off' + 2 * i)) [0..<8]" by simp
  then show ?thesis by (simp only: addr_at_def s6_build_def)
qed

lemma addr_at_bytes: "length xs = off \<Longrightarrow> addr_at (xs @ addr_bytes a @ ys) off = a"
proof -
  assume xs: "length xs = off"
  have "addr_at (xs @ addr_bytes a @ ys) off = addr_at (addr_bytes a) 0"
    using xs by (intro addr_at_cong) (simp add: nth_append)
  also have "\<dots> = a" by (cases a) (simp add: addr_at_def s6_build_def s6_of_words_def upt_rec load16_def addr_bytes_def le16_bytes)
  finally show ?thesis .
qed

section \<open>Writes and reads\<close>

text \<open>Consecutive bytes stored from an offset on.\<close>

definition write_at :: "nat \<Rightarrow> 8 word list \<Rightarrow> 8 word list \<Rightarrow> 8 word list result" where
  "write_at off bs buf =
     (if off + length bs \<le> length buf then Inr (take off buf @ bs @ drop (off + length bs) buf) else Inl Buffer_Overflow)"

lemma write_at_append:
  "length xs = off \<Longrightarrow> length bs \<le> length ys \<Longrightarrow> write_at off bs (xs @ ys) = Inr (xs @ bs @ drop (length bs) ys)"
  by (auto simp add: write_at_def)

lemma write_at_same:
  "length xs = off \<Longrightarrow> length ys = length bs \<Longrightarrow> write_at off bs (xs @ ys @ zs) = Inr (xs @ bs @ zs)"
  by (auto simp add: write_at_def)

lemma length_write_at: "write_at off bs buf = Inr buf' \<Longrightarrow> length buf' = length buf"
  by (auto simp add: write_at_def split: if_splits)

text \<open>Loads at an offset.\<close>

definition read8 :: "nat \<Rightarrow> 8 word list \<Rightarrow> 8 word result" where
  "read8 off buf = (if off < length buf then Inr (buf ! off) else Inl Out_Of_Bounds)"

definition read16 :: "nat \<Rightarrow> 8 word list \<Rightarrow> 16 word result" where
  "read16 off buf = (if off + 2 \<le> length buf then Inr (load16 buf off) else Inl Out_Of_Bounds)"

definition read32 :: "nat \<Rightarrow> 8 word list \<Rightarrow> 32 word result" where
  "read32 off buf = (if off + 4 \<le> length buf then Inr (le32 buf off) else Inl Out_Of_Bounds)"

definition read_bytes :: "nat \<Rightarrow> nat \<Rightarrow> 8 word list \<Rightarrow> 8 word list result" where
  "read_bytes off n buf = (if off + n \<le> length buf then Inr (take n (drop off buf)) else Inl Out_Of_Bounds)"

end
