(* ===== verification/Checksum.thy ===== *)
theory Checksum
  imports Buffers
begin

text \<open>
  The Internet checksums of the program: \<open>cksum_sum\<close>, \<open>icmpv6_cksum\<close> and \<open>udp_cksum\<close> of
  \<open>utils.c\<close>, which rewrite the packets that pass through the daemon, and \<open>checksum\<close> and
  \<open>icmp6_checksum\<close> of \<open>ping6.c\<close>, which sign the probes. Memory is a list of bytes; sums are
  \<open>32 word\<close>s and wrap. The lemmas relate the two ways of folding a sum to the one's complement sum.
\<close>

section \<open>Summing\<close>

text \<open>
  \<open>utils.c\<close>: \<open>ret\<close> is the last word read. A left-over byte overwrites only the low byte of \<open>ret\<close>.
\<close>

fun cksum_loop :: "bool \<Rightarrow> 16 word \<Rightarrow> 32 word \<Rightarrow> 8 word list \<Rightarrow> 32 word" where
  "cksum_loop ntoh ret acc (b0 # b1 # bs) =
     (let ret = le16 b0 b1; ret = (if ntoh then htons ret else ret)
      in cksum_loop ntoh ret (acc + ucast ret) bs)"
| "cksum_loop ntoh ret acc [b] = (let ret = (ret AND 0xff00) OR ucast b in acc + ucast ret)"
| "cksum_loop ntoh ret acc [] = acc"

definition cksum_sum :: "8 word list \<Rightarrow> bool \<Rightarrow> 32 word" where
  "cksum_sum bs ntoh = cksum_loop ntoh 0 0 bs"

text \<open>\<open>ping6.c\<close>.\<close>

fun checksum_loop :: "32 word \<Rightarrow> 8 word list \<Rightarrow> 32 word" where
  "checksum_loop acc (b0 # b1 # bs) = checksum_loop (acc + ucast (le16 b0 b1)) bs"
| "checksum_loop acc [b] = acc + ucast b"
| "checksum_loop acc [] = acc"

section \<open>Folding\<close>

definition utils_fold :: "32 word \<Rightarrow> 16 word" where
  "utils_fold s =
     (let s1 = drop_bit 16 s + (s AND 0xffff); s2 = s1 + drop_bit 16 s1
      in ucast (NOT s2))"

lemma unat_high: "unat (drop_bit 16 s) = unat s div 65536" for s :: "32 word"
proof -
  have "drop_bit 16 s = s div 65536" by (simp add: drop_bit_eq_div)
  then show ?thesis by (simp only: unat_div) simp
qed

lemma unat_low: "unat (s AND 0xffff) = unat s mod 65536" for s :: "32 word"
proof -
  have "s AND 0xffff = take_bit 16 s" by (simp add: take_bit_eq_mask mask_eq_exp_minus_1)
  then show ?thesis by (simp only: unsigned_take_bit_eq) (simp add: take_bit_eq_mod)
qed

lemma fold_step_unat:
  "unat ((s AND 0xffff) + drop_bit 16 s) = unat s mod 65536 + unat s div 65536" for s :: "32 word"
proof -
  have "unat s < 4294967296" using unsigned_less [of s] by simp
  then have "unat s mod 65536 + unat s div 65536 < 2 ^ LENGTH(32)" by simp
  then show ?thesis by (simp only: unat_low [symmetric] unat_high [symmetric] unat_add_lem [THEN iffD1])
qed

lemma drop_bit_16_eq_0_iff: "drop_bit 16 s = 0 \<longleftrightarrow> unat s < 65536" for s :: "32 word"
proof -
  have "drop_bit 16 s = 0 \<longleftrightarrow> unat (drop_bit 16 s) = 0" by (simp only: unat_eq_zero)
  then show ?thesis by (simp add: unat_high div_eq_0_iff del: unat_eq_0)
qed

text \<open>\<open>while (sum >> 16) sum = (sum & 0xffff) + (sum >> 16)\<close> ends, as every round makes the sum smaller.\<close>

function fold_while :: "32 word \<Rightarrow> 32 word" where
  "fold_while s =
     (if drop_bit 16 s \<noteq> 0 then fold_while ((s AND 0xffff) + drop_bit 16 s) else s)"
  by auto

termination fold_while
proof (relation "measure unat")
  fix s :: "32 word" assume "drop_bit 16 s \<noteq> 0"
  then have "65536 \<le> unat s" by (simp add: drop_bit_16_eq_0_iff)
  then have "unat s mod 65536 + unat s div 65536 < unat s"
    using mult_div_mod_eq [of 65536 "unat s"] div_greater_zero_iff [of "unat s" 65536] by linarith
  then show "((s AND 0xffff) + drop_bit 16 s, s) \<in> measure unat" by (simp add: fold_step_unat)
qed simp

declare fold_while.simps [simp del]

definition checksum :: "8 word list \<Rightarrow> 16 word" where
  "checksum bs = ucast (NOT (fold_while (checksum_loop 0 bs)))"

text \<open>The one's complement representative of \<open>n\<close>: 0 only for 0, and otherwise in \<open>1..65535\<close>.\<close>

definition ones :: "nat \<Rightarrow> nat" where
  "ones n = (if n = 0 then 0 else (n - 1) mod 65535 + 1)"

lemma ones_less: "ones n < 65536"
  using mod_less_divisor [of 65535 "n - 1"] by (simp add: ones_def)

lemma ones_small: "n < 65536 \<Longrightarrow> ones n = n"
  by (simp add: ones_def)

lemma ones_step: "ones (n mod 65536 + n div 65536) = ones n"
proof (cases "n = 0")
  case True
  then show ?thesis by simp
next
  case False
  define q r where "q = n div 65536" and "r = n mod 65536"
  have n: "n = 65536 * q + r" by (simp add: q_def r_def)
  then have "q + r \<noteq> 0" using False by (metis add_is_0 mult_0_right)
  have "n - 1 = (q + r - 1) + 65535 * q" using n \<open>q + r \<noteq> 0\<close> by linarith
  then have "(n - 1) mod 65535 = (q + r - 1) mod 65535" by simp
  then show ?thesis
    using False \<open>q + r \<noteq> 0\<close> by (simp add: ones_def q_def [symmetric] r_def [symmetric] add.commute)
qed

lemma fold_while_ones: "unat (fold_while s) = ones (unat s)"
proof (induction s rule: fold_while.induct)
  case (1 s)
  show ?case
  proof (cases "drop_bit 16 s = 0")
    case True
    then show ?thesis by (subst fold_while.simps) (simp add: drop_bit_16_eq_0_iff ones_small)
  next
    case False
    then show ?thesis using 1 [OF False]
      by (subst fold_while.simps) (simp add: fold_step_unat ones_step)
  qed
qed

lemma ucast_not: "(ucast (NOT s) :: 16 word) = NOT (ucast s)" for s :: "32 word"
  by (rule bit_word_eqI) (auto simp add: bit_ucast_iff bit_not_iff)

lemma utils_fold_ones: "utils_fold s = NOT (word_of_nat (ones (unat s)))"
proof -
  define s1 where "s1 = drop_bit 16 s + (s AND 0xffff)"
  have u1: "unat s1 = unat s mod 65536 + unat s div 65536"
    by (simp only: s1_def add.commute [of "drop_bit 16 s"] fold_step_unat)
  have o1: "ones (unat s1) = ones (unat s)" by (simp only: u1 ones_step)
  have "unat s < 4294967296" using unsigned_less [of s] by simp
  then have b1: "unat s1 \<le> 131070" unfolding u1 by linarith
  have u2: "unat (s1 + drop_bit 16 s1) = unat s1 + unat s1 div 65536"
    using b1 by (subst unat_add_lem [THEN iffD1]) (simp_all add: unat_high)
  have "(unat s1 + unat s1 div 65536) mod 65536 = ones (unat s1) mod 65536"
  proof (cases "unat s1 < 65536")
    case True
    then show ?thesis by (simp add: ones_small)
  next
    case False
    with b1 have "unat s1 div 65536 = 1" by simp
    moreover have "ones (unat s1) = unat s1 - 65535"
      using False b1 by (simp add: ones_def le_mod_geq)
    ultimately show ?thesis using False by (simp add: le_mod_geq)
  qed
  moreover have "(ucast x :: 16 word) = word_of_nat (unat x)" for x :: "32 word" by simp
  ultimately have "(ucast (s1 + drop_bit 16 s1) :: 16 word) = word_of_nat (ones (unat s))"
    by (simp only: u2 o1 [symmetric] word_of_nat_eq_iff) (simp add: take_bit_eq_mod)
  then show ?thesis
    by (simp add: utils_fold_def Let_def s1_def [symmetric] ucast_not)
qed

section \<open>Sums as numbers\<close>

text \<open>The sums without wrap-around: of the little-endian words, and of the big-endian ones.\<close>

fun le_sum :: "8 word list \<Rightarrow> nat" where
  "le_sum (b0 # b1 # bs) = unat b0 + 256 * unat b1 + le_sum bs"
| "le_sum [b] = unat b"
| "le_sum [] = 0"

fun be_sum :: "8 word list \<Rightarrow> nat" where
  "be_sum (b0 # b1 # bs) = 256 * unat b0 + unat b1 + be_sum bs"
| "be_sum [b] = 256 * unat b"
| "be_sum [] = 0"

lemma htons_le16: "htons (le16 b0 b1) = le16 b1 b0"
  by (rule bit_word_eqI)
     (auto simp add: bit_htons le16_def bit_or_iff bit_push_bit_iff bit_ucast_iff dest: bit_imp_le_length)

lemma unat_ucast_16_32: "unat (ucast w :: 32 word) = unat w" for w :: "16 word"
proof -
  have "unat w < 65536" using unsigned_less [of w] by simp
  then show ?thesis by (simp add: unsigned_ucast_eq take_bit_eq_mod)
qed

lemma unat_ucast_8_32: "unat (ucast w :: 32 word) = unat w" for w :: "8 word"
  using unat_byte [of w] by (simp add: unsigned_ucast_eq take_bit_eq_mod)

lemma unat_add_bounded: "unat v + unat w < 4294967296 \<Longrightarrow> unat (v + w) = unat v + unat w" for v w :: "32 word"
  by (subst unat_add_lem [THEN iffD1]) simp_all

lemma le_sum_bound: "le_sum bs \<le> 32768 * (length bs + 1)"
proof (induction bs rule: le_sum.induct)
  case (1 b0 b1 bs)
  then show ?case using unat_byte [of b0] unat_byte [of b1] by simp
next
  case (2 b)
  then show ?case using unat_byte [of b] by simp
qed simp

lemma be_sum_bound: "be_sum bs \<le> 32768 * (length bs + 1)"
proof (induction bs rule: be_sum.induct)
  case (1 b0 b1 bs)
  then show ?case using unat_byte [of b0] unat_byte [of b1] by simp
next
  case (2 b)
  then show ?case using unat_byte [of b] by simp
qed simp

lemma unat_checksum_loop:
  "unat acc + le_sum bs < 4294967296 \<Longrightarrow> unat (checksum_loop acc bs) = unat acc + le_sum bs"
proof (induction acc bs rule: checksum_loop.induct)
  case (1 acc b0 b1 bs)
  then show ?case by (simp add: unat_add_bounded unat_ucast_16_32 unat_le16)
next
  case (2 acc b)
  then show ?case by (simp add: unat_add_bounded unat_ucast_8_32)
qed simp

lemma unat_cksum_loop_be:
  "even (length bs) \<Longrightarrow> unat acc + be_sum bs < 4294967296 \<Longrightarrow>
     unat (cksum_loop True ret acc bs) = unat acc + be_sum bs"
proof (induction True ret acc bs rule: cksum_loop.induct)
  case (1 ret acc b0 b1 bs)
  then show ?case by (simp add: Let_def unat_add_bounded unat_ucast_16_32 htons_le16 unat_le16)
qed simp_all

lemma checksum_ones:
  "le_sum bs < 4294967296 \<Longrightarrow> checksum bs = NOT (word_of_nat (ones (le_sum bs)))"
proof -
  assume b: "le_sum bs < 4294967296"
  then have "unat (fold_while (checksum_loop 0 bs)) = ones (le_sum bs)"
    by (simp add: fold_while_ones unat_checksum_loop)
  then have "(ucast (fold_while (checksum_loop 0 bs)) :: 16 word) = word_of_nat (ones (le_sum bs))"
    by (metis of_nat_unat)
  then show ?thesis by (simp add: checksum_def ucast_not)
qed

text \<open>Byte order: 256 times the big-endian sum is the little-endian one modulo 65535.\<close>

lemma le_be_sum_mod: "even (length bs) \<Longrightarrow> (256 * be_sum bs) mod 65535 = le_sum bs mod 65535"
proof (induction bs rule: be_sum.induct)
  case (1 b0 b1 bs)
  then have IH: "(256 * be_sum bs) mod 65535 = le_sum bs mod 65535" by simp
  have "256 * be_sum (b0 # b1 # bs) = (unat b0 + 256 * unat b1 + 256 * be_sum bs) + 65535 * unat b0"
    by simp
  then have "(256 * be_sum (b0 # b1 # bs)) mod 65535 = (unat b0 + 256 * unat b1 + 256 * be_sum bs) mod 65535"
    by (simp only: mod_mult_self2)
  also have "\<dots> = (unat b0 + 256 * unat b1 + le_sum bs) mod 65535"
    using IH by (metis mod_add_right_eq)
  finally show ?case by simp
qed simp_all

lemma be_le_sum_0: "even (length bs) \<Longrightarrow> be_sum bs = 0 \<longleftrightarrow> le_sum bs = 0"
  by (induction bs rule: be_sum.induct) auto

lemma htons_of_nat:
  "n < 65536 \<Longrightarrow> unat (htons (word_of_nat n)) = 256 * (n mod 256) + n div 256"
proof -
  assume n: "n < 65536"
  have "(word_of_nat n :: 16 word) = le16 (word_of_nat (n mod 256)) (word_of_nat (n div 256))"
    using n by (intro word_unat_eq_iff [THEN iffD2])
      (simp add: unat_le16 unsigned_of_nat take_bit_eq_mod less_mult_imp_div_less)
  then show ?thesis
    using n by (simp add: htons_le16 unat_le16 unsigned_of_nat take_bit_eq_mod less_mult_imp_div_less)
qed

lemma ones_cong: "m mod 65535 = n mod 65535 \<Longrightarrow> (m = 0 \<longleftrightarrow> n = 0) \<Longrightarrow> ones m = ones n"
proof (cases "n = 0")
  case False
  assume e: "m mod 65535 = n mod 65535" and "m = 0 \<longleftrightarrow> n = 0"
  then have "m \<noteq> 0" using False by simp
  have "(m - 1) mod 65535 = (n - 1) mod 65535"
  proof -
    have "int m mod 65535 = int n mod 65535" using e by (metis of_nat_mod of_nat_numeral)
    then have "(int m - 1) mod 65535 = (int n - 1) mod 65535" by (metis mod_diff_left_eq)
    then have "int ((m - 1) mod 65535) = int ((n - 1) mod 65535)"
      using False \<open>m \<noteq> 0\<close> by (simp add: zmod_int of_nat_diff)
    then show ?thesis by simp
  qed
  then show ?thesis using False \<open>m \<noteq> 0\<close> by (simp add: ones_def)
qed simp

lemma htons_ones:
  assumes "even (length bs)"
  shows "htons (word_of_nat (ones (be_sum bs))) = word_of_nat (ones (le_sum bs))"
proof -
  define n where "n = ones (be_sum bs)"
  define m where "m = 256 * (n mod 256) + n div 256"
  have n: "n < 65536" by (simp add: n_def ones_less)
  then have m: "m < 65536" unfolding m_def by linarith
  have "256 * n = m + 65535 * (n div 256)"
    unfolding m_def using mult_div_mod_eq [of 256 n] by linarith
  then have "m mod 65535 = (256 * n) mod 65535" by simp
  also have "\<dots> = (256 * be_sum bs) mod 65535"
  proof -
    have "n mod 65535 = be_sum bs mod 65535"
    proof (cases "be_sum bs")
      case 0
      then show ?thesis by (simp add: n_def ones_def)
    next
      case (Suc k)
      then show ?thesis by (simp add: n_def ones_def mod_Suc_eq)
    qed
    then show ?thesis by (metis mod_mult_right_eq)
  qed
  also have "\<dots> = le_sum bs mod 65535" using assms by (rule le_be_sum_mod)
  finally have cong: "m mod 65535 = le_sum bs mod 65535" .
  have "m = 0 \<longleftrightarrow> n = 0" unfolding m_def using mult_div_mod_eq [of 256 n] by auto
  also have "\<dots> \<longleftrightarrow> be_sum bs = 0" by (simp add: n_def ones_def)
  also have "\<dots> \<longleftrightarrow> le_sum bs = 0" using assms by (rule be_le_sum_0)
  finally have "ones m = ones (le_sum bs)" by (rule ones_cong [OF cong])
  then have "m = ones (le_sum bs)" using m by (simp add: ones_small)
  moreover have "unat (htons (word_of_nat n)) = m" using htons_of_nat [OF n] by (simp add: m_def)
  ultimately show ?thesis
    using ones_less [of "le_sum bs"]
    by (intro word_unat_eq_iff [THEN iffD2]) (simp add: n_def unsigned_of_nat take_bit_eq_mod)
qed

section \<open>The checksums of the packets\<close>

text \<open>
  \<open>icmpv6_cksum\<close> and \<open>udp_cksum\<close> of \<open>utils.c\<close>: \<open>hdr\<close> is the packet from its IPv6 header on; with the
  destination options header of the daemon the upper-layer header is at offset 72 and its payload
  at offset 80. Reading past the packet is the fault \<open>Out_Of_Bounds\<close>.
\<close>

definition icmpv6_cksum :: "in6_addr \<Rightarrow> in6_addr \<Rightarrow> 8 word list \<Rightarrow> nat \<Rightarrow> 16 word \<Rightarrow> 16 word result" where
  "icmpv6_cksum src_ip dst_ip hdr icmp_pay_l ipv6_pay_l =
     (if length hdr < 80 + icmp_pay_l then Inl Out_Of_Bounds
      else
        let s = cksum_sum (addr_bytes src_ip) True;
            s = s + cksum_sum (addr_bytes dst_ip) True;
            s = s + cksum_sum (store16 ipv6_pay_l) False;
            s = s + cksum_sum (store16 0x003a) False;
            s = s + cksum_sum (store16 (htons (load16 hdr 72))) False;
            s = s + cksum_sum (store16 (load16 hdr 76)) True;
            s = s + cksum_sum (store16 (load16 hdr 78)) True;
            s = s + cksum_sum (take icmp_pay_l (drop 80 hdr)) True
        in Inr (utils_fold s))"

definition udp_cksum :: "in6_addr \<Rightarrow> in6_addr \<Rightarrow> 8 word list \<Rightarrow> nat \<Rightarrow> 16 word \<Rightarrow> 16 word result" where
  "udp_cksum src_ip dst_ip hdr udp_pay_l ipv6_pay_l =
     (if length hdr < 80 + udp_pay_l then Inl Out_Of_Bounds
      else
        let s = cksum_sum (addr_bytes src_ip) True;
            s = s + cksum_sum (addr_bytes dst_ip) True;
            s = s + cksum_sum (store16 ipv6_pay_l) False;
            s = s + cksum_sum (store16 0x0011) False;
            s = s + cksum_sum (store16 (htons (load16 hdr 72))) False;
            s = s + cksum_sum (store16 (htons (load16 hdr 74))) False;
            s = s + cksum_sum (store16 (htons (load16 hdr 76))) False;
            s = s + cksum_sum (take udp_pay_l (drop 80 hdr)) True
        in Inr (utils_fold s))"

text \<open>\<open>icmp6_checksum\<close> of \<open>ping6.c\<close> builds the pseudo-header and the message in a buffer.\<close>

definition ICMP_HDRLEN :: nat where "ICMP_HDRLEN = 8"

definition icmp6_checksum ::
  "in6_addr \<Rightarrow> in6_addr \<Rightarrow> 8 word \<Rightarrow> 8 word \<Rightarrow> 8 word \<Rightarrow> 16 word \<Rightarrow> 16 word \<Rightarrow> 8 word list \<Rightarrow> 16 word" where
  "icmp6_checksum ip6_src ip6_dst ip6_nxt icmp6_type icmp6_code icmp6_id icmp6_seq payload =
     (let payloadlen = length payload;
          buf = addr_bytes ip6_src @ addr_bytes ip6_dst @
            [0, 0, word_of_nat ((ICMP_HDRLEN + payloadlen) div 256),
             word_of_nat ((ICMP_HDRLEN + payloadlen) mod 256)] @
            [0, 0, 0] @ [ip6_nxt] @ [icmp6_type] @ [icmp6_code] @
            store16 icmp6_id @ store16 icmp6_seq @ [0, 0] @ payload @
            (if payloadlen mod 2 = 1 then [0] else [])
      in checksum buf)"


lemma be_sum_append: "even (length bs) \<Longrightarrow> be_sum (bs @ cs) = be_sum bs + be_sum cs"
  by (induction bs rule: be_sum.induct) auto

lemma le_sum_append: "even (length bs) \<Longrightarrow> le_sum (bs @ cs) = le_sum bs + le_sum cs"
  by (induction bs rule: le_sum.induct) auto

lemma le16_store16: "le16 (ucast w) (ucast (drop_bit 8 w)) = w" for w :: "16 word"
  by (rule bit_word_eqI)
     (auto simp add: le16_def bit_or_iff bit_push_bit_iff bit_ucast_iff bit_drop_bit_eq)

lemma le_sum_store16: "le_sum (store16 w) = unat w"
  using unat_le16 [of "ucast w" "ucast (drop_bit 8 w)"] by (simp add: store16_def le16_store16)

lemma be_sum_store16: "be_sum (store16 w) = unat (htons w)"
  using unat_le16 [of "ucast (drop_bit 8 w)" "ucast w"] htons_le16 [of "ucast w" "ucast (drop_bit 8 w)"]
  by (simp add: store16_def le16_store16)

lemma unat_cksum_sum_be:
  "even (length bs) \<Longrightarrow> be_sum bs < 4294967296 \<Longrightarrow> unat (cksum_sum bs True) = be_sum bs"
  by (simp add: cksum_sum_def unat_cksum_loop_be)

lemma cksum_sum_store16: "cksum_sum (store16 w) False = ucast w"
  by (simp add: cksum_sum_def store16_def Let_def le16_store16)

lemma unat_sum_list:
  "sum_list (map unat ws) < 4294967296 \<Longrightarrow> unat (sum_list ws) = sum_list (map unat ws)" for ws :: "32 word list"
  by (induction ws) (simp_all add: unat_add_bounded)

text \<open>The bytes summed for an ICMPv6 message, as \<open>icmp6_checksum\<close> lays them out, for an even payload.\<close>

definition icmp_buf ::
  "in6_addr \<Rightarrow> in6_addr \<Rightarrow> 8 word \<Rightarrow> 8 word \<Rightarrow> 16 word \<Rightarrow> 16 word \<Rightarrow> 8 word list \<Rightarrow> 8 word list" where
  "icmp_buf src dst ty code iden sq payload =
     addr_bytes src @ addr_bytes dst @
       [0, 0, word_of_nat ((8 + length payload) div 256), word_of_nat ((8 + length payload) mod 256), 0, 0, 0, 58, ty, code] @
       store16 iden @ store16 sq @ [0, 0] @ payload"

lemma icmp6_checksum_buf:
  "even (length payload) \<Longrightarrow> icmp6_checksum src dst 58 ty code iden sq payload = checksum (icmp_buf src dst ty code iden sq payload)"
  by (simp add: icmp6_checksum_def icmp_buf_def ICMP_HDRLEN_def Let_def)

lemma even_icmp_buf: "even (length payload) \<Longrightarrow> even (length (icmp_buf src dst ty code iden sq payload))"
  by (simp add: icmp_buf_def store16_def)

lemma be_sum_icmp_buf:
  assumes "even (length payload)" and "length payload \<le> 65527"
  shows "be_sum (icmp_buf src dst ty code iden sq payload) =
    be_sum (addr_bytes src) + be_sum (addr_bytes dst) + (8 + length payload) + 58 +
    (256 * unat ty + unat code) + be_sum (store16 iden) + be_sum (store16 sq) + be_sum payload"
proof -
  have hi: "unat (word_of_nat ((8 + length payload) div 256) :: 8 word) = (8 + length payload) div 256"
    using assms(2) by (simp add: unsigned_of_nat take_bit_eq_mod)
  have lo: "unat (word_of_nat ((8 + length payload) mod 256) :: 8 word) = (8 + length payload) mod 256"
    by (simp add: unsigned_of_nat take_bit_eq_mod)
  show ?thesis
    unfolding icmp_buf_def
    by (simp add: be_sum_append store16_def hi lo del: of_nat_add)
qed

lemma icmpv6_cksum_sum:
  assumes "even (length payload)" and "length payload \<le> 65527" and "length pre = 72"
  shows "icmpv6_cksum src dst (pre @ [ty, code, c0, c1] @ store16 iden @ store16 sq @ payload @ rest)
      (length payload) (word_of_nat (8 + length payload)) =
    Inr (NOT (word_of_nat (ones (be_sum (icmp_buf src dst ty code iden sq payload)))))"
proof -
  define hdr where "hdr = pre @ [ty, code, c0, c1] @ store16 iden @ store16 sq @ payload @ rest"
  have len: "80 + length payload \<le> length hdr" using assms(3) by (simp add: hdr_def store16_def)
  have loads: "load16 hdr 72 = le16 ty code" "load16 hdr 76 = iden" "load16 hdr 78 = sq"
    "take (length payload) (drop 80 hdr) = payload"
    using assms(3) by (simp_all add: hdr_def load16_def nth_append store16_def le16_store16)
  define ws where "ws = [cksum_sum (addr_bytes src) True, cksum_sum (addr_bytes dst) True,
    ucast (word_of_nat (8 + length payload) :: 16 word), ucast (0x003a :: 16 word), ucast (le16 code ty),
    cksum_sum (store16 iden) True, cksum_sum (store16 sq) True, cksum_sum payload True]"
  have bounds: "be_sum (addr_bytes src) \<le> 32768 * 17" "be_sum (addr_bytes dst) \<le> 32768 * 17"
    "be_sum (store16 iden) \<le> 32768 * 3" "be_sum (store16 sq) \<le> 32768 * 3" "be_sum payload \<le> 32768 * 65528"
    "256 * unat ty + unat code \<le> 65535"
    using be_sum_bound [of "addr_bytes src"] be_sum_bound [of "addr_bytes dst"] be_sum_bound [of "store16 iden"]
      be_sum_bound [of "store16 sq"] be_sum_bound [of payload] assms(2) unat_byte [of ty] unat_byte [of code]
    by simp_all
  have l: "unat (word_of_nat (8 + length payload) :: 16 word) = 8 + length payload"
    using assms(2) by (simp only: unsigned_of_nat) (simp add: take_bit_eq_mod)
  have us: "map unat ws = [be_sum (addr_bytes src), be_sum (addr_bytes dst), 8 + length payload, 58,
      256 * unat ty + unat code, be_sum (store16 iden), be_sum (store16 sq), be_sum payload]"
    unfolding ws_def list.map unat_ucast_16_32 l using bounds assms(1)
    by (simp add: unat_cksum_sum_be unat_le16)
  have "unat (sum_list ws) = be_sum (icmp_buf src dst ty code iden sq payload)"
    using bounds assms(2) by (subst unat_sum_list) (simp_all add: us be_sum_icmp_buf [OF assms(1,2)])
  moreover have "icmpv6_cksum src dst hdr (length payload) (word_of_nat (8 + length payload)) =
      Inr (utils_fold (sum_list ws))"
    using len by (simp add: icmpv6_cksum_def Let_def loads cksum_sum_store16 htons_le16 ws_def add.assoc
        del: of_nat_add)
  ultimately show ?thesis
    by (simp only: hdr_def [symmetric] utils_fold_ones)
qed

section \<open>Properties\<close>

text \<open>The two-step fold of \<open>utils.c\<close> and the \<open>while\<close> loop of \<open>ping6.c\<close>
  give the same one's complement checksum for every 32-bit sum.\<close>

theorem checksum_folds_agree: "utils_fold s = ucast (NOT (fold_while s))"
proof -
  have "(ucast (fold_while s) :: 16 word) = word_of_nat (unat (fold_while s))" by simp
  then show ?thesis by (simp only: utils_fold_ones ucast_not fold_while_ones)
qed

lemma checksum_completed:
  assumes "le_sum bs \<le> 2147516416" and "le_sum cs = le_sum bs + unat (checksum bs)"
  shows "checksum cs = 0"
proof -
  define n where "n = le_sum bs"
  have n: "n \<le> 2147516416" using assms(1) by (simp add: n_def)
  then have c: "checksum bs = NOT (word_of_nat (ones n))" by (simp add: n_def checksum_ones)
  have o: "ones n < 65536" by (rule ones_less)
  have "(65535 :: 16 word) = - 1" by simp
  then have "NOT (word_of_nat (ones n)) = (word_of_nat (65535 - ones n) :: 16 word)"
    using o by (simp only: not_eq_complement of_nat_diff less_Suc_eq_le of_nat_numeral) (simp add: of_nat_diff)
  then have "unat (NOT (word_of_nat (ones n)) :: 16 word) = 65535 - ones n"
    by (simp only: unsigned_of_nat) (simp add: take_bit_eq_mod)
  then have sum: "le_sum cs = n + (65535 - ones n)" by (simp only: assms(2) c n_def)
  have "ones (n + (65535 - ones n)) = 65535"
  proof (cases "n = 0")
    case True
    then show ?thesis by (simp add: ones_def)
  next
    case False
    then have on: "ones n = (n - 1) mod 65535 + 1" by (simp add: ones_def)
    then have "n + (65535 - ones n) - 1 = 65534 + 65535 * ((n - 1) div 65535)"
      using False o mult_div_mod_eq [of 65535 "n - 1"] by linarith
    then have "(n + (65535 - ones n) - 1) mod 65535 = 65534" by simp
    then show ?thesis using False by (simp add: ones_def)
  qed
  moreover have "le_sum cs < 4294967296"
    using n unfolding sum by linarith
  ultimately have "checksum cs = NOT (word_of_nat 65535)"
    by (simp only: checksum_ones sum)
  then show ?thesis by simp
qed

text \<open>C37: A receiver that sums a message of even length followed by its checksum
  gets the checksum 0.\<close>

theorem checksum_verifies:
  assumes "even (length bs)" and "length bs \<le> 65536"
  shows "checksum (bs @ store16 (checksum bs)) = 0"
proof (rule checksum_completed)
  show "le_sum bs \<le> 2147516416" using le_sum_bound [of bs] assms(2) by simp
  show "le_sum (bs @ store16 (checksum bs)) = le_sum bs + unat (checksum bs)"
    using assms(1) by (simp only: le_sum_append le_sum_store16)
qed

theorem checksum_verifies_witness: "checksum ([0x12, 0x34, 0xff, 0x01] @ store16 (checksum [0x12, 0x34, 0xff, 0x01])) = 0"
  by (rule checksum_verifies) simp_all

text \<open>C38: The checksum with which the daemon rewrites a forwarded ICMPv6 message
  (\<open>icmpv6_cksum\<close>, a value in host order) is the byte swap of the one its own probes carry
  (\<open>icmp6_checksum\<close>, stored as it is), for every message behind 72 bytes of headers with a payload of even length, up to 65527 bytes. For
  an odd length the last word is not padded with zero as that of the probe is (\<open>cksum_sum_odd_tail\<close>).\<close>

theorem icmp_checksums_agree:
  assumes "even (length payload)" and "length payload \<le> 65527" and "length pre = 72"
  shows "icmpv6_cksum src dst (pre @ [ty, code, c0, c1] @ store16 iden @ store16 sq @ payload @ rest)
      (length payload) (word_of_nat (8 + length payload)) =
    Inr (htons (icmp6_checksum src dst 58 ty code iden sq payload))"
proof -
  let ?buf = "icmp_buf src dst ty code iden sq payload"
  have "le_sum ?buf < 4294967296"
    using le_sum_bound [of ?buf] assms(2) by (simp add: icmp_buf_def)
  then have "icmp6_checksum src dst 58 ty code iden sq payload = NOT (word_of_nat (ones (le_sum ?buf)))"
    using assms(1) by (simp only: icmp6_checksum_buf checksum_ones)
  also have "\<dots> = NOT (htons (word_of_nat (ones (be_sum ?buf))))"
    using assms(1) by (simp only: htons_ones even_icmp_buf)
  also have "\<dots> = htons (NOT (word_of_nat (ones (be_sum ?buf))))"
    by (rule bit_word_eqI) (auto simp add: bit_htons bit_not_iff)
  finally show ?thesis by (simp only: icmpv6_cksum_sum [OF assms] htons_htons)
qed

theorem icmp_checksums_agree_witness:
  "icmpv6_cksum zero_addr zero_addr (replicate 72 0 @ [128, 0, 0, 0] @ store16 7 @ store16 1 @ [1, 2] @ [])
     (length [1, 2 :: 8 word]) (word_of_nat (8 + length [1, 2 :: 8 word])) =
   Inr (htons (icmp6_checksum zero_addr zero_addr 58 128 0 7 1 [1, 2]))"
  by (rule icmp_checksums_agree) simp_all

text \<open>For a message of odd length \<open>cksum_sum\<close> does not pad the last byte with
  zero, as the Internet checksum does: it adds a word whose high byte is left over from the word
  before it and whose low byte is the last byte.\<close>

theorem cksum_sum_odd_tail:
  "cksum_sum [b0, b1, b2] True = ucast (le16 b1 b0) + ucast (le16 b2 b0)"
proof -
  have "(le16 b1 b0 AND 0xff00) OR ucast b2 = le16 b2 b0"
  proof (rule bit_word_eqI)
    fix n
    show "bit ((le16 b1 b0 AND 0xff00) OR ucast b2) n = bit (le16 b2 b0) n"
      unfolding le16_def bit_or_iff bit_and_iff bit_high_byte bit_push_bit_iff bit_ucast_iff
      by (auto dest: bit_imp_le_length)
  qed
  then show ?thesis by (simp add: cksum_sum_def Let_def htons_le16)
qed

end
