(* ===== verification/Dns.thy ===== *)
theory Dns
  imports Rendezvous Checksum
begin

text \<open>
  The name service in front of the rendezvous (\<open>answer_dns_query\<close> of \<open>rendezvous.c\<close>): a DNS query that leaves the node
  waits in a queue while its name is looked up, and the answer of the server is turned into a DNS response.
  Packets and responses are lists of bytes; a write outside the response, a string without an end and a read
  outside the stored packet are faults. Reads made only for messages on the console are left out.
\<close>

section \<open>Buffers\<close>

definition MDNS_QUERY_OFFSET :: nat where "MDNS_QUERY_OFFSET = 12"
definition UDP_PKT_OFF :: nat where "UDP_PKT_OFF = 40 + 32 + 8"
definition IPV6_MDNS_QUERY_OFF :: nat where "IPV6_MDNS_QUERY_OFF = 40 + 32 + 8 + MDNS_QUERY_OFFSET"
definition MDNS_PORT :: "16 word" where "MDNS_PORT = 5353"
definition DNS_PORT :: "16 word" where "DNS_PORT = 53"

text \<open>The C string at an offset of a packet.\<close>

definition string_at :: "nat \<Rightarrow> byte list \<Rightarrow> byte list result" where
  "string_at off pkt = c_string (drop off pkt)"

text \<open>What the function is called with: a packet, the message of a server, or nothing.\<close>

datatype dns_data = No_Data | Query_Data "byte list" | Reply_Data rv_ctrl_pkt

section \<open>Queries\<close>

text \<open>
  \<open>aux_str\<close> has 150 bytes; the loop that drops the first character runs \<open>strlen - 1\<close> times, an unsigned number. A
  name found in the cache leads to a pointer that has never been set.
\<close>

definition dns_ask :: "env \<Rightarrow> byte list \<Rightarrow> nat \<Rightarrow> 16 word \<Rightarrow> 16 word \<Rightarrow> handler" where
  "dns_ask E data sz dest_port source_port s =
     bind (string_at IPV6_MDNS_QUERY_OFF data) (\<lambda>name.
       if 150 \<le> length name then Inl Buffer_Overflow
       else case name of
         [] \<Rightarrow> Inl Out_Of_Bounds
       | _ # aux_str \<Rightarrow>
           bind (solve_name E aux_str (socket_global s) s) (\<lambda>(aux, s).
             case aux of
               Some _ \<Rightarrow> Inl Wild_Pointer
             | None \<Rightarrow>
                 if length data < sz then Inl Out_Of_Bounds
                 else Inr (s\<lparr>dns := dns s @ [\<lparr>q_pkt = take sz data, q_dst_port = dest_port, q_src_port = source_port\<rparr>]\<rparr>)))"

section \<open>Answers\<close>

text \<open>The first waiting query of the name of the answer.\<close>

fun dns_find :: "rv_ctrl_pkt \<Rightarrow> nat \<Rightarrow> dns_q_queue list \<Rightarrow> nat option result" where
  "dns_find m i [] = Inr None"
| "dns_find m i (q # qs) =
     bind (string_at (IPV6_MDNS_QUERY_OFF + 1) (q_pkt q)) (\<lambda>str.
     bind (c_string (rv_univ_addr m)) (\<lambda>name.
       if length str = length name then
         bind (string_at IPV6_MDNS_QUERY_OFF (q_pkt q)) (\<lambda>full.
           if full = [] then Inl Out_Of_Bounds
           else if take (length full - 1) (drop (IPV6_MDNS_QUERY_OFF + 1) (q_pkt q)) = take (length full - 1) (rv_univ_addr m)
           then Inr (Some i) else dns_find m (Suc i) qs)
       else dns_find m (Suc i) qs))"

text \<open>The authority and the additional record behind the answer, always the same.\<close>

definition dns_tail :: "byte list" where
  "dns_tail = [0xc0, 0x15, 0, 2, 0, 1, 0, 0, 28, 32, 0, 2, 0xc0, 0x15, 192, 0x15, 0, 28, 0, 1, 0, 0, 28, 32, 0, 16, 32, 1, 0]
     @ replicate 12 0 @ [10]"

text \<open>
  The response: the query from its UDP payload on, in a buffer of \<open>size_aux + 42\<close> bytes, turned into an answer. The
  length of the question is computed anew after every write.
\<close>

definition dns_response :: "env \<Rightarrow> byte list \<Rightarrow> in6_addr \<Rightarrow> nat \<Rightarrow> byte list result" where
  "dns_response E pkt a size_aux =
     (let buf = drop UDP_PKT_OFF pkt;
          buf = buf @ map (heap_junk E) [length buf..<size_aux + 42]
      in bind (write_at 2 [0x85, 0] buf) (\<lambda>buf.
         bind (write_at 6 [0, 1, 0, 1, 0, 1] buf) (\<lambda>buf.
         bind (string_at MDNS_QUERY_OFFSET buf) (\<lambda>name.
         bind (write_at (MDNS_QUERY_OFFSET + length name + 3) [0, 1] buf) (\<lambda>buf.
         bind (string_at MDNS_QUERY_OFFSET buf) (\<lambda>name.
           let data_aux2 = MDNS_QUERY_OFFSET + 5 + length name;
               src = drop (UDP_PKT_OFF + MDNS_QUERY_OFFSET) pkt
           in if length src < length name + 5 then Inl Out_Of_Bounds
              else
                bind (write_at data_aux2 (take (length name + 5) src) buf) (\<lambda>buf.
                bind (string_at MDNS_QUERY_OFFSET buf) (\<lambda>name.
                  let data_aux2 = data_aux2 + length name + 5
                  in bind (write_at data_aux2 [0, 0, 0, 0x0a, 0, 16] buf) (\<lambda>buf.
                     bind (write_at (data_aux2 + 6) (addr_bytes a) buf) (\<lambda>buf.
                     write_at (data_aux2 + 22) dns_tail buf))))))))))"

text \<open>
  The query is taken from the queue before the response is sent; when it is the first, the rest of the queue is read
  from memory that has just been freed. The stored ports decide where the response goes.
\<close>

definition dns_reply :: "env \<Rightarrow> rv_ctrl_pkt \<Rightarrow> handler" where
  "dns_reply E m s =
     bind (dns_find m 0 (dns s)) (\<lambda>hit.
       case hit of
         None \<Rightarrow> Inl Null_Deref
       | Some i \<Rightarrow>
           let q = dns s ! i
           in bind (string_at IPV6_MDNS_QUERY_OFF (q_pkt q)) (\<lambda>full.
              let size_aux = length (q_pkt q) - 80 + length full + 1 + 26
              in bind (dns_response E (q_pkt q) (rv_prim_addr m) size_aux) (\<lambda>data_aux.
                 let s = s\<lparr>dns := (if i = 0 then freed_next E (tl (dns s)) else take i (dns s) @ drop (Suc i) (dns s))\<rparr>
                 in if htons (q_src_port q) = MDNS_PORT
                    then Inr (antop_socket_send_bytes E (take size_aux data_aux) (prim_addr s) (socket_global_mdns s)
                           (uint (htons (q_dst_port q))) s)
                    else if htons (q_src_port q) = DNS_PORT
                    then Inr (antop_socket_send_bytes E data_aux (prim_addr s) (socket_global_dns s) (uint (htons (q_dst_port q))) s)
                    else Inr s)))"

text \<open>
  The three calls of the program: a query with its size and port, a solved answer without them, and neither. A query
  with size or port zero would copy from a null pointer; data of the other kind is not passed.
\<close>

definition answer_dns_query :: "env \<Rightarrow> dns_data \<Rightarrow> nat \<Rightarrow> 16 word \<Rightarrow> bool \<Rightarrow> 16 word \<Rightarrow> handler" where
  "answer_dns_query E data sz dest_port solved source_port s =
     (if \<not> solved \<and> sz = 0 \<and> dest_port = 0 then Inr s
      else if \<not> solved \<and> sz \<noteq> 0 \<and> dest_port \<noteq> 0 then
        (case data of Query_Data pkt \<Rightarrow> dns_ask E pkt sz dest_port source_port s | _ \<Rightarrow> Inl Wild_Pointer)
      else if solved then (case data of Reply_Data m \<Rightarrow> dns_reply E m s | _ \<Rightarrow> Inl Wild_Pointer)
      else Inl Wild_Pointer)"

end
