(* ===== verification/Antop_Socket.thy ===== *)
theory Antop_Socket
  imports Hcb_Address Dns
begin

text \<open>
  Reception (\<open>antop_socket.c\<close>): the type of a message selects its handler. A message is read as
  \<open>Ctrl\<close> or \<open>Rv\<close> according to that type; \<open>Ctrl\<close> messages with a type of the rendezvous service, and
  the converse, do not occur. The network number is looked at before a message of another network is let in.
\<close>

text \<open>\<open>MAR1\<close> that returns from the own network ends a merge the node has started.\<close>

definition mar1_give_up :: "ctrl_pkt \<Rightarrow> node \<Rightarrow> node" where
  "mar1_give_up msg s =
     (if a_red_numero (ad_addr msg) = red_numero s \<and> prim_addr s = dir_default s then
        let s = sleep 2 (del_and_addnew (prim_addr s) (prim_addr_aux s) 2 s);
            s = s\<lparr>prim_addr := prim_addr_aux s\<rparr>
        in s\<lparr>flag_mezcla := False\<rparr>
      else s)"

definition process_ctrl :: "env \<Rightarrow> int \<Rightarrow> ctrl_pkt \<Rightarrow> handler" where
  "process_ctrl E fd msg s =
     (let ty = pkt_type_f msg; red = a_red_numero (ad_addr msg)
      in if ty = PAR then send_pap E fd (p_src_addr msg) s
         else if ty = PAP then Inr s
         else if ty = PAN then
           (if red \<noteq> red_numero s then Inr s
            else if prim_addr s = a_addr (ad_addr msg)
            then Inr (send_panc E fd (p_src_addr msg) (a_addr (ad_addr msg)) (p_prim_addr msg) s)
            else Inr s)
         else if ty = HB then
           (if flag_fragmentacion s \<or> flag_mezcla s then Inr s else process_hb E msg s)
         else if ty = SAP then
           (if red \<noteq> red_numero s then Inr s
            else if flag_fragmentacion s \<or> flag_mezcla s then Inr s
            else process_sap1 E msg s)
         else if ty = SAN then process_san1 msg s
         else if ty = FAR then process_far E msg s
         else if ty = FAN then process_fan E msg s
         else if ty = MAR1 then
           (let s = mar1_give_up msg s
            in if (red \<noteq> red_numero s \<or> sec_addr_flag s) \<and> a_addr (ad_addr msg) = prim_addr s
               then process_mar1 E msg s else Inr s)
         else if ty = MAR2 then
           (if red \<noteq> red_numero s \<or> sec_addr_flag s then process_mar2 E msg s else Inr s)
         else if ty = MAN1 then (if red = red_numero s then process_man1 E msg s else Inr s)
         else if ty = MAN2 then (if red = red_numero s then process_man2 E msg s else Inr s)
         else Inr s)"

definition process_rv :: "env \<Rightarrow> int \<Rightarrow> rv_ctrl_pkt \<Rightarrow> handler" where
  "process_rv E fd msg s =
     (if rv_type msg = RV_REG then rv_table_add msg s
      else if rv_type msg = RV_ADDR_LOOKUP then answer_rv_query E msg fd s
      else if rv_type msg = RV_ADDR_SOLVE then
        (if rv_flags msg AND MASK_SOLVED \<noteq> 0 then answer_dns_query E (Reply_Data msg) 0 0 True 0 s
         else answer_dns_query E No_Data 0 0 False 0 s)
      else Inr s)"

definition antop_process_pkt :: "env \<Rightarrow> int \<Rightarrow> packet \<Rightarrow> handler" where
  "antop_process_pkt E fd antop_msg s =
     (case antop_msg of Ctrl msg \<Rightarrow> process_ctrl E fd msg s | Rv msg \<Rightarrow> process_rv E fd msg s)"

text \<open>
  What \<open>recvmsg\<close> delivers: an error, or a message together with whether the control data names the
  interface it came from.
\<close>

datatype rx = Rx_Error | Rx packet bool

definition antop_socket_read :: "env \<Rightarrow> int \<Rightarrow> rx \<Rightarrow> node \<Rightarrow> (int \<times> node) result" where
  "antop_socket_read E fd r s =
     (case r of
        Rx_Error \<Rightarrow> Inr (-1, s)
      | Rx antop_msg moveon \<Rightarrow>
          if moveon then bind (antop_process_pkt E fd antop_msg s) (\<lambda>s. Inr (0, s)) else Inr (0, s))"

end
