(* ===== verification/Daemon.thy ===== *)
theory Daemon
  imports Antop_Socket
begin

text \<open>
  The life of the daemon (\<open>main.c\<close>, \<open>get_prim_addr\<close> of \<open>hcb_address.c\<close>): it asks for a primary
  address, starts its timers and then reacts to messages and timers for ever.
\<close>

section \<open>Getting a primary address\<close>

text \<open>
  The fields \<open>receive_pap\<close> reads whatever the type of the message: bytes 60 and 62 of a rendezvous
  message belong to its name.
\<close>

definition raw_type :: "packet \<Rightarrow> byte" where
  "raw_type p = (case p of Ctrl m \<Rightarrow> pkt_type_f m | Rv m \<Rightarrow> rv_type m)"

definition raw_red :: "packet \<Rightarrow> byte" where
  "raw_red p = (case p of Ctrl m \<Rightarrow> a_red_numero (ad_addr m) | Rv m \<Rightarrow> rv_univ_addr m ! 34)"

text \<open>
  Returns -1 for an error, 0 for a proposal with a mask, 1 for anything else; the message is processed first
  like every other. The buffer it lies in belongs to a function that has returned; the model
  takes its contents to be intact.
\<close>

definition receive_pap :: "env \<Rightarrow> int \<Rightarrow> rx \<Rightarrow> node \<Rightarrow> (int \<times> node) result" where
  "receive_pap E sock r s =
     bind (antop_socket_read E sock r s) (\<lambda>(ret, s).
       if ret < 0 then Inr (-1, s)
       else case r of
           Rx_Error \<Rightarrow> Inr (-1, s)
         | Rx p moveon \<Rightarrow>
             let s = s\<lparr>red_numero := raw_red p\<rparr>
             in case p of
                  Ctrl m \<Rightarrow> Inr (if pkt_type_f m = PAP \<and> a_mask (ad_addr m) \<noteq> 0 then 0 else 1, s)
                | Rv m \<Rightarrow> Inr (1, s))"

definition NULL_ADDR_SET :: int where "NULL_ADDR_SET = -2"
definition NO_ADDR_AVLB :: int where "NO_ADDR_AVLB = -1"
definition ADDR_OK :: int where "ADDR_OK = 0"

text \<open>
  The inner loop, over what arrives before the time is up; it stops early with ten proposals. Returns
  \<open>recvd_paps\<close>, the proposals and whether it stopped early.
\<close>

fun collect_paps :: "env \<Rightarrow> int \<Rightarrow> rx list \<Rightarrow> int \<Rightarrow> ctrl_pkt list \<Rightarrow> node \<Rightarrow>
    (int \<times> ctrl_pkt list \<times> bool \<times> node) result" where
  "collect_paps E sock [] recvd_paps v_pap s = Inr (recvd_paps, v_pap, False, s)"
| "collect_paps E sock (r # rs) recvd_paps v_pap s =
     bind (receive_pap E sock r s) (\<lambda>(rec_pap, s).
       let (recvd_paps, v_pap, s) =
         (if rec_pap = 0 then
            (case r of Rx (Ctrl m) _ \<Rightarrow> (recvd_paps + 1, v_pap @ [m], s\<lparr>flag_conexion := True\<rparr>)
             | _ \<Rightarrow> (recvd_paps, v_pap, s))
          else if rec_pap = -1 then (NULL_ADDR_SET, v_pap, s)
          else (recvd_paps, v_pap, s))
       in if length v_pap \<ge> MAX_RCVD_PAP then Inr (recvd_paps, v_pap, True, s)
          else collect_paps E sock rs recvd_paps v_pap s)"

text \<open>The index of the proposal with the lowest mask.\<close>

definition choose_pap :: "ctrl_pkt list \<Rightarrow> nat" where
  "choose_pap v_pap =
     fst (fold (\<lambda>k (mask_index, mask_min).
            if a_mask (ad_addr (v_pap ! k)) < mask_min then (k, a_mask (ad_addr (v_pap ! k)))
            else (mask_index, mask_min))
          [1..<min MAX_RCVD_PAP (length v_pap)] (0, a_mask (ad_addr (v_pap ! 0))))"

text \<open>The node takes the address of the proposal once its sender has confirmed.\<close>

definition adopt_pap :: "env \<Rightarrow> ctrl_pkt \<Rightarrow> handler" where
  "adopt_pap E pap s =
     (let s = emit (Set_If_Addr (a_addr (ad_addr pap))) s;
          s = send_hb E (socket_global s) False s;
          hb = (ctrl_junk E)\<lparr>p_prim_addr := p_prim_addr pap,
            ad_addr := (ad_addr (ctrl_junk E))\<lparr>a_mask := a_mask (ad_addr pap)\<rparr>\<rparr>
      in bind (process_hb E hb s) (\<lambda>s.
           Inr (s\<lparr>prim_addr := a_addr (ad_addr pap), hc_dim := unat (prim_addr_len pap),
                  prim_mask := a_mask (ad_addr pap), prim_mask_inicial := a_mask (ad_addr pap),
                  flag_conexion := False\<rparr>)))"

definition is_panc :: "ctrl_pkt \<Rightarrow> rx \<Rightarrow> bool" where
  "is_panc pap r = (case r of Rx (Ctrl m) _ \<Rightarrow> pkt_type_f m = PANC \<and> a_addr (ad_addr m) = p_prim_addr pap | _ \<Rightarrow> False)"

text \<open>
  One attempt per element of the list: what arrives while proposals are collected, and what
  arrives, if anything, after the choice has been announced. \<open>None\<close>: the attempts given are used up.
\<close>

fun get_prim_addr :: "env \<Rightarrow> in6_addr \<Rightarrow> int \<Rightarrow> (rx list \<times> rx option) list \<Rightarrow> node \<Rightarrow> (int option \<times> node) result" where
  "get_prim_addr E src sock [] s = Inr (None, s)"
| "get_prim_addr E src sock ((paps, reply) # rounds) s =
     bind (collect_paps E sock paps 0 [] (send_par E src sock s)) (\<lambda>(recvd_paps, v_pap, full, s).
       let s = (if \<not> full \<and> recvd_paps = 0 then s\<lparr>red_numero := word_of_int (mac_address E)\<rparr> else s)
       in if recvd_paps > 0 then
            let pap = v_pap ! choose_pap v_pap;
                s = s\<lparr>red_numero := a_red_numero (ad_addr pap)\<rparr>;
                s = send_pan E (p_prim_addr pap) sock (a_addr (ad_addr pap)) s
            in case reply of
                 None \<Rightarrow> get_prim_addr E src sock rounds s
               | Some r \<Rightarrow>
                   bind (antop_socket_read E sock r s) (\<lambda>(ret, s).
                     if is_panc pap r then bind (adopt_pap E pap s) (\<lambda>s. Inr (Some ADDR_OK, s))
                     else get_prim_addr E src sock rounds s)
          else if recvd_paps = NO_ADDR_AVLB then Inr (Some NO_ADDR_AVLB, s)
          else
            let s = emit (Set_If_Addr (prim_addr s)) s
            in Inr (Some NULL_ADDR_SET, s\<lparr>prim_mask := 0, prim_mask_inicial := 0\<rparr>))"

section \<open>Events\<close>

text \<open>What \<open>main\<close> does between \<open>get_prim_addr\<close> and its loop, as far as the state of the node goes.\<close>

definition start_services :: "env \<Rightarrow> node \<Rightarrow> node" where
  "start_services E s =
     (let s = s\<lparr>prim_addr_flag := True\<rparr>;
          s = heart_beat_init s;
          s = rv_tables_init E s;
          s = timer_rv_init s
      in s\<lparr>flag_init := True\<rparr>)"

definition timer_handler_of :: "env \<Rightarrow> timer_id \<Rightarrow> handler" where
  "timer_handler_of E t s =
     (case t of
        Hb_T \<Rightarrow> Inr (send_hb E (socket_global s) True s)
      | Chk_Neigh_T \<Rightarrow> check_neighbors s
      | San_T \<Rightarrow> Inr (san_t_handler s)
      | Rv_T \<Rightarrow> register_rv E s)"

datatype event = Message rx | Timeout timer_id

definition daemon_event :: "env \<Rightarrow> event \<Rightarrow> handler" where
  "daemon_event E ev s =
     (case ev of
        Message r \<Rightarrow> bind (antop_socket_read E (socket_global s) r s) (\<lambda>(_, s). Inr s)
      | Timeout t \<Rightarrow> timer_handler_of E t s)"

text \<open>A run of the main loop: the environment may differ from event to event.\<close>

inductive daemon_run :: "node \<Rightarrow> node \<Rightarrow> bool" where
  run_start: "daemon_run s s"
| run_event: "daemon_run s s' \<Longrightarrow> daemon_event E ev s' = Inr s'' \<Longrightarrow> daemon_run s s''"

end
