(* ===== verification/Network.thy ===== *)
theory Network
  imports Daemon
begin

text \<open>
  How a network grows: a new node and the node that answers it, both running the handlers of the
  daemon. The steps are whole conversations PAR, PAP, PAN, PANC of one newcomer, and what a node does besides; the last theorem
  shows what happens when two of them overlap.
\<close>

section \<open>The two sides of a conversation\<close>

text \<open>The messages of a newcomer, as \<open>send_par\<close> and \<open>send_pan\<close> build them.\<close>

definition par_msg :: "env \<Rightarrow> in6_addr \<Rightarrow> ctrl_pkt" where
  "par_msg E src = (ctrl_junk E)\<lparr>pkt_type_f := PAR, p_src_addr := src\<rparr>"

definition pan_msg :: "env \<Rightarrow> in6_addr \<Rightarrow> in6_addr \<Rightarrow> byte \<Rightarrow> ctrl_pkt" where
  "pan_msg E address chosen_addr red =
     null_ctrl\<lparr>ad_addr := (ad_addr null_ctrl)\<lparr>a_addr := address, a_red_numero := red\<rparr>,
       p_prim_addr := chosen_addr, p_src_addr := if_addr E, pkt_type_f := PAN\<rparr>"

lemma send_par_msg: "send_par E src sock s = antop_socket_send E (Ctrl (par_msg E src)) multicast sock ANTOP_PORT s"
  by (simp add: send_par_def par_msg_def Let_def)

lemma send_pan_msg:
  "send_pan E address sock chosen s =
     antop_socket_send E (Ctrl (pan_msg E address chosen (red_numero s))) multicast sock ANTOP_PORT s"
  by (simp add: send_pan_def pan_msg_def Let_def)

text \<open>The last message a node has sent.\<close>

definition last_sent :: "node \<Rightarrow> ctrl_pkt option" where
  "last_sent s = (case rev (trace s) of Sendmsg (Ctrl m) _ _ _ _ # _ \<Rightarrow> Some m | _ \<Rightarrow> None)"

lemma last_sent_send [simp]: "last_sent (antop_socket_send E (Ctrl m) d sk pt s) = Some m"
  by (simp add: last_sent_def antop_socket_send_def)

text \<open>The proposal of a node that has a coordinate left and no recovered address.\<close>

definition child_pap :: "env \<Rightarrow> node \<Rightarrow> ctrl_pkt" where
  "child_pap E s =
     (let pap = (ctrl_junk E)\<lparr>pkt_type_f := PAP, p_prim_addr := prim_addr s\<rparr>
      in pap\<lparr>ad_addr := (ad_addr pap)\<lparr>a_addr := toggle (prim_addr s) (unat (prim_mask s)), a_red_numero := red_numero s,
              a_mask := prim_mask s + 1\<rparr>, prim_addr_len := word_of_nat (hc_dim s)\<rparr>)"

lemma child_pap_sel [simp]:
  "pkt_type_f (child_pap E s) = PAP" "p_prim_addr (child_pap E s) = prim_addr s"
  "a_addr (ad_addr (child_pap E s)) = toggle (prim_addr s) (unat (prim_mask s))"
  "a_mask (ad_addr (child_pap E s)) = prim_mask s + 1" "a_red_numero (ad_addr (child_pap E s)) = red_numero s"
  "prim_addr_len (child_pap E s) = word_of_nat (hc_dim s)"
  by (simp_all add: child_pap_def Let_def)

lemma process_par:
  assumes "rcvd_addr s = []" and "unat (prim_mask s) < hc_dim s" and "hc_dim s \<le> 64"
  shows "antop_process_pkt E fd (Ctrl (par_msg E' src)) s =
    Inr (antop_socket_send E (Ctrl (child_pap E s)) src fd ANTOP_PORT s)"
proof -
  have "unat (prim_mask s) < 64" using assms by simp
  then have "split_addr (prim_addr s) (prim_mask s) = Inr (toggle (prim_addr s) (unat (prim_mask s)))"
    by (rule split_addr_ok)
  then show ?thesis
    using assms by (simp add: antop_process_pkt_def process_ctrl_def par_msg_def send_pap_def child_pap_def Let_def)
qed

lemma process_par_full:
  assumes "rcvd_addr s = []" and "hc_dim s \<le> unat (prim_mask s)"
    and "antop_process_pkt E fd (Ctrl (par_msg E' src)) s = Inr s'"
  shows "\<exists>m. last_sent s' = Some m \<and> a_mask (ad_addr m) = 0"
  using assms by (auto simp add: antop_process_pkt_def process_ctrl_def par_msg_def send_pap_def Let_def)

lemma process_pan:
  assumes "rcvd_offered s = None" and "p = prim_addr s" and "red = red_numero s"
  shows "\<exists>m. antop_process_pkt E fd (Ctrl (pan_msg E' p c red)) s =
      Inr (antop_socket_send E (Ctrl m) (if_addr E') fd ANTOP_PORT (s\<lparr>prim_mask := prim_mask s + 1\<rparr>)) \<and>
    pkt_type_f m = PANC \<and> a_addr (ad_addr m) = p"
  using assms
  by (intro exI [of _ "(ctrl_junk E)\<lparr>pkt_type_f := PANC, ad_addr := (ad_addr (ctrl_junk E))\<lparr>a_mask := 5, a_addr := p\<rparr>\<rparr>"])
     (simp add: antop_process_pkt_def process_ctrl_def pan_msg_def send_panc_def packet_type_defs Let_def)

lemma send_frame [simp, frame_simps]:
  "prim_addr (antop_socket_send E m d sk pt s) = prim_addr s" "prim_mask (antop_socket_send E m d sk pt s) = prim_mask s"
  "rcvd_addr (antop_socket_send E m d sk pt s) = rcvd_addr s" "rcvd_offered (antop_socket_send E m d sk pt s) = rcvd_offered s"
  "hc_dim (antop_socket_send E m d sk pt s) = hc_dim s" "red_numero (antop_socket_send E m d sk pt s) = red_numero s"
  "sec_addr_flag (antop_socket_send E m d sk pt s) = sec_addr_flag s"
  by (simp_all add: antop_socket_send_def)

section \<open>The newcomer\<close>

definition newcomer :: "node \<Rightarrow> bool" where
  "newcomer q \<longleftrightarrow> prim_addr q = root q \<and> \<not> prim_addr_flag q \<and> flag_conexion q \<and> \<not> sec_addr_flag q \<and>
     rcvd_addr q = [] \<and> rcvd_offered q = None"

lemma add_neighbor_frame:
  "add_neighbor hb f s = Inr s' \<Longrightarrow>
     prim_addr s' = prim_addr s \<and> root s' = root s \<and> rcvd_addr s' = rcvd_addr s \<and> rcvd_offered s' = rcvd_offered s \<and>
     red_numero s' = red_numero s \<and> hc_dim s' = hc_dim s"
  by (auto simp add: add_neighbor_def bind_eq_Inr_conv)

lemma hb_enter_at_root:
  assumes "hb_enter E hb f s = Inr s'" and "prim_addr s = root s"
  shows "rcvd_addr s' = rcvd_addr s \<and> rcvd_offered s' = rcvd_offered s"
proof -
  define t where "t = init_neigh_table E s"
  have t: "prim_addr t = root t" "rcvd_addr t = rcvd_addr s" "rcvd_offered t = rcvd_offered s"
    using assms(2) by (simp_all add: t_def init_neigh_table_def)
  from assms(1) obtain aux u where "find_neighbor (p_prim_addr hb) (neigh_table t) = Inr aux"
    and u: "(case aux of None \<Rightarrow> add_neighbor hb f t
        | Some _ \<Rightarrow> Inr (t\<lparr>neigh_table := refresh_neighbor (p_prim_addr hb) (a_mask (ad_addr hb)) (neigh_table t)\<rparr>)) = Inr u"
    and d: "detector_de_fragmentacion E u = Inr s'"
    unfolding hb_enter_def t_def [symmetric] Let_def by (auto elim!: bind_InrE)
  have "prim_addr u = root u \<and> rcvd_addr u = rcvd_addr s \<and> rcvd_offered u = rcvd_offered s"
    using u t by (auto split: option.splits dest!: add_neighbor_frame)
  with d show ?thesis by (simp add: detector_de_fragmentacion_def)
qed

lemma process_hb_newcomer:
  assumes "process_hb E hb q = Inr q'" and "newcomer q"
  shows "rcvd_addr q' = [] \<and> rcvd_offered q' = None"
proof (cases "flag_fragmentacion q \<or> flag_mezcla q")
  case True
  then have "q' = q" using assms(1) by (auto simp add: process_hb_def split: if_splits)
  then show ?thesis using assms(2) by (simp add: newcomer_def)
next
  case False
  have r: "hb_own_net E hb q = Inr q' \<Longrightarrow> ?thesis"
    using assms(2) hb_enter_at_root [of E hb False q q']
    by (auto simp add: hb_own_net_def newcomer_def Let_def split: if_splits)
  from False assms have "q' = q \<or> hb_own_net E hb q = Inr q'"
    by (auto simp add: process_hb_def detector_de_mezcla_def newcomer_def split: if_splits)
  with r show ?thesis using assms(2) by (auto simp add: newcomer_def)
qed

lemma send_hb_newcomer:
  assumes "newcomer q"
  shows "newcomer (send_hb E sock tm q)"
  using assms
  by (simp add: newcomer_def send_hb_def hb_checks_def check_if_i_am_only_def check_neigh_of_secondary_address_def
      check_n_s_l_table_def check_n_s_l_loop_id arm_timer_def antop_socket_send_def Let_def)

lemma adopt_pap_newcomer:
  assumes "adopt_pap E pap q = Inr q'" and "newcomer q"
  shows "prim_addr q' = a_addr (ad_addr pap) \<and> prim_mask q' = a_mask (ad_addr pap) \<and> hc_dim q' = unat (prim_addr_len pap) \<and>
    rcvd_addr q' = [] \<and> rcvd_offered q' = None"
proof -
  have "newcomer (emit (Set_If_Addr (a_addr (ad_addr pap))) q)" using assms(2) by (simp add: newcomer_def)
  then have n: "newcomer (send_hb E (socket_global (emit (Set_If_Addr (a_addr (ad_addr pap))) q)) False
      (emit (Set_If_Addr (a_addr (ad_addr pap))) q))" by (rule send_hb_newcomer)
  show ?thesis
    using assms(1) process_hb_newcomer [OF _ n]
    by (auto simp add: adopt_pap_def Let_def elim!: bind_InrE)
qed

section \<open>The address space of a network\<close>

text \<open>
  A network of dimension \<open>D\<close> is the list of its nodes. It starts with a node at the root; a newcomer
  joins at a node \<open>i\<close> that answers its PAR with a proposal (of a non-zero mask) and its PAN with a
  confirmation, and takes the proposed address. In between a node may do whatever keeps its address, its
  mask and its recovered addresses.
\<close>

definition keeps_space :: "node \<Rightarrow> node \<Rightarrow> bool" where
  "keeps_space s s' \<longleftrightarrow> prim_addr s' = prim_addr s \<and> prim_mask s' = prim_mask s \<and> hc_dim s' = hc_dim s \<and>
     rcvd_addr s' = rcvd_addr s \<and> rcvd_offered s' = rcvd_offered s"

inductive net :: "nat \<Rightarrow> node list \<Rightarrow> bool" for D where
  net_first: "prim_mask s = 0 \<Longrightarrow> hc_dim s = D \<Longrightarrow> rcvd_addr s = [] \<Longrightarrow> rcvd_offered s = None \<Longrightarrow> net D [s]"
| net_join: "net D ns \<Longrightarrow> i < length ns \<Longrightarrow>
    antop_process_pkt E fd (Ctrl (par_msg E' src)) (ns ! i) = Inr p1 \<Longrightarrow>
    last_sent p1 = Some pap \<Longrightarrow> a_mask (ad_addr pap) \<noteq> 0 \<Longrightarrow>
    antop_process_pkt E fd (Ctrl (pan_msg E' (p_prim_addr pap) (a_addr (ad_addr pap)) (a_red_numero (ad_addr pap)))) p1 = Inr p2 \<Longrightarrow>
    newcomer q \<Longrightarrow> adopt_pap E' pap q = Inr q' \<Longrightarrow> net D (ns[i := p2] @ [q'])"
| net_other: "net D ns \<Longrightarrow> i < length ns \<Longrightarrow> keeps_space (ns ! i) s' \<Longrightarrow> net D (ns[i := s'])"

inductive_cases net_NilE: "net D []"

text \<open>What is kept of every node, and the partition of the cube into their spaces.\<close>

definition allocating :: "nat \<Rightarrow> node \<Rightarrow> bool" where
  "allocating D s \<longleftrightarrow> hc_dim s = D \<and> unat (prim_mask s) \<le> D \<and> rcvd_addr s = [] \<and> rcvd_offered s = None"

definition owns :: "node \<Rightarrow> in6_addr \<Rightarrow> bool" where
  "owns s x \<longleftrightarrow> in_space x (prim_addr s) (unat (prim_mask s))"

lemma join_messages:
  assumes p: "allocating D p" and D: "D \<le> 64"
    and par: "antop_process_pkt E fd (Ctrl (par_msg E' src)) p = Inr p1"
    and pap: "last_sent p1 = Some pap" "a_mask (ad_addr pap) \<noteq> 0"
    and pan: "antop_process_pkt E fd (Ctrl (pan_msg E' (p_prim_addr pap) (a_addr (ad_addr pap)) (a_red_numero (ad_addr pap)))) p1 = Inr p2"
  obtains m where "unat (prim_mask p) < D" and "p1 = antop_socket_send E (Ctrl (child_pap E p)) src fd ANTOP_PORT p" and "pap = child_pap E p"
    and "p2 = antop_socket_send E (Ctrl m) (if_addr E') fd ANTOP_PORT (p1\<lparr>prim_mask := prim_mask p1 + 1\<rparr>)"
    and "pkt_type_f m = PANC" and "a_addr (ad_addr m) = prim_addr p"
proof -
  have lt: "unat (prim_mask p) < D"
    using process_par_full [of p E fd E' src p1] par pap p by (cases "D \<le> unat (prim_mask p)") (auto simp add: allocating_def)
  have p1: "p1 = antop_socket_send E (Ctrl (child_pap E p)) src fd ANTOP_PORT p"
    using process_par [of p E fd E' src] par p lt D by (simp add: allocating_def)
  have pap': "pap = child_pap E p" using pap(1) by (simp add: p1)
  obtain m where m: "antop_process_pkt E fd (Ctrl (pan_msg E' (prim_addr p) (a_addr (ad_addr pap)) (red_numero p))) p1 =
      Inr (antop_socket_send E (Ctrl m) (if_addr E') fd ANTOP_PORT (p1\<lparr>prim_mask := prim_mask p1 + 1\<rparr>))"
    "pkt_type_f m = PANC" "a_addr (ad_addr m) = prim_addr p"
    using process_pan [of p1 "prim_addr p" "red_numero p" E fd E' "a_addr (ad_addr pap)"] p
    by (auto simp add: p1 allocating_def)
  have "p2 = antop_socket_send E (Ctrl m) (if_addr E') fd ANTOP_PORT (p1\<lparr>prim_mask := prim_mask p1 + 1\<rparr>)"
    using m pan by (simp add: pap')
  then show thesis using lt p1 pap' m(2,3) that by blast
qed

lemma join_step:
  assumes p: "allocating D p" and D: "D \<le> 64"
    and par: "antop_process_pkt E fd (Ctrl (par_msg E' src)) p = Inr p1"
    and pap: "last_sent p1 = Some pap" "a_mask (ad_addr pap) \<noteq> 0"
    and pan: "antop_process_pkt E fd (Ctrl (pan_msg E' (p_prim_addr pap) (a_addr (ad_addr pap)) (a_red_numero (ad_addr pap)))) p1 = Inr p2"
    and q: "newcomer q" "adopt_pap E' pap q = Inr q'"
  shows "allocating D p2" and "allocating D q'"
    and "owns p x = (owns p2 x \<or> owns q' x)" and "\<not> (owns p2 x \<and> owns q' x)"
proof -
  obtain m where lt: "unat (prim_mask p) < D" and p1: "p1 = antop_socket_send E (Ctrl (child_pap E p)) src fd ANTOP_PORT p"
    and pap': "pap = child_pap E p" and p2: "p2 = antop_socket_send E (Ctrl m) (if_addr E') fd ANTOP_PORT (p1\<lparr>prim_mask := prim_mask p1 + 1\<rparr>)"
    by (rule join_messages [OF p D par pap pan])
  have m1: "unat (prim_mask p + 1) = Suc (unat (prim_mask p))"
    using lt D by (simp add: unat_word_ariths)
  have q': "prim_addr q' = toggle (prim_addr p) (unat (prim_mask p))" "prim_mask q' = prim_mask p + 1"
    "hc_dim q' = unat (word_of_nat D :: 8 word)" "rcvd_addr q' = []" "rcvd_offered q' = None"
    using adopt_pap_newcomer [OF q(2,1)] p by (simp_all add: pap' allocating_def)
  have D': "unat (word_of_nat D :: 8 word) = D" using D by (simp add: unat_of_nat)
  show "allocating D p2" using p lt m1 by (simp add: p2 p1 allocating_def)
  show "allocating D q'" using q' lt m1 D' by (simp add: allocating_def)
  have m64: "unat (prim_mask p) < 64" using lt D by simp
  show "owns p x = (owns p2 x \<or> owns q' x)" and "\<not> (owns p2 x \<and> owns q' x)"
    using in_space_split [OF m64, of x "prim_addr p"] q' m1 by (auto simp add: owns_def p2 p1)
qed

lemma filter_join:
  assumes "i < length ns" and "P (ns ! i) = (P a \<or> P b)" and "\<not> (P a \<and> P b)"
  shows "length (filter P (ns[i := a] @ [b])) = length (filter P ns)"
proof -
  have "filter P ns = filter P (take i ns) @ filter P [ns ! i] @ filter P (drop (Suc i) ns)"
    using id_take_nth_drop [OF assms(1)] by (metis append_Cons append_Nil filter_append)
  moreover have "ns[i := a] = take i ns @ a # drop (Suc i) ns" using assms(1) by (rule upd_conv_take_nth_drop)
  ultimately show ?thesis using assms(2,3) by auto
qed

lemma length_filter_update:
  assumes "P a = P (ns ! i)" and "i < length ns"
  shows "length (filter P (ns[i := a])) = length (filter P ns)"
proof -
  have "filter P ns = filter P (take i ns) @ filter P [ns ! i] @ filter P (drop (Suc i) ns)"
    using id_take_nth_drop [OF assms(2)] by (metis append_Cons append_Nil filter_append)
  moreover have "ns[i := a] = take i ns @ a # drop (Suc i) ns" using assms(2) by (rule upd_conv_take_nth_drop)
  ultimately show ?thesis using assms(1) by simp
qed

lemma filter_one_iff:
  "length (filter P xs) = 1 \<longleftrightarrow> (\<exists>!i. i < length xs \<and> P (xs ! i))"
  by (auto simp add: length_filter_conv_card card_1_singleton_iff Ex1_def)

lemma net_inv:
  assumes "net D ns" and "D \<le> 64"
  shows "(\<forall>s\<in>set ns. allocating D s) \<and> (\<forall>x. length (filter (\<lambda>s. owns s x) ns) = 1)"
  using assms
proof (induction rule: net.induct)
  case (net_first s)
  then show ?case by (simp add: allocating_def owns_def in_space_def)
next
  case (net_join ns i E fd E' src p1 pap p2 q q')
  then have p: "allocating D (ns ! i)" by simp
  note step = join_step [OF p net_join.prems net_join.hyps(3-8)]
  have "length (filter (\<lambda>s. owns s x) (ns[i := p2] @ [q'])) = length (filter (\<lambda>s. owns s x) ns)" for x
    using step(3,4) [of x] by (intro filter_join net_join.hyps(2)) auto
  moreover have "allocating D s" if "s \<in> set (ns[i := p2] @ [q'])" for s
    using that step(1,2) net_join.IH net_join.prems by (auto dest: set_update_subset_insert [THEN subsetD])
  ultimately show ?case using net_join.IH net_join.prems by simp
next
  case (net_other ns i s')
  then have k: "owns s' x = owns (ns ! i) x" "allocating D (ns ! i) \<Longrightarrow> allocating D s'" for x
    by (simp_all add: keeps_space_def owns_def allocating_def)
  have "length (filter (\<lambda>s. owns s x) (ns[i := s'])) = length (filter (\<lambda>s. owns s x) ns)" for x
    using k(1) net_other.hyps(2) by (rule length_filter_update)
  moreover have "allocating D s" if "s \<in> set (ns[i := s'])" for s
    using that k(2) net_other by (auto dest: set_update_subset_insert [THEN subsetD])
  ultimately show ?case using net_other by simp
qed

lemma owns_iff: "allocating D s \<Longrightarrow> D \<le> 64 \<Longrightarrow> owns s x \<longleftrightarrow> check_addr_space x (prim_addr s) (prim_mask s) = Inr 0"
  by (simp add: owns_def allocating_def check_addr_space_ok)

section \<open>Properties\<close>

text \<open>C1: However a network grows, as long as the conversations of newcomers do not overlap,
  the address spaces of its nodes partition the hypercube: every address is in the space of exactly
  one node, for the test \<open>check_addr_space\<close> that routes by it. In particular no two nodes have the same
  address.\<close>

theorem network_partition:
  assumes "net D ns" and "D \<le> 64"
  shows "(\<forall>x. \<exists>!i. i < length ns \<and> check_addr_space x (prim_addr (ns ! i)) (prim_mask (ns ! i)) = Inr 0) \<and>
    (\<forall>i j. i < length ns \<and> j < length ns \<and> i \<noteq> j \<longrightarrow> 0 < hamming (prim_addr (ns ! i)) (prim_addr (ns ! j)))"
proof -
  note inv = net_inv [OF assms]
  have own: "owns (ns ! i) x \<longleftrightarrow> check_addr_space x (prim_addr (ns ! i)) (prim_mask (ns ! i)) = Inr 0" if "i < length ns" for i x
    using inv that assms(2) by (intro owns_iff) auto
  have one: "\<exists>!i. i < length ns \<and> owns (ns ! i) x" for x
    using inv filter_one_iff [of "\<lambda>s. owns s x" ns] by simp
  have "\<exists>!i. i < length ns \<and> check_addr_space x (prim_addr (ns ! i)) (prim_mask (ns ! i)) = Inr 0" for x
    using one [of x] own [of _ x] by metis
  moreover have "0 < hamming (prim_addr (ns ! i)) (prim_addr (ns ! j))" if "i < length ns" "j < length ns" "i \<noteq> j" for i j
  proof (rule ccontr)
    assume "\<not> ?thesis"
    then have "in_space (prim_addr (ns ! i)) (prim_addr (ns ! j)) 64" by (simp add: in_space_hamming)
    moreover have "unat (prim_mask (ns ! j)) \<le> 64"
      using inv nth_mem [OF that(2)] assms(2) by (auto simp add: allocating_def dest!: bspec)
    ultimately have "owns (ns ! j) (prim_addr (ns ! i))" by (auto simp add: owns_def intro: in_space_mono)
    moreover have "owns (ns ! i) (prim_addr (ns ! i))" by (simp add: owns_def)
    ultimately show False using one [of "prim_addr (ns ! i)"] that by blast
  qed
  ultimately show ?thesis by blast
qed

text \<open>A network of two nodes.\<close>

definition first_node :: node where
  "first_node = sample_node"

definition new_node :: node where
  "new_node = sample_node\<lparr>flag_conexion := True\<rparr>"

lemma null_ctrl_sel [simp]:
  "a_red_numero (ad_addr null_ctrl) = 0" "p_prim_addr null_ctrl = zero_addr" "p_src_addr null_ctrl = zero_addr"
  by (simp_all add: null_ctrl_def)

lemma adopt_first:
  "adopt_pap sample_env (child_pap sample_env first_node) new_node =
    Inr ((send_hb sample_env 3 False (emit (Set_If_Addr (toggle net_root 0)) new_node))
      \<lparr>prim_addr := toggle net_root 0, hc_dim := 64, prim_mask := 1, prim_mask_inicial := 1, flag_conexion := False\<rparr>)"
  by (simp add: adopt_pap_def process_hb_def hb_own_net_def detector_de_mezcla_def first_node_def new_node_def send_hb_def hb_checks_def
      check_if_i_am_only_def check_neigh_of_secondary_address_def check_n_s_l_table_def check_n_s_l_loop_id
      antop_socket_send_def hb_pkt_def Let_def)

lemma two_nodes:
  "\<exists>p2 q'. net 64 [p2, q'] \<and> prim_addr p2 = net_root \<and> prim_addr q' = toggle net_root 0 \<and>
     \<not> sec_addr_flag p2 \<and> \<not> sec_addr_flag q'"
proof -
  have n1: "net 64 [first_node]" by (rule net_first) (simp_all add: first_node_def)
  define p1 where "p1 = antop_socket_send sample_env (Ctrl (child_pap sample_env first_node)) zero_addr 3 ANTOP_PORT first_node"
  have par: "antop_process_pkt sample_env 3 (Ctrl (par_msg sample_env zero_addr)) ([first_node] ! 0) = Inr p1"
    by (simp add: p1_def first_node_def process_par)
  have m: "prim_addr p1 = net_root" "red_numero p1 = 0" "rcvd_offered p1 = None" "prim_mask p1 = 0" "\<not> sec_addr_flag p1"
    by (simp_all add: p1_def first_node_def)
  then obtain p2 where p2: "antop_process_pkt sample_env 3 (Ctrl (pan_msg sample_env net_root (toggle net_root 0) 0)) p1 = Inr p2"
    and "prim_addr p2 = net_root" "\<not> sec_addr_flag p2"
    using process_pan [of p1 net_root 0 sample_env 3 sample_env "toggle net_root 0"] by auto
  have "newcomer new_node" by (simp add: newcomer_def new_node_def)
  then obtain q' where q': "adopt_pap sample_env (child_pap sample_env first_node) new_node = Inr q'" "prim_addr q' = toggle net_root 0"
    "\<not> sec_addr_flag q'"
    using adopt_first send_hb_newcomer [of "emit (Set_If_Addr (toggle net_root 0)) new_node" sample_env 3 False]
    by (simp add: newcomer_def new_node_def)
  have "net 64 ([first_node][0 := p2] @ [q'])"
    by (rule net_join [OF n1 _ par, of "child_pap sample_env first_node" p2 new_node q'])
       (use p2 q' \<open>newcomer new_node\<close> in \<open>simp_all add: p1_def first_node_def\<close>)
  then show ?thesis using \<open>prim_addr p2 = net_root\<close> \<open>\<not> sec_addr_flag p2\<close> q' by auto
qed

lemma network_partition_witness:
  "\<exists>p2 q'. net 64 [p2, q'] \<and> 0 < hamming (prim_addr p2) (prim_addr q') \<and>
     (\<exists>!i. i < 2 \<and> check_addr_space net_default (prim_addr ([p2, q'] ! i)) (prim_mask ([p2, q'] ! i)) = Inr 0)"
proof -
  obtain p2 q' where n: "net 64 [p2, q']" using two_nodes by blast
  have "0 < hamming (prim_addr ([p2, q'] ! 0)) (prim_addr ([p2, q'] ! 1))"
    using conjunct2 [OF network_partition [OF n order_refl], rule_format, of 0 1] by simp
  moreover have "\<exists>!i. i < 2 \<and> check_addr_space net_default (prim_addr ([p2, q'] ! i)) (prim_mask ([p2, q'] ! i)) = Inr 0"
    using conjunct1 [OF network_partition [OF n order_refl]] by (elim allE [of _ net_default]) (simp add: numeral_2_eq_2)
  ultimately show ?thesis using n by (intro exI [of _ p2] exI [of _ q']) simp
qed

text \<open>C31: At a node that has no recovered address to offer and none on offer, and whose space can be split: when the requests
  of two newcomers are answered before either announces its choice, both are proposed the same address, both announcements are confirmed
  although the second one names an address that is already given away, and both newcomers take it: the network has two nodes
  with one address, and one half of the space of the node that answered is lost. (A recovered address would go to the first newcomer only.)\<close>

theorem concurrent_joins_collide:
  assumes p: "rcvd_addr p = []" "rcvd_offered p = None" "unat (prim_mask p) < hc_dim p" "hc_dim p \<le> 64"
    and par1: "antop_process_pkt E fd (Ctrl (par_msg E1 src1)) p = Inr p1" "last_sent p1 = Some pap1"
    and par2: "antop_process_pkt E fd (Ctrl (par_msg E2 src2)) p1 = Inr p2" "last_sent p2 = Some pap2"
    and pan1: "antop_process_pkt E fd (Ctrl (pan_msg E1 (p_prim_addr pap1) (a_addr (ad_addr pap1)) (a_red_numero (ad_addr pap1)))) p2 = Inr p3"
    and pan2: "antop_process_pkt E fd (Ctrl (pan_msg E2 (p_prim_addr pap2) (a_addr (ad_addr pap2)) (a_red_numero (ad_addr pap2)))) p3 = Inr p4"
    and q: "newcomer q1" "adopt_pap E1 pap1 q1 = Inr q1'" "newcomer q2" "adopt_pap E2 pap2 q2 = Inr q2'"
  shows "prim_addr q1' = prim_addr q2' \<and> prim_mask q1' = prim_mask q2' \<and>
    (\<exists>c1 c2. last_sent p3 = Some c1 \<and> last_sent p4 = Some c2 \<and>
      pkt_type_f c1 = PANC \<and> pkt_type_f c2 = PANC \<and>
      is_panc pap1 (Rx (Ctrl c1) True) \<and> is_panc pap2 (Rx (Ctrl c2) True)) \<and>
    prim_mask p4 = prim_mask p + 2"
proof -
  have p1: "p1 = antop_socket_send E (Ctrl (child_pap E p)) src1 fd ANTOP_PORT p"
    using process_par [of p E fd E1 src1] par1 p by simp
  have cp: "child_pap E p1 = child_pap E p" by (simp add: child_pap_def p1)
  have p2: "p2 = antop_socket_send E (Ctrl (child_pap E p)) src2 fd ANTOP_PORT p1"
    using process_par [of p1 E fd E2 src2] par2 p cp by (simp add: p1)
  have pap: "pap1 = child_pap E p" "pap2 = child_pap E p"
    using par1(2) par2(2) by (simp_all add: p1 p2)
  obtain c1 where c1: "p3 = antop_socket_send E (Ctrl c1) (if_addr E1) fd ANTOP_PORT (p2\<lparr>prim_mask := prim_mask p2 + 1\<rparr>)"
      "pkt_type_f c1 = PANC" "a_addr (ad_addr c1) = prim_addr p"
    using process_pan [of p2 "prim_addr p" "red_numero p" E fd E1 "a_addr (ad_addr pap1)"] pan1 p
    by (auto simp add: pap p1 p2)
  obtain c2 where c2: "p4 = antop_socket_send E (Ctrl c2) (if_addr E2) fd ANTOP_PORT (p3\<lparr>prim_mask := prim_mask p3 + 1\<rparr>)"
      "pkt_type_f c2 = PANC" "a_addr (ad_addr c2) = prim_addr p"
    using process_pan [of p3 "prim_addr p" "red_numero p" E fd E2 "a_addr (ad_addr pap2)"] pan2 p
    by (auto simp add: pap p1 p2 c1)
  show ?thesis
    using adopt_pap_newcomer [OF q(2,1)] adopt_pap_newcomer [OF q(4,3)] c1 c2
    by (simp add: pap is_panc_def p1 p2)
qed

lemma concurrent_joins_collide_witness:
  "\<exists>p1 p2 p3 p4 q. antop_process_pkt sample_env 3 (Ctrl (par_msg sample_env zero_addr)) first_node = Inr p1 \<and>
     antop_process_pkt sample_env 3 (Ctrl (par_msg sample_env net_default)) p1 = Inr p2 \<and>
     antop_process_pkt sample_env 3 (Ctrl (pan_msg sample_env net_root (toggle net_root 0) 0)) p2 = Inr p3 \<and>
     antop_process_pkt sample_env 3 (Ctrl (pan_msg sample_env net_root (toggle net_root 0) 0)) p3 = Inr p4 \<and>
     prim_mask p4 = 2 \<and> adopt_pap sample_env (child_pap sample_env first_node) new_node = Inr q"
proof -
  define p1 where "p1 = antop_socket_send sample_env (Ctrl (child_pap sample_env first_node)) zero_addr 3 ANTOP_PORT first_node"
  define p2 where "p2 = antop_socket_send sample_env (Ctrl (child_pap sample_env first_node)) net_default 3 ANTOP_PORT p1"
  have n: "rcvd_addr first_node = []" "rcvd_offered first_node = None" "unat (prim_mask first_node) < hc_dim first_node" "hc_dim first_node \<le> 64"
    by (simp_all add: first_node_def)
  have r1: "antop_process_pkt sample_env 3 (Ctrl (par_msg sample_env zero_addr)) first_node = Inr p1"
    using n by (simp add: p1_def process_par)
  have "child_pap sample_env p1 = child_pap sample_env first_node" by (simp add: child_pap_def p1_def)
  then have r2: "antop_process_pkt sample_env 3 (Ctrl (par_msg sample_env net_default)) p1 = Inr p2"
    using process_par [of p1 sample_env 3 sample_env net_default] n by (simp add: p1_def p2_def)
  have m: "prim_addr p2 = net_root" "red_numero p2 = 0" "rcvd_offered p2 = None"
    by (simp_all add: p1_def p2_def first_node_def)
  then obtain p3 m3 where r3: "antop_process_pkt sample_env 3 (Ctrl (pan_msg sample_env net_root (toggle net_root 0) 0)) p2 = Inr p3"
      and p3: "p3 = antop_socket_send sample_env (Ctrl m3) (if_addr sample_env) 3 ANTOP_PORT (p2\<lparr>prim_mask := prim_mask p2 + 1\<rparr>)"
    using process_pan [of p2 net_root 0 sample_env 3 sample_env "toggle net_root 0"] by auto
  obtain p4 where r4: "antop_process_pkt sample_env 3 (Ctrl (pan_msg sample_env net_root (toggle net_root 0) 0)) p3 = Inr p4"
    using process_pan [of p3 net_root 0 sample_env 3 sample_env "toggle net_root 0"] m by (auto simp add: p3)
  have q: "newcomer new_node" by (simp add: newcomer_def new_node_def)
  obtain q' where q': "adopt_pap sample_env (child_pap sample_env first_node) new_node = Inr q'" using adopt_first by blast
  have s: "a_addr (ad_addr (child_pap sample_env first_node)) = toggle net_root 0"
      "p_prim_addr (child_pap sample_env first_node) = net_root" "a_red_numero (ad_addr (child_pap sample_env first_node)) = 0"
    by (simp_all add: first_node_def)
  have "prim_mask p4 = prim_mask first_node + 2"
    using concurrent_joins_collide [OF n r1 _ r2 _ _ _ q q' q q', of p3 p4]
      r3 r4 unfolding s by (simp add: p1_def p2_def)
  then show ?thesis using r1 r2 r3 r4 q' by (intro exI conjI) (simp_all add: first_node_def)
qed

end
