(* ===== verification/Fragmentation_Correct.thy ===== *)
theory Fragmentation_Correct
  imports Network
begin

text \<open>
  What fragmentation achieves: the shift moves a whole subtree to the top of the cube without changing a
  distance or an address space, the messages carry one and the same shift to every member, and the
  members are released when their descendants have answered.
\<close>

section \<open>The shift below the root\<close>

lemma cube_start_eq: "49 \<le> dim \<Longrightarrow> dim \<le> 64 \<Longrightarrow> cube_start dim = 64"
proof -
  assume "49 \<le> dim" and "dim \<le> 64"
  then have "64 \<le> 128 - dim" and "128 - dim < 80" by simp_all
  then have "(128 - dim) div 16 = 4" by presburger
  then show ?thesis by (simp add: cube_start_def)
qed

lemma abit_net_root_128 [simp]: "128 \<le> k \<Longrightarrow> \<not> abit net_root k"
  by (simp add: abit_def)

lemma abit_shift_up:
  assumes "49 \<le> dim" and "dim \<le> 64" and "k < 64"
  shows "abit (shift dim 1 n net_root a) (64 + k) \<longleftrightarrow> k = 63 \<or> (k + n < 63 \<and> abit a (64 + (k + n)))"
proof (cases "k + n < 64")
  case True
  then have "abit net_root (64 + k + n) \<longleftrightarrow> k + n = 63"
    using abit_net_root [of "k + n"] by (simp add: add.assoc)
  then show ?thesis
    using True assms by (auto simp add: abit_shift cube_start_eq add.assoc)
next
  case False
  then have "\<not> abit a (64 + k + n)" by (auto dest: abit_bound)
  then show ?thesis using False assms by (auto simp add: abit_shift cube_start_eq)
qed

lemma abit_shift_prefix:
  assumes "49 \<le> dim" and "dim \<le> 64" and "k < 64" and "d = 0 \<or> d = 1"
  shows "abit (shift dim d n net_root a) k \<longleftrightarrow> abit net_root k"
  using assms by (auto simp add: abit_shift cube_start_eq)

text \<open>Two addresses of one space agree on the last coordinate, which is that of the root.\<close>

definition rooted :: "in6_addr \<Rightarrow> bool" where
  "rooted a \<longleftrightarrow> abit a (64 + 63)"

lemma hamming_shift_up:
  assumes dim: "49 \<le> dim" "dim \<le> 64" and "in_space a b n" and "rooted a" and "rooted b"
  shows "hamming (shift dim 1 n net_root a) (shift dim 1 n net_root b) = hamming a b"
proof -
  let ?D = "{k. k < 64 \<and> abit (shift dim 1 n net_root a) (64 + k) \<noteq> abit (shift dim 1 n net_root b) (64 + k)}"
  let ?E = "{k. k < 64 \<and> abit a (64 + k) \<noteq> abit b (64 + k)}"
  have D: "?D = {k. k + n < 63 \<and> abit a (64 + (k + n)) \<noteq> abit b (64 + (k + n))}"
    using abit_shift_up [OF dim] by auto
  have E: "k \<in> ?E \<Longrightarrow> n \<le> k \<and> k < 63" for k
    using assms(3-5) by (cases "k = 63") (auto simp add: in_space_def rooted_def not_le [symmetric])
  have "bij_betw (\<lambda>k. k + n) ?D ?E"
    unfolding D by (rule bij_betw_byWitness [where f' = "\<lambda>k. k - n"]) (use E in \<open>auto simp add: add.commute\<close>)
  then show ?thesis unfolding hamming_upto_card by (rule bij_betw_same_card)
qed

lemma in_space_shift_up:
  assumes dim: "49 \<le> dim" "dim \<le> 64" and x: "in_space x a n" and m: "n \<le> m" "m \<le> 63"
  shows "in_space (shift dim 1 n net_root x) (shift dim 1 n net_root a) (m - n) \<longleftrightarrow> in_space x a m"
proof -
  have "in_space (shift dim 1 n net_root x) (shift dim 1 n net_root a) (m - n) \<longleftrightarrow>
      (\<forall>k<m - n. abit x (64 + (k + n)) = abit a (64 + (k + n)))"
    using abit_shift_up [OF dim] m by (auto simp add: in_space_def)
  also have "\<dots> \<longleftrightarrow> (\<forall>j<m. n \<le> j \<longrightarrow> abit x (64 + j) = abit a (64 + j))"
  proof
    assume h: "\<forall>k<m - n. abit x (64 + (k + n)) = abit a (64 + (k + n))"
    have "abit x (64 + j) = abit a (64 + j)" if "j < m" and "n \<le> j" for j
      using h [rule_format, of "j - n"] that by simp
    then show "\<forall>j<m. n \<le> j \<longrightarrow> abit x (64 + j) = abit a (64 + j)" by blast
  qed simp
  also have "\<dots> \<longleftrightarrow> in_space x a m"
    using x by (auto simp add: in_space_def not_le)
  finally show ?thesis .
qed

text \<open>An address as it is assigned with mask \<open>n\<close>: nothing is set after \<open>n\<close> but the last coordinate.\<close>

definition fresh_addr :: "nat \<Rightarrow> in6_addr \<Rightarrow> bool" where
  "fresh_addr n a \<longleftrightarrow> (\<forall>k<64. abit a k = abit net_root k) \<and> (\<forall>k. n \<le> k \<and> k < 64 \<longrightarrow> abit a (64 + k) = (k = 63))"

lemma shift_fresh_addr:
  assumes dim: "49 \<le> dim" "dim \<le> 64" and "fresh_addr n a"
  shows "shift dim 1 n net_root a = net_root"
proof (rule in6_addr_eqI)
  fix k :: nat assume k: "k < 128"
  show "abit (shift dim 1 n net_root a) k \<longleftrightarrow> abit net_root k"
  proof (cases "k < 64")
    case True
    then show ?thesis using abit_shift_prefix [OF dim] by blast
  next
    case False
    define j where "j = k - 64"
    have j: "k = 64 + j" "j < 64" using False k by (auto simp add: j_def)
    have "\<not> abit a (64 + (j + n))" if "j + n < 63" using assms(3) that by (simp add: fresh_addr_def)
    then show ?thesis using j by (auto simp add: abit_shift_up [OF dim])
  qed
qed

text \<open>The coordinates are assigned from the first of the last 64 bits on, but the shift clears whole words in front of the last
  \<open>dim\<close> bits. For a dimension up to 48 these are among them: every address assigned with a mask up to 16 is moved to the address
  of the root itself. The example in the usage of \<open>main.c\<close> has the dimension 5.\<close>

theorem small_dimension_collapses:
  assumes "dim \<le> 48" and "fresh_addr 16 a"
  shows "shift dim 1 n net_root a = net_root"
proof (rule in6_addr_eqI)
  fix k :: nat assume k: "k < 128"
  have "5 \<le> (128 - dim) div 16" using assms(1) by presburger
  then have start: "80 \<le> cube_start dim" by (simp add: cube_start_def)
  have "abit net_root (k + n)" if "80 \<le> k" and "abit a (k + n)"
  proof -
    define j where "j = k + n - 64"
    have j: "k + n = 64 + j" "16 \<le> j" using that(1) by (simp_all add: j_def)
    have "j < 64" using that(2) abit_bound [of a "k + n"] j(1) by auto
    then show ?thesis using assms(2) that(2) j abit_net_root [of 63] by (simp add: fresh_addr_def)
  qed
  then show "abit (shift dim 1 n net_root a) k \<longleftrightarrow> abit net_root k" using k start by (auto simp add: abit_shift)
qed

theorem small_dimension_collapses_witness:
  "shift 5 1 1 net_root (toggle (toggle net_root 0) 1) = net_root \<and> shift 5 1 1 net_root (toggle (toggle net_root 0) 2) = net_root"
proof -
  have "fresh_addr 16 (toggle (toggle net_root 0) m)" if "m < 16" for m
    using that by (auto simp add: fresh_addr_def abit_toggle)
  then show ?thesis by (simp add: small_dimension_collapses)
qed

section \<open>The cycles over the neighbours\<close>

lemma unlink_head [simp]: "unlink_by f (f x) (x # xs) = xs"
  by (simp add: unlink_by_def)

lemma fold_unlink: "fold (\<lambda>it. unlink_by f (f it)) xs (xs @ ys) = ys"
  by (induction xs) simp_all

lemma delete_neighbor_rest [simp, frame_simps]:
  "prim_addr (snd (delete_neighbor n s)) = prim_addr s" "prim_mask (snd (delete_neighbor n s)) = prim_mask s"
  "prim_mask_inicial (snd (delete_neighbor n s)) = prim_mask_inicial s" "trace (snd (delete_neighbor n s)) = trace s"
  "red_numero (snd (delete_neighbor n s)) = red_numero s" "sec_addr (snd (delete_neighbor n s)) = sec_addr s"
  "sec_addr_flag (snd (delete_neighbor n s)) = sec_addr_flag s" "socket_global (snd (delete_neighbor n s)) = socket_global s"
  "prim_addr_flag (snd (delete_neighbor n s)) = prim_addr_flag s" "root (snd (delete_neighbor n s)) = root s"
  "hc_dim (snd (delete_neighbor n s)) = hc_dim s" "flag_fragmentacion (snd (delete_neighbor n s)) = flag_fragmentacion s"
  "rcvd_addr (snd (delete_neighbor n s)) = rcvd_addr s" "neighbor_to_root (snd (delete_neighbor n s)) = neighbor_to_root s"
  by (simp_all add: delete_neighbor_def rv_table_delete_def)

text \<open>The datagram \<open>send_far\<close> hands to the socket.\<close>

definition far_msg :: "env \<Rightarrow> in6_addr \<Rightarrow> in6_addr \<Rightarrow> in6_addr \<Rightarrow> byte \<Rightarrow> byte \<Rightarrow> ctrl_pkt" where
  "far_msg E src dst src_old msk red =
     (ctrl_junk E)\<lparr>pkt_type_f := FAR, p_src_addr := src_old, p_prim_addr := src,
       ad_addr := (ad_addr (ctrl_junk E))\<lparr>a_addr := dst, a_mask := msk, a_red_numero := red\<rparr>\<rparr>"

lemma far_msg_sel [simp]:
  "pkt_type_f (far_msg E src dst old msk red) = FAR" "p_src_addr (far_msg E src dst old msk red) = old"
  "p_prim_addr (far_msg E src dst old msk red) = src" "a_addr (ad_addr (far_msg E src dst old msk red)) = dst"
  "a_mask (ad_addr (far_msg E src dst old msk red)) = msk" "a_red_numero (ad_addr (far_msg E src dst old msk red)) = red"
  by (simp_all add: far_msg_def)

lemma send_far_msg:
  "send_far E sock src dst old s = antop_socket_send E (Ctrl (far_msg E src dst old (prim_mask_inicial s) (red_numero s))) dst sock ANTOP_PORT s"
  by (simp add: send_far_def far_msg_def Let_def)

definition far_sent :: "env \<Rightarrow> in6_addr \<Rightarrow> in6_addr \<Rightarrow> node \<Rightarrow> neighbor \<Rightarrow> effect" where
  "far_sent E aux1 aux2 s it =
     Sendmsg (Ctrl (far_msg E aux1 (n_prim_addr it) aux2 (prim_mask_inicial s) (red_numero s)))
       (if prim_addr_flag s then prim_addr s else if_addr E) (n_prim_addr it) (socket_global s) ANTOP_PORT"

lemma far_sent_cong:
  "prim_mask_inicial s' = prim_mask_inicial s \<Longrightarrow> red_numero s' = red_numero s \<Longrightarrow> prim_addr_flag s' = prim_addr_flag s \<Longrightarrow>
   prim_addr s' = prim_addr s \<Longrightarrow> socket_global s' = socket_global s \<Longrightarrow> far_sent E aux1 aux2 s' = far_sent E aux1 aux2 s"
  by (rule ext) (simp add: far_sent_def)

lemma delete_head: "neigh_table s = x # xs \<Longrightarrow> neigh_table (snd (delete_neighbor x s)) = xs"
  by (simp add: delete_neighbor_table)

text \<open>The fields that the cycles of a node leave as they are.\<close>

definition same_core :: "node \<Rightarrow> node \<Rightarrow> bool" where
  "same_core s s' \<longleftrightarrow> prim_addr s' = prim_addr s \<and> prim_mask_inicial s' = prim_mask_inicial s \<and>
     red_numero s' = red_numero s \<and> prim_addr_flag s' = prim_addr_flag s \<and> socket_global s' = socket_global s \<and>
     sec_addr_flag s' = sec_addr_flag s \<and> sec_addr s' = sec_addr s \<and> root s' = root s \<and> hc_dim s' = hc_dim s \<and>
     flag_fragmentacion s' = flag_fragmentacion s \<and> prim_mask s' = prim_mask s \<and> rcvd_addr s' = rcvd_addr s \<and>
     neighbor_to_root s' = neighbor_to_root s \<and> flag_fragmentacion_secundaria s' = flag_fragmentacion_secundaria s \<and>
     flag_mezcla s' = flag_mezcla s \<and> flag_neigh_by_second s' = flag_neigh_by_second s \<and> univ_addr s' = univ_addr s"

lemma same_core_refl [simp]: "same_core s s"
  by (simp add: same_core_def)

lemma same_core_trans: "same_core s t \<Longrightarrow> same_core t u \<Longrightarrow> same_core s u"
  by (simp add: same_core_def)

lemma same_core_delete [simp]: "same_core s (snd (delete_neighbor n s))"
  by (simp add: same_core_def delete_neighbor_def rv_table_delete_def)

lemma same_core_send [simp]: "same_core s (antop_socket_send E m d sk pt s)"
  by (simp add: same_core_def antop_socket_send_def)

lemma same_core_send_far [simp]: "same_core s (send_far E sk a b c s)"
  by (simp add: send_far_msg)

lemma trace_send_far:
  "trace (send_far E (socket_global s) aux1 (n_prim_addr it) aux2 s) = trace s @ [far_sent E aux1 aux2 s it]"
  by (simp add: send_far_msg antop_socket_send_def far_sent_def)

lemma neigh_send_far [simp]: "neigh_table (send_far E sk a b c s) = neigh_table s"
  by (simp add: send_far_msg antop_socket_send_def)

lemma far_sent_core: "same_core s s' \<Longrightarrow> far_sent E aux1 aux2 s' = far_sent E aux1 aux2 s"
  by (rule far_sent_cong) (simp_all add: same_core_def)

definition skipped :: "node \<Rightarrow> neighbor \<Rightarrow> bool" where
  "skipped s it \<longleftrightarrow> sec_addr_flag s \<and> hamming (sec_addr s) (n_prim_addr it) = 1"

lemma skipped_core: "same_core s s' \<Longrightarrow> skipped s' = skipped s"
  by (rule ext) (simp add: skipped_def same_core_def)

lemma far_cycle_result:
  "same_core s (far_cycle E aux1 aux2 s) \<and> neigh_table (far_cycle E aux1 aux2 s) = [] \<and>
   trace (far_cycle E aux1 aux2 s) = trace s @ map (far_sent E aux1 aux2 s) (filter (\<lambda>it. \<not> skipped s it) (neigh_table s))"
proof -
  define f where "f = (\<lambda>it s. if sec_addr_flag s \<and> dist (sec_addr s) it = 1 then snd (delete_neighbor it s)
        else snd (delete_neighbor it (send_far E (socket_global s) aux1 (n_prim_addr it) aux2 s)))"
  have "same_core s (fold f xs s) \<and> neigh_table (fold f xs s) = [] \<and>
      trace (fold f xs s) = trace s @ map (far_sent E aux1 aux2 s) (filter (\<lambda>it. \<not> skipped s it) xs)"
    if "neigh_table s = xs" for xs s
    using that
  proof (induction xs arbitrary: s)
    case Nil
    then show ?case by simp
  next
    case (Cons x xs)
    have c: "same_core s (f x s)"
      unfolding f_def by (auto intro: same_core_trans [OF same_core_send_far same_core_delete])
    have n: "neigh_table (f x s) = xs"
      using Cons.prems unfolding f_def by (auto simp add: delete_head)
    have t: "trace (f x s) = trace s @ (if skipped s x then [] else [far_sent E aux1 aux2 s x])"
      unfolding f_def by (simp add: trace_send_far skipped_def)
    show ?case
      using Cons.IH [OF n] c t by (auto simp add: far_sent_core [OF c] skipped_core [OF c] intro: same_core_trans)
  qed
  then show ?thesis by (simp add: far_cycle_def f_def)
qed

lemma borrar_rutas_ok [simp]: "borrar_rutas s = Inr s"
  by (simp add: borrar_rutas_def borrar_tabla_de_rutas_def Let_def)

lemma clear_rv_tables_frame [simp, frame_simps]:
  "same_core s (clear_rv_tables s)" "trace (clear_rv_tables s) = trace s" "neigh_table (clear_rv_tables s) = neigh_table s"
  by (simp_all add: clear_rv_tables_def same_core_def)

lemma far_cycle_tables:
  "dns (far_cycle E aux1 aux2 s) = dns s \<and> cached_table (far_cycle E aux1 aux2 s) = cached_table s \<and>
   (rv_table s = [] \<longrightarrow> rv_table (far_cycle E aux1 aux2 s) = [])"
proof -
  have f: "dns (fold f xs s) = dns s \<and> cached_table (fold f xs s) = cached_table s \<and> (rv_table s = [] \<longrightarrow> rv_table (fold f xs s) = [])"
    if "\<And>it s. dns (f it s) = dns s \<and> cached_table (f it s) = cached_table s \<and> (rv_table s = [] \<longrightarrow> rv_table (f it s) = [])" for f xs and s :: node
    using that by (induction xs arbitrary: s) simp_all
  show ?thesis
    unfolding far_cycle_def by (rule f) (simp add: send_far_msg delete_neighbor_def rv_table_delete_def io_defs unlink_by_def)
qed

section \<open>A new root\<close>

lemma del_and_addnew_frame [simp, frame_simps]:
  "same_core s (del_and_addnew a b k s)" "neigh_table (del_and_addnew a b k s) = neigh_table s"
  "rv_servers (del_and_addnew a b k s) = rv_servers s"
  by (simp_all add: del_and_addnew_def io_defs same_core_def)

lemma sleep_frame [simp, frame_simps]:
  "same_core s (sleep k s)" "neigh_table (sleep k s) = neigh_table s" "trace (sleep k s) = trace s @ [Sleep k]"
  by (simp_all add: sleep_def same_core_def)

lemma same_coreD:
  assumes "same_core s s'"
  shows "prim_addr s' = prim_addr s" "prim_mask_inicial s' = prim_mask_inicial s" "red_numero s' = red_numero s"
    "prim_addr_flag s' = prim_addr_flag s" "socket_global s' = socket_global s" "sec_addr_flag s' = sec_addr_flag s"
    "sec_addr s' = sec_addr s" "root s' = root s" "hc_dim s' = hc_dim s" "flag_fragmentacion s' = flag_fragmentacion s"
    "prim_mask s' = prim_mask s" "rcvd_addr s' = rcvd_addr s" "neighbor_to_root s' = neighbor_to_root s"
    "flag_fragmentacion_secundaria s' = flag_fragmentacion_secundaria s" "flag_mezcla s' = flag_mezcla s"
    "flag_neigh_by_second s' = flag_neigh_by_second s" "univ_addr s' = univ_addr s"
  using assms by (simp_all add: same_core_def)

lemmas core_frames =
  same_coreD [OF sleep_frame(1)] same_coreD [OF del_and_addnew_frame(1)] same_coreD [OF clear_rv_tables_frame(1)]

text \<open>The interface while the node moves from one address to the next.\<close>

definition move_effects :: "in6_addr \<Rightarrow> in6_addr \<Rightarrow> node \<Rightarrow> effect list" where
  "move_effects old new s =
     (if new = sec_addr s then [Ifaddr_Del old] else if old = sec_addr s then [Ifaddr_Add new]
      else [Ifaddr_Del old, Ifaddr_Add new]) @ [Sleep 2]"

lemma trace_move: "trace (sleep 2 (del_and_addnew old new 1 s)) = trace s @ move_effects old new s"
  by (simp add: del_and_addnew_def io_defs move_effects_def)

lemma fragmentacion_result:
  fixes E s
  defines "n \<equiv> prim_mask_inicial s"
    and "aux1 \<equiv> shift (hc_dim s) 1 (unat (prim_mask_inicial s)) (root s) (prim_addr s)"
  shows "\<exists>s'. fragmentacion E s = Inr s' \<and> prim_addr s' = aux1 \<and> prim_mask s' = prim_mask s - n \<and> prim_mask_inicial s' = 0 \<and>
    red_numero s' = word_of_int (mac_address E) \<and> flag_fragmentacion s' \<and> neigh_table s' = [] \<and> sec_addr_flag s' = sec_addr_flag s \<and>
    hc_dim s' = hc_dim s \<and> univ_addr s' = univ_addr s \<and> rv_table s' = [] \<and> cached_table s' = [] \<and> dns s' = [] \<and>
    trace s' = trace s @ move_effects (prim_addr s) aux1 s @
      map (\<lambda>it. Sendmsg (Ctrl (far_msg E aux1 (n_prim_addr it) (prim_addr s) n (word_of_int (mac_address E))))
             (if prim_addr_flag s then aux1 else if_addr E) (n_prim_addr it) (socket_global s) ANTOP_PORT)
        (filter (\<lambda>it. \<not> skipped s it) (neigh_table s))"
proof -
  define s1 where "s1 = (let s = s\<lparr>flag_fragmentacion := True\<rparr>;
          s = (if sec_addr_flag s then s\<lparr>flag_fragmentacion_primaria := True\<rparr> else s);
          s = s\<lparr>red_numero := word_of_int (mac_address E)\<rparr> in s\<lparr>prim_addr := aux1\<rparr>)"
  have s1: "prim_addr s1 = aux1" "prim_mask s1 = prim_mask s" "prim_mask_inicial s1 = n" "hc_dim s1 = hc_dim s" "root s1 = root s"
    "red_numero s1 = word_of_int (mac_address E)" "flag_fragmentacion s1" "neigh_table s1 = neigh_table s" "trace s1 = trace s"
    "sec_addr s1 = sec_addr s" "sec_addr_flag s1 = sec_addr_flag s" "prim_addr_flag s1 = prim_addr_flag s" "socket_global s1 = socket_global s"
    "univ_addr s1 = univ_addr s"
    by (simp_all add: s1_def Let_def n_def)
  define s2 where "s2 = sleep 2 (del_and_addnew (prim_addr s) aux1 1 s1)"
  define s3 where "s3 = clear_rv_tables (s2\<lparr>prim_mask := prim_mask s2 - n, rcvd_addr := map (shift_rcvd (hc_dim s2) n (root s)) (rcvd_addr s2)\<rparr>)"
  have r: "fragmentacion E s = Inr ((far_cycle E aux1 (prim_addr s) s3)\<lparr>prim_mask_inicial := 0\<rparr>)"
    by (simp add: fragmentacion_def Let_def aux1_def [symmetric] n_def s1_def s2_def s3_def core_frames)
  have s3: "prim_addr s3 = aux1" "prim_mask s3 = prim_mask s - n" "prim_mask_inicial s3 = n" "red_numero s3 = word_of_int (mac_address E)"
    "flag_fragmentacion s3" "neigh_table s3 = neigh_table s" "trace s3 = trace s @ move_effects (prim_addr s) aux1 s"
    "sec_addr s3 = sec_addr s" "sec_addr_flag s3 = sec_addr_flag s" "prim_addr_flag s3 = prim_addr_flag s" "socket_global s3 = socket_global s"
    "hc_dim s3 = hc_dim s" "univ_addr s3 = univ_addr s"
    by (simp_all add: s3_def s2_def core_frames s1 trace_move move_effects_def del: sleep_frame(3))
  have rv: "rv_table s3 = []" "cached_table s3 = []" "dns s3 = []" by (simp_all add: s3_def clear_rv_tables_def)
  have sk: "skipped s3 = skipped s" by (rule ext) (simp add: skipped_def s3)
  show ?thesis
    using far_cycle_result [of s3 E aux1 "prim_addr s"] far_cycle_tables [of E aux1 "prim_addr s" s3] s3 rv
    by (simp add: r same_core_def sk far_sent_def [abs_def])
qed

section \<open>The members\<close>

text \<open>The neighbours to which a FAR is passed on.\<close>

definition far_target :: "ctrl_pkt \<Rightarrow> in6_addr \<Rightarrow> node \<Rightarrow> neighbor \<Rightarrow> bool" where
  "far_target msg aux3 s it \<longleftrightarrow> nr_addr (neighbor_to_root s) \<noteq> n_prim_addr it \<and> prim_addr s \<noteq> n_prim_addr it \<and>
     p_src_addr msg \<noteq> n_prim_addr it \<and> \<not> (sec_addr_flag s \<and> hamming aux3 (n_prim_addr it) > 1)"

lemma far_target_core: "same_core s s' \<Longrightarrow> far_target msg aux3 s' = far_target msg aux3 s"
  by (rule ext) (simp add: far_target_def same_core_def)

lemma far_step_cases:
  "\<exists>s'. far_step E msg aux1 aux3 it (s, flag) = (s', flag \<or> far_target msg aux3 s it) \<and> same_core s s' \<and>
     trace s' = trace s @ (if far_target msg aux3 s it then [far_sent E aux1 aux3 s it] else [])"
proof (cases "far_target msg aux3 s it")
  case True
  then have "far_step E msg aux1 aux3 it (s, flag) =
      (snd (delete_neighbor it (send_far E (socket_global s) aux1 (n_prim_addr it) aux3 s)), True)"
    by (auto simp add: far_step_def far_target_def)
  with True show ?thesis
    by (intro exI conjI) (auto simp add: trace_send_far intro: same_core_trans [OF same_core_send_far same_core_delete])
next
  case False
  then have "far_step E msg aux1 aux3 it (s, flag) = (snd (delete_neighbor it s), flag) \<or>
      far_step E msg aux1 aux3 it (s, flag) = (s, flag)"
    by (auto simp add: far_step_def far_target_def)
  with False show ?thesis by auto
qed

lemma far_loop_result:
  "\<exists>s'. fold (far_step E msg aux1 aux3) xs (s, flag) = (s', flag \<or> (\<exists>it\<in>set xs. far_target msg aux3 s it)) \<and> same_core s s' \<and>
     trace s' = trace s @ map (far_sent E aux1 aux3 s) (filter (far_target msg aux3 s) xs)"
proof (induction xs arbitrary: s flag)
  case Nil
  then show ?case by simp
next
  case (Cons x xs)
  obtain s1 where s1: "far_step E msg aux1 aux3 x (s, flag) = (s1, flag \<or> far_target msg aux3 s x)" "same_core s s1"
    "trace s1 = trace s @ (if far_target msg aux3 s x then [far_sent E aux1 aux3 s x] else [])"
    using far_step_cases by blast
  obtain s2 where s2: "fold (far_step E msg aux1 aux3) xs (s1, flag \<or> far_target msg aux3 s x) =
      (s2, (flag \<or> far_target msg aux3 s x) \<or> (\<exists>it\<in>set xs. far_target msg aux3 s1 it))" "same_core s1 s2"
    "trace s2 = trace s1 @ map (far_sent E aux1 aux3 s1) (filter (far_target msg aux3 s1) xs)"
    using Cons.IH by blast
  show ?case
    using s1 s2 same_core_trans [OF s1(2) s2(2)]
    by (auto simp add: far_target_core [OF s1(2)] far_sent_core [OF s1(2)])
qed

text \<open>The messages of a member: its FAN, and the FAR it passes on to the entries \<open>ts\<close> of its table.\<close>

definition fan_sent :: "env \<Rightarrow> ctrl_pkt \<Rightarrow> node \<Rightarrow> effect" where
  "fan_sent E msg s =
     Sendmsg (Ctrl ((ctrl_junk E)\<lparr>pkt_type_f := FAN, p_src_addr := prim_addr s,
         ad_addr := (ad_addr (ctrl_junk E))\<lparr>a_red_numero := red_numero s\<rparr>\<rparr>))
       (if prim_addr_flag s then prim_addr s else if_addr E) (p_prim_addr msg) (socket_global s) ANTOP_PORT"

definition far_passed :: "env \<Rightarrow> ctrl_pkt \<Rightarrow> in6_addr \<Rightarrow> node \<Rightarrow> neighbor \<Rightarrow> effect" where
  "far_passed E msg aux1 s it =
     Sendmsg (Ctrl (far_msg E aux1 (n_prim_addr it) (prim_addr s) (a_mask (ad_addr msg)) (a_red_numero (ad_addr msg))))
       (if prim_addr_flag s then aux1 else if_addr E) (n_prim_addr it) (socket_global s) ANTOP_PORT"

lemma end_fragmentacion_shape:
  assumes "end_fragmentacion E s = Inr s'"
  shows "prim_addr s' = prim_addr s \<and> prim_mask s' = prim_mask s \<and> prim_mask_inicial s' = prim_mask_inicial s \<and>
    red_numero s' = red_numero s \<and> neigh_table s' = neigh_table s \<and> \<not> flag_fragmentacion s' \<and>
    (\<exists>r. trace s' = trace s @ r)"
proof (cases "flag_mezcla s")
  case True
  then show ?thesis using assms by (auto simp add: end_fragmentacion_def register_rv_def)
next
  case False
  define t where "t = s\<lparr>flag_fragmentacion := False, flag_fragmentacion_primaria := False, flag_fragmentacion_secundaria := False\<rparr>"
  have r: "register_rv E t = Inr s'" "\<not> flag_mezcla t" "\<not> flag_fragmentacion t"
    using assms False by (simp_all add: end_fragmentacion_def t_def)
  show ?thesis by (rule register_rv_shape [OF r]) (simp add: t_def)
qed

lemma process_far_result:
  assumes far: "process_far E msg s = Inr s'" and sec: "a_addr (ad_addr msg) \<noteq> sec_addr s"
  defines "n \<equiv> a_mask (ad_addr msg)"
    and "aux1 \<equiv> shift (hc_dim s) 1 (unat (a_mask (ad_addr msg))) (root s) (prim_addr s)"
  shows "prim_addr s' = aux1 \<and> prim_mask s' = prim_mask s - n \<and> prim_mask_inicial s' = prim_mask_inicial s - n \<and>
    red_numero s' = a_red_numero (ad_addr msg) \<and>
    (\<exists>ts rest. trace s' = trace s @ [fan_sent E msg s] @ move_effects (prim_addr s) aux1 s @ map (far_passed E msg aux1 s) ts @ rest \<and>
       (\<forall>it\<in>set ts. n_prim_addr it \<in> n_prim_addr ` set (neigh_table s) - {p_src_addr msg, p_prim_addr msg}) \<and>
       (flag_fragmentacion s' \<longleftrightarrow> ts \<noteq> [] \<or> (sec_addr_flag s \<and> \<not> flag_fragmentacion_secundaria s)) \<and>
       (ts \<noteq> [] \<longrightarrow> rest = []))"
proof -
  define s0 where "s0 = s\<lparr>flag_fragmentacion := True, flag_fragmentacion_primaria := True, prim_mask_inicial := n\<rparr>"
  have "bind (add_neighbor msg False s0) (\<lambda>s1. far_spread E msg (prim_addr (far_move E msg s1)) (prim_addr s) (prim_mask_inicial s)
      (clear_rv_tables (far_move E msg s1))) = Inr s'"
    using far sec by (simp add: process_far_def process_far_prim_def Let_def s0_def n_def)
  then obtain s1 where s1: "add_neighbor msg False s0 = Inr s1"
    and sp: "far_spread E msg (prim_addr (far_move E msg s1)) (prim_addr s) (prim_mask_inicial s) (clear_rv_tables (far_move E msg s1)) = Inr s'"
    by (rule bind_InrE)
  define s2 where "s2 = clear_rv_tables (far_move E msg s1)"
  have s1': "same_core s0 s1" "trace s1 = trace s0"
    using s1 by (auto simp add: add_neighbor_def bind_eq_Inr_conv same_core_def)
  note core1 = same_coreD [OF s1'(1)]
  have mv: "prim_addr (far_move E msg s1) = aux1"
    by (simp add: far_move_def Let_def core_frames send_fan_def antop_socket_send_def core1 aux1_def s0_def)
  have s2: "prim_addr s2 = aux1" "prim_mask s2 = prim_mask s" "prim_mask_inicial s2 = n" "red_numero s2 = a_red_numero (ad_addr msg)"
    "nr_addr (neighbor_to_root s2) = p_prim_addr msg" "sec_addr_flag s2 = sec_addr_flag s" "socket_global s2 = socket_global s"
    "flag_fragmentacion s2" "flag_fragmentacion_secundaria s2 = flag_fragmentacion_secundaria s" "prim_addr_flag s2 = prim_addr_flag s"
    by (simp_all add: s2_def far_move_def Let_def core_frames send_fan_def antop_socket_send_def core1 aux1_def s0_def)
  have t2: "trace s2 = trace s @ [fan_sent E msg s] @ move_effects (prim_addr s) aux1 s"
    by (simp add: s2_def far_move_def Let_def core_frames send_fan_def antop_socket_send_def core1 s1' aux1_def s0_def
        trace_move fan_sent_def move_effects_def del: sleep_frame(3))
  have pass: "far_sent E aux1 (prim_addr s) s2 = far_passed E msg aux1 s"
    by (rule ext) (simp add: far_sent_def far_passed_def s2 n_def)
  define ts where "ts = (if prim_mask s2 \<noteq> prim_mask_inicial s \<or> flag_neigh_by_second s2
      then filter (far_target msg (prim_addr s) s2) (neigh_table s2) else [])"
  obtain s3 where s3: "(if prim_mask s2 \<noteq> prim_mask_inicial s \<or> flag_neigh_by_second s2
        then fold (far_step E msg aux1 (prim_addr s)) (neigh_table s2) (s2, False) else (s2, False)) = (s3, ts \<noteq> [])"
      "same_core s2 s3" "trace s3 = trace s2 @ map (far_passed E msg aux1 s) ts"
  proof (cases "prim_mask s2 \<noteq> prim_mask_inicial s \<or> flag_neigh_by_second s2")
    case True
    then have "ts = filter (far_target msg (prim_addr s) s2) (neigh_table s2)" by (simp add: ts_def)
    then show ?thesis
      using True far_loop_result [of E msg aux1 "prim_addr s" "neigh_table s2" s2 False] that
      by (auto simp add: pass filter_empty_conv)
  next
    case False
    then have "ts = []" by (auto simp add: ts_def)
    then show ?thesis using False that [of s2] by auto
  qed
  note core3 = same_coreD [OF s3(2)]
  define s4 where "s4 = s3\<lparr>prim_mask := prim_mask s3 - n, prim_mask_inicial := prim_mask_inicial s - n\<rparr>"
  have e: "(if ts = [] \<and> (\<not> sec_addr_flag s \<or> flag_fragmentacion_secundaria s) then end_fragmentacion E s4 else Inr s4) = Inr s'"
    using sp s3(1) by (simp add: far_spread_def s2_def [symmetric] mv n_def s4_def core3 s2 Let_def cong: if_cong)
  have "set (neigh_table s1) \<subseteq> insert (hb_neighbor msg False) (set (neigh_table s))"
    using s1 by (auto simp add: add_neighbor_def bind_eq_Inr_conv s0_def neigh_insert_def split: list.splits if_splits)
  moreover have "neigh_table s2 = neigh_table s1"
    by (simp add: s2_def far_move_def Let_def send_fan_def antop_socket_send_def)
  ultimately have ts: "n_prim_addr it \<in> n_prim_addr ` set (neigh_table s) - {p_src_addr msg, p_prim_addr msg}" if "it \<in> set ts" for it
    using that by (auto simp add: ts_def far_target_def s2 hb_neighbor_def split: if_splits)
  have s4: "prim_addr s4 = aux1" "prim_mask s4 = prim_mask s - n" "prim_mask_inicial s4 = prim_mask_inicial s - n"
    "red_numero s4 = a_red_numero (ad_addr msg)" "flag_fragmentacion s4"
    "trace s4 = trace s @ [fan_sent E msg s] @ move_effects (prim_addr s) aux1 s @ map (far_passed E msg aux1 s) ts"
    by (simp_all add: s4_def core3 s2 s3 t2)
  show ?thesis
  proof (cases "ts = [] \<and> (\<not> sec_addr_flag s \<or> flag_fragmentacion_secundaria s)")
    case True
    with e have "end_fragmentacion E s4 = Inr s'" by simp
    then show ?thesis using end_fragmentacion_shape [of E s4 s'] True s4
      by (auto intro!: exI [of _ ts])
  next
    case False
    with e have "s' = s4" by auto
    moreover have "ts \<noteq> [] \<or> (sec_addr_flag s \<and> \<not> flag_fragmentacion_secundaria s)" using False by blast
    moreover have "trace s4 = trace s @ [fan_sent E msg s] @ move_effects (prim_addr s) aux1 s @ map (far_passed E msg aux1 s) ts @ []"
      using s4 by simp
    ultimately show ?thesis using s4(1-5) ts by blast
  qed
qed

section \<open>Properties\<close>

text \<open>C13: A node that still has the address it was assigned becomes the root of a new
  network: it takes the root address, keeps the share of its space that it has left (its mask less the
  initial one), takes a network number of its own and forgets its neighbours, the registrations it served, its cache and the DNS queries
  that waited, after telling every neighbour, except that of its secondary link, to shift by its initial mask. It stays in
  fragmentation until it is answered. This is for a network of dimension 49 to 64 with the root the daemon is started with
  (\<open>net_root\<close>), and for an address on which no coordinate from the initial mask on is set but the last (\<open>fresh_addr\<close>), as it is when it
  is assigned; for smaller dimensions see \<open>small_dimension_collapses\<close>.\<close>

theorem fragmentation_new_root:
  assumes "root s = net_root" and "49 \<le> hc_dim s" and "hc_dim s \<le> 64"
    and "fresh_addr (unat (prim_mask_inicial s)) (prim_addr s)"
  shows "\<exists>s'. fragmentacion E s = Inr s' \<and> prim_addr s' = net_root \<and> prim_mask s' = prim_mask s - prim_mask_inicial s \<and>
    prim_mask_inicial s' = 0 \<and> red_numero s' = word_of_int (mac_address E) \<and> flag_fragmentacion s' \<and> neigh_table s' = [] \<and>
    rv_table s' = [] \<and> cached_table s' = [] \<and> dns s' = [] \<and>
    trace s' = trace s @ move_effects (prim_addr s) net_root s @
      map (\<lambda>it. Sendmsg (Ctrl (far_msg E net_root (n_prim_addr it) (prim_addr s) (prim_mask_inicial s) (word_of_int (mac_address E))))
             (if prim_addr_flag s then net_root else if_addr E) (n_prim_addr it) (socket_global s) ANTOP_PORT)
        (filter (\<lambda>it. \<not> (sec_addr_flag s \<and> hamming (sec_addr s) (n_prim_addr it) = 1)) (neigh_table s))"
  using fragmentacion_result [of E s] shift_fresh_addr [OF assms(2-4)] assms(1)
  by (auto simp add: skipped_def)

lemma fresh_toggle_root:
  assumes "m < 63"
  shows "fresh_addr (Suc m) (toggle net_root m)"
  using assms by (auto simp add: fresh_addr_def abit_toggle)

text \<open>A node with the address of the first child, its parent gone, and one child of its own.\<close>

definition cut_node :: node where
  "cut_node = sample_node\<lparr>prim_addr := toggle net_root 0, prim_mask := 2, prim_mask_inicial := 1, flag_init := True,
     prim_addr_flag := True, neigh_table := [sample_neighbor (toggle (toggle net_root 0) 1) 0]\<rparr>"

lemma fragmentation_new_root_witness:
  "\<exists>s'. fragmentacion sample_env cut_node = Inr s' \<and> prim_addr s' = net_root \<and> prim_mask s' = 1 \<and> red_numero s' = 57 \<and>
     neigh_table s' = [] \<and> length (trace s') = 4"
proof -
  have f: "fresh_addr (unat (prim_mask_inicial cut_node)) (prim_addr cut_node)"
    using fresh_toggle_root [of 0] by (simp add: cut_node_def)
  have sec: "toggle net_root 0 \<noteq> zero_addr" "net_root \<noteq> zero_addr"
  proof -
    have "abit (toggle net_root 0) (64 + 63)" "abit net_root (64 + 63)" 
      using abit_net_root [of 63] by (simp_all add: abit_toggle)
    moreover have "\<not> abit zero_addr (64 + 63)" by (simp add: abit_def zero_addr_def s6_of_words_def s6_addr16_def)
    ultimately show "toggle net_root 0 \<noteq> zero_addr" "net_root \<noteq> zero_addr" by metis+
  qed
  obtain s' where "fragmentacion sample_env cut_node = Inr s'" "prim_addr s' = net_root"
    "prim_mask s' = prim_mask cut_node - prim_mask_inicial cut_node" "red_numero s' = word_of_int (mac_address sample_env)" "neigh_table s' = []"
    and t: "trace s' = trace cut_node @ move_effects (prim_addr cut_node) net_root cut_node @
      map (\<lambda>it. Sendmsg (Ctrl (far_msg sample_env net_root (n_prim_addr it) (prim_addr cut_node) (prim_mask_inicial cut_node) (word_of_int (mac_address sample_env))))
             (if prim_addr_flag cut_node then net_root else if_addr sample_env) (n_prim_addr it) (socket_global cut_node) ANTOP_PORT)
        (filter (\<lambda>it. \<not> (sec_addr_flag cut_node \<and> hamming (sec_addr cut_node) (n_prim_addr it) = 1)) (neigh_table cut_node))"
    using fragmentation_new_root [OF _ _ _ f, of sample_env] by (auto simp add: cut_node_def)
  moreover have "length (trace s') = 4"
    unfolding t using sec by (simp add: cut_node_def move_effects_def)
  ultimately show ?thesis by (intro exI [of _ s']) (simp add: cut_node_def mac_address_def)
qed

text \<open>C5: In a network of dimension 49 to 64 with the root \<open>net_root\<close>, two members of a
  fragmenting subtree (they agree on the coordinates below the mask of the shift, and hold the last coordinate, as all addresses
  that the protocol assigns) that process FAR messages of the same shift to their primary addresses come out in the same network, with
  masks reduced by the shift, at the distance they had; and one is in an address space of the other exactly when it was before, with the
  mask less the shift. For a dimension up to 48 this fails: \<open>small_dimension_collapses\<close>.\<close>

theorem fragmentation_keeps_distances:
  assumes "process_far E1 m1 s1 = Inr s1'" and "a_addr (ad_addr m1) \<noteq> sec_addr s1"
    and "process_far E2 m2 s2 = Inr s2'" and "a_addr (ad_addr m2) \<noteq> sec_addr s2"
    and "a_mask (ad_addr m1) = n" and "a_mask (ad_addr m2) = n" and "a_red_numero (ad_addr m1) = a_red_numero (ad_addr m2)"
    and "root s1 = net_root" and "root s2 = net_root" and "hc_dim s1 = dim" and "hc_dim s2 = dim" and "49 \<le> dim" and "dim \<le> 64"
    and "in_space (prim_addr s1) (prim_addr s2) (unat n)" and "rooted (prim_addr s1)" and "rooted (prim_addr s2)"
  shows "red_numero s1' = red_numero s2' \<and> prim_mask s1' = prim_mask s1 - n \<and> prim_mask s2' = prim_mask s2 - n \<and>
    hamming (prim_addr s1') (prim_addr s2') = hamming (prim_addr s1) (prim_addr s2) \<and>
    (\<forall>m. unat n \<le> m \<and> m \<le> 63 \<longrightarrow> in_space (prim_addr s1') (prim_addr s2') (m - unat n) = in_space (prim_addr s1) (prim_addr s2) m)"
  using process_far_result [OF assms(1,2)] process_far_result [OF assms(3,4)] assms(5-)
  by (simp add: hamming_shift_up in_space_shift_up)

text \<open>Two members below \<open>cut_node\<close>, and the FAR each receives.\<close>

definition member :: "in6_addr \<Rightarrow> byte \<Rightarrow> node" where
  "member a m = sample_node\<lparr>prim_addr := a, prim_mask := m, prim_mask_inicial := m, flag_init := True, prim_addr_flag := True,
     neigh_table := [sample_neighbor (toggle net_root 0) 0]\<rparr>"

definition member_far :: "in6_addr \<Rightarrow> ctrl_pkt" where
  "member_far a = far_msg sample_env net_root a (toggle net_root 0) 1 57"

lemma rooted_toggle: "m < 63 \<Longrightarrow> rooted a \<Longrightarrow> rooted (toggle a m)"
  by (auto simp add: rooted_def abit_toggle)

lemma rooted_net_root [simp]: "rooted net_root"
  using abit_net_root [of 63] by (simp add: rooted_def)

lemma rooted_neq_zero: "rooted a \<Longrightarrow> a \<noteq> zero_addr"
proof -
  have "\<not> rooted zero_addr" by (simp add: rooted_def abit_def zero_addr_def s6_of_words_def s6_addr16_def)
  then show "rooted a \<Longrightarrow> a \<noteq> zero_addr" by metis
qed

lemma member_far_ok: "\<exists>s'. process_far sample_env (member_far a) (member a m) = Inr s'" if "rooted a"
proof -
  have r: "\<exists>s'. register_rv sample_env s = Inr s'" if "hc_dim s = 64" "univ_addr s = [110, 49]" for s
    using that by (intro register_rv_total) simp_all
  obtain s1 where s1: "add_neighbor (member_far a) False (member a m\<lparr>flag_fragmentacion := True, flag_fragmentacion_primaria := True, prim_mask_inicial := 1\<rparr>) = Inr s1"
    by (cases "toggle net_root 0 = zero_addr") (auto simp add: add_neighbor_def neigh_insert_def member_def)
  then have c: "same_core (member a m\<lparr>flag_fragmentacion := True, flag_fragmentacion_primaria := True, prim_mask_inicial := 1\<rparr>) s1"
    by (auto simp add: add_neighbor_def bind_eq_Inr_conv same_core_def)
  have e: "\<exists>s'. far_spread sample_env (member_far a) x y z s = Inr s'" if "hc_dim s = 64" "univ_addr s = [110, 49]" for x y z s
  proof -
    obtain t f where t: "fold (far_step sample_env (member_far a) x y) (neigh_table s) (s, False) = (t, f)" "same_core s t"
      using far_loop_result by blast
    show ?thesis
      using t that r by (auto simp add: far_spread_def Let_def end_fragmentacion_def same_core_def)
  qed
  have "a_addr (ad_addr (member_far a)) \<noteq> sec_addr (member a m)" using rooted_neq_zero [OF that] by (simp add: member_far_def member_def)
  moreover have "univ_addr (clear_rv_tables (far_move sample_env (member_far a) s1)) = [110, 49]"
      "hc_dim (clear_rv_tables (far_move sample_env (member_far a) s1)) = 64"
    using same_coreD [OF c] by (simp_all add: far_move_def Let_def core_frames send_fan_def antop_socket_send_def member_def)
  ultimately show ?thesis
    using s1 e by (simp add: process_far_def process_far_prim_def Let_def member_far_def member_def)
qed

lemma fragmentation_keeps_distances_witness:
  "\<exists>s1' s2'. process_far sample_env (member_far (toggle (toggle net_root 0) 1)) (member (toggle (toggle net_root 0) 1) 2) = Inr s1' \<and>
     process_far sample_env (member_far (toggle (toggle net_root 0) 2)) (member (toggle (toggle net_root 0) 2) 3) = Inr s2' \<and>
     hamming (prim_addr s1') (prim_addr s2') = 2 \<and> prim_mask s2' = 2"
proof -
  let ?a = "toggle (toggle net_root 0) 1" and ?b = "toggle (toggle net_root 0) 2"
  have ra: "rooted ?a" "rooted ?b" by (simp_all add: rooted_toggle)
  obtain s1' s2' where s: "process_far sample_env (member_far ?a) (member ?a 2) = Inr s1'" "process_far sample_env (member_far ?b) (member ?b 3) = Inr s2'"
    using member_far_ok [OF ra(1)] member_far_ok [OF ra(2)] by blast
  have "{k. k < 64 \<and> abit ?a (64 + k) \<noteq> abit ?b (64 + k)} = {1, 2}" by (auto simp add: abit_toggle)
  then have h: "hamming ?a ?b = 2" unfolding hamming_upto_card by simp
  have i: "in_space ?a ?b 1" by (simp add: in_space_def abit_toggle)
  have z: "?a \<noteq> zero_addr" "?b \<noteq> zero_addr" using ra by (auto dest: rooted_neq_zero)
  show ?thesis
    using fragmentation_keeps_distances [OF s(1) _ s(2), of 1 64] ra h i z s
    by (intro exI [of _ s1'] exI [of _ s2']) (simp add: member_far_def member_def)
qed

text \<open>C26: Between two nodes without secondary addresses the exchange of FAR and FAN ends the
  fragmentation on both sides: a leaf (its only neighbour is the node that fragments) that receives the FAR of the node that starts it
  joins the new network and leaves the fragmentation at once, and the FAN it has sent, to the new address of its parent, releases the
  parent. The dimension is at most 64, the parent has a name that fits into a message, and the address of the leaf is not the one
  left in its field for a secondary address. With a secondary address the nodes may stay in fragmentation after this exchange.\<close>

theorem fragmentation_completes:
  assumes "fragmentacion E a = Inr a'" and "\<not> sec_addr_flag a" and "hc_dim a \<le> 64" and "univ_addr a \<noteq> []"
    and "far = far_msg E (prim_addr a') (prim_addr c) (prim_addr a) (prim_mask_inicial a) (red_numero a')"
    and "antop_process_pkt Ec fd (Ctrl far) c = Inr c'" and "\<not> sec_addr_flag c" and "prim_addr c \<noteq> sec_addr c"
    and "\<forall>n\<in>set (neigh_table c). n_prim_addr n = prim_addr a"
    and "length (univ_addr a) \<le> length (rv_univ_addr (rv_junk Ea))"
  shows "\<not> flag_fragmentacion c' \<and> red_numero c' = red_numero a' \<and>
    (\<exists>fan src a''. Sendmsg (Ctrl fan) src (prim_addr a') (socket_global c) ANTOP_PORT \<in> set (trace c') \<and> pkt_type_f fan = FAN \<and>
       antop_process_pkt Ea fd' (Ctrl fan) a' = Inr a'' \<and> \<not> flag_fragmentacion a'')"
proof -
  have pf: "process_far Ec far c = Inr c'"
    using assms(5,6) by (simp add: antop_process_pkt_def process_ctrl_def packet_type_defs Let_def)
  have "a_addr (ad_addr far) \<noteq> sec_addr c" using assms(5,8) by simp
  from process_far_result [OF pf this] obtain ts rest where
    red: "red_numero c' = red_numero a'"
    and tr: "trace c' = trace c @ [fan_sent Ec far c] @ move_effects (prim_addr c) (prim_addr c') c @ map (far_passed Ec far (prim_addr c') c) ts @ rest"
    and ts: "\<forall>it\<in>set ts. n_prim_addr it \<in> n_prim_addr ` set (neigh_table c) - {p_src_addr far, p_prim_addr far}"
    and fl: "flag_fragmentacion c' \<longleftrightarrow> ts \<noteq> [] \<or> (sec_addr_flag c \<and> \<not> flag_fragmentacion_secundaria c)"
    using assms(5) by (auto simp del: append_Cons append_Nil)
  have "ts = []" using ts assms(5,9) by (cases ts) auto
  with fl assms(7) have "\<not> flag_fragmentacion c'" by simp
  moreover have "fan_sent Ec far c \<in> set (trace c')" by (simp add: tr)
  then have "Sendmsg (Ctrl ((ctrl_junk Ec)\<lparr>pkt_type_f := FAN, p_src_addr := prim_addr c,
         ad_addr := (ad_addr (ctrl_junk Ec))\<lparr>a_red_numero := red_numero c\<rparr>\<rparr>))
       (if prim_addr_flag c then prim_addr c else if_addr Ec) (prim_addr a') (socket_global c) ANTOP_PORT \<in> set (trace c')"
    using assms(5) by (simp add: fan_sent_def)
  moreover have "\<exists>a''. antop_process_pkt Ea fd' (Ctrl fan) a' = Inr a'' \<and> \<not> flag_fragmentacion a''" if "pkt_type_f fan = FAN" for fan
  proof -
    have a': "flag_fragmentacion a'" "\<not> sec_addr_flag a'" "hc_dim a' = hc_dim a" "univ_addr a' = univ_addr a"
      using fragmentacion_result [of E a] assms(1,2) by auto
    define t where "t = a'\<lparr>flag_fragmentacion := False, flag_fragmentacion_primaria := False, flag_fragmentacion_secundaria := False\<rparr>"
    obtain a'' where "register_rv Ea t = Inr a''"
      using register_rv_total [of t Ea] assms(3,4,10) a' by (auto simp add: t_def)
    moreover from this have "\<not> flag_fragmentacion a''"
      using end_fragmentacion_shape [of Ea a' a''] by (simp add: end_fragmentacion_def t_def)
    ultimately show ?thesis
      using a' that by (simp add: antop_process_pkt_def process_ctrl_def process_fan_def end_fragmentacion_def t_def packet_type_defs Let_def)
  qed
  ultimately show ?thesis using red by fastforce
qed

lemma fragmentation_completes_witness:
  "\<exists>a' c'. fragmentacion sample_env cut_node = Inr a' \<and> flag_fragmentacion a' \<and>
     antop_process_pkt sample_env 3 (Ctrl (member_far (toggle (toggle net_root 0) 1))) (member (toggle (toggle net_root 0) 1) 2) = Inr c' \<and>
     \<not> flag_fragmentacion c' \<and> red_numero c' = 57"
proof -
  let ?c = "toggle (toggle net_root 0) 1"
  have rc: "rooted ?c" by (simp add: rooted_toggle)
  obtain a' where a': "fragmentacion sample_env cut_node = Inr a'"
      "prim_addr a' = shift (hc_dim cut_node) 1 (unat (prim_mask_inicial cut_node)) (root cut_node) (prim_addr cut_node)"
      "red_numero a' = word_of_int (mac_address sample_env)" "flag_fragmentacion a'"
    using fragmentacion_result [of sample_env cut_node] by blast
  have "shift 64 1 1 net_root (toggle net_root 0) = net_root"
    using shift_fresh_addr [of 64 1 "toggle net_root 0"] fresh_toggle_root [of 0] by simp
  then have f: "member_far ?c = far_msg sample_env (prim_addr a') (prim_addr (member ?c 2)) (prim_addr cut_node) (prim_mask_inicial cut_node) (red_numero a')"
    using a' by (simp add: member_far_def member_def cut_node_def mac_address_def)
  obtain c' where c': "process_far sample_env (member_far ?c) (member ?c 2) = Inr c'" using member_far_ok [OF rc] by blast
  then have p: "antop_process_pkt sample_env 3 (Ctrl (member_far ?c)) (member ?c 2) = Inr c'"
    by (simp add: antop_process_pkt_def process_ctrl_def packet_type_defs member_far_def Let_def)
  have "\<not> flag_fragmentacion c' \<and> red_numero c' = red_numero a'"
    using fragmentation_completes [OF a'(1) _ _ _ f p, of sample_env] rooted_neq_zero [OF rc]
    by (simp add: member_def cut_node_def)
  then show ?thesis using a' p by (simp add: mac_address_def)
qed

end
