(* ===== verification/Merge_Correct.thy ===== *)
theory Merge_Correct
  imports Fragmentation_Correct
begin

text \<open>
  What merging achieves: the addresses of the network that is taken in are re-hung below the node that offers the space,
  without changing a distance as long as they fit; a single node that is taken in gets what a newcomer would get.
\<close>

section \<open>The shift of a merge\<close>

text \<open>
  In coordinates: position \<open>j\<close> goes to position \<open>k\<close> with \<open>k + mf = j + n + 1\<close>, where \<open>n\<close> is the mask offered and \<open>mf\<close>
  the mask the moving network starts at; the root of a network gets a coordinate of its own at \<open>n\<close>.
\<close>

definition moved_from :: "nat \<Rightarrow> nat \<Rightarrow> nat \<Rightarrow> nat \<Rightarrow> bool" where
  "moved_from n mf j k \<longleftrightarrow> j < 63 \<and> k < 63 \<and> mf \<le> j + 1 \<and> k + mf = j + n + 1"

lemma abit_shift_down:
  assumes "49 \<le> dim" and "dim \<le> 64" and "k < 64"
  shows "abit (shift dim 0 n net_root a) (64 + k) \<longleftrightarrow> k = 63 \<or> (n \<le> k \<and> k - n < 63 \<and> abit a (64 + (k - n)))"
proof (cases "n \<le> k")
  case True
  then have "64 + k - n = 64 + (k - n)" by simp
  then show ?thesis using True assms abit_net_root [of "k - n"] by (auto simp add: abit_shift cube_start_eq)
next
  case False
  then show ?thesis using assms by (auto simp add: abit_shift cube_start_eq)
qed

lemma abit_mezcla:
  assumes "k < 64" and "dim = 64" and "n < 64"
  shows "abit (shift_mezcla dim net_root src a n mf) (64 + k) \<longleftrightarrow>
    abit src (64 + k) \<or> k = 63 \<or> (mf = 0 \<and> k = n) \<or> (\<exists>j. moved_from n mf j k \<and> abit a (64 + j))"
proof (cases mf)
  case 0
  have "abit (shift_unos 0 (64 + n) uno) (64 + k) \<longleftrightarrow> k = n" using assms by (auto simp add: abit_shift_right abit_uno)
  moreover have "abit (shift 64 0 (Suc n) net_root a) (64 + k) \<longleftrightarrow> k = 63 \<or> (\<exists>j. moved_from n 0 j k \<and> abit a (64 + j))"
    using assms(1) by (auto simp add: abit_shift_down moved_from_def intro!: exI [of _ "k - Suc n"])
  ultimately show ?thesis using 0 assms(2) by (simp add: shift_mezcla_def abit_or nat_add_distrib) blast
next
  case (Suc i)
  have "abit (shift 64 0 n net_root (shift 64 1 i net_root a)) (64 + k) \<longleftrightarrow> k = 63 \<or> (\<exists>j. moved_from n mf j k \<and> abit a (64 + j))"
  proof (cases "n \<le> k")
    case True
    then obtain m where k: "k = n + m" using le_Suc_ex by blast
    have "abit (shift 64 1 i net_root a) (64 + m) \<longleftrightarrow> m = 63 \<or> (m + i < 63 \<and> abit a (64 + (m + i)))"
      using assms(1) k by (intro abit_shift_up) simp_all
    then show ?thesis
      using assms(1) Suc k by (auto simp add: abit_shift_down moved_from_def intro!: exI [of _ "m + i"])
  next
    case False
    then show ?thesis using assms(1) Suc by (auto simp add: abit_shift_down moved_from_def)
  qed
  then show ?thesis using Suc assms(2) by (simp add: shift_mezcla_def abit_or) blast
qed

lemma abit_mezcla_prefix:
  assumes "k < 64" and "dim = 64"
  shows "abit (shift_mezcla dim net_root src a n mf) k \<longleftrightarrow> abit src k \<or> abit net_root k"
proof -
  have s: "abit (shift dim d m net_root b) k \<longleftrightarrow> abit net_root k" if "d = 0 \<or> d = 1" for d m b
    using abit_shift_prefix [of dim k d m b] assms that by simp
  show ?thesis
  proof (cases mf)
    case 0
    have "\<not> abit (shift_unos 0 (64 + n) uno) k" using assms by (auto simp add: abit_shift_right abit_uno)
    then show ?thesis using 0 assms(2) s [of 0 "n + 1" a] by (auto simp add: shift_mezcla_def abit_or nat_add_distrib)
  next
    case (Suc i)
    then show ?thesis using s [of 0 n "shift dim 1 i net_root a"] by (auto simp add: shift_mezcla_def abit_or)
  qed
qed


text \<open>An address fits when no coordinate that is set is shifted onto the last one, which belongs to the root, or beyond it.\<close>

definition fits :: "nat \<Rightarrow> nat \<Rightarrow> in6_addr \<Rightarrow> bool" where
  "fits n mf a \<longleftrightarrow> (\<forall>j<63. 62 + mf \<le> j + n \<longrightarrow> \<not> abit a (64 + j))"

text \<open>Two addresses of the network, or of the subtree of mask \<open>mf\<close>, that moves.\<close>

definition moving :: "nat \<Rightarrow> in6_addr \<Rightarrow> in6_addr \<Rightarrow> bool" where
  "moving mf a b \<longleftrightarrow> rooted a \<and> rooted b \<and> (mf = 0 \<or> in_space a b mf \<and> abit a (64 + (mf - 1)))"

lemma moved_differ:
  assumes "fresh_addr n src" and "n < 63" and "moving mf a b" and "k < 64"
  shows "abit (shift_mezcla 64 net_root src a n mf) (64 + k) \<noteq> abit (shift_mezcla 64 net_root src b n mf) (64 + k) \<longleftrightarrow>
    (\<exists>j. moved_from n mf j k \<and> abit a (64 + j) \<noteq> abit b (64 + j))"
proof -
  have ab: "abit (shift_mezcla 64 net_root src c n mf) (64 + k) \<longleftrightarrow>
      abit src (64 + k) \<or> k = 63 \<or> (mf = 0 \<and> k = n) \<or> (\<exists>j. moved_from n mf j k \<and> abit c (64 + j))" for c
    using assms(2,4) by (simp add: abit_mezcla)
  show ?thesis
  proof (cases "\<exists>j. moved_from n mf j k")
    case True
    then obtain j where j: "moved_from n mf j k" ..
    then have u: "moved_from n mf j' k \<longleftrightarrow> j' = j" for j' by (auto simp add: moved_from_def)
    have "\<not> abit src (64 + k)" "\<not> (mf = 0 \<and> k = n)" "k \<noteq> 63" using j assms(1) by (auto simp add: moved_from_def fresh_addr_def)
    then show ?thesis unfolding ab u by auto
  next
    case False
    then show ?thesis unfolding ab by simp
  qed
qed

lemma moving_differ:
  assumes "moving mf a b" and "fits n mf a" and "fits n mf b" and "j < 64" and "abit a (64 + j) \<noteq> abit b (64 + j)"
  shows "j < 63 \<and> mf \<le> j + 1 \<and> j + n + 1 - mf < 63"
proof -
  have "j \<noteq> 63" using assms(1,5) by (auto simp add: moving_def rooted_def)
  moreover from this have "\<not> 62 + mf \<le> j + n" using assms(2-5) by (auto simp add: fits_def)
  moreover have "mf \<le> j" using assms(1,5) by (auto simp add: moving_def in_space_def not_le [symmetric])
  ultimately show ?thesis using assms(4) by simp
qed

lemma hamming_merge:
  assumes "fresh_addr n src" and "n < 63" and "moving mf a b" and "fits n mf a" and "fits n mf b"
  shows "hamming (shift_mezcla 64 net_root src a n mf) (shift_mezcla 64 net_root src b n mf) = hamming a b"
proof -
  let ?D = "{k. k < 64 \<and> abit (shift_mezcla 64 net_root src a n mf) (64 + k) \<noteq> abit (shift_mezcla 64 net_root src b n mf) (64 + k)}"
  let ?E = "{k. k < 64 \<and> abit a (64 + k) \<noteq> abit b (64 + k)}"
  have D: "?D = {k. k < 64 \<and> (\<exists>j. moved_from n mf j k \<and> abit a (64 + j) \<noteq> abit b (64 + j))}"
    using moved_differ [OF assms(1-3)] by auto
  have E: "j \<in> ?E \<Longrightarrow> moved_from n mf j (j + n + 1 - mf) \<and> j + n + 1 - mf < 64 \<and> mf \<le> j + n + 1" for j
    using moving_differ [OF assms(3-5), of j] by (auto simp add: moved_from_def)
  have "bij_betw (\<lambda>k. k + mf - (n + 1)) ?D ?E"
    unfolding D by (rule bij_betw_byWitness [where f' = "\<lambda>j. j + n + 1 - mf"]) (use E in \<open>auto simp add: moved_from_def less_imp_le\<close>)
  then show ?thesis unfolding hamming_upto_card by (rule bij_betw_same_card)
qed

lemma in_space_merge:
  assumes "fresh_addr n src" and "n < 63" and "moving mf a b" and "mf \<le> m" and "m \<le> 63" and "m + n + 1 - mf \<le> 63"
  shows "in_space (shift_mezcla 64 net_root src a n mf) (shift_mezcla 64 net_root src b n mf) (m + n + 1 - mf) \<longleftrightarrow> in_space a b m"
proof -
  have "in_space (shift_mezcla 64 net_root src a n mf) (shift_mezcla 64 net_root src b n mf) (m + n + 1 - mf) \<longleftrightarrow>
      \<not> (\<exists>k<m + n + 1 - mf. \<exists>j. moved_from n mf j k \<and> abit a (64 + j) \<noteq> abit b (64 + j))"
  proof -
    have "k < m + n + 1 - mf \<Longrightarrow> k < 64" for k using assms(6) by simp
    then show ?thesis unfolding in_space_def using moved_differ [OF assms(1-3)] by (auto simp del: One_nat_def)
  qed
  also have "\<dots> \<longleftrightarrow> \<not> (\<exists>j<m. mf \<le> j + 1 \<and> abit a (64 + j) \<noteq> abit b (64 + j))"
  proof -
    have "\<exists>k<m + n + 1 - mf. moved_from n mf j k" if "j < m" "mf \<le> j + 1" for j
      using that assms(4-6) by (intro exI [of _ "j + n + 1 - mf"]) (auto simp add: moved_from_def)
    moreover have "j < m \<and> mf \<le> j + 1" if "moved_from n mf j k" "k < m + n + 1 - mf" for j k
      using that assms(4) by (auto simp add: moved_from_def)
    ultimately show ?thesis by blast
  qed
  also have "\<dots> \<longleftrightarrow> in_space a b m"
  proof -
    have "abit a (64 + k) = abit b (64 + k)" if "k < mf" for k using assms(3) that by (auto simp add: moving_def in_space_def)
    moreover have "k < mf \<or> mf \<le> k + 1" for k by auto
    ultimately show ?thesis unfolding in_space_def by blast
  qed
  finally show ?thesis .
qed

lemma merge_in_child:
  assumes "fresh_addr n src" and "n < 63" and "moving mf a b" and "mf \<le> 63"
  shows "in_space (shift_mezcla 64 net_root src a n mf) (toggle src n) (Suc n)"
    and "\<not> in_space (shift_mezcla 64 net_root src a n mf) src (Suc n)"
proof -
  have n: "\<not> abit src (64 + n)" using assms(1,2) by (simp add: fresh_addr_def)
  have low: "\<not> moved_from n mf j k" if "k < n" for j k using that by (auto simp add: moved_from_def)
  have "mf = 0 \<or> moved_from n mf (mf - 1) n \<and> abit a (64 + (mf - 1))"
    using assms(2-4) by (auto simp add: moving_def moved_from_def)
  then have at: "abit (shift_mezcla 64 net_root src a n mf) (64 + n)" using assms(2) by (auto simp add: abit_mezcla)
  have "abit (shift_mezcla 64 net_root src a n mf) (64 + k) \<longleftrightarrow> abit src (64 + k)" if "k < n" for k
    using that low assms(2) by (simp add: abit_mezcla)
  with at n assms(2) show "in_space (shift_mezcla 64 net_root src a n mf) (toggle src n) (Suc n)"
    by (auto simp add: in_space_def abit_toggle less_Suc_eq)
  show "\<not> in_space (shift_mezcla 64 net_root src a n mf) src (Suc n)" using at n by (auto simp add: in_space_def)
qed

text \<open>Coordinates that are shifted out are lost.\<close>

lemma merge_loses:
  assumes "j < 63" and "62 + mf \<le> j + n" and "n < 63"
  shows "shift_mezcla 64 net_root src (toggle a j) n mf = shift_mezcla 64 net_root src a n mf"
proof (rule in6_addr_eqI)
  fix k :: nat assume k: "k < 128"
  show "abit (shift_mezcla 64 net_root src (toggle a j) n mf) k \<longleftrightarrow> abit (shift_mezcla 64 net_root src a n mf) k"
  proof (cases "k < 64")
    case True
    then show ?thesis by (simp add: abit_mezcla_prefix)
  next
    case False
    define i where "i = k - 64"
    have i: "k = 64 + i" "i < 64" using False k by (auto simp add: i_def)
    have "\<not> moved_from n mf j i" using assms(2) by (auto simp add: moved_from_def)
    then show ?thesis using i assms(1,3) by (auto simp add: abit_mezcla abit_toggle)
  qed
qed


section \<open>Members of the network that moves\<close>

lemma end_mezcla_shape:
  assumes "end_mezcla E s = Inr s'"
  shows "prim_addr s' = prim_addr s \<and> prim_mask s' = prim_mask s \<and> prim_mask_inicial s' = prim_mask_inicial s \<and>
    red_numero s' = red_numero s \<and> neigh_table s' = neigh_table s \<and> rcvd_addr s' = rcvd_addr s \<and> \<not> flag_mezcla s' \<and>
    (\<exists>r. trace s' = trace s @ r)"
proof (cases "flag_fragmentacion s")
  case True
  then show ?thesis using assms by (auto simp add: end_mezcla_def register_rv_def)
next
  case False
  define t where "t = s\<lparr>flag_mezcla := False, flag_mezcla_primaria := False, flag_mezcla_secundaria := False\<rparr>"
  have r: "register_rv E t = Inr s'" "\<not> flag_mezcla t" "\<not> flag_fragmentacion t"
    using assms False by (simp_all add: end_mezcla_def t_def)
  show ?thesis by (rule register_rv_shape [OF r]) (simp add: t_def)
qed

lemma process_man1_member:
  assumes "process_man1 E msg s = Inr s'" and "flag_mezcla s" and "prim_addr s \<noteq> dir_default s"
  shows "prim_addr s' = shift_mezcla (hc_dim s) (root s) (p_src_addr msg) (prim_addr s) (unat (a_mask (ad_addr msg))) (unat (prim_mask_mezcla s))"
    and "red_numero s' = red_numero s"
proof -
  define aux1 where "aux1 = shift_mez s (p_src_addr msg) (prim_addr s) (a_mask (ad_addr msg)) (prim_mask_mezcla s)"
  define t where "t = move_rcvd (p_src_addr msg) (a_mask (ad_addr msg)) (sleep 2 (del_and_addnew (prim_addr s) aux1 1 (s\<lparr>prim_addr := aux1\<rparr>)))"
  have t: "prim_addr t = aux1" "red_numero t = red_numero s" by (simp_all add: t_def move_rcvd_def core_frames)
  have "(if man_done t then end_mezcla E t else Inr t) = Inr s'"
    using assms by (simp add: process_man1_def Let_def aux1_def t_def cong: if_cong split del: if_split)
  then have "prim_addr s' = aux1 \<and> red_numero s' = red_numero s"
    using t end_mezcla_shape [of E t s'] by (cases "man_done t") auto
  then show "prim_addr s' = shift_mezcla (hc_dim s) (root s) (p_src_addr msg) (prim_addr s) (unat (a_mask (ad_addr msg))) (unat (prim_mask_mezcla s))"
    and "red_numero s' = red_numero s" by (simp_all add: aux1_def shift_mez_def)
qed

text \<open>The shifts use the dimension by whole words, and only the move of a root uses it to the bit.\<close>

lemma shift_mezcla_dim:
  assumes "49 \<le> dim" and "dim \<le> 64" and "0 < mf"
  shows "shift_mezcla dim rt src a n mf = shift_mezcla 64 rt src a n mf"
proof -
  have "(128 - dim) div 16 = 4" using assms(1,2) by presburger
  then have "shift dim = shift 64" by (intro ext) (simp add: shift_def clear_prefix_def)
  then show ?thesis using assms(3) by (simp add: shift_mezcla_def)
qed

text \<open>C9: Two members of a network that is taken in, which move when their messages of the same merge are
  acknowledged, keep their distance and the nesting of their spaces, and come to lie in the half of its space that the
  offering node has given away, provided that no coordinate of theirs is shifted out of the cube (\<open>fits\<close>). The dimension is 64, or 49 to 64 when
  they are not moved as the root of their network (\<open>mf\<close>, the mask their branch moves with, is not 0), and the root of the cube is
  \<open>net_root\<close>; both lie in the branch that moves (\<open>moving\<close>); the mask of the offering node is below 63 and no coordinate of its address from the
  mask on is set but the last. For a root in another dimension see \<open>mezcla_other_dimension\<close>.\<close>

theorem merge_keeps_distances:
  assumes "process_man1 E1 m1 s1 = Inr s1'" and "flag_mezcla s1" and "prim_addr s1 \<noteq> dir_default s1"
    and "process_man1 E2 m2 s2 = Inr s2'" and "flag_mezcla s2" and "prim_addr s2 \<noteq> dir_default s2"
    and "p_src_addr m1 = src" and "p_src_addr m2 = src" and "a_mask (ad_addr m1) = n" and "a_mask (ad_addr m2) = n"
    and "unat (prim_mask_mezcla s1) = mf" and "unat (prim_mask_mezcla s2) = mf"
    and "root s1 = net_root" and "root s2 = net_root" and "hc_dim s1 = dim" and "hc_dim s2 = dim"
    and "fresh_addr (unat n) src" and "unat n < 63" and "moving mf (prim_addr s1) (prim_addr s2)" and "mf \<le> 63"
    and "fits (unat n) mf (prim_addr s1)" and "fits (unat n) mf (prim_addr s2)"
    and "dim = 64 \<or> 49 \<le> dim \<and> dim \<le> 64 \<and> 0 < mf"
  shows "hamming (prim_addr s1') (prim_addr s2') = hamming (prim_addr s1) (prim_addr s2) \<and>
    (\<forall>m. mf \<le> m \<and> m \<le> 63 \<and> m + unat n + 1 - mf \<le> 63 \<longrightarrow>
       in_space (prim_addr s1') (prim_addr s2') (m + unat n + 1 - mf) = in_space (prim_addr s1) (prim_addr s2) m) \<and>
    in_space (prim_addr s1') (toggle src (unat n)) (unat n + 1) \<and> \<not> in_space (prim_addr s1') src (unat n + 1)"
proof -
  have a: "prim_addr s1' = shift_mezcla 64 net_root src (prim_addr s1) (unat n) mf" "prim_addr s2' = shift_mezcla 64 net_root src (prim_addr s2) (unat n) mf"
    using process_man1_member(1) [OF assms(1-3)] process_man1_member(1) [OF assms(4-6)] assms(7-16,23) shift_mezcla_dim [of dim mf] by auto
  show ?thesis
    unfolding a using hamming_merge [OF assms(17-19,21,22)] in_space_merge [OF assms(17-19)] merge_in_child [OF assms(17-20)] by simp
qed

text \<open>Members of a subtree of mask 1 that moves below the child of the root at mask 6.\<close>

definition moving_node :: "in6_addr \<Rightarrow> node" where
  "moving_node a = sample_node\<lparr>prim_addr := a, prim_mask_mezcla := 1, flag_mezcla := True, flag_mezcla_primaria := True\<rparr>"

definition moving_man1 :: ctrl_pkt where
  "moving_man1 = null_ctrl\<lparr>pkt_type_f := MAN1, p_src_addr := toggle net_root 5, ad_addr := (ad_addr null_ctrl)\<lparr>a_mask := 6\<rparr>\<rparr>"

lemma process_man1_total:
  assumes "flag_mezcla s" and "prim_addr s \<noteq> dir_default s" and "hc_dim s \<le> 64" and "univ_addr s \<noteq> []"
    and "length (univ_addr s) \<le> length (rv_univ_addr (rv_junk E))"
  shows "\<exists>s'. process_man1 E msg s = Inr s'"
proof -
  have "\<exists>s'. end_mezcla E t = Inr s'" if "hc_dim t = hc_dim s" "univ_addr t = univ_addr s" for t
    using register_rv_total [of "t\<lparr>flag_mezcla := False, flag_mezcla_primaria := False, flag_mezcla_secundaria := False\<rparr>" E] assms(3-5) that
    by (simp add: end_mezcla_def)
  then show ?thesis using assms(1,2) by (simp add: process_man1_def Let_def move_rcvd_def core_frames)
qed

lemma moving_ok: "rooted a \<Longrightarrow> a \<noteq> net_default \<Longrightarrow> \<exists>s'. process_man1 sample_env moving_man1 (moving_node a) = Inr s'"
  by (rule process_man1_total) (simp_all add: moving_node_def)

lemma toggle_not_default: "j < 63 \<Longrightarrow> rooted a \<Longrightarrow> toggle a j \<noteq> net_default"
proof -
  have "\<not> rooted net_default" by code_simp
  then show "j < 63 \<Longrightarrow> rooted a \<Longrightarrow> toggle a j \<noteq> net_default" using rooted_toggle by metis
qed

theorem merge_keeps_distances_witness:
  "\<exists>s1' s2'. process_man1 sample_env moving_man1 (moving_node (toggle (toggle net_root 0) 1)) = Inr s1' \<and>
     process_man1 sample_env moving_man1 (moving_node (toggle (toggle net_root 0) 2)) = Inr s2' \<and> hamming (prim_addr s1') (prim_addr s2') = 2"
proof -
  let ?a = "toggle (toggle net_root 0) 1" and ?b = "toggle (toggle net_root 0) 2"
  have d: "?a \<noteq> net_default" "?b \<noteq> net_default" by (simp_all add: toggle_not_default rooted_toggle)
  have r: "rooted ?a" "rooted ?b" by (simp_all add: rooted_toggle)
  obtain s1' s2' where s: "process_man1 sample_env moving_man1 (moving_node ?a) = Inr s1'" "process_man1 sample_env moving_man1 (moving_node ?b) = Inr s2'"
    using moving_ok [OF r(1) d(1)] moving_ok [OF r(2) d(2)] by blast
  have "{k. k < 64 \<and> abit ?a (64 + k) \<noteq> abit ?b (64 + k)} = {1, 2}" by (auto simp add: abit_toggle)
  then have h: "hamming ?a ?b = 2" unfolding hamming_upto_card by simp
  have m: "moving 1 ?a ?b" using r using abit_net_root [of 0] by (auto simp add: moving_def in_space_def abit_toggle)
  have f: "fits 6 1 ?a" "fits 6 1 ?b" by (auto simp add: fits_def abit_toggle)
  have "fresh_addr 6 (toggle net_root 5)" using fresh_toggle_root [of 5] by simp
  then have "hamming (prim_addr s1') (prim_addr s2') = 2"
    using merge_keeps_distances [OF s(1) _ _ s(2), of "toggle net_root 5" 6 1] d m f h by (simp add: moving_node_def moving_man1_def null_ctrl_def)
  with s show ?thesis by blast
qed

text \<open>C32: When the network that is taken in is too deep for the space it is given, different members get the
  same address: a coordinate that is shifted beyond the last one is lost without notice.\<close>

theorem merge_overflow_collides:
  assumes "process_man1 E1 m1 s1 = Inr s1'" and "flag_mezcla s1" and "prim_addr s1 \<noteq> dir_default s1"
    and "process_man1 E2 m2 s2 = Inr s2'" and "flag_mezcla s2" and "prim_addr s2 \<noteq> dir_default s2"
    and "p_src_addr m1 = src" and "p_src_addr m2 = src" and "a_mask (ad_addr m1) = n" and "a_mask (ad_addr m2) = n"
    and "unat (prim_mask_mezcla s1) = mf" and "unat (prim_mask_mezcla s2) = mf"
    and "root s1 = net_root" and "root s2 = net_root" and "hc_dim s1 = 64" and "hc_dim s2 = 64"
    and "unat n < 63" and "prim_addr s2 = toggle (prim_addr s1) j" and "j < 63" and "62 + mf \<le> j + unat n"
  shows "prim_addr s1 \<noteq> prim_addr s2 \<and> prim_addr s1' = prim_addr s2'"
proof -
  have a: "prim_addr s1' = shift_mezcla 64 net_root src (prim_addr s1) (unat n) mf" "prim_addr s2' = shift_mezcla 64 net_root src (prim_addr s2) (unat n) mf"
    using process_man1_member(1) [OF assms(1-3)] process_man1_member(1) [OF assms(4-6)] assms(7-16) by simp_all
  show ?thesis using merge_loses [OF assms(19,20,17), of src "prim_addr s1"] toggle_neq [of j "prim_addr s1"] assms(18,19) by (auto simp add: a dest: sym)
qed


theorem merge_overflow_collides_witness:
  "\<exists>s1' s2'. process_man1 sample_env moving_man1 (moving_node (toggle net_root 0)) = Inr s1' \<and>
     process_man1 sample_env moving_man1 (moving_node (toggle (toggle net_root 0) 60)) = Inr s2' \<and> prim_addr s1' = prim_addr s2'"
proof -
  let ?a = "toggle net_root 0" and ?b = "toggle (toggle net_root 0) 60"
  have d: "?a \<noteq> net_default" "?b \<noteq> net_default" by (simp_all add: toggle_not_default rooted_toggle)
  have r: "rooted ?a" "rooted ?b" by (simp_all add: rooted_toggle)
  obtain s1' s2' where s: "process_man1 sample_env moving_man1 (moving_node ?a) = Inr s1'" "process_man1 sample_env moving_man1 (moving_node ?b) = Inr s2'"
    using moving_ok [OF r(1) d(1)] moving_ok [OF r(2) d(2)] by blast
  have "prim_addr s1' = prim_addr s2'"
    using merge_overflow_collides [OF s(1) _ _ s(2), of "toggle net_root 5" 6 1 60] d by (simp add: moving_node_def moving_man1_def null_ctrl_def)
  with s show ?thesis by blast
qed

section \<open>Taking in a single node\<close>

text \<open>The message of the node that offers its space.\<close>

definition mar1_msg :: "env \<Rightarrow> in6_addr \<Rightarrow> node \<Rightarrow> ctrl_pkt" where
  "mar1_msg E dst s =
     (mez_pkt E MAR1 (prim_addr s) (dir_default s) dst (prim_mask s) (red_numero s))
       \<lparr>ad_addr := (ad_addr (mez_pkt E MAR1 (prim_addr s) (dir_default s) dst (prim_mask s) (red_numero s)))\<lparr>t_lenght := 0\<rparr>\<rparr>"

lemma mar1_msg_sel [simp]:
  "pkt_type_f (mar1_msg E dst s) = MAR1" "p_src_addr (mar1_msg E dst s) = prim_addr s" "p_prim_addr (mar1_msg E dst s) = dir_default s"
  "a_addr (ad_addr (mar1_msg E dst s)) = dst" "a_mask (ad_addr (mar1_msg E dst s)) = prim_mask s"
  "a_red_numero (ad_addr (mar1_msg E dst s)) = red_numero s"
  by (simp_all add: mar1_msg_def mez_pkt_def)

definition man1_msg :: "env \<Rightarrow> in6_addr \<Rightarrow> in6_addr \<Rightarrow> in6_addr \<Rightarrow> byte \<Rightarrow> byte \<Rightarrow> ctrl_pkt" where
  "man1_msg E src dst orig msk red = mez_pkt E MAN1 orig src dst msk red"

lemma man1_msg_sel [simp]:
  "pkt_type_f (man1_msg E src dst orig msk red) = MAN1" "p_src_addr (man1_msg E src dst orig msk red) = orig"
  "a_mask (ad_addr (man1_msg E src dst orig msk red)) = msk" "a_red_numero (ad_addr (man1_msg E src dst orig msk red)) = red"
  by (simp_all add: man1_msg_def mez_pkt_def)

lemma take_rcvd_none: "\<forall>it\<in>set (rcvd_addr s). r_prim_mask it = 0 \<Longrightarrow> take_rcvd s = Inr (prim_mask s, s)"
proof -
  assume "\<forall>it\<in>set (rcvd_addr s). r_prim_mask it = 0"
  then have "find (\<lambda>it. r_prim_mask it \<noteq> 0) (rcvd_addr s) = None" by (auto simp add: find_None_iff)
  then show ?thesis by (simp add: take_rcvd_def)
qed

lemma frame_aux [simp]:
  "prim_addr_aux (del_and_addnew a b k s) = prim_addr_aux s" "prim_addr_aux (sleep d s) = prim_addr_aux s"
  "dir_default (del_and_addnew a b k s) = dir_default s" "dir_default (sleep d s) = dir_default s"
  by (simp_all add: del_and_addnew_def io_defs sleep_def)

lemma mezcla_result:
  assumes "\<forall>it\<in>set (rcvd_addr s). r_prim_mask it = 0"
  shows "\<exists>s'. mezcla E dst s = Inr s' \<and> prim_addr s' = dir_default s \<and> prim_addr_aux s' = prim_addr s \<and> prim_mask s' = prim_mask s \<and>
    red_numero s' = red_numero s \<and> dir_default s' = dir_default s \<and> flag_mezcla s' \<and> last_sent s' = Some (mar1_msg E dst s)"
  using take_rcvd_none [OF assms]
  by (simp add: mezcla_def Let_def delay_def send_mar1_def core_frames mar1_msg_def antop_socket_send_def last_sent_def)

text \<open>The address a single root is moved to is that of the child a newcomer would become.\<close>

lemma mezcla_child:
  assumes "fresh_addr n src" and "n < 63"
  shows "shift_mezcla 64 net_root src net_root n 0 = toggle src n"
proof (rule in6_addr_eqI)
  fix k :: nat assume k: "k < 128"
  show "abit (shift_mezcla 64 net_root src net_root n 0) k \<longleftrightarrow> abit (toggle src n) k"
  proof (cases "k < 64")
    case True
    then show ?thesis using assms by (auto simp add: abit_mezcla_prefix abit_toggle fresh_addr_def)
  next
    case False
    define i where "i = k - 64"
    have i: "k = 64 + i" "i < 64" using False k by (auto simp add: i_def)
    have "\<not> (\<exists>j. moved_from n 0 j i \<and> abit net_root (64 + j))" by (auto simp add: moved_from_def)
    moreover have "\<not> abit src (64 + n)" using assms by (simp add: fresh_addr_def)
    moreover have "abit src (64 + 63)" using assms(1) [unfolded fresh_addr_def, THEN conjunct2, rule_format, of 63] assms(2) by simp
    ultimately show ?thesis using i assms(2) by (auto simp add: abit_mezcla abit_toggle)
  qed
qed


text \<open>
  In a cube of a smaller dimension it is not: the coordinate of a newcomer is counted from the middle of the address,
  that of a merge from the start of the cube, so that the new address lies outside the space that was given away.
\<close>

lemma mezcla_other_dimension:
  assumes "49 \<le> dim" and "dim < 64" and "fresh_addr n src" and "n < 63"
  shows "\<not> in_space (shift_mezcla dim net_root src net_root n 0) (toggle src n) (Suc n)"
proof -
  have "\<not> abit (shift dim 0 (n + 1) net_root net_root) (64 + n)" using assms by (simp add: abit_shift_down)
  moreover have "\<not> abit (shift_unos 0 (nat ((128 - int dim) + int n)) uno) (64 + n)"
    using assms by (auto simp add: abit_shift_right abit_uno)
  moreover have "\<not> abit src (64 + n)" using assms by (simp add: fresh_addr_def)
  ultimately have "\<not> abit (shift_mezcla dim net_root src net_root n 0) (64 + n)" by (simp add: shift_mezcla_def abit_or)
  moreover have "abit (toggle src n) (64 + n)" using assms by (simp add: abit_toggle fresh_addr_def)
  ultimately show ?thesis by (auto simp add: in_space_def)
qed

text \<open>What the single node does with the message.\<close>

definition lone :: "node \<Rightarrow> bool" where
  "lone b \<longleftrightarrow> prim_addr b = net_root \<and> root b = net_root \<and> prim_mask b = 0 \<and> prim_mask_inicial b = 0 \<and> neigh_table b = [] \<and>
     \<not> sec_addr_flag b \<and> sec_addr b \<noteq> net_root \<and> dir_default b \<noteq> net_root \<and> univ_addr b \<noteq> []"

definition lone_moved :: "env \<Rightarrow> ctrl_pkt \<Rightarrow> node \<Rightarrow> node \<Rightarrow> bool" where
  "lone_moved E msg b b' \<longleftrightarrow> prim_addr b' = shift_mezcla 64 net_root (p_src_addr msg) net_root (unat (a_mask (ad_addr msg))) 0 \<and>
     prim_mask b' = a_mask (ad_addr msg) + 1 \<and> prim_mask_inicial b' = a_mask (ad_addr msg) + 1 \<and>
     red_numero b' = a_red_numero (ad_addr msg) \<and> \<not> flag_mezcla b' \<and> map n_prim_addr (neigh_table b') = [p_src_addr msg] \<and>
     (\<exists>src sock. Sendmsg (Ctrl (man1_msg E (prim_addr b') (dir_default b) (p_src_addr msg) (a_mask (ad_addr msg)) (red_numero b'))) src
        (dir_default b) sock ANTOP_PORT \<in> set (trace b'))"

lemma mar1_leaf_lone:
  assumes "neigh_table s = []" and "p_prim_addr msg = dir_default s" and "\<not> sec_addr_flag s" and "hc_dim s = 64" and "univ_addr s \<noteq> []"
    and "length (univ_addr s) \<le> length (rv_univ_addr (rv_junk E))" and "p_prim_addr aux_msg = p_src_addr msg"
  shows "\<exists>s'. mar1_leaf E msg aux_msg s = Inr s' \<and>
    prim_addr s' = shift_mez s (p_src_addr msg) (prim_addr s) (a_mask (ad_addr msg)) (prim_mask_mezcla s) \<and>
    prim_mask s' = prim_mask s \<and> prim_mask_inicial s' = prim_mask_inicial s \<and> red_numero s' = red_numero s \<and> \<not> flag_mezcla s' \<and>
    map n_prim_addr (neigh_table s') = [p_src_addr msg] \<and>
    (\<exists>src sock. Sendmsg (Ctrl (man1_msg E (prim_addr s') (dir_default s) (p_src_addr msg) (a_mask (ad_addr msg)) (red_numero s'))) src
        (dir_default s) sock ANTOP_PORT \<in> set (trace s'))"
proof -
  define aux1 where "aux1 = shift_mez s (p_src_addr msg) (prim_addr s) (a_mask (ad_addr msg)) (prim_mask_mezcla s)"
  define s1 where "s1 = s\<lparr>neigh_table := [hb_neighbor aux_msg False]\<rparr>"
  have add: "add_neighbor aux_msg False (init_neigh_table E s) = Inr s1"
    using assms(1) by (simp add: add_neighbor_def init_neigh_table_def neigh_insert_def s1_def)
  define s2 where "s2 = sleep 2 (del_and_addnew (prim_addr s) aux1 1 (s1\<lparr>prim_addr := aux1\<rparr>))"
  define s3 where "s3 = send_man1 E (socket_global s2) (prim_addr s2) (p_prim_addr msg) (p_src_addr msg) (a_mask (ad_addr msg)) (red_numero s2) s2"
  define s4 where "s4 = move_rcvd (p_src_addr msg) (a_mask (ad_addr msg)) s3"
  have s2: "prim_addr s2 = aux1" "prim_mask s2 = prim_mask s" "prim_mask_inicial s2 = prim_mask_inicial s" "red_numero s2 = red_numero s"
    "neigh_table s2 = [hb_neighbor aux_msg False]" "sec_addr_flag s2 = sec_addr_flag s" "hc_dim s2 = hc_dim s" "univ_addr s2 = univ_addr s"
    by (simp_all add: s2_def core_frames s1_def)
  have s4: "prim_addr s4 = aux1" "prim_mask s4 = prim_mask s" "prim_mask_inicial s4 = prim_mask_inicial s" "red_numero s4 = red_numero s"
    "neigh_table s4 = [hb_neighbor aux_msg False]" "sec_addr_flag s4 = sec_addr_flag s" "hc_dim s4 = hc_dim s" "univ_addr s4 = univ_addr s"
    "trace s4 = trace s2 @ [Sendmsg (Ctrl (man1_msg E aux1 (dir_default s) (p_src_addr msg) (a_mask (ad_addr msg)) (red_numero s)))
       (if prim_addr_flag s2 then aux1 else if_addr E) (dir_default s) (socket_global s2) ANTOP_PORT]"
    using s2 assms(2) by (simp_all add: s4_def s3_def move_rcvd_def send_man1_def man1_msg_def antop_socket_send_def)
  have "mar1_leaf E msg aux_msg s = end_mezcla E s4"
    using assms(1-3) add s4(6)
    by (simp add: mar1_leaf_def Let_def s1_def s2_def s3_def s4_def shift_mez_def aux1_def cong: if_cong split del: if_split)
  moreover obtain s' where "end_mezcla E s4 = Inr s'"
    using register_rv_total [of "s4\<lparr>flag_mezcla := False, flag_mezcla_primaria := False, flag_mezcla_secundaria := False\<rparr>" E] assms(4-6) s4
    by (auto simp add: end_mezcla_def)
  moreover from end_mezcla_shape [OF this] obtain r where "prim_addr s' = aux1" "prim_mask s' = prim_mask s"
    "prim_mask_inicial s' = prim_mask_inicial s" "red_numero s' = red_numero s" "neigh_table s' = [hb_neighbor aux_msg False]" "\<not> flag_mezcla s'"
    "trace s' = trace s4 @ r" using s4 by auto
  ultimately show ?thesis using s4(9) assms(7) by (auto simp add: hb_neighbor_def aux1_def)
qed

lemma process_mar1_lone:
  assumes "lone b" and "p_prim_addr msg = dir_default b" and "a_addr (ad_addr msg) = net_root"
    and "length (univ_addr b) \<le> length (rv_univ_addr (rv_junk E))" and "hc_dim b = 64"
  shows "\<exists>b'. process_mar1 E msg b = Inr b' \<and> lone_moved E msg b b'"
proof -
  let ?n = "a_mask (ad_addr msg)"
  define aux_msg where "aux_msg = msg\<lparr>p_prim_addr := p_src_addr msg\<rparr>"
  define s1 where "s1 = b\<lparr>flag_mezcla := True, flag_mezcla_primaria := True,
      neighbor_to_root := (neighbor_to_root b)\<lparr>nr_distance := 99\<rparr>, prim_mask_mezcla := prim_mask_inicial b\<rparr>"
  have prep: "mar1_prepare msg (b\<lparr>flag_mezcla := True, flag_mezcla_primaria := True\<rparr>) = Inr (aux_msg, False, False, s1)"
    using assms(1,2) by (simp add: mar1_prepare_def mar1_from_default_def lone_def aux_msg_def s1_def Let_def)
  define s2 where "s2 = clear_rv_tables (s1\<lparr>red_numero := a_red_numero (ad_addr msg), prim_mask := ?n + 1, prim_mask_inicial := ?n + 1\<rparr>)"
  have s2: "neigh_table s2 = []" "dir_default s2 = dir_default b" "\<not> sec_addr_flag s2" "hc_dim s2 = 64" "univ_addr s2 = univ_addr b"
    "prim_addr s2 = net_root" "root s2 = net_root" "prim_mask_mezcla s2 = 0" "prim_mask s2 = ?n + 1" "prim_mask_inicial s2 = ?n + 1"
    "red_numero s2 = a_red_numero (ad_addr msg)"
    using assms(1,5) by (simp_all add: s2_def s1_def lone_def clear_rv_tables_def)
  have "net_root \<noteq> sec_addr b" using assms(1) by (auto simp add: lone_def)
  then have "process_mar1 E msg b = mar1_leaf E msg aux_msg s2"
    using assms(1,3) prep s2(1)
    by (simp add: process_mar1_def process_mar1_prim_def mar1_spread_def Let_def lone_def s2_def) (simp add: s1_def lone_def add.commute)
  moreover have "shift_mez s2 (p_src_addr msg) (prim_addr s2) ?n (prim_mask_mezcla s2) =
      shift_mezcla 64 net_root (p_src_addr msg) net_root (unat ?n) 0" using s2 by (simp add: shift_mez_def)
  ultimately show ?thesis
    using mar1_leaf_lone [of s2 msg E aux_msg] s2 assms(1,2,4) by (auto simp add: lone_moved_def lone_def aux_msg_def)
qed


text \<open>C8: In a network of dimension 64, merging with a single node comes to the same as its joining: when a node hears the
  root of a network of its own with a larger number, the exchange MAR1, MAN1 that follows gives that root the address and the mask a
  newcomer would get, in the network of the first node, which gets back its address, gives away half of its space and is the
  only neighbour of the other. The two spaces partition the space the first node had, and both leave the merge.

  The heard root is a single node (\<open>lone\<close>: the whole space, no neighbour, no secondary address, a name that fits into a message); the first node has no
  recovered space to offer, a mask below 63 and an address on which no coordinate from its mask on is set but the last; both know the
  same default address. For other dimensions the merging root takes an address outside the half that is offered
  (\<open>mezcla_other_dimension\<close>).\<close>

theorem merge_is_join:
  assumes "detector_de_mezcla Ea hb a = Inr (1, a1)" and "p_prim_addr hb = net_root" and "a_red_numero (ad_addr hb) = red_numero b"
    and "red_numero a < red_numero b" and "\<forall>it\<in>set (rcvd_addr a). r_prim_mask it = 0" and "fresh_addr (unat (prim_mask a)) (prim_addr a)"
    and "unat (prim_mask a) < 63" and "lone b" and "dir_default a = dir_default b"
    and "length (univ_addr b) \<le> length (rv_univ_addr (rv_junk Eb))" and "hc_dim b = 64"
  shows "\<exists>mar1 b' man1 src sock a'. last_sent a1 = Some mar1 \<and> antop_process_pkt Eb fd (Ctrl mar1) b = Inr b' \<and>
    split_addr (prim_addr a) (prim_mask a) = Inr (prim_addr b') \<and> prim_mask b' = prim_mask a + 1 \<and> red_numero b' = red_numero a \<and>
    map n_prim_addr (neigh_table b') = [prim_addr a] \<and> \<not> flag_mezcla b' \<and>
    Sendmsg (Ctrl man1) src (prim_addr a1) sock ANTOP_PORT \<in> set (trace b') \<and>
    antop_process_pkt Ea fd' (Ctrl man1) a1 = Inr a' \<and> prim_addr a' = prim_addr a \<and> prim_mask a' = prim_mask a + 1 \<and> \<not> flag_mezcla a' \<and>
    (\<forall>x. (check_addr_space x (prim_addr a) (prim_mask a) = Inr 0) \<longleftrightarrow>
       (check_addr_space x (prim_addr a') (prim_mask a') = Inr 0) \<noteq> (check_addr_space x (prim_addr b') (prim_mask b') = Inr 0))"
proof -
  let ?n = "prim_mask a"
  have "mezcla Ea net_root a = Inr a1"
    using assms(1-4) by (auto simp add: detector_de_mezcla_def bind_eq_Inr_conv split: if_splits)
  with mezcla_result [OF assms(5), of Ea net_root] have a1: "prim_addr a1 = dir_default a" "prim_addr_aux a1 = prim_addr a"
    "prim_mask a1 = ?n" "red_numero a1 = red_numero a" "dir_default a1 = dir_default a" "flag_mezcla a1" "last_sent a1 = Some (mar1_msg Ea net_root a)"
    by auto
  let ?m = "mar1_msg Ea net_root a"
  obtain b' where b': "process_mar1 Eb ?m b = Inr b'" "lone_moved Eb ?m b b'"
    using process_mar1_lone [OF assms(8), of ?m Eb] assms(9-11) by auto
  have "red_numero a \<noteq> red_numero b" using assms(4) by auto
  then have "antop_process_pkt Eb fd (Ctrl ?m) b = process_mar1 Eb ?m b"
    using assms(8) by (simp add: antop_process_pkt_def process_ctrl_def packet_type_defs mar1_give_up_def lone_def)
  then have pb: "antop_process_pkt Eb fd (Ctrl ?m) b = Inr b'" using b'(1) by simp
  have addr: "prim_addr b' = toggle (prim_addr a) (unat ?n)"
    using b'(2) mezcla_child [OF assms(6,7)] by (simp add: lone_moved_def)
  have s: "split_addr (prim_addr a) ?n = Inr (prim_addr b')" using split_addr_ok [of ?n "prim_addr a"] assms(7) by (simp add: addr)
  obtain src sock where man: "Sendmsg (Ctrl (man1_msg Eb (prim_addr b') (dir_default b) (prim_addr a) ?n (red_numero a))) src
      (dir_default b) sock ANTOP_PORT \<in> set (trace b')" using b'(2) by (auto simp add: lone_moved_def)
  define man1 where "man1 = man1_msg Eb (prim_addr b') (dir_default b) (prim_addr a) ?n (red_numero a)"
  obtain a' where a': "antop_process_pkt Ea fd' (Ctrl man1) a1 = Inr a'" "prim_addr a' = prim_addr a" "prim_mask a' = ?n + 1" "\<not> flag_mezcla a'"
    using a1 by (simp add: man1_def antop_process_pkt_def process_ctrl_def packet_type_defs process_man1_def Let_def core_frames)
  have m1: "unat (?n + 1) = Suc (unat ?n)" using assms(7) by (simp add: unat_word_ariths)
  have part: "(check_addr_space x (prim_addr a) ?n = Inr 0) \<longleftrightarrow>
      (check_addr_space x (prim_addr a) (?n + 1) = Inr 0) \<noteq> (check_addr_space x (prim_addr b') (?n + 1) = Inr 0)" for x
    using in_space_split [of "unat ?n" x "prim_addr a"] assms(7) by (auto simp add: check_addr_space_ok m1 addr)
  have "prim_mask b' = ?n + 1" "red_numero b' = red_numero a" "map n_prim_addr (neigh_table b') = [prim_addr a]" "\<not> flag_mezcla b'"
    using b'(2) by (simp_all add: lone_moved_def)
  then show ?thesis using a1(7) pb s man a' part a1(1) assms(9) unfolding man1_def by metis
qed

text \<open>The root of a network with number 9 hears one with number 12.\<close>

definition merging_node :: node where
  "merging_node = sample_node\<lparr>red_numero := 9, flag_init := True, prim_mask := 3\<rparr>"

definition heard_node :: node where
  "heard_node = sample_node\<lparr>red_numero := 12, flag_init := True\<rparr>"

definition heard_hb :: ctrl_pkt where
  "heard_hb = null_ctrl\<lparr>pkt_type_f := HB, p_prim_addr := net_root, ad_addr := (ad_addr null_ctrl)\<lparr>a_red_numero := 12\<rparr>\<rparr>"

lemma fresh_net_root: "n \<le> 63 \<Longrightarrow> fresh_addr n net_root"
  by (simp add: fresh_addr_def)

theorem merge_is_join_witness:
  "\<exists>a1 mar1 b'. detector_de_mezcla sample_env heard_hb merging_node = Inr (1, a1) \<and> last_sent a1 = Some mar1 \<and>
     antop_process_pkt sample_env 3 (Ctrl mar1) heard_node = Inr b' \<and> split_addr net_root 3 = Inr (prim_addr b') \<and> prim_mask b' = 4"
proof -
  obtain a1 where "mezcla sample_env net_root merging_node = Inr a1"
    using mezcla_result [of merging_node sample_env net_root] by (auto simp add: merging_node_def)
  then have d: "detector_de_mezcla sample_env heard_hb merging_node = Inr (1, a1)"
    by (simp add: detector_de_mezcla_def heard_hb_def merging_node_def null_ctrl_def)
  have l: "lone heard_node"
    using rooted_neq_zero [OF rooted_net_root] by (simp add: lone_def heard_node_def net_root_def net_default_def zero_addr_def)
  have "fresh_addr (unat (prim_mask merging_node)) (prim_addr merging_node)"
    using fresh_net_root [of 3] by (simp add: merging_node_def)
  then have "\<exists>mar1 b'. last_sent a1 = Some mar1 \<and> antop_process_pkt sample_env 3 (Ctrl mar1) heard_node = Inr b' \<and>
      split_addr (prim_addr merging_node) (prim_mask merging_node) = Inr (prim_addr b') \<and> prim_mask b' = prim_mask merging_node + 1"
    using merge_is_join [OF d _ _ _ _ _ _ l, of sample_env 3 3]
    by (simp add: heard_hb_def merging_node_def null_ctrl_def heard_node_def) blast
  with d show ?thesis by (simp add: merging_node_def)
qed

end
