(* ===== verification/Ping6.thy ===== *)
theory Ping6
  imports Checksum
begin

text \<open>
  The reachability probe (\<open>ping6.c\<close>): the frame of the echo request byte by byte and the loops that wait for a reply,
  and the text form of an address (\<open>ip6_to_str\<close> of \<open>utils.c\<close>) through which both addresses of the request go. What
  the socket delivers is a list; \<open>probe_run\<close> has the calls that may fail, and printing is left out.
\<close>

section \<open>Addresses as text\<close>

definition hex_digits :: string where
  "hex_digits = ''0123456789abcdef''"

text \<open>\<open>%x\<close>.\<close>

fun show_hex :: "nat \<Rightarrow> string" where
  "show_hex n = (if n < 16 then [hex_digits ! n] else show_hex (n div 16) @ [hex_digits ! (n mod 16)])"

declare show_hex.simps [simp del]

fun with_colons :: "string list \<Rightarrow> string" where
  "with_colons [] = []"
| "with_colons [g] = g"
| "with_colons (g # gs) = g @ CHR '':'' # with_colons gs"

definition ip6_to_str :: "in6_addr \<Rightarrow> string" where
  "ip6_to_str addr = with_colons (map (\<lambda>i. show_hex (unat (htons (s6_addr16 addr i)))) [0..<8])"

text \<open>\<open>inet_pton\<close> of the standard library on text with eight groups.\<close>

definition hex_value :: "char \<Rightarrow> nat option" where
  "hex_value c = map_of (zip hex_digits [0..<16]) c"

fun read_hex :: "nat \<Rightarrow> string \<Rightarrow> nat option" where
  "read_hex acc [] = Some acc"
| "read_hex acc (c # cs) = (case hex_value c of None \<Rightarrow> None | Some d \<Rightarrow> read_hex (16 * acc + d) cs)"

definition read_group :: "string \<Rightarrow> nat option" where
  "read_group g = (if g = [] \<or> 4 < length g then None else read_hex 0 g)"

fun split_colons :: "string \<Rightarrow> string list" where
  "split_colons [] = [[]]"
| "split_colons (c # cs) = (if c = CHR '':'' then [] # split_colons cs else (c # hd (split_colons cs)) # tl (split_colons cs))"

definition inet_pton :: "string \<Rightarrow> in6_addr option" where
  "inet_pton str =
     (let gs = map read_group (split_colons str)
      in if length gs = 8 \<and> None \<notin> set gs then Some (s6_build (\<lambda>i. htons (word_of_nat (the (gs ! i))))) else None)"

lemma hex_digit_facts: "d < 16 \<Longrightarrow> hex_value (hex_digits ! d) = Some d \<and> hex_digits ! d \<noteq> CHR '':''"
proof -
  have "list_all (\<lambda>d. hex_value (hex_digits ! d) = Some d \<and> hex_digits ! d \<noteq> CHR '':'') [0..<16]" by code_simp
  then show "d < 16 \<Longrightarrow> hex_value (hex_digits ! d) = Some d \<and> hex_digits ! d \<noteq> CHR '':''" by (simp add: list_all_iff)
qed

lemma read_hex_append: "read_hex acc (cs @ ds) = (case read_hex acc cs of None \<Rightarrow> None | Some a \<Rightarrow> read_hex a ds)"
  by (induction acc cs rule: read_hex.induct) (auto split: option.split)

lemma read_show_hex: "read_hex 0 (show_hex n) = Some n"
proof (induction n rule: show_hex.induct)
  case (1 n)
  show ?case
  proof (cases "n < 16")
    case True
    then show ?thesis by (simp add: show_hex.simps [of n] hex_digit_facts)
  next
    case False
    then show ?thesis using 1 hex_digit_facts [of "n mod 16"]
      by (simp add: show_hex.simps [of n] read_hex_append)
  qed
qed

lemma no_colon_show_hex: "CHR '':'' \<notin> set (show_hex n)"
proof (induction n rule: show_hex.induct)
  case (1 n)
  then show ?case using hex_digit_facts [of n] hex_digit_facts [of "n mod 16"]
    by (cases "n < 16") (auto simp add: show_hex.simps [of n])
qed

lemma length_show_hex: "n < 16 ^ Suc k \<Longrightarrow> length (show_hex n) \<le> Suc k \<and> show_hex n \<noteq> []"
proof (induction k arbitrary: n)
  case 0
  then show ?case by (simp add: show_hex.simps [of n])
next
  case (Suc k)
  have "n div 16 < 16 ^ Suc k" using Suc.prems by (simp add: less_mult_imp_div_less mult.commute)
  with Suc.IH show ?case by (auto simp add: show_hex.simps [of n])
qed

lemma split_no_colon: "CHR '':'' \<notin> set g \<Longrightarrow> split_colons g = [g]"
  by (induction g) auto

lemma split_colon: "CHR '':'' \<notin> set g \<Longrightarrow> split_colons (g @ CHR '':'' # s) = g # split_colons s"
  by (induction g) auto

lemma split_with_colons: "gs \<noteq> [] \<Longrightarrow> \<forall>g\<in>set gs. CHR '':'' \<notin> set g \<Longrightarrow> split_colons (with_colons gs) = gs"
  by (induction gs rule: with_colons.induct) (auto simp add: split_no_colon split_colon)

lemma length_with_colons: "\<forall>g\<in>set gs. length g \<le> 4 \<Longrightarrow> length (with_colons gs) \<le> 5 * length gs - 1"
  by (induction gs rule: with_colons.induct) auto

lemma inet_pton_text: "inet_pton (ip6_to_str a) = Some a" and length_ip6_to_str: "length (ip6_to_str a) \<le> 39"
proof -
  define gs where "gs = map (\<lambda>i. show_hex (unat (htons (s6_addr16 a i)))) [0..<8]"
  have small: "unat w < 16 ^ Suc 3" for w :: "16 word" using unsigned_less [of w] by simp
  have len: "\<forall>g\<in>set gs. length g \<le> 4 \<and> g \<noteq> []" using length_show_hex [OF small] by (auto simp add: gs_def numeral_eq_Suc)
  have "split_colons (ip6_to_str a) = gs"
    unfolding ip6_to_str_def gs_def [symmetric] using no_colon_show_hex by (intro split_with_colons) (auto simp add: gs_def)
  moreover have "map read_group gs = map (\<lambda>i. Some (unat (htons (s6_addr16 a i)))) [0..<8]"
    using len by (auto simp add: gs_def read_group_def read_show_hex)
  ultimately have "inet_pton (ip6_to_str a) = Some (s6_build (\<lambda>i. htons (word_of_nat (the (map (\<lambda>i. Some (unat (htons (s6_addr16 a i)))) [0..<8] ! i)))))"
    by (auto simp add: inet_pton_def Let_def)
  also have "s6_build (\<lambda>i. htons (word_of_nat (the (map (\<lambda>i. Some (unat (htons (s6_addr16 a i)))) [0..<8] ! i)))) = a"
    by (rule s6_eqI) simp
  finally show "inet_pton (ip6_to_str a) = Some a" .
  have "length (ip6_to_str a) \<le> 5 * length gs - 1"
    unfolding ip6_to_str_def gs_def [symmetric] using len by (intro length_with_colons) blast
  then show "length (ip6_to_str a) \<le> 39" by (simp add: gs_def)
qed

text \<open>The text of an address fits into the 40 bytes of its buffer, with the byte that ends it, and is read back
  as the same address.\<close>

theorem address_text_round_trip: "length (ip6_to_str a) + 1 \<le> 40 \<and> inet_pton (ip6_to_str a) = Some a"
  using length_ip6_to_str [of a] inet_pton_text [of a] by simp

section \<open>The request\<close>

definition ETH_HDRLEN :: nat where "ETH_HDRLEN = 14"
definition IP6_HDRLEN :: nat where "IP6_HDRLEN = 40"

definition echo_data :: "8 word list" where
  "echo_data = [0x54, 0x65, 0x73, 0x74]"

text \<open>The two headers as they lie in memory; the fields in network order are given by their bytes.\<close>

definition probe_ip_header :: "in6_addr \<Rightarrow> in6_addr \<Rightarrow> nat \<Rightarrow> 8 word list" where
  "probe_ip_header src dst datalen =
     [0x60, 0, 0, 0] @ store16 (htons (word_of_nat (ICMP_HDRLEN + datalen))) @ [58, 255] @ addr_bytes src @ addr_bytes dst"

definition probe_icmp_header :: "in6_addr \<Rightarrow> in6_addr \<Rightarrow> 8 word list \<Rightarrow> 8 word list" where
  "probe_icmp_header src dst data =
     [128, 0] @ store16 (icmp6_checksum src dst 58 128 0 (htons 1000) (htons 0) data) @ store16 (htons 1000) @ store16 (htons 0)"

definition probe_frame :: "8 word list \<Rightarrow> in6_addr \<Rightarrow> in6_addr \<Rightarrow> 8 word list" where
  "probe_frame src_mac src dst =
     replicate 6 0xff @ take 6 src_mac @ [0x86, 0xdd] @ probe_ip_header src dst (length echo_data) @
     probe_icmp_header src dst echo_data @ echo_data"

section \<open>Waiting for the reply\<close>

text \<open>What a call of \<open>recvfrom\<close> ends with: a frame, no frame for two seconds (\<open>EAGAIN\<close>), a signal (\<open>EINTR\<close>), another error.\<close>

datatype recv_event = Frame "8 word list" | No_Frame | Interrupted | Recv_Error

text \<open>The buffer has 65535 bytes and is cleared before.\<close>

definition frame_byte :: "8 word list \<Rightarrow> nat \<Rightarrow> 8 word" where
  "frame_byte f i = (if i < length f then f ! i else 0)"

definition echo_reply :: "8 word list \<Rightarrow> bool" where
  "echo_reply f \<longleftrightarrow> push_bit 8 (ucast (frame_byte f 12)) + ucast (frame_byte f 13) = (0x86dd :: 32 word) \<and>
     frame_byte f (ETH_HDRLEN + 6) = 58 \<and> frame_byte f (ETH_HDRLEN + IP6_HDRLEN) = 129 \<and> frame_byte f (ETH_HDRLEN + IP6_HDRLEN + 1) = 0"

text \<open>How the function ends: with a value, with the end of the process, or not yet.\<close>

datatype probe_end = Returns int | Exits | Waits

text \<open>The two loops; the first component counts the requests that are sent.\<close>

fun probe_loop :: "nat \<Rightarrow> nat \<Rightarrow> nat \<Rightarrow> recv_event list \<Rightarrow> nat \<times> probe_end" where
  "probe_loop trylim sent trycount [] = (sent, Waits)"
| "probe_loop trylim sent trycount (No_Frame # es) =
     (if trycount + 1 = trylim then (sent, Returns 0) else probe_loop trylim (sent + 1) (trycount + 1) es)"
| "probe_loop trylim sent trycount (Interrupted # es) = probe_loop trylim sent trycount es"
| "probe_loop trylim sent trycount (Recv_Error # es) = (sent, Exits)"
| "probe_loop trylim sent trycount (Frame f # es) =
     (if echo_reply f then (sent, Returns 1) else probe_loop trylim sent trycount es)"

text \<open>
  The address of the interface \<open>wlan0\<close> as the \<open>ioctl\<close> gives it, nothing when that fails, and whether the interface has an
  index. The value of \<open>EXIT_FAILURE\<close> is 1.
\<close>

record probe_env =
  wlan0_mac :: "8 word list option"
  wlan0_index :: int

definition EXIT_FAILURE :: int where "EXIT_FAILURE = 1"

text \<open>The requests sent and how it ends, when the sockets open and the request goes out. Both addresses go through their text.\<close>

definition probe :: "probe_env \<Rightarrow> in6_addr \<Rightarrow> in6_addr \<Rightarrow> recv_event list \<Rightarrow> 8 word list list \<times> probe_end" where
  "probe P prim dst es =
     (case wlan0_mac P of
        None \<Rightarrow> ([], Returns EXIT_FAILURE)
      | Some mac \<Rightarrow>
          if wlan0_index P = 0 then ([], Exits)
          else
            case (inet_pton (ip6_to_str prim), inet_pton (ip6_to_str dst)) of
              (Some src, Some target) \<Rightarrow>
                let (n, r) = probe_loop 1 1 0 es in (replicate n (probe_frame mac src target), r)
            | _ \<Rightarrow> ([], Exits))"

text \<open>
  The whole function, with the calls that may fail: memory, the first socket, the resolution of the target, the second socket
  and the sending of the request (only one is ever sent). Each of these failures ends the process, that of the interface returns;
  \<open>probe\<close> is what is left when they succeed.
\<close>

record probe_calls =
  memory_there :: bool
  sendsd_opens :: bool
  target_resolves :: bool
  recvsd_opens :: bool
  request_goes :: bool

definition probe_run :: "probe_calls \<Rightarrow> probe_env \<Rightarrow> in6_addr \<Rightarrow> in6_addr \<Rightarrow> recv_event list \<Rightarrow> 8 word list list \<times> probe_end" where
  "probe_run C P prim dst es =
     (if \<not> memory_there C \<or> \<not> sendsd_opens C then ([], Exits)
      else if wlan0_mac P = None then ([], Returns EXIT_FAILURE)
      else if wlan0_index P = 0 \<or> \<not> target_resolves C \<or> \<not> recvsd_opens C \<or> \<not> request_goes C then ([], Exits)
      else probe P prim dst es)"

lemma probe_run_works:
  "memory_there C \<Longrightarrow> sendsd_opens C \<Longrightarrow> target_resolves C \<Longrightarrow> recvsd_opens C \<Longrightarrow> request_goes C \<Longrightarrow>
     probe_run C P prim dst es = probe P prim dst es"
  by (auto simp add: probe_run_def probe_def EXIT_FAILURE_def split: option.split)

text \<open>A call that fails costs the node its daemon: nothing is sent and the process ends, unless \<open>wlan0\<close> is missing.\<close>

lemma probe_run_fails:
  "\<not> (memory_there C \<and> sendsd_opens C) \<or> wlan0_mac P \<noteq> None \<and> \<not> (target_resolves C \<and> recvsd_opens C \<and> request_goes C) \<Longrightarrow>
     probe_run C P prim dst es = ([], Exits)"
  by (auto simp add: probe_run_def)

section \<open>What the probe tells\<close>

lemma probe_alt:
  "probe P prim dst es =
     (case wlan0_mac P of
        None \<Rightarrow> ([], Returns 1)
      | Some mac \<Rightarrow> if wlan0_index P = 0 then ([], Exits) else (replicate (fst (probe_loop 1 1 0 es)) (probe_frame mac prim dst), snd (probe_loop 1 1 0 es)))"
proof -
  have "inet_pton (ip6_to_str a) = Some a" for a
    using inet_pton_text .
  then show ?thesis by (simp add: probe_def EXIT_FAILURE_def split_beta split: option.split)
qed

text \<open>An event that is not waited over.\<close>

definition decides :: "recv_event \<Rightarrow> bool" where
  "decides e \<longleftrightarrow> (case e of Frame f \<Rightarrow> echo_reply f | No_Frame \<Rightarrow> True | Interrupted \<Rightarrow> False | Recv_Error \<Rightarrow> True)"

definition verdict_of :: "recv_event \<Rightarrow> probe_end" where
  "verdict_of e = (case e of Frame f \<Rightarrow> Returns 1 | No_Frame \<Rightarrow> Returns 0 | _ \<Rightarrow> Exits)"

lemma probe_loop_first:
  "probe_loop 1 1 0 es = (1, case find decides es of None \<Rightarrow> Waits | Some e \<Rightarrow> verdict_of e)"
proof (induction es)
  case (Cons e es)
  then show ?case by (cases e) (simp_all add: decides_def verdict_of_def)
qed simp

text \<open>The probe sends one request and ends with the first event that is an echo reply, two silent seconds or an error.
  Until then every other frame on any interface prolongs it: the two seconds start again with each of them, and there is no
  bound on the whole.\<close>

theorem probe_returns:
  assumes "wlan0_mac P = Some mac" and "wlan0_index P \<noteq> 0"
  shows "probe P prim dst es =
      ([probe_frame mac prim dst], case find decides es of None \<Rightarrow> Waits | Some e \<Rightarrow> verdict_of e) \<and>
    (snd (probe P prim dst es) = Waits \<longleftrightarrow> (\<forall>e\<in>set es. e = Interrupted \<or> (\<exists>f. e = Frame f \<and> \<not> echo_reply f)))"
proof -
  have p: "probe P prim dst es = ([probe_frame mac prim dst], case find decides es of None \<Rightarrow> Waits | Some e \<Rightarrow> verdict_of e)"
    using assms probe_loop_first [of es] by (simp add: probe_alt)
  have "verdict_of e \<noteq> Waits" for e by (cases e) (simp_all add: verdict_of_def)
  then have "snd (probe P prim dst es) = Waits \<longleftrightarrow> find decides es = None" unfolding p by (auto split: option.split)
  then have "snd (probe P prim dst es) = Waits \<longleftrightarrow> (\<forall>e\<in>set es. \<not> decides e)" by (auto simp add: find_None_iff)
  moreover have "\<not> decides e \<longleftrightarrow> e = Interrupted \<or> (\<exists>f. e = Frame f \<and> \<not> echo_reply f)" for e by (cases e) (simp_all add: decides_def)
  ultimately show ?thesis using p by simp
qed

theorem probe_returns_witness:
  "probe \<lparr>wlan0_mac = Some [2, 0, 0, 0, 0, 7], wlan0_index = 3\<rparr> zero_addr zero_addr [Frame [1, 2, 3], Interrupted, No_Frame] =
     ([probe_frame [2, 0, 0, 0, 0, 7] zero_addr zero_addr], Returns 0)"
  using probe_returns [of "\<lparr>wlan0_mac = Some [2, 0, 0, 0, 0, 7], wlan0_index = 3\<rparr>" "[2, 0, 0, 0, 0, 7]" zero_addr zero_addr "[Frame [1, 2, 3], Interrupted, No_Frame]"]
  by (simp add: decides_def verdict_of_def echo_reply_def frame_byte_def ETH_HDRLEN_def IP6_HDRLEN_def)

text \<open>What the probe tells does not depend on whom it asks, nor on who asks: an echo reply to any other node, from
  any node, is taken as the answer. Without an interface \<open>wlan0\<close> it sends nothing and tells that the node has answered.\<close>

theorem probe_ignores_destination:
  "snd (probe P prim dst es) = snd (probe P prim' dst' es) \<and> probe (P\<lparr>wlan0_mac := None\<rparr>) prim dst es = ([], Returns 1)"
  by (simp add: probe_alt split: option.split)

end
