(* ===== verification/Rt_Table.thy ===== *)
theory Rt_Table
  imports Daemon
begin

text \<open>
  The routes of the kernel as the daemon sees them (\<open>rt_table.c\<close>): a dump over netlink into the list
  \<open>route_t\<close>, and requests that add and delete routes. The kernel is not part of the repository: the record
  \<open>kernel_ops\<close> is what the daemon uses of it, on an abstract state. A dump is the sequence of messages it
  sends, each with the attributes the code looks at, and whether it ends without an error. Opening, binding and
  sending on a netlink socket succeed; the code leaves the process when they do not.
\<close>

record rt_msg =
  m_inet6 :: bool
  m_dst_len :: byte
  m_table :: "int option"
  m_dst :: "in6_addr option"
  m_priority :: "int option"
  m_gateway :: "in6_addr option"

record 'k kernel_ops =
  k_dump :: "'k \<Rightarrow> rt_msg list \<times> bool"
  k_newroute :: "in6_addr \<Rightarrow> in6_addr \<Rightarrow> byte \<Rightarrow> int \<Rightarrow> 'k \<Rightarrow> 'k"
  k_delroute :: "in6_addr \<Rightarrow> in6_addr \<Rightarrow> byte \<Rightarrow> int \<Rightarrow> 'k \<Rightarrow> 'k"

section \<open>State of the forwarding\<close>

record rt_route_param =
  rp_dst :: in6_addr
  rp_gtw :: in6_addr
  rp_mask :: byte
  rp_distance :: int

text \<open>An entry of the auxiliary table: the neighbours already tried for a destination, by their position.\<close>

record rt_aux_info =
  ra_src :: in6_addr
  ra_dst :: in6_addr
  ra_gtw :: in6_addr
  ra_bitmap :: "bool list"
  ra_count :: nat
  ra_id :: byte

record src_nat =
  sn_dst :: in6_addr
  sn_src :: in6_addr

datatype fwd_timer = Bitmap_Expires in6_addr | Route_Expires rt_route_param

text \<open>
  \<open>nd\<close> is the node the forwarding belongs to; \<open>armed\<close> lists the timers it has armed with their
  milliseconds; \<open>nat_wild\<close> says that the last \<open>next\<close> pointer of \<open>nat_table\<close> is uninitialised.
\<close>

record 'k fwd =
  nd :: node
  rt_info :: "rt_aux_info list"
  nat_table :: "src_nat list"
  nat_wild :: bool
  kern :: 'k
  armed :: "(fwd_timer \<times> int) list"

text \<open>Contents of uninitialised memory: fresh entries, the bytes at the address of the pointer \<open>dst\<close>, a gateway never set.\<close>

record fenv =
  fe_env :: env
  fe_route :: route
  fe_aux :: rt_aux_info
  fe_ptr :: in6_addr
  fe_nat :: src_nat
  fe_nat_null :: bool
  fe_gw :: in6_addr
  fe_distance :: int

definition T_ROUTE :: int where "T_ROUTE = 3000"
definition T_VB :: int where "T_VB = 1400"
definition MAX_TTL :: byte where "MAX_TTL = 10"
definition MAX_NEIGHBORS :: nat where "MAX_NEIGHBORS = 128"
definition NEIGHBORS_BEFORE_PARENT :: nat where "NEIGHBORS_BEFORE_PARENT = 2"

section \<open>The dump\<close>

text \<open>
  The cursor \<open>rt_ptr\<close> is a position in the list. An attribute that a message lacks leaves what the entry held;
  a route of another table leaves its mark and its mask on the entry, which the next message reuses.
\<close>

definition attributes_show_ipv6 :: "fenv \<Rightarrow> rt_msg \<Rightarrow> route list \<times> nat \<Rightarrow> route list \<times> nat" where
  "attributes_show_ipv6 F m rtk =
     (let (rt, k) = rtk; r = rt ! k;
          r = (case m_table m of None \<Rightarrow> r | Some t \<Rightarrow> r\<lparr>rt_table := word_of_int t\<rparr>)
      in if m_table m \<noteq> None \<and> rt_table r \<noteq> 254 then (rt[k := r], k)
         else
           let r = (case m_dst m of None \<Rightarrow> r | Some a \<Rightarrow> r\<lparr>rt_dst := a\<rparr>);
               r = (case m_priority m of None \<Rightarrow> r | Some d \<Rightarrow> r\<lparr>rt_distance := d\<rparr>);
               r = (case m_gateway m of None \<Rightarrow> r | Some a \<Rightarrow> r\<lparr>rt_gtw := a\<rparr>);
               rt = rt[k := r];
               rt = (if length rt = k + 1 then rt @ [fe_route F] else rt)
           in (rt, k + 1))"

definition data_cb :: "fenv \<Rightarrow> rt_msg \<Rightarrow> route list \<times> nat \<Rightarrow> route list \<times> nat" where
  "data_cb F m rtk =
     (let (rt, k) = rtk; rt = rt[k := (rt ! k)\<lparr>rt_dst_mask := uint (m_dst_len m)\<rparr>]
      in if m_inet6 m then attributes_show_ipv6 F m (rt, k) else (rt, k))"

text \<open>
  Returns the list from \<open>route_t\<close> on, null (here \<open>[]\<close>) after an error. The list is reused: what lies behind
  the last entry written stays. The head allocated when there is no list has an uninitialised \<open>next\<close>.
\<close>

definition rt_table_dump :: "fenv \<Rightarrow> 'k kernel_ops \<Rightarrow> 'k fwd \<Rightarrow> (route list \<times> 'k fwd) result" where
  "rt_table_dump F K s =
     (if route_t (nd s) = [] then Inl Wild_Pointer
      else
        let (msgs, ok) = k_dump K (kern s);
            rt = fst (fold (data_cb F) msgs (route_t (nd s), 0));
            s = s\<lparr>nd := (nd s)\<lparr>route_t := rt\<rparr>\<rparr>
        in Inr (if ok then rt else [], s))"

section \<open>Requests\<close>

definition add_rt_route :: "'k kernel_ops \<Rightarrow> in6_addr \<Rightarrow> in6_addr \<Rightarrow> byte \<Rightarrow> int \<Rightarrow> 'k fwd \<Rightarrow> 'k fwd" where
  "add_rt_route K dst gw msk distance s =
     s\<lparr>kern := k_newroute K dst gw msk distance (kern s),
       armed := armed s @ [(Route_Expires \<lparr>rp_dst = dst, rp_gtw = gw, rp_mask = msk, rp_distance = distance\<rparr>, T_ROUTE)]\<rparr>"

definition del_rt_route :: "'k kernel_ops \<Rightarrow> in6_addr \<Rightarrow> in6_addr \<Rightarrow> byte \<Rightarrow> int \<Rightarrow> 'k fwd \<Rightarrow> 'k fwd" where
  "del_rt_route K dst gw msk distance s = s\<lparr>kern := k_delroute K dst gw msk distance (kern s)\<rparr>"

text \<open>The auxiliary entry with the destination and the gateway; \<open>ra_gtw\<close> is never assigned.\<close>

definition del_rt_info :: "in6_addr \<Rightarrow> in6_addr \<Rightarrow> 'k fwd \<Rightarrow> 'k fwd" where
  "del_rt_info dst gtw s = s\<lparr>rt_info := remove_first (\<lambda>curr. ra_dst curr = dst \<and> ra_gtw curr = gtw) (rt_info s)\<rparr>"

definition del_rt_route2 :: "'k kernel_ops \<Rightarrow> rt_route_param \<Rightarrow> 'k fwd \<Rightarrow> 'k fwd" where
  "del_rt_route2 K p s =
     del_rt_info (rp_dst p) (rp_gtw p)
       (s\<lparr>kern := k_delroute K (rp_dst p) (rp_gtw p) (rp_mask p) (rp_distance p) (kern s)\<rparr>)"

end
