(* ===== verification/Pkt_Handle.thy ===== *)
theory Pkt_Handle
  imports Rt_Table
begin

text \<open>
  The packets that the firewall hands to the daemon (\<open>pkt_handle.c\<close>). A packet is the list of its bytes from the
  IPv6 header on. The daemon copies it into a buffer with 32 zero bytes behind it, so the header fields are always
  there; what lies at other offsets is read with a check of the length, reading past the buffer being a fault.
  \<open>route\<close> decides what happens to a packet; \<open>send_to_next_neighbor\<close> chooses a neighbour and installs it
  as the gateway of the destination.
\<close>

section \<open>Fields of a packet\<close>

definition FLAGS_OFFSET :: nat where "FLAGS_OFFSET = 3"
definition TTL_OFFSET :: nat where "TTL_OFFSET = 7"
definition SRC_ADDR_OFFSET :: nat where "SRC_ADDR_OFFSET = 8"
definition DST_ADDR_OFFSET :: nat where "DST_ADDR_OFFSET = 24"
definition FROM_ADDR_OFFSET :: nat where "FROM_ADDR_OFFSET = 56"
definition MASK_IR :: byte where "MASK_IR = 1"
definition MASK_RV :: byte where "MASK_RV = 2"
definition MASK_IA :: byte where "MASK_IA = 4"

lemmas offset_defs = FLAGS_OFFSET_def TTL_OFFSET_def SRC_ADDR_OFFSET_def DST_ADDR_OFFSET_def FROM_ADDR_OFFSET_def UDP_PKT_OFF_def

definition src_of :: "byte list \<Rightarrow> in6_addr" where "src_of pkt = addr_at pkt SRC_ADDR_OFFSET"
definition dst_of :: "byte list \<Rightarrow> in6_addr" where "dst_of pkt = addr_at pkt DST_ADDR_OFFSET"

definition from_addr :: "byte list \<Rightarrow> in6_addr result" where
  "from_addr pkt = (if length pkt < FROM_ADDR_OFFSET + 16 then Inl Out_Of_Bounds else Inr (addr_at pkt FROM_ADDR_OFFSET))"

definition add_ttl :: "byte \<Rightarrow> byte list \<Rightarrow> byte list" where
  "add_ttl n pkt = pkt[TTL_OFFSET := pkt ! TTL_OFFSET + n]"

definition set_returned :: "byte list \<Rightarrow> byte list" where
  "set_returned pkt = pkt[FLAGS_OFFSET := pkt ! FLAGS_OFFSET OR MASK_IR]"

definition set_is_antop :: "byte list \<Rightarrow> byte list" where
  "set_is_antop pkt = (let aux = pkt ! FLAGS_OFFSET; aux = aux OR MASK_IA in pkt[FLAGS_OFFSET := aux])"

text \<open>
  The offset of the payload: a packet of this node is taken to have the destination options header, that of another
  node to have none.
\<close>

definition udp_pkt_off :: "node \<Rightarrow> byte list \<Rightarrow> nat" where
  "udp_pkt_off n pkt = (if src_of pkt \<noteq> prim_addr n then UDP_PKT_OFF - 32 else UDP_PKT_OFF)"

definition udp_byte :: "node \<Rightarrow> byte list \<Rightarrow> byte result" where
  "udp_byte n pkt = (if length pkt \<le> udp_pkt_off n pkt then Inl Out_Of_Bounds else Inr (pkt ! udp_pkt_off n pkt))"

definition rv_byte :: "byte \<Rightarrow> bool" where
  "rv_byte b \<longleftrightarrow> b = RV_REG \<or> b = RV_ADDR_LOOKUP \<or> b = RV_ADDR_SOLVE"

text \<open>The \<open>struct rv_ctrl_pkt\<close> at an offset, with the padding of the compiler; its size is 96 bytes.\<close>

definition rv_at :: "byte list \<Rightarrow> nat \<Rightarrow> rv_ctrl_pkt result" where
  "rv_at pkt off =
     (if length pkt < off + 96 then Inl Out_Of_Bounds
      else Inr \<lparr>rv_type = pkt ! off, rv_flags = pkt ! (off + 1), rv_id = le32 pkt (off + 4), rv_n = le32 pkt (off + 8),
        rv_prim_addr = addr_at pkt (off + 12), rv_univ_addr = take 50 (drop (off + 28) pkt), rv_src_addr = addr_at pkt (off + 80)\<rparr>)"

section \<open>The auxiliary table and the table of translated sources\<close>

text \<open>One entry for every route of the first dump; without a route \<open>previous\<close> is uninitialised.\<close>

definition rt_info_init :: "fenv \<Rightarrow> 'k kernel_ops \<Rightarrow> 'k fwd \<Rightarrow> 'k fwd result" where
  "rt_info_init F K s =
     (let r0 = \<lparr>rt_dst = zero_addr, rt_gtw = zero_addr, rt_metric = 0, rt_dst_mask = 0, rt_distance = 0, rt_table = 0\<rparr>
      in bind (rt_table_dump F K (s\<lparr>nd := (nd s)\<lparr>route_t := [r0]\<rparr>\<rparr>)) (\<lambda>(rt, s).
           if rt = [] then Inl Wild_Pointer
           else Inr (s\<lparr>rt_info := map (\<lambda>(i, r). (fe_aux F)\<lparr>ra_count := 0, ra_dst := rt_dst r, ra_src := zero_addr,
                  ra_id := word_of_nat i, ra_bitmap := replicate MAX_NEIGHBORS False\<rparr>) (enumerate 0 rt)\<rparr>)))"

text \<open>The route back to the sender of a packet, from a dump of its own; nothing calls it.\<close>

definition rt_pairs_find :: "fenv \<Rightarrow> 'k kernel_ops \<Rightarrow> byte list \<Rightarrow> 'k fwd \<Rightarrow> (route option \<times> 'k fwd) result" where
  "rt_pairs_find F K pkt s =
     bind (rt_table_dump F K s) (\<lambda>(rt, s). Inr (find (\<lambda>r. rt_dst r = src_of pkt) rt, s))"

fun clear_first :: "in6_addr \<Rightarrow> rt_aux_info list \<Rightarrow> rt_aux_info list" where
  "clear_first dst [] = []"
| "clear_first dst (e # es) =
     (if ra_dst e = dst then e\<lparr>ra_bitmap := replicate MAX_NEIGHBORS False\<rparr> # es else e # clear_first dst es)"

definition clear_vb :: "in6_addr \<Rightarrow> 'k fwd \<Rightarrow> 'k fwd" where
  "clear_vb dst s = s\<lparr>rt_info := clear_first dst (rt_info s)\<rparr>"

text \<open>
  Returns the position of the entry. The loop stops before the last entry, and compares with the bytes of the
  parameter \<open>dst\<close> itself, a pointer, instead of those it points to.
\<close>

definition add_rt_info :: "fenv \<Rightarrow> in6_addr \<Rightarrow> in6_addr option \<Rightarrow> int \<Rightarrow> 'k fwd \<Rightarrow> (nat \<times> 'k fwd) result" where
  "add_rt_info F dst src i s =
     (if rt_info s = [] then Inl Null_Deref
      else
        let hits = filter (\<lambda>j. ra_dst (rt_info s ! j) = fe_ptr F) [0..<length (rt_info s) - 1]
        in case hits of
             j # _ \<Rightarrow>
               let e = (rt_info s ! j)\<lparr>ra_dst := dst\<rparr>;
                   e = (case src of None \<Rightarrow> e | Some a \<Rightarrow> e\<lparr>ra_src := a\<rparr>)
               in Inr (j, clear_vb dst (s\<lparr>rt_info := (rt_info s)[j := e]\<rparr>))
           | [] \<Rightarrow>
               let e = (fe_aux F)\<lparr>ra_dst := dst, ra_src := (case src of None \<Rightarrow> zero_addr | Some a \<Rightarrow> a), ra_count := 0,
                      ra_id := word_of_int i, ra_bitmap := replicate MAX_NEIGHBORS False\<rparr>;
                   p = \<lparr>rp_dst = dst, rp_gtw = fe_gw F, rp_mask = 128, rp_distance = fe_distance F\<rparr>
               in Inr (length (rt_info s),
                    s\<lparr>rt_info := rt_info s @ [e], armed := armed s @ [(Bitmap_Expires dst, T_VB), (Route_Expires p, T_ROUTE)]\<rparr>))"

text \<open>
  The first entry is allocated without being filled in and its \<open>next\<close> is whatever the memory holds; the loop
  stops before the last entry.
\<close>

definition add_src_nat :: "fenv \<Rightarrow> in6_addr \<Rightarrow> in6_addr \<Rightarrow> 'k fwd \<Rightarrow> 'k fwd result" where
  "add_src_nat F dst src s =
     (let fresh = \<lparr>sn_dst = dst, sn_src = src\<rparr>
      in if nat_table s = [] then
           (if fe_nat_null F then Inr (s\<lparr>nat_table := [fe_nat F, fresh], nat_wild := False\<rparr>)
            else Inr (s\<lparr>nat_table := [fe_nat F], nat_wild := True\<rparr>))
         else if nat_wild s then
           (if \<exists>e\<in>set (nat_table s). sn_dst e = dst then Inr s else Inl Wild_Pointer)
         else
           (if \<exists>e\<in>set (butlast (nat_table s)). sn_dst e = dst then Inr s
            else Inr (s\<lparr>nat_table := nat_table s @ [fresh]\<rparr>)))"

section \<open>Choosing a neighbour\<close>

text \<open>The first route to the destination that does not go straight to it.\<close>

definition has_route :: "in6_addr \<Rightarrow> route list \<Rightarrow> bool" where
  "has_route dst rt \<longleftrightarrow> list_ex (\<lambda>r. rt_dst r = dst \<and> rt_gtw r \<noteq> dst) rt"

text \<open>The position of the route with the smallest distance below \<open>MAX_TTL + 1\<close>, or -1.\<close>

definition best_route :: "in6_addr \<Rightarrow> route list \<Rightarrow> int" where
  "best_route dst rt =
     fst (fold (\<lambda>(aux, r) (best, min_dist).
            if rt_distance r < min_dist \<and> rt_dst r = dst then (int aux, rt_distance r) else (best, min_dist))
          (enumerate 0 rt) (-1, uint MAX_TTL + 1))"

text \<open>The position of the last route to the destination, or -1.\<close>

definition last_route :: "in6_addr \<Rightarrow> route list \<Rightarrow> int" where
  "last_route dst rt = fold (\<lambda>(i, r) rt_id. if rt_dst r = dst then int i else rt_id) (enumerate 0 rt) (-1)"

text \<open>The address an incomplete route is given as its gateway.\<close>

definition no_gateway :: in6_addr where
  "no_gateway = In6 0x0120 0xb80d 0 0 0 0 0 0"

text \<open>
  The route of the destination, added when there is none: its position, and the position of the best one when there was a
  route before. No value means that the function returns early.
\<close>

definition route_entry :: "fenv \<Rightarrow> 'k kernel_ops \<Rightarrow> in6_addr \<Rightarrow> 'k fwd \<Rightarrow> ((int \<times> int) option \<times> 'k fwd) result" where
  "route_entry F K dst s =
     bind (rt_table_dump F K s) (\<lambda>(rt, s).
       if \<not> has_route dst rt then
         bind (rt_table_dump F K (add_rt_route K dst no_gateway 128 (uint MAX_TTL) s)) (\<lambda>(rt, s).
           let rt_id = last_route dst rt in Inr (if rt_id = -1 then None else Some (rt_id, -1), s))
       else
         bind (rt_table_dump F K s) (\<lambda>(rt, s).
           let best = best_route dst rt in Inr (Some (best, best), s)))"

text \<open>The auxiliary entry of the route, added when there is none.\<close>

definition aux_entry :: "fenv \<Rightarrow> in6_addr \<Rightarrow> int \<Rightarrow> int \<Rightarrow> 'k fwd \<Rightarrow> (nat \<times> 'k fwd) result" where
  "aux_entry F dst rt_id best s =
     (let old = (if best > -1 then filter (\<lambda>j. int (unat (ra_id (rt_info s ! j))) = best) [0..<length (rt_info s)] else [])
      in case old of
           j # _ \<Rightarrow> Inr (j, s)
         | [] \<Rightarrow> add_rt_info F dst None rt_id s)"

definition find_entry :: "fenv \<Rightarrow> 'k kernel_ops \<Rightarrow> in6_addr \<Rightarrow> 'k fwd \<Rightarrow> ((int \<times> nat) option \<times> 'k fwd) result" where
  "find_entry F K dst s =
     bind (route_entry F K dst s) (\<lambda>(ids, s).
     case ids of
       None \<Rightarrow> Inr (None, s)
     | Some (rt_id, best) \<Rightarrow> bind (aux_entry F dst rt_id best s) (\<lambda>(j, s). Inr (Some (rt_id, j), s)))"

text \<open>Marks the neighbour the packet came from; the position is not compared with the size of the bitmap.\<close>

definition mark_from :: "in6_addr \<Rightarrow> neighbor list \<Rightarrow> rt_aux_info \<Rightarrow> rt_aux_info result" where
  "mark_from from tab e =
     (case filter (\<lambda>i. n_prim_addr (tab ! i) = from) [0..<length tab] of
        [] \<Rightarrow> Inr e
      | i # _ \<Rightarrow> if i < length (ra_bitmap e)
                 then Inr (e\<lparr>ra_bitmap := (ra_bitmap e)[i := True], ra_count := ra_count e + 1\<rparr>)
                 else Inl Out_Of_Bounds)"

definition all_visited :: "bool list \<Rightarrow> neighbor list \<Rightarrow> bool" where
  "all_visited vis tab \<longleftrightarrow> list_all (\<lambda>(i, it). \<not> (n_available it = 1 \<and> \<not> vis ! i)) (zip [0..<MAX_NEIGHBORS] tab)"

text \<open>
  Every neighbour was tried. The reverse route is looked for among the auxiliary entries \<^emph>\<open>before\<close> the one with the position of
  the route, because the \<open>if\<close> that should follow the inner loop is its body; whatever it finds, the outer loop
  runs to its end, and the packet is sent to the address it came from. Then every route to the destination gets this gateway.
\<close>

definition back_mark :: "rt_aux_info list \<Rightarrow> in6_addr \<Rightarrow> in6_addr \<Rightarrow> nat \<times> route \<Rightarrow> byte list \<Rightarrow> byte list" where
  "back_mark info src dst ir pkt =
     (if rt_dst (snd ir) = src \<and> rt_dst_mask (snd ir) \<noteq> 64 \<and>
         (\<exists>e\<in>set (takeWhile (\<lambda>e. unat (ra_id e) \<noteq> fst ir) info). ra_src e = dst)
      then add_ttl 1 (set_returned pkt) else pkt)"

definition send_back :: "fenv \<Rightarrow> 'k kernel_ops \<Rightarrow> byte list \<Rightarrow> 'k fwd \<Rightarrow> (byte list \<times> 'k fwd) result" where
  "send_back F K pkt s =
     bind (rt_table_dump F K s) (\<lambda>(rt, s).
       let src = src_of pkt; dst = dst_of pkt;
           pkt = fold (back_mark (rt_info s) src dst) (enumerate 0 rt) pkt
       in bind (from_addr pkt) (\<lambda>nh.
          bind (rt_table_dump F K s) (\<lambda>(rt, s).
            Inr (pkt, fold (\<lambda>r s. if rt_dst r = dst
              then del_rt_route K (rt_dst r) (rt_gtw r) (word_of_int (rt_dst_mask r)) (rt_distance r)
                     (add_rt_route K (rt_dst r) nh 128 (rt_distance r) s)
              else s) rt s))))"

text \<open>
  Among the neighbours not tried yet the one nearest to the destination, a later one at the same distance being taken
  when the destination is in its address space. Messages of the rendezvous service measure with the mask.
\<close>

fun closest :: "bool result \<Rightarrow> in6_addr \<Rightarrow> bool list \<Rightarrow> (nat \<times> neighbor) list \<Rightarrow> nat option \<Rightarrow> nat \<Rightarrow> nat option result" where
  "closest rv dst vis [] nh_idx best_dist = Inr nh_idx"
| "closest rv dst vis ((i, it) # rest) nh_idx best_dist =
     (if \<not> vis ! i \<and> n_available it \<noteq> 0 then
        bind (bind rv (\<lambda>rv. if rv then dist_w_mask dst it else Inr (dist dst it))) (\<lambda>d.
        bind (if d < best_dist then Inr True
              else if d = best_dist then bind (check_addr_space dst (n_prim_addr it) (n_prim_mask it)) (\<lambda>c. Inr (c = 0))
              else Inr False) (\<lambda>better.
        if better then closest rv dst vis rest (Some i) d else closest rv dst vis rest nh_idx best_dist))
      else closest rv dst vis rest nh_idx best_dist)"

text \<open>The next neighbour in the order of the table; the loop does not look at the end of the table.\<close>

fun next_available :: "bool list \<Rightarrow> nat \<Rightarrow> neighbor list \<Rightarrow> nat option result" where
  "next_available vis i [] = (if i < MAX_NEIGHBORS then Inl Null_Deref else Inr None)"
| "next_available vis i (it # rest) =
     (if i < MAX_NEIGHBORS then
        if \<not> vis ! i \<and> n_available it \<noteq> 0 then Inr (Some i) else next_available vis (Suc i) rest
      else Inr None)"

definition choose_neighbor :: "bool result \<Rightarrow> in6_addr \<Rightarrow> rt_aux_info \<Rightarrow> neighbor list \<Rightarrow> nat option result" where
  "choose_neighbor rv dst e tab =
     (if ra_count e < NEIGHBORS_BEFORE_PARENT
      then closest rv dst (ra_bitmap e) (zip [0..<MAX_NEIGHBORS] tab) None 10000
      else case tab of
             [] \<Rightarrow> Inl Null_Deref
           | first # _ \<Rightarrow>
               if \<not> ra_bitmap e ! 0 \<and> n_available first \<noteq> 0 then Inr (Some 0)
               else next_available (ra_bitmap e) 0 tab)"

text \<open>Installs the neighbour as the gateway of the route at the position \<open>rt_id\<close>.\<close>

definition install_hop :: "fenv \<Rightarrow> 'k kernel_ops \<Rightarrow> int \<Rightarrow> nat \<Rightarrow> nat \<Rightarrow> byte list \<Rightarrow> 'k fwd \<Rightarrow> (byte list \<times> 'k fwd) result" where
  "install_hop F K rt_id j nh_idx pkt s =
     bind (rt_table_dump F K s) (\<lambda>(rt, s).
       if rt_id < 0 \<or> int (length rt) \<le> rt_id then Inl Null_Deref
       else
         let r = rt ! nat rt_id
         in if rt_dst r \<noteq> dst_of pkt then Inr (pkt, s)
            else
              let it = neigh_table (nd s) ! nh_idx; nh = n_prim_addr it;
                  s = del_rt_route K (rt_dst r) (rt_gtw r) (word_of_int (rt_dst_mask r)) (rt_distance r) s;
                  s = add_rt_route K (rt_dst r) nh 128 (rt_distance r) s
              in bind (if n_sec_addr_conn it \<noteq> 0 then add_src_nat F (rt_dst r) (sec_addr (nd s)) s else Inr s) (\<lambda>s.
                 let e = rt_info s ! j
                 in Inr (add_ttl (-1) pkt, s\<lparr>rt_info := (rt_info s)[j := e\<lparr>ra_bitmap := (ra_bitmap e)[nh_idx := True]\<rparr>]\<rparr>)))"

definition send_to_next_neighbor :: "fenv \<Rightarrow> 'k kernel_ops \<Rightarrow> byte list \<Rightarrow> 'k fwd \<Rightarrow> (byte list \<times> 'k fwd) result" where
  "send_to_next_neighbor F K pkt s =
     (if neigh_table (nd s) = [] then bind (rt_table_dump F K s) (\<lambda>(_, s). Inr (pkt, s))
      else
        bind (find_entry F K (dst_of pkt) s) (\<lambda>(ids, s).
        case ids of
          None \<Rightarrow> Inr (pkt, s)
        | Some (rt_id, j) \<Rightarrow>
            bind (from_addr pkt) (\<lambda>from.
            bind (mark_from from (neigh_table (nd s)) (rt_info s ! j)) (\<lambda>e.
              let s = s\<lparr>rt_info := (rt_info s)[j := e]\<rparr>
              in if all_visited (ra_bitmap e) (neigh_table (nd s)) then send_back F K pkt s
                 else
                   bind (choose_neighbor (bind (udp_byte (nd s) pkt) (\<lambda>b. Inr (rv_byte b))) (dst_of pkt) e (neigh_table (nd s))) (\<lambda>nh.
                   case nh of
                     None \<Rightarrow> Inr (pkt, s)
                   | Some nh_idx \<Rightarrow> install_hop F K rt_id j nh_idx pkt s)))))"

section \<open>Routing a packet\<close>

text \<open>Replaces the routes to the destination by one through the address the packet came from.\<close>

definition return_from :: "fenv \<Rightarrow> 'k kernel_ops \<Rightarrow> byte list \<Rightarrow> 'k fwd \<Rightarrow> 'k fwd result" where
  "return_from F K pkt s =
     bind (from_addr pkt) (\<lambda>from.
     bind (rt_table_dump F K s) (\<lambda>(rt, s).
       let s = fold (\<lambda>r s. if rt_dst r = dst_of pkt then del_rt_route K (rt_dst r) (rt_gtw r) 128 (uint MAX_TTL) s else s) rt s
       in Inr (add_rt_route K (dst_of pkt) from 128 (uint MAX_TTL) s)))"

definition RV_ACCEPT :: int where "RV_ACCEPT = 1"
definition RV_DROP :: int where "RV_DROP = 2"

text \<open>Is the address in one of the recovered spaces?\<close>

fun in_recovered :: "in6_addr \<Rightarrow> recovered_addr list \<Rightarrow> bool result" where
  "in_recovered a [] = Inr False"
| "in_recovered a (it # rest) =
     bind (check_addr_space a (r_prim_addr it) (r_prim_mask it)) (\<lambda>c. if c = 0 then Inr True else in_recovered a rest)"

text \<open>
  Does the node serve the address, by its own space, a recovered one or that of its secondary address? With a
  secondary address a recovered space does not count.
\<close>

definition serves :: "in6_addr \<Rightarrow> node \<Rightarrow> bool result" where
  "serves a n =
     bind (check_addr_space a (prim_addr n) (prim_mask n)) (\<lambda>c.
       if c = 0 then Inr True
       else bind (in_recovered a (rcvd_addr n)) (\<lambda>recovered.
         if \<not> recovered \<and> \<not> sec_addr_flag n then Inr False
         else if sec_addr_flag n then bind (check_addr_space a (sec_addr n) (sec_mask n)) (\<lambda>c. Inr (c = 0))
         else Inr True))"

definition rv_route :: "fenv \<Rightarrow> byte list \<Rightarrow> node \<Rightarrow> (int \<times> node) result" where
  "rv_route F pkt n =
     bind (udp_byte n pkt) (\<lambda>aux.
     bind (serves (dst_of pkt) n) (\<lambda>mine.
       if \<not> mine then Inr (RV_ACCEPT, n)
       else
         bind (if aux = RV_REG then bind (rv_at pkt (udp_pkt_off n pkt)) (\<lambda>m. rv_table_add m n)
               else if aux = RV_ADDR_LOOKUP
               then bind (rv_at pkt (udp_pkt_off n pkt)) (\<lambda>m. answer_rv_query (fe_env F) m (socket_global n) n)
               else Inr n) (\<lambda>n. Inr (RV_DROP, n))))"

datatype hook = PRE_ROUTING | LOCAL_IN | FORWARD | LOCAL_OUT | POST_ROUTING

text \<open>
  The loop that looks for the reverse route, over the routes with their positions. It ends early when the packet
  is in a loop (first component of the value). \<open>needs_join\<close> and \<open>reverse_entry\<close> as in the code.
\<close>

fun reverse_loop :: "'k kernel_ops \<Rightarrow> in6_addr \<Rightarrow> in6_addr \<Rightarrow> in6_addr \<Rightarrow> int \<Rightarrow> (nat \<times> route) list \<Rightarrow>
    bool \<Rightarrow> route option \<Rightarrow> 'k fwd \<Rightarrow> bool \<times> bool \<times> route option \<times> 'k fwd" where
  "reverse_loop K src dst from distance [] needs_join rev_entry s = (False, needs_join, rev_entry, s)"
| "reverse_loop K src dst from distance ((i, r) # rest) needs_join rev_entry s =
     (if rt_dst r = src then
        let aux = find (\<lambda>e. unat (ra_id e) = i) (rt_info s);
            hit = (case aux of None \<Rightarrow> False | Some e \<Rightarrow> ra_src e = dst)
        in if hit \<and> distance > rt_metric r then (True, needs_join, rev_entry, s)
           else
             let needs_join = (if hit then True else needs_join);
                 s = del_rt_route K (rt_dst r) (rt_gtw r) 128 (rt_distance r) s;
                 s = add_rt_route K (rt_dst r) from 128 distance s
             in reverse_loop K src dst from distance rest needs_join (Some r) s
      else reverse_loop K src dst from distance rest needs_join rev_entry s)"

text \<open>
  The part of \<open>route\<close> that keeps the reverse route. No value: the packet was in a loop and has been returned.
  The loop never breaks, so \<open>needs_join\<close> is always set behind it.
\<close>

definition reverse_route :: "fenv \<Rightarrow> 'k kernel_ops \<Rightarrow> byte list \<Rightarrow> 'k fwd \<Rightarrow> (byte list \<times> route option \<times> 'k fwd) result" where
  "reverse_route F K pkt s =
     bind (from_addr pkt) (\<lambda>from.
       let src = src_of pkt; dst = dst_of pkt;
           distance = uint MAX_TTL - uint (pkt ! TTL_OFFSET)
       in bind (rt_table_dump F K s) (\<lambda>(rt, s).
          let (looping, needs_join, rev_entry, s) = reverse_loop K src dst from distance (enumerate 0 rt) False None s
          in if looping then
               let pkt = add_ttl 1 (set_returned pkt)
               in bind (return_from F K pkt s) (\<lambda>s. Inr (pkt, None, s))
             else
               case rev_entry of
                 Some r \<Rightarrow> Inr (pkt, Some r, s)
               | None \<Rightarrow> Inr (pkt, Some ((fe_route F)\<lparr>rt_dst := src, rt_gtw := from\<rparr>), add_rt_route K src from 128 distance s)))"

text \<open>The neighbours that are the gateway of the route at the position and have become unavailable.\<close>

definition retry_unavailable :: "fenv \<Rightarrow> 'k kernel_ops \<Rightarrow> nat \<Rightarrow> neighbor \<Rightarrow> (byte list \<times> 'k fwd) result \<Rightarrow> (byte list \<times> 'k fwd) result" where
  "retry_unavailable F K k it r =
     bind r (\<lambda>(pkt, s).
       if n_prim_addr it = rt_gtw (route_t (nd s) ! k) \<and> n_available it = 0 then send_to_next_neighbor F K pkt s else Inr (pkt, s))"

text \<open>The part of \<open>route\<close> behind the reverse route; no value when it falls off the end.\<close>

definition route_forward :: "fenv \<Rightarrow> 'k kernel_ops \<Rightarrow> hook \<Rightarrow> byte list \<Rightarrow> route option \<Rightarrow> 'k fwd \<Rightarrow>
    (int option \<times> byte list \<times> 'k fwd) result" where
  "route_forward F K hk pkt rev_entry s =
     (if dst_of pkt = prim_addr (nd s) then Inr (Some RV_ACCEPT, pkt, s)
      else
        bind (rt_table_dump F K s) (\<lambda>(rt, s).
        case filter (\<lambda>k. rt_dst (rt ! k) = dst_of pkt \<and> rt_gtw (rt ! k) \<noteq> dst_of pkt) [0..<length rt] of
          [] \<Rightarrow> bind (send_to_next_neighbor F K pkt s) (\<lambda>(pkt, s). Inr (Some RV_ACCEPT, pkt, s))
        | k # _ \<Rightarrow>
            bind (from_addr pkt) (\<lambda>from.
            bind (if rt_gtw (rt ! k) = from \<and> hk = PRE_ROUTING then
                    let pkt = add_ttl 1 (set_returned pkt) in bind (return_from F K pkt s) (\<lambda>s. Inr (pkt, s))
                  else Inr (pkt, s)) (\<lambda>(pkt, s).
            bind (fold (retry_unavailable F K k) (neigh_table (nd s)) (Inr (pkt, s))) (\<lambda>(pkt, s).
            case rev_entry of
              None \<Rightarrow> Inr (None, pkt, s)
            | Some re \<Rightarrow>
                bind (rt_table_dump F K s) (\<lambda>(rt, s).
                case filter (\<lambda>i. rt_dst (rt ! i) = rt_dst re \<and> rt_gtw (rt ! i) = rt_gtw re) [0..<length rt] of
                  [] \<Rightarrow> Inr (Some RV_ACCEPT, pkt, s)
                | i # _ \<Rightarrow> bind (add_rt_info F (rt_dst (rt ! i)) (Some (src_of pkt)) (int i) s) (\<lambda>(_, s). Inr (None, pkt, s))))))))"

text \<open>What \<open>route\<close> lets pass at once.\<close>

definition passes :: "node \<Rightarrow> byte \<Rightarrow> byte list \<Rightarrow> bool" where
  "passes n ty pkt \<longleftrightarrow> (0 < ty \<and> ty < 5) \<or> (dst_of pkt = prim_addr n \<and> src_of pkt = prim_addr n) \<or>
     s6_addr16 (dst_of pkt) 0 \<noteq> s6_addr16 (prim_addr n) 0"

definition route :: "fenv \<Rightarrow> 'k kernel_ops \<Rightarrow> hook \<Rightarrow> byte list \<Rightarrow> 'k fwd \<Rightarrow> (int option \<times> byte list \<times> 'k fwd) result" where
  "route F K hk pkt s =
     bind (udp_byte (nd s) pkt) (\<lambda>ty.
       if passes (nd s) ty pkt then Inr (Some RV_ACCEPT, pkt, s)
       else if hk = PRE_ROUTING \<and> src_of pkt = prim_addr (nd s) then
         let pkt = add_ttl 1 (set_returned pkt)
         in bind (return_from F K pkt s) (\<lambda>s. Inr (Some RV_ACCEPT, pkt, s))
       else
         bind (if rv_byte ty \<and> dst_of pkt \<noteq> prim_addr (nd s)
               then bind (rv_route F pkt (nd s)) (\<lambda>(v, n). Inr (v, s\<lparr>nd := n\<rparr>)) else Inr (RV_ACCEPT, s)) (\<lambda>(v, s).
         if v = RV_DROP then Inr (Some RV_DROP, pkt, s)
         else
           bind (from_addr pkt) (\<lambda>from.
           let src_neigh = list_ex (\<lambda>it. n_prim_addr it = src_of pkt) (neigh_table (nd s))
           in if from \<noteq> prim_addr (nd s) \<and> \<not> src_neigh \<and> hk = PRE_ROUTING then
                bind (reverse_route F K pkt s) (\<lambda>(pkt, rev_entry, s).
                  case rev_entry of
                    None \<Rightarrow> Inr (Some RV_ACCEPT, pkt, s)
                  | Some re \<Rightarrow> route_forward F K hk pkt (Some re) s)
              else route_forward F K hk pkt None s)))"

end
