(* ===== verification/Pkt_Hooks.thy ===== *)
theory Pkt_Hooks
  imports Pkt_Handle
begin

text \<open>
  The queue between the firewall and the daemon (\<open>print_pkt\<close> and \<open>cb\<close> of \<open>pkt_handle.c\<close>): what is done with a packet at each
  hook, and the verdict it gets. A verdict without bytes lets the kernel go on with its own copy of the packet. A
  packet is given here by its bytes and its hook; how both come out of the queue is in \<open>Nf_Daemon\<close>. Reads for messages on the
  console are left out.
\<close>

datatype verdict = Accept "byte list option" | Drop "byte list"

definition NXT_HDR_OFFSET :: nat where "NXT_HDR_OFFSET = 6"
definition MDNS_PORT_AUX :: "16 word" where "MDNS_PORT_AUX = 4473"
definition DNS_PORT_AUX :: "16 word" where "DNS_PORT_AUX = 4477"

definition dns_server_addr :: in6_addr where
  "dns_server_addr = In6 0x0120 0xb80d 0 0 0 0 0 0x0c00"

text \<open>A read of the packet.\<close>

definition byte_at :: "nat \<Rightarrow> byte list \<Rightarrow> byte result" where
  "byte_at i pkt = (if i < length pkt then Inr (pkt ! i) else Inl Out_Of_Bounds)"

definition word_at :: "nat \<Rightarrow> byte list \<Rightarrow> 16 word result" where
  "word_at i pkt = (if i + 1 < length pkt then Inr (load16 pkt i) else Inl Out_Of_Bounds)"

section \<open>Packets for this node\<close>

text \<open>For an echo request the route of the reply: through the neighbour nearest to its sender, none having set \<open>gw\<close> when there is none.\<close>

definition reply_gateway :: "fenv \<Rightarrow> in6_addr \<Rightarrow> neighbor list \<Rightarrow> in6_addr" where
  "reply_gateway F src tab =
     snd (fold (\<lambda>it (distancia, gw). if distancia > dist src it then (dist src it, n_prim_addr it) else (distancia, gw)) tab (99, fe_gw F))"

definition local_in :: "fenv \<Rightarrow> 'k kernel_ops \<Rightarrow> byte list \<Rightarrow> 'k fwd \<Rightarrow> 'k fwd result" where
  "local_in F K pkt s =
     bind (byte_at NXT_HDR_OFFSET pkt) (\<lambda>nxt.
       if nxt = 58 then
         bind (byte_at 40 pkt) (\<lambda>ty.
           if ty = 128
           then Inr (add_rt_route K (src_of pkt) (reply_gateway F (src_of pkt) (neigh_table (nd s))) 128 (uint MAX_TTL) s)
           else Inr s)
       else Inr s)"

section \<open>Packets of this node\<close>

text \<open>A SYN gets a smaller segment size, in the copy of the kernel and behind the copy of the header.\<close>

definition tcp_mss :: "byte list \<Rightarrow> byte list result" where
  "tcp_mss pkt =
     bind (byte_at 53 pkt) (\<lambda>flags.
       if flags = 2 then (if length pkt < 64 then Inl Out_Of_Bounds else Inr (pkt[63 := 0x80, 59 := pkt ! 59 + 32])) else Inr pkt)"

text \<open>The destination options header with the address of this node.\<close>

definition option_header :: "byte \<Rightarrow> in6_addr \<Rightarrow> byte list" where
  "option_header nxt a = [nxt, 3, 1, 10] @ replicate 10 0 @ [16, 16] @ addr_bytes a"

definition insert_option :: "in6_addr \<Rightarrow> byte list \<Rightarrow> byte list \<Rightarrow> byte list result" where
  "insert_option a pkt payload =
     (let ret = length pkt; data = set_is_antop (pkt @ replicate 32 0)
      in if ret < 40 then Inl Out_Of_Bounds
         else
           bind (write_at 72 (drop 40 payload) data) (\<lambda>data.
             let aux_3 = word_of_nat (ret + 32 - 40) :: 16 word;
                 nxt = data ! 6;
                 data = data[4 := ucast (drop_bit 8 aux_3), 5 := word_of_nat (ret + 32 - 40), 7 := MAX_TTL, 6 := 60]
             in write_at 40 (option_header nxt a) data))"

definition fix_icmp :: "byte list \<Rightarrow> nat \<Rightarrow> byte list result" where
  "fix_icmp data ret =
     (if ret < 48 then Inl Out_Of_Bounds
      else bind (icmpv6_cksum (src_of data) (dst_of data) data (ret - 48) (word_of_nat (ret - 40))) (\<lambda>c.
           write_at 74 (store16 (htons c)) data))"

text \<open>A DNS query of a resolver on this node: one question, for an IPv6 address.\<close>

definition is_dns_query :: "byte list \<Rightarrow> bool result" where
  "is_dns_query data =
     bind (word_at 72 data) (\<lambda>source. bind (word_at 74 data) (\<lambda>dest.
       if htons source \<noteq> MDNS_PORT \<and> int (unat (htons source)) \<noteq> ANTOP_PORT \<and> htons source \<noteq> MDNS_PORT_AUX \<and>
          (htons dest = MDNS_PORT \<or> htons dest = DNS_PORT) then
         bind (byte_at 85 data) (\<lambda>qd. if qd \<noteq> 1 then Inr False else
         bind (byte_at 82 data) (\<lambda>fl. if fl \<noteq> 1 then Inr False else
         bind (string_at (80 + MDNS_QUERY_OFFSET) data) (\<lambda>name.
         bind (byte_at (80 + MDNS_QUERY_OFFSET + length name + 2) data) (\<lambda>ty. Inr (ty = 28)))))
       else Inr False))"

definition dns_intercept :: "fenv \<Rightarrow> byte list \<Rightarrow> node \<Rightarrow> (byte list \<times> node) result" where
  "dns_intercept F data n =
     bind (is_dns_query data) (\<lambda>q.
       if q then
         bind (write_at SRC_ADDR_OFFSET (addr_bytes (prim_addr n)) data) (\<lambda>data.
         bind (word_at 72 data) (\<lambda>source. bind (word_at 74 data) (\<lambda>dest.
         bind (answer_dns_query (fe_env F) (Query_Data data) (length data) source False dest n) (\<lambda>n. Inr (data, n)))))
       else Inr (data, n))"

text \<open>A response of the daemon's own name service: it is made to come from the DNS port of the DNS server.\<close>

definition dns_translate :: "nat \<Rightarrow> byte list \<Rightarrow> byte list result" where
  "dns_translate ret data =
     bind (word_at 72 data) (\<lambda>source. bind (word_at 74 data) (\<lambda>dest.
       if htons source = DNS_PORT_AUX \<and> htons dest \<noteq> DNS_PORT_AUX then
         bind (write_at 72 (store16 (htons DNS_PORT)) data) (\<lambda>data.
         bind (write_at SRC_ADDR_OFFSET (addr_bytes dns_server_addr) data) (\<lambda>data.
           if ret < 48 then Inl Out_Of_Bounds
           else bind (udp_cksum (src_of data) (dst_of data) data (ret - 48) (word_of_nat (ret - 40))) (\<lambda>c.
                write_at 78 (store16 (htons c)) data)))
       else Inr data))"

definition mark_rv :: "byte list \<Rightarrow> byte list result" where
  "mark_rv data =
     bind (byte_at 74 data) (\<lambda>p0. bind (byte_at 75 data) (\<lambda>p1.
       if p0 = 0x11 \<and> p1 = 0x75
       then bind (byte_at UDP_PKT_OFF data) (\<lambda>ty.
            Inr (if rv_byte ty then data[FLAGS_OFFSET := data ! FLAGS_OFFSET OR MASK_RV] else data))
       else Inr data))"

definition nat_source :: "'k fwd \<Rightarrow> byte list \<Rightarrow> byte list result" where
  "nat_source s data =
     (case find (\<lambda>e. sn_dst e = dst_of data) (nat_table s) of
        Some e \<Rightarrow> write_at SRC_ADDR_OFFSET (addr_bytes (sn_src e)) data
      | None \<Rightarrow> if nat_wild s \<and> nat_table s \<noteq> [] then Inl Wild_Pointer else Inr data)"

text \<open>
  The packet with the options header, and the state after the daemon has seen it; no value for a neighbour solicitation or
  advertisement, which is left alone.
\<close>

definition local_out :: "fenv \<Rightarrow> 'k kernel_ops \<Rightarrow> byte list \<Rightarrow> 'k fwd \<Rightarrow> (byte list option \<times> 'k fwd) result" where
  "local_out F K pkt s =
     bind (byte_at NXT_HDR_OFFSET pkt) (\<lambda>nxt.
     bind (if nxt = 58 then byte_at 40 pkt else Inr 0) (\<lambda>ty.
       if nxt = 58 \<and> (ty = 135 \<or> ty = 136) then Inr (None, s)
       else
         bind (if nxt = 6 then tcp_mss pkt else Inr pkt) (\<lambda>payload.
         bind (insert_option (prim_addr (nd s)) pkt payload) (\<lambda>data.
         bind (if nxt = 58 then fix_icmp data (length pkt) else Inr data) (\<lambda>data.
         bind (if nxt = 17 then
                 bind (dns_intercept F data (nd s)) (\<lambda>(data, n).
                 bind (dns_translate (length pkt) data) (\<lambda>data.
                 bind (mark_rv data) (\<lambda>data. Inr (data, s\<lparr>nd := n\<rparr>))))
               else Inr (data, s)) (\<lambda>(data, s).
         bind (nat_source s data) (\<lambda>data.
         bind (route F K LOCAL_OUT data s) (\<lambda>(_, data, s). Inr (Some data, s)))))))))"

section \<open>The verdict\<close>

text \<open>
  The buffer has 32 bytes more than the packet; the size of the verdict is that of the packet. At \<open>LOCAL_OUT\<close> the size is 0
  and the buffer is not passed. At \<open>PRE_ROUTING\<close> the value of \<open>route\<close> decides.
\<close>

definition cb :: "fenv \<Rightarrow> 'k kernel_ops \<Rightarrow> hook \<Rightarrow> byte list \<Rightarrow> 'k fwd \<Rightarrow> (verdict \<times> 'k fwd) result" where
  "cb F K hk pkt s =
     (let ret = length pkt; data = pkt @ replicate 32 0
      in case hk of
           FORWARD \<Rightarrow> bind (route F K FORWARD data s) (\<lambda>(_, data, s). Inr (Accept (Some (take ret data)), s))
         | LOCAL_IN \<Rightarrow> bind (local_in F K pkt s) (\<lambda>s. Inr (Accept (Some pkt), s))
         | PRE_ROUTING \<Rightarrow>
             bind (route F K PRE_ROUTING data s) (\<lambda>(v, data, s).
               case v of
                 None \<Rightarrow> Inl Missing_Return
               | Some v \<Rightarrow> Inr (if v = RV_DROP then Drop (take ret data) else Accept (Some (take ret data)), s))
         | LOCAL_OUT \<Rightarrow> bind (local_out F K pkt s) (\<lambda>(_, s). Inr (Accept None, s))
         | POST_ROUTING \<Rightarrow> Inr (Accept (Some pkt), s))"

text \<open>What the kernel goes on with.\<close>

fun on_wire :: "verdict \<Rightarrow> byte list \<Rightarrow> byte list option" where
  "on_wire (Accept None) pkt = Some pkt"
| "on_wire (Accept (Some data)) pkt = Some data"
| "on_wire (Drop _) pkt = None"

end
