(* ===== verification/Dns_Correct.thy ===== *)
theory Dns_Correct
  imports Dns Antop_Socket
begin

text \<open>
  Properties of the name service: the response a query gets, from the packet that leaves the resolver to the datagram
  that returns to it, what a query with further records discloses, and the message that stops the daemon.
\<close>

section \<open>Buffers and strings\<close>

lemma c_string_append: "0 \<notin> set name \<Longrightarrow> c_string (name @ 0 # rest) = Inr name"
proof -
  assume "0 \<notin> set name"
  then have "takeWhile (\<lambda>b. b \<noteq> 0) (name @ 0 # rest) = name" by (induction name) auto
  then show ?thesis by (simp add: c_string_def)
qed

lemma string_at_append:
  "length xs = off \<Longrightarrow> 0 \<notin> set name \<Longrightarrow> string_at off (xs @ name @ 0 # rest) = Inr name"
  by (simp add: string_at_def c_string_append)

lemma length_dns_tail [simp]: "length dns_tail = 42"
  by (simp add: dns_tail_def)

section \<open>The response\<close>

text \<open>
  A packet with a DNS query: 80 bytes of headers, 12 of the DNS header, the name in question, and behind its end the type, the
  class and further records.
\<close>

definition query_packet :: "byte list \<Rightarrow> byte list \<Rightarrow> byte list \<Rightarrow> byte list \<Rightarrow> byte list" where
  "query_packet hdr head name rest = hdr @ head @ name @ 0 # rest"

definition well_formed_query :: "byte list \<Rightarrow> byte list \<Rightarrow> byte list \<Rightarrow> byte list \<Rightarrow> bool" where
  "well_formed_query hdr head name rest \<longleftrightarrow>
     length hdr = 80 \<and> length head = 12 \<and> name \<noteq> [] \<and> 0 \<notin> set name \<and> 4 \<le> length rest"

text \<open>
  The response it should get: the same identifier, flags of an authoritative answer, one question, answer, authority and
  additional record; the question with class IN; the answer with the name, the type and class of the question, ten
  seconds to live and the address.
\<close>

definition response_to :: "byte list \<Rightarrow> byte list \<Rightarrow> byte list \<Rightarrow> in6_addr \<Rightarrow> byte list" where
  "response_to head name rest a =
     take 2 head @ [0x85, 0] @ take 2 (drop 4 head) @ [0, 1, 0, 1, 0, 1] @ name @ [0] @ take 2 rest @ [0, 1] @
     name @ [0] @ take 4 rest @ [0, 0, 0, 10, 0, 16] @ addr_bytes a @ dns_tail"

lemma write_header:
  assumes "length head = 12"
  shows "bind (write_at 2 [0x85, 0] (head @ z)) (write_at 6 [0, 1, 0, 1, 0, 1]) =
    Inr ((take 2 head @ [0x85, 0] @ take 2 (drop 4 head) @ [0, 1, 0, 1, 0, 1]) @ z)"
  using assms by (simp add: write_at_def)

lemma class_split: "take 2 rest @ take 2 (drop 2 rest) @ drop 4 rest @ z = rest @ z"
  by (metis append.assoc append_take_drop_id drop_drop numeral_plus_numeral semiring_norm(2,6))

lemma write_class:
  assumes "length pre = 12" and "4 \<le> length rest"
  shows "write_at (MDNS_QUERY_OFFSET + length name + 3) [0, 1] (pre @ name @ 0 # rest @ z) =
    Inr (pre @ name @ 0 # take 2 rest @ [0, 1] @ drop 4 rest @ z)"
  using write_at_same [of "pre @ name @ [0] @ take 2 rest" "MDNS_QUERY_OFFSET + length name + 3" "take 2 (drop 2 rest)" "[0, 1]" "drop 4 rest @ z"]
    assms class_split [of rest z]
  by (simp add: MDNS_QUERY_OFFSET_def)

text \<open>Consecutive writes.\<close>

lemma write_step:
  assumes "length xs = off" and "length bs + length cs \<le> length ys"
  shows "write_at off bs (xs @ ys) = Inr ((xs @ bs) @ drop (length bs) ys)" and "length (xs @ bs) = off + length bs"
    and "length cs \<le> length (drop (length bs) ys)"
  using assms by (auto simp add: write_at_def)

lemma dns_response_body:
  assumes "length pre = 12" and "0 \<notin> set name" and "length q = length name + 5" and "length y = length name + 69 + k"
    and "length mid = 4"
  defines "buf \<equiv> pre @ name @ 0 # mid @ y"
  shows "bind (string_at MDNS_QUERY_OFFSET buf) (\<lambda>name.
      let data_aux2 = MDNS_QUERY_OFFSET + 5 + length name
      in bind (write_at data_aux2 q buf) (\<lambda>buf.
         bind (string_at MDNS_QUERY_OFFSET buf) (\<lambda>name.
           let data_aux2 = data_aux2 + length name + 5
           in bind (write_at data_aux2 [0, 0, 0, 0x0a, 0, 16] buf) (\<lambda>buf.
              bind (write_at (data_aux2 + 6) (addr_bytes a) buf) (\<lambda>buf.
              write_at (data_aux2 + 22) dns_tail buf))))) =
    Inr (pre @ name @ 0 # mid @ q @ [0, 0, 0, 10, 0, 16] @ addr_bytes a @ dns_tail @ drop (length name + 69) y)"
proof -
  define xs where "xs = pre @ name @ 0 # mid"
  have xs: "length xs = MDNS_QUERY_OFFSET + 5 + length name" using assms(1,5) by (simp add: xs_def MDNS_QUERY_OFFSET_def)
  have s: "string_at MDNS_QUERY_OFFSET (xs @ z) = Inr name" for z
    using string_at_append [of pre MDNS_QUERY_OFFSET name "mid @ z"] assms(1,2) by (simp add: xs_def MDNS_QUERY_OFFSET_def)
  define ttl :: "byte list" where "ttl = [0, 0, 0, 0x0a, 0, 16]"
  have ttl: "length ttl = 6" by (simp add: ttl_def)
  have w: "write_at (length xs) q (xs @ y) = Inr (xs @ q @ drop (length name + 5) y)"
    "write_at (length xs + length name + 5) ttl (xs @ q @ drop (length name + 5) y) = Inr (xs @ q @ ttl @ drop (length name + 11) y)"
    "write_at (length xs + length name + 5 + 6) (addr_bytes a) (xs @ q @ ttl @ drop (length name + 11) y) =
      Inr (xs @ q @ ttl @ addr_bytes a @ drop (length name + 27) y)"
    "write_at (length xs + length name + 5 + 22) dns_tail (xs @ q @ ttl @ addr_bytes a @ drop (length name + 27) y) =
      Inr (xs @ q @ ttl @ addr_bytes a @ dns_tail @ drop (length name + 69) y)"
    using write_at_append [of xs "length xs" q y] write_at_append [of "xs @ q" "length xs + length name + 5" ttl "drop (length name + 5) y"]
      write_at_append [of "xs @ q @ ttl" "length xs + length name + 5 + 6" "addr_bytes a" "drop (length name + 11) y"]
      write_at_append [of "xs @ q @ ttl @ addr_bytes a" "length xs + length name + 5 + 22" dns_tail "drop (length name + 27) y"]
      assms(3,4) ttl
    by (simp_all add: add.commute)
  have e: "pre @ name @ 0 # mid @ z = xs @ z" for z by (simp add: xs_def)
  show ?thesis
    using w [unfolded xs] s [of y] s [of "q @ drop (length name + 5) y"]
    by (simp add: buf_def e ttl_def [symmetric] Let_def MDNS_QUERY_OFFSET_def add.commute)
qed

text \<open>The buffer behind the query is fresh memory; what the response does not overwrite is sent with it.\<close>

definition undefined_rest :: "env \<Rightarrow> byte list \<Rightarrow> byte list \<Rightarrow> byte list" where
  "undefined_rest E name rest =
     drop (length name + 69) (drop 4 rest @ map (heap_junk E) [13 + length name + length rest..<82 + 2 * length name + length rest])"

lemma dns_response_value:
  assumes "well_formed_query hdr head name rest"
  shows "dns_response E (query_packet hdr head name rest) a (length (query_packet hdr head name rest) - 80 + length name + 1 + 26) =
    Inr (response_to head name rest a @ undefined_rest E name rest)"
proof -
  have len: "length hdr = 80" "length head = 12" "0 \<notin> set name" "4 \<le> length rest"
    using assms by (simp_all add: well_formed_query_def)
  define junk where "junk = map (heap_junk E) [13 + length name + length rest..<82 + 2 * length name + length rest]"
  define y where "y = drop 4 rest @ junk"
  have y: "length y = length name + 69 + (length rest - 4)" using len(4) by (simp add: y_def junk_def)
  let ?q = "query_packet hdr head name rest"
  define pre where "pre = take 2 head @ [0x85, 0] @ take 2 (drop 4 head) @ [0, 1, 0, 1, 0, 1]"
  have pre: "length pre = 12" using len(2) by (simp add: pre_def)
  have d: "drop UDP_PKT_OFF ?q = head @ name @ 0 # rest" "drop (UDP_PKT_OFF + MDNS_QUERY_OFFSET) ?q = name @ 0 # rest"
    using len(1,2) by (simp_all add: query_packet_def UDP_PKT_OFF_def MDNS_QUERY_OFFSET_def)
  have j: "map (heap_junk E) [length (head @ name @ 0 # rest)..<length ?q - 80 + length name + 1 + 26 + 42] = junk"
  proof -
    have "length (head @ name @ 0 # rest) = 13 + length name + length rest"
      "length ?q - 80 + length name + 1 + 26 + 42 = 82 + 2 * length name + length rest"
      using len by (simp_all add: query_packet_def)
    then show ?thesis by (simp only: junk_def)
  qed
  have w1: "bind (write_at 2 [0x85, 0] ((head @ name @ 0 # rest) @ junk)) (\<lambda>buf. bind (write_at 6 [0, 1, 0, 1, 0, 1] buf) f) =
      f (pre @ name @ 0 # rest @ junk)" for f
    using write_header [OF len(2), of "name @ 0 # rest @ junk"] by (simp add: pre_def bind_assoc [symmetric])
  have w2: "write_at (MDNS_QUERY_OFFSET + length name + 3) [0, 1] (pre @ name @ 0 # rest @ junk) =
      Inr (pre @ name @ 0 # (take 2 rest @ [0, 1]) @ y)"
    using write_class [OF pre, of rest name junk] len by (simp add: y_def)
  have s: "string_at MDNS_QUERY_OFFSET (pre @ name @ 0 # z) = Inr name" for z
    using string_at_append [of pre MDNS_QUERY_OFFSET name z] pre len by (simp add: MDNS_QUERY_OFFSET_def)
  have body: "length (take (length name + 5) (name @ 0 # rest)) = length name + 5" "\<not> length (name @ 0 # rest) < length name + 5"
    "take (length name + 5) (name @ 0 # rest) = name @ 0 # take 4 rest"
    using len(4) by simp_all
  have "length (take 2 rest @ [0, 1]) = 4" using len(4) by simp
  note run = dns_response_body [OF pre len(3) body(1) y this, of a, unfolded s bind_simps Let_def]
  have "dns_response E ?q a (length ?q - 80 + length name + 1 + 26) =
      Inr (pre @ name @ 0 # (take 2 rest @ [0, 1]) @ (name @ 0 # take 4 rest) @ [0, 0, 0, 10, 0, 16] @ addr_bytes a @ dns_tail @
        drop (length name + 69) y)"
    unfolding dns_response_def Let_def d j w1 s bind_simps w2 if_not_P [OF body(2)] run [unfolded body(3)] body(3) ..
  then show ?thesis by (simp add: response_to_def undefined_rest_def y_def junk_def pre_def)
qed

section \<open>The waiting queries\<close>

definition asks :: "dns_q_queue \<Rightarrow> byte list \<Rightarrow> byte list \<Rightarrow> byte list \<Rightarrow> bool" where
  "asks q head name rest \<longleftrightarrow> (\<exists>hdr. well_formed_query hdr head name rest \<and> q_pkt q = query_packet hdr head name rest)"

lemma query_strings:
  assumes "well_formed_query hdr head name rest"
  shows "string_at IPV6_MDNS_QUERY_OFF (query_packet hdr head name rest) = Inr name"
    and "string_at (IPV6_MDNS_QUERY_OFF + 1) (query_packet hdr head name rest) = Inr (tl name)"
    and "take (length (tl name)) (drop (IPV6_MDNS_QUERY_OFF + 1) (query_packet hdr head name rest)) = tl name"
proof -
  obtain c n where name: "name = c # n" using assms by (cases name) (auto simp add: well_formed_query_def)
  have len: "length (hdr @ head) = IPV6_MDNS_QUERY_OFF" "length (hdr @ head @ [c]) = IPV6_MDNS_QUERY_OFF + 1" "0 \<notin> set name" "0 \<notin> set n"
    using assms name by (auto simp add: well_formed_query_def IPV6_MDNS_QUERY_OFF_def MDNS_QUERY_OFFSET_def)
  show "string_at IPV6_MDNS_QUERY_OFF (query_packet hdr head name rest) = Inr name"
    using string_at_append [OF len(1,3), of rest] by (simp add: query_packet_def)
  show "string_at (IPV6_MDNS_QUERY_OFF + 1) (query_packet hdr head name rest) = Inr (tl name)"
    using string_at_append [OF len(2,4), of rest] by (simp add: query_packet_def name)
  have "drop (IPV6_MDNS_QUERY_OFF + 1) (query_packet hdr head name rest) = n @ 0 # rest"
    unfolding len(2) [symmetric] by (simp add: query_packet_def name)
  then show "take (length (tl name)) (drop (IPV6_MDNS_QUERY_OFF + 1) (query_packet hdr head name rest)) = tl name" by (simp add: name)
qed

lemma take_c_string: "c_string arr = Inr u \<Longrightarrow> take (length u) arr = u"
  by (auto simp add: c_string_def split: if_splits) (metis append_eq_conv_conj takeWhile_dropWhile_id)

lemma dns_find_step:
  assumes "asks q head name rest" and "c_string (rv_univ_addr m) = Inr u"
  shows "dns_find m i (q # qs) = (if tl name = u then Inr (Some i) else dns_find m (Suc i) qs)"
proof -
  obtain hdr where q: "well_formed_query hdr head name rest" "q_pkt q = query_packet hdr head name rest"
    using assms(1) by (auto simp add: asks_def)
  have ne: "name \<noteq> []" using q(1) by (simp add: well_formed_query_def)
  note str = query_strings [OF q(1), folded q(2)] assms(2)
  show ?thesis
  proof (cases "length (tl name) = length u")
    case True
    then have "take (length (tl name)) (rv_univ_addr m) = u" using take_c_string [OF assms(2)] by simp
    moreover have "length name - 1 = length u" using True by simp
    ultimately show ?thesis using str ne True by simp
  next
    case False
    then have "tl name \<noteq> u" by auto
    with False str show ?thesis by (simp del: length_tl)
  qed
qed

lemma dns_find_skip:
  assumes "\<forall>p\<in>set before. \<exists>h n r. asks p h n r \<and> tl n \<noteq> u" and "c_string (rv_univ_addr m) = Inr u"
  shows "dns_find m i (before @ qs) = dns_find m (i + length before) qs"
  using assms(1)
proof (induction before arbitrary: i)
  case (Cons p ps)
  obtain h n r where "asks p h n r" "tl n \<noteq> u" using Cons.prems by auto
  then have "dns_find m i ((p # ps) @ qs) = dns_find m (Suc i) (ps @ qs)" using dns_find_step [OF _ assms(2)] by simp
  then show ?case using Cons by simp
qed simp

text \<open>When the answer of a server arrives, the first query that waits for its name is taken from the
  queue, and the resolver that sent it gets a response with its identifier and question and the address found,
  followed by as many bytes of fresh memory as the query had behind its question. When that query is the first, what follows it in the queue
  is read from freed memory.\<close>

lemma dns_query_answered:
  assumes "dns s = before @ q # behind" and "\<forall>p\<in>set before. \<exists>h n r. asks p h n r \<and> tl n \<noteq> u"
    and "asks q head name rest" and "tl name = u" and "c_string (rv_univ_addr m) = Inr u"
    and "q_src_port q = htons DNS_PORT"
  shows "dns_reply E m s =
      Inr (antop_socket_send_bytes E (response_to head name rest (rv_prim_addr m) @ undefined_rest E name rest) (prim_addr s)
        (socket_global_dns s) (uint (htons (q_dst_port q))) (s\<lparr>dns := if before = [] then freed_next E behind else before @ behind\<rparr>)) \<and>
    length (undefined_rest E name rest) = length rest - 4"
proof -
  obtain hdr where q: "well_formed_query hdr head name rest" "q_pkt q = query_packet hdr head name rest"
    using assms(3) by (auto simp add: asks_def)
  have find: "dns_find m 0 (dns s) = Inr (Some (length before))"
    using dns_find_skip [OF assms(2,5), of 0 "q # behind"] dns_find_step [OF assms(3,5)] assms(1,4) by simp
  have rest: "(if length before = 0 then freed_next E (tl (dns s)) else take (length before) (dns s) @ drop (Suc (length before)) (dns s)) =
      (if before = [] then freed_next E behind else before @ behind)"
    using assms(1) by (cases before) simp_all
  have "DNS_PORT \<noteq> MDNS_PORT" by (simp add: DNS_PORT_def MDNS_PORT_def)
  then have "dns_reply E m s =
      Inr (antop_socket_send_bytes E (response_to head name rest (rv_prim_addr m) @ undefined_rest E name rest) (prim_addr s)
        (socket_global_dns s) (uint (htons (q_dst_port q))) (s\<lparr>dns := if before = [] then freed_next E behind else before @ behind\<rparr>))"
    using find query_strings(1) [OF q(1)] dns_response_value [OF q(1)] assms(6) rest
    by (simp add: dns_reply_def assms(1) q(2) Let_def nth_append)
  moreover have "length (undefined_rest E name rest) = length rest - 4"
    using q(1) by (simp add: undefined_rest_def well_formed_query_def)
  ultimately show ?thesis ..
qed

text \<open>A query for the name \<open>n1\<close>, with its label length in front.\<close>

definition sample_head :: "byte list" where
  "sample_head = [0x12, 0x34, 1, 0, 0, 1, 0, 0, 0, 0, 0, 0]"

definition sample_query :: dns_q_queue where
  "sample_query = \<lparr>q_pkt = query_packet (replicate 80 0) sample_head [2, 110, 49] [0, 28, 0, 1], q_dst_port = htons 40000,
     q_src_port = htons DNS_PORT\<rparr>"

lemma sample_asks: "asks sample_query sample_head [2, 110, 49] [0, 28, 0, 1]"
  unfolding asks_def by (intro exI [of _ "replicate 80 0"]) (simp add: well_formed_query_def sample_query_def sample_head_def)

lemma sample_name: "c_string (110 # 49 # replicate 48 0) = Inr [110, 49]"
  by (simp add: c_string_def)

text \<open>An answer for a name that no query waits for, such as the second of two answers to the same
  query, or one that any host sends, makes the daemon dereference a null pointer: the loop over the queue ends
  without an entry and the code goes on.\<close>

theorem unexpected_answer_faults:
  assumes "rv_type m = RV_ADDR_SOLVE" and "rv_flags m AND MASK_SOLVED \<noteq> 0" and "c_string (rv_univ_addr m) = Inr u"
    and "\<forall>p\<in>set (dns s). \<exists>h n r. asks p h n r \<and> tl n \<noteq> u"
  shows "antop_process_pkt E fd (Rv m) s = Inl Null_Deref"
  using dns_find_skip [OF assms(4,3), of 0 "[]"] assms(1,2)
  by (simp add: antop_process_pkt_def process_rv_def packet_type_defs answer_dns_query_def dns_reply_def)

theorem unexpected_answer_faults_witness:
  "antop_process_pkt sample_env 3 (Rv (null_rv\<lparr>rv_type := RV_ADDR_SOLVE, rv_flags := 1, rv_univ_addr := 110 # 50 # replicate 48 0\<rparr>))
     (sample_node\<lparr>dns := [sample_query]\<rparr>) = Inl Null_Deref"
proof -
  have n: "c_string (110 # 50 # replicate 48 0) = Inr [110, 50]" by (simp add: c_string_def)
  show ?thesis
    using unexpected_answer_faults [of "null_rv\<lparr>rv_type := RV_ADDR_SOLVE, rv_flags := 1, rv_univ_addr := 110 # 50 # replicate 48 0\<rparr>"
        "[110, 50]" "sample_node\<lparr>dns := [sample_query]\<rparr>" sample_env 3] sample_asks n
    by (fastforce simp add: MASK_SOLVED_def)
qed

section \<open>From the query to the response\<close>

text \<open>
  A message is allocated and not cleared, and its name is copied without the byte that ends it (\<open>memcpy\<close> of
  \<open>strlen(uaddr)\<close> bytes): the name ends where it should only when the memory behind it holds a zero. \<open>ends_after\<close> says so
  of a name that fits into its array; without it the message carries another name.
\<close>

definition ends_after :: "env \<Rightarrow> byte list \<Rightarrow> bool" where
  "ends_after E u \<longleftrightarrow> length (rv_univ_addr (rv_junk E)) = 50 \<and> length u < 50 \<and> rv_univ_addr (rv_junk E) ! length u = 0"

lemma overlay_ends:
  assumes "ends_after E u" and "0 \<notin> set u"
  obtains arr where "overlay (rv_univ_addr (rv_junk E)) u = Inr arr" and "c_string arr = Inr u" and "length arr = 50"
proof -
  let ?j = "rv_univ_addr (rv_junk E)"
  have "drop (length u) ?j = 0 # drop (Suc (length u)) ?j"
    using assms(1) by (simp add: ends_after_def Cons_nth_drop_Suc [symmetric])
  then have "c_string (u @ drop (length u) ?j) = Inr u" using c_string_append [OF assms(2)] by simp
  then show thesis using that [of "u @ drop (length u) ?j"] assms(1) by (simp add: overlay_def ends_after_def)
qed

lemma name_runs_on:
  assumes "length (rv_univ_addr (rv_junk E)) = 50" and "length u < 50" and "rv_univ_addr (rv_junk E) ! length u \<noteq> 0"
    and "0 \<notin> set u" and "overlay (rv_univ_addr (rv_junk E)) u = Inr arr"
  shows "c_string arr \<noteq> Inr u"
proof -
  let ?j = "rv_univ_addr (rv_junk E)"
  have "arr = u @ ?j ! length u # drop (Suc (length u)) ?j"
    using assms(1,2,5) by (auto simp add: overlay_def Cons_nth_drop_Suc split: if_splits)
  then show ?thesis using assms(3,4) by (auto simp add: c_string_def takeWhile_append split: if_splits)
qed

text \<open>Nothing but the entry without a name of \<open>rv_tables_init\<close> is ever entered into the cache, so it answers no name.\<close>

definition cache_unused :: "node \<Rightarrow> bool" where
  "cache_unused s \<longleftrightarrow> (\<forall>e\<in>set (cached_table s). univ_name e = [])"

lemma cache_unused_miss:
  assumes "cache_unused s" and "u \<noteq> []"
  shows "cache_find u (cached_table s) = Inr None"
proof -
  have "\<forall>e\<in>set es. univ_name e = [] \<Longrightarrow> cache_find u es = Inr None" for es
    using assms(2) by (induction es) (simp_all add: cache_match_def)
  then show ?thesis using assms(1) by (simp add: cache_unused_def)
qed

lemma cache_unused_init: "cache_unused (rv_tables_init E s)" and cache_unused_clear: "cache_unused (clear_rv_tables s)"
  by (simp_all add: cache_unused_def rv_tables_init_def clear_rv_tables_def)

lemma ask_sends_lookup:
  assumes "ends_after E u" and "0 \<notin> set u" and "u \<noteq> []" and "hc_dim s \<le> 64" and "unat (mask_junk E) \<le> 64" and "cache_unused s"
  obtains s' qry srv where "solve_name E u sk s = Inr (None, s')" and "rv_type qry = RV_ADDR_LOOKUP" and "rv_src_addr qry = prim_addr s"
    and "c_string (rv_univ_addr qry) = Inr u" and "length (rv_univ_addr qry) = 50"
    and "trace s' = trace s @ [Sendmsg (Rv qry) (src_addr E s) srv sk ANTOP_PORT]" and "dns s' = dns s"
    and "prim_addr s' = prim_addr s" and "socket_global_dns s' = socket_global_dns s"
proof -
  obtain arr where arr: "overlay (rv_univ_addr (rv_junk E)) u = Inr arr" "c_string arr = Inr u" "length arr = 50"
    using overlay_ends [OF assms(1,2)] .
  obtain as where as: "server_list (hc_dim s) [0..<NSERVER_RV] u = Inr as" using server_list_total [OF assms(4,3)] by blast
  obtain m where m: "nearest (mask_junk E) (prim_addr s) as 1000 (main_rv_server s) = Inr m" using nearest_total [OF assms(5)] by blast
  let ?q = "(rv_junk E)\<lparr>rv_type := RV_ADDR_LOOKUP, rv_prim_addr := prim_addr s, rv_univ_addr := arr, rv_src_addr := prim_addr s\<rparr>"
  have "solve_name E u sk s = Inr (None, antop_socket_send E (Rv ?q) m sk ANTOP_PORT (s\<lparr>rv_servers_dst := as, main_rv_server := m\<rparr>))"
    using cache_unused_miss [OF assms(6,3)] arr(1) as m by (simp add: solve_name_def distribute_in_hc_def Let_def)
  then show thesis by (rule that) (use arr in \<open>simp_all add: antop_socket_send_def emit_def src_addr_def\<close>)
qed

lemma server_answers:
  assumes "ends_after E u" and "rv_ok (rv_table s)" and "c_string (rv_univ_addr p) = Inr u" and "no_prefix u (rv_table s)"
    and "rv_table_add p s = Inr s'" and "rv_type qry = RV_ADDR_LOOKUP" and "c_string (rv_univ_addr qry) = Inr u"
  obtains s'' r where "antop_process_pkt E fd (Rv qry) s' = Inr s''"
    and "trace s'' = trace s' @ [Sendmsg (Rv r) (src_addr E s') (rv_src_addr qry) fd ANTOP_PORT]" and "rv_type r = RV_ADDR_SOLVE"
    and "rv_flags r AND MASK_SOLVED \<noteq> 0" and "rv_prim_addr r = rv_prim_addr p" and "c_string (rv_univ_addr r) = Inr u"
proof -
  have ok: "rv_ok (rv_table s')" using assms(2,5) by (rule rv_ok_add)
  from rv_add_mem [OF assms(5,3)] obtain e where e: "e \<in> set (rv_table s')" "univ_name e = u" "hc_addr e = rv_prim_addr p" .
  have look: "rv_lookup (rv_univ_addr qry) (rv_table s') = Some e"
    by (rule rv_lookup_find [OF assms(7) ok no_prefix_add [OF assms(5,3,4)] e(1,2)])
  have "0 \<notin> set u" using assms(3) by (rule c_string_no_null)
  from overlay_ends [OF assms(1) this] obtain arr where arr: "overlay (rv_univ_addr (rv_junk E)) u = Inr arr" "c_string arr = Inr u" .
  let ?r = "(rv_junk E)\<lparr>rv_type := RV_ADDR_SOLVE, rv_flags := rv_flags (rv_junk E) OR MASK_SOLVED, rv_prim_addr := hc_addr e, rv_univ_addr := arr\<rparr>"
  have "antop_process_pkt E fd (Rv qry) s' = Inr (antop_socket_send E (Rv ?r) (rv_src_addr qry) fd ANTOP_PORT s')"
    using assms(6,7) look arr(1) by (simp add: antop_process_pkt_def process_rv_def packet_type_defs answer_rv_query_def Let_def)
  then show thesis
    by (rule that [where r = ?r]) (use arr e(3) in \<open>simp_all add: antop_socket_send_def emit_def src_addr_def MASK_SOLVED_def word_ao_dist\<close>)
qed

lemma query_queued:
  assumes "ends_after E (tl name)" and "well_formed_query hdr head name rest" and "tl name \<noteq> []"
    and "hc_dim c \<le> 64" and "unat (mask_junk E) \<le> 64" and "cache_unused c" and "port \<noteq> 0"
  obtains c1 qry srv where "rv_type qry = RV_ADDR_LOOKUP" and "rv_src_addr qry = prim_addr c" and "c_string (rv_univ_addr qry) = Inr (tl name)"
    and "answer_dns_query E (Query_Data (query_packet hdr head name rest)) (length (query_packet hdr head name rest)) port False sp c = Inr c1"
    and "trace c1 = trace c @ [Sendmsg (Rv qry) (src_addr E c) srv (socket_global c) ANTOP_PORT]"
    and "dns c1 = dns c @ [\<lparr>q_pkt = query_packet hdr head name rest, q_dst_port = port, q_src_port = sp\<rparr>]"
    and "prim_addr c1 = prim_addr c" and "socket_global_dns c1 = socket_global_dns c"
proof -
  let ?pkt = "query_packet hdr head name rest"
  have wf: "0 \<notin> set (tl name)" "name = hd name # tl name" "length name < 150" "length ?pkt \<noteq> 0"
    using assms(1,2) by (auto simp add: well_formed_query_def query_packet_def ends_after_def dest: list.set_sel(2))
  obtain c1 qry srv where c1: "solve_name E (tl name) (socket_global c) c = Inr (None, c1)" and qry: "rv_type qry = RV_ADDR_LOOKUP"
    "rv_src_addr qry = prim_addr c" "c_string (rv_univ_addr qry) = Inr (tl name)"
    "trace c1 = trace c @ [Sendmsg (Rv qry) (src_addr E c) srv (socket_global c) ANTOP_PORT]" "dns c1 = dns c"
    "prim_addr c1 = prim_addr c" "socket_global_dns c1 = socket_global_dns c"
    using ask_sends_lookup [OF assms(1) wf(1) assms(3-6)] by metis
  let ?c1 = "c1\<lparr>dns := dns c1 @ [\<lparr>q_pkt = ?pkt, q_dst_port = port, q_src_port = sp\<rparr>]\<rparr>"
  have "dns_ask E ?pkt (length ?pkt) port sp c = Inr ?c1"
    using wf(2,3) query_strings(1) [OF assms(2)] c1 by (cases name) (simp_all add: dns_ask_def)
  with wf(4) assms(7) have "answer_dns_query E (Query_Data ?pkt) (length ?pkt) port False sp c = Inr ?c1"
    by (simp add: answer_dns_query_def)
  then show thesis by (rule that [OF qry(1-3)]) (simp_all add: qry)
qed



section \<open>What a response discloses\<close>

text \<open>A query with further records behind its question, such as the options record most
  resolvers add, gets a response that ends in as many bytes of the heap as those records had: the length counts
  them, but nothing is written there.\<close>

theorem response_discloses_memory:
  assumes "asks q head name rest" and "length rest \<le> length name + 73"
  shows "dns_response E (q_pkt q) a (length (q_pkt q) - 80 + length name + 1 + 26) =
    Inr (response_to head name rest a @ map (heap_junk E) [length (response_to head name rest a)..<length (response_to head name rest a) + (length rest - 4)])"
proof -
  obtain hdr where q: "well_formed_query hdr head name rest" "q_pkt q = query_packet hdr head name rest"
    using assms(1) by (auto simp add: asks_def)
  then have len: "4 \<le> length rest" "length (response_to head name rest a) = 86 + 2 * length name"
    by (simp_all add: well_formed_query_def response_to_def)
  have "drop (length name + 69) (drop 4 rest) = []" and "length name + 69 - (length rest - 4) = length name + 73 - length rest"
    using assms(2) len(1) by simp_all
  moreover have "13 + length name + length rest + (length name + 73 - length rest) = 86 + 2 * length name"
    "82 + 2 * length name + length rest = 86 + 2 * length name + (length rest - 4)"
    using assms(2) len(1) by simp_all
  ultimately have "undefined_rest E name rest = map (heap_junk E) [86 + 2 * length name..<86 + 2 * length name + (length rest - 4)]"
    unfolding undefined_rest_def drop_append drop_map drop_upt length_drop by (simp add: ac_simps)
  with dns_response_value [OF q(1), of E a] len(2) show ?thesis by (simp only: q(2))
qed

theorem response_discloses_memory_witness:
  "\<exists>r. dns_response (sample_env\<lparr>heap_junk := (\<lambda>_. 7)\<rparr>) (query_packet (replicate 80 0) sample_head [2, 110, 49] ([0, 28, 0, 1] @ [0, 0, 41])) net_default
      (length (query_packet (replicate 80 0) sample_head [2, 110, 49] ([0, 28, 0, 1] @ [0, 0, 41])) - 80 + 3 + 1 + 26) = Inr (r @ [7, 7, 7])"
proof -
  define q where "q = sample_query\<lparr>q_pkt := query_packet (replicate 80 0) sample_head [2, 110, 49] ([0, 28, 0, 1] @ [0, 0, 41])\<rparr>"
  have "asks q sample_head [2, 110, 49] ([0, 28, 0, 1] @ [0, 0, 41])"
    unfolding asks_def by (intro exI [of _ "replicate 80 0"]) (simp add: well_formed_query_def sample_head_def q_def)
  from response_discloses_memory [OF this, of "sample_env\<lparr>heap_junk := (\<lambda>_. 7)\<rparr>" net_default] show ?thesis
    by (auto simp add: q_def map_replicate_const numeral_eq_Suc)
qed

end
