(* ===== verification/Daemon_Correct.thy ===== *)
theory Daemon_Correct
  imports Fragmentation_Correct
begin

text \<open>
  Properties of the daemon as a reactive system: what a node does and does not do while it fragments or
  merges, what its timers keep going, and what no event changes.
\<close>

section \<open>Frames of the handlers\<close>

text \<open>
  \<open>keeps\<close> relates the states before and after a handler: the configuration of the node is the same,
  what it has done is never undone, and an address once offered from the recovered ones
  stays recorded.
\<close>

definition keeps :: "node \<Rightarrow> node \<Rightarrow> bool" where
  "keeps s s' \<longleftrightarrow> root s' = root s \<and> dir_default s' = dir_default s \<and> univ_addr s' = univ_addr s \<and>
     socket_global s' = socket_global s \<and> hc_dim s' = hc_dim s \<and> flag_init s' = flag_init s \<and>
     prim_addr_flag s' = prim_addr_flag s \<and> flag_conexion s' = flag_conexion s \<and>
     (rcvd_offered s \<noteq> None \<longrightarrow> rcvd_offered s' = rcvd_offered s) \<and> (\<exists>es. trace s' = trace s @ es)"

lemma keeps_refl [simp, intro]: "keeps s s"
  by (simp add: keeps_def)

lemma keeps_trans [trans]: "keeps s t \<Longrightarrow> keeps t u \<Longrightarrow> keeps s u"
  by (auto simp add: keeps_def)

text \<open>An update of a field that \<open>keeps\<close> does not mention.\<close>

lemma keepsI:
  assumes "root s' = root s" "dir_default s' = dir_default s" "univ_addr s' = univ_addr s"
    "socket_global s' = socket_global s" "hc_dim s' = hc_dim s" "flag_init s' = flag_init s"
    "prim_addr_flag s' = prim_addr_flag s" "flag_conexion s' = flag_conexion s"
    "rcvd_offered s' = rcvd_offered s" "trace s' = trace s @ es"
  shows "keeps s s'"
  using assms by (auto simp add: keeps_def)

lemma keeps_emit [simp]: "keeps s (emit e s)"
  by (simp add: keeps_def)

lemma keeps_io [simp]:
  "keeps s (add a s)" "keeps s (del a s)" "keeps s (sleep n s)" "keeps s (antop_socket_send E m d sk pt s)"
  "keeps s (arm_timer t ms s)" "keeps s (del_and_addnew a b k s)"
  by (simp_all add: io_defs del_and_addnew_def keeps_def)

text \<open>A handler keeps the relation when it returns.\<close>

definition hkeeps :: "handler \<Rightarrow> bool" where
  "hkeeps h \<longleftrightarrow> (\<forall>s s'. h s = Inr s' \<longrightarrow> keeps s s')"

lemma hkeepsI: "(\<And>s s'. h s = Inr s' \<Longrightarrow> keeps s s') \<Longrightarrow> hkeeps h"
  by (simp add: hkeeps_def)

lemma hkeepsD: "hkeeps h \<Longrightarrow> h s = Inr s' \<Longrightarrow> keeps s s'"
  by (simp add: hkeeps_def)

lemma fold_keeps:
  "(\<And>x s. keeps s (f x s)) \<Longrightarrow> keeps s (fold f xs s)"
  by (induction xs arbitrary: s) (auto intro: keeps_trans)

lemma fold_keeps_fst:
  "(\<And>x s y. keeps s (fst (f x (s, y)))) \<Longrightarrow> keeps s (fst (fold f xs (s, y)))"
proof (induction xs arbitrary: s y)
  case Nil
  then show ?case by simp
next
  case (Cons x xs)
  obtain s1 y1 where "f x (s, y) = (s1, y1)" by fastforce
  then show ?case using Cons.IH [OF Cons.prems, of s1 y1] Cons.prems [of s x y] by (auto intro: keeps_trans)
qed

lemma keeps_tables [simp]:
  "keeps s (rv_table_delete a s)" "keeps s (snd (delete_neighbor n s))" "keeps s (snd (del_rcvd_addr_table a s))"
  "keeps s (recover_addr_space n s)" "keeps s (clear_rv_tables s)" "keeps s (init_neigh_table E s)"
  "keeps s (init_tables_secondary_link s)" "keeps s (check_n_s_l_table s)" "keeps s (san_t_handler s)"
  by (simp_all add: rv_table_delete_def delete_neighbor_def del_rcvd_addr_table_def recover_addr_space_def
      clear_rv_tables_def init_neigh_table_def init_tables_secondary_link_def check_n_s_l_table_def
      check_n_s_l_loop_id san_t_handler_def Let_def keeps_def)

lemma hkeeps_tables: "hkeeps (add_neighbor hb f)" "hkeeps (add_n_s_l_table a m)" "hkeeps (rv_table_add p)"
proof -
  show "hkeeps (add_neighbor hb f)" "hkeeps (add_n_s_l_table a m)"
    by (rule hkeepsI; auto simp add: add_neighbor_def add_n_s_l_table_def keeps_def elim!: bind_InrE)+
  show "hkeeps (rv_table_add p)"
    by (rule hkeepsI) (auto simp add: rv_table_add_def keeps_def split: if_splits elim!: bind_InrE)
qed

lemma hkeeps_register_rv: "hkeeps (register_rv E)"
proof (rule hkeepsI)
  fix s s' assume r: "register_rv E s = Inr s'"
  show "keeps s s'"
  proof (cases "flag_mezcla s \<or> flag_fragmentacion s")
    case True
    then show ?thesis using r by (auto simp add: register_rv_def split: if_splits)
  next
    case False
    show ?thesis by (rule register_rv_shape [OF r]) (use False in \<open>simp_all add: keeps_def\<close>)
  qed
qed

lemma hkeeps_rv: "hkeeps (answer_rv_query E p sk)"
  by (rule hkeepsI) (auto simp add: answer_rv_query_def Let_def bind_eq_Inr_conv)

lemma keeps_secondary [simp]:
  "keeps s (send_sap1 E sk d sec m s)" "keeps s (send_san1 E sk d sec m k s)"
  by (simp_all add: send_sap1_def send_san1_def Let_def io_defs keeps_def)

text \<open>Backwards through a sequence of operations and of updates of volatile fields.\<close>

lemma keeps_through [simp]:
  assumes "keeps s t"
  shows "keeps s (emit e t)" "keeps s (add a t)" "keeps s (del a t)" "keeps s (sleep n t)"
    "keeps s (antop_socket_send E pkt d sk pt t)" "keeps s (arm_timer tm ms t)" "keeps s (del_and_addnew a b k t)"
    "keeps s (snd (delete_neighbor nb t))" "keeps s (snd (del_rcvd_addr_table a t))" "keeps s (recover_addr_space nb t)"
    "keeps s (clear_rv_tables t)" "keeps s (init_neigh_table E t)" "keeps s (init_tables_secondary_link t)"
    "keeps s (check_n_s_l_table t)" "keeps s (send_sap1 E sk d sec m t)" "keeps s (send_san1 E sk d sec m mk t)"
  using assms by (auto intro: keeps_trans)

lemma keeps_update [simp]:
  assumes "keeps s t"
  shows "keeps s (t\<lparr>prim_addr := a\<rparr>)" "keeps s (t\<lparr>prim_mask := m\<rparr>)" "keeps s (t\<lparr>prim_mask_inicial := m\<rparr>)"
    "keeps s (t\<lparr>prim_addr_aux := a\<rparr>)" "keeps s (t\<lparr>sec_addr := a\<rparr>)" "keeps s (t\<lparr>sec_mask := m\<rparr>)" "keeps s (t\<lparr>sec_addr_flag := b\<rparr>)"
    "keeps s (t\<lparr>red_numero := m\<rparr>)" "keeps s (t\<lparr>flag_fragmentacion := b\<rparr>)" "keeps s (t\<lparr>flag_fragmentacion_primaria := b\<rparr>)"
    "keeps s (t\<lparr>flag_fragmentacion_secundaria := b\<rparr>)" "keeps s (t\<lparr>flag_mezcla := b\<rparr>)" "keeps s (t\<lparr>flag_mezcla_primaria := b\<rparr>)"
    "keeps s (t\<lparr>flag_mezcla_secundaria := b\<rparr>)" "keeps s (t\<lparr>prim_mask_mezcla := m\<rparr>)" "keeps s (t\<lparr>neigh_table := nt\<rparr>)"
    "keeps s (t\<lparr>neighbor_to_root := nr\<rparr>)" "keeps s (t\<lparr>rcvd_addr := ra\<rparr>)" "keeps s (t\<lparr>flag_addr_avai := b\<rparr>)"
    "keeps s (t\<lparr>addr_node_secondary_link := a\<rparr>)" "keeps s (t\<lparr>flag_neigh_by_second := b\<rparr>)" "keeps s (t\<lparr>n_s_l_table := nl\<rparr>)"
  using assms by (auto simp add: keeps_def)

lemma keeps_chk_sec_loop: "keeps s (chk_sec_loop E n k a m s)"
proof (induction E n k a m s rule: chk_sec_loop.induct)
  case (2 E neigh n aux1 m s)
  show ?case
    unfolding chk_sec_loop.simps Let_def by (rule keeps_trans [OF _ 2 [OF refl refl refl refl]]) simp
qed simp

lemma keeps_secondary2 [simp]:
  assumes "keeps s t"
  shows "keeps s (chk_sec_addr1 E nb t)" "keeps s (check_neigh_of_secondary_address t)" "keeps s (check_if_i_am_only E t)"
proof -
  show "keeps s (chk_sec_addr1 E nb t)"
    using assms keeps_trans [OF assms keeps_chk_sec_loop] by (auto simp add: chk_sec_addr1_def Let_def split: option.split)
  show "keeps s (check_neigh_of_secondary_address t)" "keeps s (check_if_i_am_only E t)"
    using assms by (simp_all add: check_neigh_of_secondary_address_def check_if_i_am_only_def Let_def split: option.split)
qed

lemma hkeeps_bind: "hkeeps h \<Longrightarrow> bind (h t) f = Inr s' \<Longrightarrow> keeps s t \<Longrightarrow> (\<And>u. keeps s u \<Longrightarrow> f u = Inr s' \<Longrightarrow> keeps s s') \<Longrightarrow> keeps s s'"
  by (auto elim!: bind_InrE dest: hkeepsD intro: keeps_trans)

lemma hkeeps_secondary: "hkeeps (process_sap1 E msg)" "hkeeps (process_san1 msg)"
proof -
  show "hkeeps (process_sap1 E msg)"
    by (rule hkeepsI) (auto simp add: process_sap1_def Let_def elim!: hkeeps_bind [OF hkeeps_tables(2)])
  show "hkeeps (process_san1 msg)"
    by (rule hkeepsI) (auto simp add: process_san1_def Let_def elim!: hkeeps_bind [OF hkeeps_tables(1)])
qed

section \<open>Fragmentation and merging\<close>

lemma keeps_messages [simp]:
  assumes "keeps s t"
  shows "keeps s (send_far E sk a b c t)" "keeps s (send_fan E sk a b t)" "keeps s (send_mar1 E sk a b c m k t)"
    "keeps s (send_mar2 E sk a b c m t)" "keeps s (send_man1 E sk a b c m k t)" "keeps s (send_man2 E sk a b c m k t)"
    "keeps s (delay t)" "keeps s (move_rcvd a m t)"
  using assms
  by (simp_all add: send_far_msg send_fan_def send_mar1_def send_mar2_def send_man1_def send_man2_def delay_def move_rcvd_def Let_def)

lemma keeps_far_cycle [simp]: "keeps s t \<Longrightarrow> keeps s (far_cycle E a b t)"
  unfolding far_cycle_def by (rule keeps_trans [OF _ fold_keeps]) auto

lemma hkeeps_fragmentacion: "hkeeps (fragmentacion E)"
  by (rule hkeepsI) (auto simp add: fragmentacion_def Let_def)

lemma hkeeps_detector: "hkeeps (detector_de_fragmentacion E)"
  by (rule hkeepsI)
     (auto simp add: detector_de_fragmentacion_def Let_def split: if_splits dest!: hkeepsD [OF hkeeps_fragmentacion] intro: keeps_trans [rotated])

lemma end_keeps:
  "end_fragmentacion E t = Inr s' \<Longrightarrow> keeps s t \<Longrightarrow> keeps s s'"
  "end_mezcla E t = Inr s' \<Longrightarrow> keeps s t \<Longrightarrow> keeps s s'"
  unfolding end_fragmentacion_def end_mezcla_def by (drule hkeepsD [OF hkeeps_register_rv], erule keeps_trans [rotated], simp)+

lemma keeps_far_move [simp]: "keeps s t \<Longrightarrow> keeps s (far_move E msg t)"
  by (simp add: far_move_def Let_def)

lemma keeps_far_step: "keeps s (fst (far_step E msg a b it (s, f)))"
  by (simp add: far_step_def)

lemma keeps_far_spread:
  assumes "far_spread E msg a b i t = Inr s'" and "keeps s t"
  shows "keeps s s'"
proof -
  obtain u f where uf: "(if prim_mask t \<noteq> i \<or> flag_neigh_by_second t
      then fold (far_step E msg a b) (neigh_table t) (t, False) else (t, False)) = (u, f)" by fastforce
  have "keeps t u"
    using fold_keeps_fst [of "far_step E msg a b" t "neigh_table t" False] keeps_far_step uf by (auto split: if_splits)
  then have "keeps s u" using assms(2) by (rule keeps_trans [rotated])
  then show ?thesis
    using assms(1) uf by (auto simp add: far_spread_def Let_def split: if_splits elim!: end_keeps(1))
qed

lemma hkeeps_process_far: "hkeeps (process_far E msg)"
proof (rule hkeepsI)
  fix s s' assume "process_far E msg s = Inr s'"
  then show "keeps s s'"
    by (auto simp add: process_far_def process_far_sec_def process_far_prim_def Let_def
        split: if_splits elim!: end_keeps(1) hkeeps_bind [OF hkeeps_tables(1)] keeps_far_spread)
qed

lemma hkeeps_process_fan: "hkeeps (process_fan E msg)"
  by (rule hkeepsI) (auto simp add: process_fan_def split: if_splits elim!: end_keeps(1))

lemma keeps_take_rcvd: "take_rcvd s = Inr (m, s') \<Longrightarrow> keeps s s'"
  by (auto simp add: take_rcvd_def split: option.splits if_splits)

lemma hkeeps_mezcla: "hkeeps (mezcla E d)"
  by (rule hkeepsI) (auto simp add: mezcla_def Let_def elim!: bind_InrE dest!: keeps_take_rcvd)

lemma keeps_mar1_from_default:
  assumes "mar1_from_default msg s = Inr (m, a, b, s')"
  shows "keeps s s'"
proof -
  define t where "t = fold (\<lambda>it. emit (Ndisc6 (n_prim_addr it))) (filter (\<lambda>it. p_src_addr msg = n_prim_addr it) (neigh_table s)) s"
  have kt: "keeps s t" unfolding t_def by (rule fold_keeps) simp
  from assms obtain u where u: "u = t \<or> (\<exists>hb. add_neighbor hb False t = Inr u)"
    and s': "s' = u\<lparr>neighbor_to_root := (neighbor_to_root u)\<lparr>nr_distance := 99\<rparr>, prim_mask_mezcla := prim_mask_inicial u\<rparr>"
    by (auto simp add: mar1_from_default_def Let_def t_def split: if_splits elim!: bind_InrE)
  from u kt have "keeps s u" by (auto dest: hkeepsD [OF hkeeps_tables(1)] intro: keeps_trans)
  with s' show ?thesis by simp
qed

lemma keeps_mar1_prepare: "mar1_prepare msg s = Inr (m, a, b, s') \<Longrightarrow> keeps s s'"
  by (auto simp add: mar1_prepare_def split: if_splits dest: keeps_mar1_from_default)

lemma keeps_mar1_step: "keeps s (fst (mar1_step E msg am fm a d it (s, fa)))"
  by (cases fa) (simp add: mar1_step_def Let_def)

lemma keeps_mar1_leaf:
  assumes "mar1_leaf E msg am t = Inr s'" and "keeps s t"
  shows "keeps s s'"
  using assms
  by (auto simp add: mar1_leaf_def Let_def split: if_splits elim!: end_keeps(2) hkeeps_bind [OF hkeeps_tables(1)])

lemma keeps_mar1_spread:
  assumes "mar1_spread E msg am c fm a u = Inr s'" and "keeps s u"
  shows "keeps s s'"
proof -
  define t where "t = u\<lparr>red_numero := a_red_numero (ad_addr msg), prim_mask := prim_mask u + a_mask (ad_addr msg) - (prim_mask_mezcla u - 1),
      prim_mask_inicial := a_mask (ad_addr msg) + 1 + (prim_mask_inicial u - prim_mask_mezcla u)\<rparr>"
  define v where "v = clear_rv_tables t"
  define d where "d = dist (root t) (self_neighbor t)"
  have kv: "keeps s v" using assms(2) by (simp add: v_def t_def)
  obtain w f x where w: "(if c \<or> flag_neigh_by_second v then fold (mar1_step E msg am fm a d) (neigh_table v) (v, False, a) else (v, False, a)) = (w, f, x)"
    by (metis prod_cases3)
  have e: "(if \<not> f then mar1_leaf E msg am w
        else Inr (send_man1 E (socket_global w) (prim_addr w) (p_prim_addr msg) (p_src_addr msg) (a_mask (ad_addr msg)) (red_numero w) w)) = Inr s'"
    using assms(1) w unfolding mar1_spread_def Let_def v_def d_def t_def by (simp cong: if_cong)
  have "keeps v (fst (fold (mar1_step E msg am fm a d) (neigh_table v) (v, False, a)))"
    by (rule fold_keeps_fst) (rule keeps_mar1_step)
  then have "keeps v w" using w by (auto split: if_splits)
  with kv have "keeps s w" by (rule keeps_trans)
  with e show ?thesis by (auto split: if_splits elim!: keeps_mar1_leaf)
qed

lemma hkeeps_process_mar1: "hkeeps (process_mar1 E msg)"
proof (rule hkeepsI)
  fix s s' assume r: "process_mar1 E msg s = Inr s'"
  show "keeps s s'"
  proof (cases "a_addr (ad_addr msg) = sec_addr s")
    case True
    then show ?thesis using r
      by (auto simp add: process_mar1_def process_mar1_sec_def Let_def borrar_rutas_def split: if_splits elim!: end_keeps(2) bind_InrE)
  next
    case False
    then obtain am c fm t where p: "mar1_prepare msg (s\<lparr>flag_mezcla := True, flag_mezcla_primaria := True\<rparr>) = Inr (am, c, fm, t)"
      and e: "mar1_spread E msg am (prim_mask s \<noteq> prim_mask_inicial s \<or> c) fm (prim_addr s) t = Inr s'"
      using r by (auto simp add: process_mar1_def process_mar1_prim_def Let_def elim!: bind_InrE)
    have "keeps s t" by (rule keeps_trans [OF _ keeps_mar1_prepare [OF p]]) simp
    with e show ?thesis by (rule keeps_mar1_spread)
  qed
qed

lemma keeps_mar2_step: "keeps s (fst (mar2_step E msg a b it (s, f)))"
  by (simp add: mar2_step_def Let_def)

lemma hkeeps_process_mar2: "hkeeps (process_mar2 E msg)"
proof (rule hkeepsI)
  fix s s' assume r: "process_mar2 E msg s = Inr s'"
  have "keeps t (fst (fold (mar2_step E msg a b) xs (t, f)))" for t a b xs f
    by (rule fold_keeps_fst) (rule keeps_mar2_step)
  then have f: "fold (mar2_step E msg a b) xs (t, f) = (u, g) \<Longrightarrow> keeps s t \<Longrightarrow> keeps s u" for t a b xs f u g
    by (metis fst_conv keeps_trans)
  show "keeps s s'" using r
    by (auto simp add: process_mar2_def process_mar2_sec_def process_mar2_prim_def Let_def borrar_rutas_def
        split: if_splits prod.splits elim!: end_keeps(2) bind_InrE dest!: f)
qed

lemma hkeeps_man: "hkeeps (process_man1 E msg)" "hkeeps (process_man2 E msg)"
proof -
  show "hkeeps (process_man1 E msg)"
    by (rule hkeepsI) (auto simp add: process_man1_def Let_def split: if_splits elim!: end_keeps(2))
  show "hkeeps (process_man2 E msg)"
    by (rule hkeepsI) (auto simp add: process_man2_def Let_def split: if_splits elim!: end_keeps(2))
qed

section \<open>Heart beats, reception and timers\<close>

lemma hkeeps_detector_mezcla: "detector_de_mezcla E hb s = Inr (k, s') \<Longrightarrow> keeps s s'"
  by (auto simp add: detector_de_mezcla_def split: if_splits elim!: bind_InrE dest: hkeepsD [OF hkeeps_mezcla])

lemma hkeeps_hb_enter: "hkeeps (hb_enter E hb f)"
proof (rule hkeepsI)
  fix s s' assume r: "hb_enter E hb f s = Inr s'"
  have k: "keeps s (init_neigh_table E s)" by simp
  from r obtain aux where "find_neighbor (p_prim_addr hb) (neigh_table (init_neigh_table E s)) = Inr aux"
    by (auto simp add: hb_enter_def Let_def elim: bind_InrE)
  with r k show "keeps s s'"
    by (cases aux)
       (auto simp add: hb_enter_def Let_def elim!: bind_InrE dest!: hkeepsD [OF hkeeps_tables(1)] hkeepsD [OF hkeeps_detector]
         intro: keeps_trans [OF keeps_update(16) [OF k]] keeps_trans [OF k] keeps_trans [OF keeps_trans [OF k]])
qed

lemma hkeeps_hb_own_net: "hkeeps (hb_own_net E hb)"
  by (rule hkeepsI) (auto simp add: hb_own_net_def Let_def split: if_splits dest: hkeepsD [OF hkeeps_hb_enter])

lemma hkeeps_process_hb: "hkeeps (process_hb E hb)"
  by (rule hkeepsI)
     (auto simp add: process_hb_def split: if_splits elim!: bind_InrE
       dest!: hkeeps_detector_mezcla hkeepsD [OF hkeeps_hb_own_net] intro: keeps_trans)

lemma keeps_send_hb [simp]: "keeps s (send_hb E sk timer s)"
  by (simp add: send_hb_def hb_checks_def Let_def)

lemma keeps_check_loop: "check_loop dn xs s = Inr s' \<Longrightarrow> keeps s s'"
proof (induction xs arbitrary: dn s)
  case Nil
  then show ?case by auto
next
  case (Cons it rest)
  obtain dn' t where "check_loop dn' rest t = Inr s'" "keeps s t"
    using Cons.prems by (simp add: Let_def split: if_splits) (auto elim!: bind_InrE split: if_splits)
  then show ?case using Cons.IH keeps_trans by blast
qed

lemma hkeeps_check_neighbors: "hkeeps check_neighbors"
  by (rule hkeepsI) (auto simp add: check_neighbors_def elim!: bind_InrE dest: keeps_check_loop)

lemma hkeeps_send_pap: "hkeeps (send_pap E sk a)"
proof (rule hkeepsI)
  fix s s' assume "send_pap E sk a s = Inr s'"
  then show "keeps s s'"
    by (auto simp add: send_pap_def Let_def keeps_def io_defs split: if_splits elim!: bind_InrE)
qed

lemma keeps_send_panc [simp]: "keeps s (send_panc E sk a p c s)"
  by (simp add: send_panc_def Let_def split: option.split)

lemma keeps_give_up [simp]: "keeps s t \<Longrightarrow> keeps s (mar1_give_up msg t)"
  by (simp add: mar1_give_up_def Let_def)

lemma hkeeps_process_ctrl: "hkeeps (process_ctrl E fd msg)"
  by (rule hkeepsI)
     (auto simp add: process_ctrl_def Let_def split: if_splits
       dest!: hkeepsD [OF hkeeps_send_pap] hkeepsD [OF hkeeps_process_hb] hkeepsD [OF hkeeps_secondary(1)]
         hkeepsD [OF hkeeps_secondary(2)] hkeepsD [OF hkeeps_process_far] hkeepsD [OF hkeeps_process_fan]
         hkeepsD [OF hkeeps_process_mar1] hkeepsD [OF hkeeps_process_mar2]
         hkeepsD [OF hkeeps_man(1)] hkeepsD [OF hkeeps_man(2)]
       intro: keeps_trans [OF keeps_give_up [OF keeps_refl]])

lemma hkeeps_dns_reply: "hkeeps (dns_reply E m)"
  by (rule hkeepsI)
     (auto simp add: dns_reply_def keeps_def antop_socket_send_bytes_def Let_def split: option.splits if_splits elim!: bind_InrE)

lemma hkeeps_process_rv: "hkeeps (process_rv E fd msg)"
  by (rule hkeepsI)
     (auto simp add: process_rv_def answer_dns_query_def split: if_splits dest: hkeepsD [OF hkeeps_rv]
       hkeepsD [OF hkeeps_tables(3)] hkeepsD [OF hkeeps_dns_reply])

lemma hkeeps_daemon_event: "hkeeps (daemon_event E ev)"
  by (rule hkeepsI)
     (auto simp add: daemon_event_def antop_socket_read_def antop_process_pkt_def timer_handler_of_def
       split: event.splits rx.splits packet.splits if_splits timer_id.splits elim!: bind_InrE
       dest: hkeepsD [OF hkeeps_process_ctrl] hkeepsD [OF hkeeps_process_rv] hkeepsD [OF hkeeps_check_neighbors]
         hkeepsD [OF hkeeps_register_rv])

lemma keeps_run: "daemon_run s s' \<Longrightarrow> keeps s s'"
  by (induction rule: daemon_run.induct) (auto dest: hkeepsD [OF hkeeps_daemon_event] intro: keeps_trans)

section \<open>What no event changes\<close>

text \<open>C28: No sequence of messages and timers changes the configuration of a node (root address,
  dimension, name, socket) or undoes an effect; and once an address among the recovered ones has been offered,
  it stays the recorded offer for ever, so that every later request is answered with the child address of
  the node, never with another recovered address.\<close>

theorem daemon_run_keeps:
  assumes "daemon_run s s'"
  shows "root s' = root s \<and> dir_default s' = dir_default s \<and> univ_addr s' = univ_addr s \<and> hc_dim s' = hc_dim s \<and>
    socket_global s' = socket_global s \<and> prim_addr_flag s' = prim_addr_flag s \<and> (\<exists>es. trace s' = trace s @ es) \<and>
    (\<forall>a E fd src. rcvd_offered s = Some a \<longrightarrow> unat (prim_mask s') < hc_dim s \<longrightarrow> hc_dim s \<le> 64 \<longrightarrow>
      rcvd_offered s' = Some a \<and> send_pap E fd src s' = Inr (antop_socket_send E (Ctrl (child_pap E s')) src fd ANTOP_PORT s'))"
proof -
  have k: "keeps s s'" using assms by (rule keeps_run)
  have "send_pap E fd src s' = Inr (antop_socket_send E (Ctrl (child_pap E s')) src fd ANTOP_PORT s')"
    if "rcvd_offered s' = Some a" and "unat (prim_mask s') < hc_dim s'" and "hc_dim s' \<le> 64" for a E fd src
    using that by (simp add: send_pap_def child_pap_def split_addr_ok Let_def)
  with k show ?thesis by (simp add: keeps_def)
qed

theorem daemon_run_keeps_witness:
  "\<exists>s'. daemon_run (sample_node\<lparr>rcvd_offered := Some zero_addr\<rparr>) s' \<and> rcvd_offered s' = Some zero_addr \<and>
     trace s' \<noteq> [] \<and> root s' = net_root"
proof -
  let ?s = "sample_node\<lparr>rcvd_offered := Some zero_addr\<rparr>"
  have e: "daemon_event sample_env (Timeout Hb_T) ?s = Inr (send_hb sample_env (socket_global ?s) True ?s)"
    by (simp add: daemon_event_def timer_handler_of_def)
  have r: "daemon_run ?s (send_hb sample_env (socket_global ?s) True ?s)"
    by (rule run_event [OF run_start e])
  have "prim_mask (send_hb sample_env (socket_global ?s) True ?s) = 0"
    and "trace (send_hb sample_env (socket_global ?s) True ?s) \<noteq> []"
    by (simp_all add: send_hb_def hb_checks_def check_if_i_am_only_def check_neigh_of_secondary_address_def
        check_n_s_l_table_def arm_timer_def antop_socket_send_def Let_def)
  with daemon_run_keeps [OF r] r show ?thesis by (intro exI [of _ "send_hb sample_env (socket_global ?s) True ?s"]) simp
qed

section \<open>A node that waits\<close>

definition busy :: "node \<Rightarrow> bool" where
  "busy s \<longleftrightarrow> flag_fragmentacion s \<or> flag_mezcla s"

text \<open>Events that reach a node from neighbours that have nothing to do with the fragmentation or the merge.\<close>

definition unrelated :: "event \<Rightarrow> bool" where
  "unrelated ev = (case ev of
     Timeout t \<Rightarrow> True
   | Message r \<Rightarrow> (case r of Rx (Ctrl m) moveon \<Rightarrow> pkt_type_f m = HB \<or> pkt_type_f m = SAP \<or> pkt_type_f m = PAP
                   | Rx (Rv m) moveon \<Rightarrow> False | Rx_Error \<Rightarrow> True))"

fun daemon_events :: "(env \<times> event) list \<Rightarrow> handler" where
  "daemon_events [] s = Inr s"
| "daemon_events ((E, ev) # evs) s = bind (daemon_event E ev s) (daemon_events evs)"

text \<open>The part of the state the wait leaves alone, and that nothing is sent.\<close>

definition idle_step :: "node \<Rightarrow> node \<Rightarrow> bool" where
  "idle_step s s' \<longleftrightarrow> flag_fragmentacion s' = flag_fragmentacion s \<and> flag_mezcla s' = flag_mezcla s \<and>
     prim_addr s' = prim_addr s \<and> red_numero s' = red_numero s \<and> prim_mask s' = prim_mask s \<and>
     (\<exists>es. trace s' = trace s @ es \<and> (\<forall>e\<in>set es. \<exists>t ms. e = Arm_Timer t ms))"

lemma idle_refl [simp]: "idle_step s s"
  by (simp add: idle_step_def)

lemma idle_trans: "idle_step s t \<Longrightarrow> idle_step t u \<Longrightarrow> idle_step s u"
  by (auto simp add: idle_step_def)

lemma idle_arm [simp]: "idle_step s (arm_timer t ms s)"
  by (simp add: idle_step_def arm_timer_def)

lemma idle_tables [simp]:
  "idle_step s (snd (delete_neighbor n (s\<lparr>neigh_table := tab\<rparr>)))"
  "idle_step s (snd (delete_neighbor n (recover_addr_space m s\<lparr>neigh_table := tab\<rparr>)))"
  by (simp_all add: delete_neighbor_def rv_table_delete_def recover_addr_space_def idle_step_def)

lemma idle_check_loop: "check_loop dn xs s = Inr s' \<Longrightarrow> idle_step s s'"
proof (induction xs arbitrary: dn s)
  case Nil
  then show ?case by (auto simp add: idle_step_def)
next
  case (Cons it rest)
  obtain dn' t where "check_loop dn' rest t = Inr s'" "idle_step s t"
    using Cons.prems by (simp add: Let_def split: if_splits) (auto elim!: bind_InrE split: if_splits)
  then show ?case using Cons.IH idle_trans by blast
qed

lemma idle_event:
  assumes "busy s" and "unrelated ev" and "daemon_event E ev s = Inr s'"
  shows "idle_step s s'"
proof (cases ev)
  case (Timeout t)
  have "idle_step s (send_hb E sk True s)" for sk
    using assms(1) by (auto simp add: busy_def send_hb_def hb_checks_def Let_def arm_timer_def idle_step_def)
  moreover have "idle_step s (san_t_handler s)" by (simp add: san_t_handler_def idle_step_def)
  moreover have "idle_step s s'" if "check_neighbors s = Inr s'"
    using that by (auto simp add: check_neighbors_def elim!: bind_InrE dest!: idle_check_loop intro: idle_trans)
  moreover have "register_rv E s = Inr s" using assms(1) by (auto simp add: busy_def register_rv_def)
  ultimately show ?thesis
    using assms(3) Timeout by (auto simp add: daemon_event_def timer_handler_of_def split: timer_id.splits)
next
  case (Message r)
  then show ?thesis using assms
    by (auto simp add: unrelated_def daemon_event_def antop_socket_read_def antop_process_pkt_def process_ctrl_def busy_def
        packet_type_defs split: rx.splits packet.splits if_splits elim!: bind_InrE)
qed

text \<open>All events but the messages of the fragmentation and of the merge, to which the confirmations belong.\<close>

definition other_event :: "event \<Rightarrow> bool" where
  "other_event ev = (case ev of
     Timeout t \<Rightarrow> True
   | Message r \<Rightarrow> (case r of Rx (Ctrl m) moveon \<Rightarrow> pkt_type_f m \<notin> {FAR, FAN, MAR1, MAR2, MAN1, MAN2}
                   | Rx (Rv m) moveon \<Rightarrow> True | Rx_Error \<Rightarrow> True))"

definition same_wait :: "node \<Rightarrow> node \<Rightarrow> bool" where
  "same_wait s s' \<longleftrightarrow> flag_fragmentacion s' = flag_fragmentacion s \<and> flag_mezcla s' = flag_mezcla s \<and>
     prim_addr s' = prim_addr s \<and> red_numero s' = red_numero s"

lemma same_wait_refl [simp]: "same_wait s s" and same_wait_trans: "same_wait s t \<Longrightarrow> same_wait t u \<Longrightarrow> same_wait s u"
  by (simp_all add: same_wait_def)

lemma idle_same_wait: "idle_step s s' \<Longrightarrow> same_wait s s'"
  by (simp add: idle_step_def same_wait_def)

lemma same_wait_handlers:
  "send_pap E fd src s = Inr s' \<Longrightarrow> same_wait s s'" "same_wait s (send_panc E fd src a b s)"
  "process_san1 msg s = Inr s' \<Longrightarrow> same_wait s s'"
proof -
  show "send_pap E fd src s = Inr s' \<Longrightarrow> same_wait s s'"
    by (auto simp add: same_wait_def send_pap_def Let_def io_defs split: if_splits elim!: bind_InrE)
  show "same_wait s (send_panc E fd src a b s)"
    by (auto simp add: same_wait_def send_panc_def del_rcvd_addr_table_def Let_def io_defs split: option.split)
  show "process_san1 msg s = Inr s' \<Longrightarrow> same_wait s s'"
    by (auto simp add: same_wait_def process_san1_def add_neighbor_def del_rcvd_addr_table_def Let_def io_defs split: if_splits elim!: bind_InrE)
qed

lemma same_wait_rv: "process_rv E fd m s = Inr s' \<Longrightarrow> same_wait s s'"
proof -
  have "rv_table_add m s = Inr s' \<Longrightarrow> same_wait s s'" "answer_rv_query E m fd s = Inr s' \<Longrightarrow> same_wait s s'"
    by (auto simp add: same_wait_def rv_table_add_def answer_rv_query_def Let_def io_defs split: if_splits elim!: bind_InrE)
  moreover have "dns_reply E m s = Inr s' \<Longrightarrow> same_wait s s'"
    by (auto simp add: same_wait_def dns_reply_def antop_socket_send_bytes_def Let_def emit_def split: if_splits option.splits elim!: bind_InrE)
  ultimately show "process_rv E fd m s = Inr s' \<Longrightarrow> same_wait s s'"
    by (auto simp add: process_rv_def answer_dns_query_def split: if_splits)
qed

lemma same_wait_event:
  assumes "busy s" and "other_event ev" and "daemon_event E ev s = Inr s'"
  shows "same_wait s s'"
proof (cases "unrelated ev")
  case True
  with assms show ?thesis by (intro idle_same_wait idle_event)
next
  case False
  then obtain p mo where ev: "ev = Message (Rx p mo)" by (cases ev) (auto simp add: unrelated_def split: rx.splits)
  show ?thesis
  proof (cases p)
    case (Rv m)
    then show ?thesis using assms(3) same_wait_rv
      by (auto simp add: ev daemon_event_def antop_socket_read_def antop_process_pkt_def split: if_splits elim!: bind_InrE)
  next
    case (Ctrl m)
    have "same_wait s t" if "process_ctrl E fd m s = Inr t" for fd t
      using that assms(1,2) same_wait_handlers
      by (auto simp add: process_ctrl_def ev Ctrl other_event_def busy_def Let_def split: if_splits)
    then show ?thesis using assms(3)
      by (auto simp add: ev Ctrl daemon_event_def antop_socket_read_def antop_process_pkt_def split: if_splits elim!: bind_InrE)
  qed
qed

text \<open>C7: A node that fragments or merges waits for a message of the fragmentation or the merge: as long as none arrives, that is
  if a confirmation is lost, it stays busy with the same address and network number, whatever timers expire and whatever other
  messages arrive, in whatever number. If these are only heart beats, proposals of secondary addresses and stray PAPs, then it also keeps
  its mask and sends nothing at all, it only re-arms timers: no timer ends the wait, and its neighbours do not hear of it. It does
  still answer when it is asked: requests and announcements of newcomers (PAR, PAN) and lookups at its rendezvous table.\<close>

theorem busy_node_waits:
  assumes "busy s" and "\<forall>(E, ev)\<in>set evs. other_event ev" and "daemon_events evs s = Inr s'"
  shows "busy s' \<and> prim_addr s' = prim_addr s \<and> red_numero s' = red_numero s \<and>
    ((\<forall>(E, ev)\<in>set evs. unrelated ev) \<longrightarrow> prim_mask s' = prim_mask s \<and>
       (\<exists>es. trace s' = trace s @ es \<and> (\<forall>e\<in>set es. \<exists>t ms. e = Arm_Timer t ms)))"
proof -
  have "same_wait s s' \<and> busy s' \<and> ((\<forall>(E, ev)\<in>set evs. unrelated ev) \<longrightarrow> idle_step s s')" using assms
  proof (induction evs arbitrary: s)
    case (Cons ee evs)
    obtain E ev where ee: "ee = (E, ev)" by fastforce
    with Cons.prems obtain t where t: "daemon_event E ev s = Inr t" "daemon_events evs t = Inr s'"
      by (auto elim!: bind_InrE)
    have w: "same_wait s t" using Cons.prems ee t(1) by (intro same_wait_event) auto
    then have "busy t" using Cons.prems(1) by (auto simp add: same_wait_def busy_def)
    moreover have "unrelated ev \<Longrightarrow> idle_step s t" using Cons.prems(1) t(1) by (intro idle_event)
    ultimately show ?case using Cons.IH [of t] Cons.prems(2) t(2) w same_wait_trans idle_trans ee by auto
  qed simp
  then show ?thesis by (simp add: same_wait_def idle_step_def)
qed

theorem busy_node_waits_witness:
  "\<exists>s'. daemon_events [(sample_env, Timeout Hb_T), (sample_env, Message (Rx (Ctrl (null_ctrl\<lparr>pkt_type_f := HB\<rparr>)) True)),
      (sample_env, Timeout Rv_T)] (sample_node\<lparr>flag_fragmentacion := True\<rparr>) = Inr s' \<and>
     busy s' \<and> prim_addr s' = net_root"
proof -
  let ?s = "sample_node\<lparr>flag_fragmentacion := True\<rparr>"
  let ?evs = "[(sample_env, Timeout Hb_T), (sample_env, Message (Rx (Ctrl (null_ctrl\<lparr>pkt_type_f := HB\<rparr>)) True)), (sample_env, Timeout Rv_T)]"
  have "daemon_events ?evs ?s = Inr (arm_timer Hb_T T_HB ?s)"
    by (simp add: daemon_event_def timer_handler_of_def send_hb_def hb_checks_def Let_def arm_timer_def
        antop_socket_read_def antop_process_pkt_def process_ctrl_def packet_type_defs register_rv_def)
  moreover from busy_node_waits [OF _ _ this] have "busy (arm_timer Hb_T T_HB ?s)"
    by (simp add: busy_def other_event_def packet_type_defs)
  ultimately show ?thesis by (auto simp add: arm_timer_def)
qed

section \<open>The timers\<close>

text \<open>The heart beat goes on: its timer always returns and arms itself again. Of the other
  periodic timers, the neighbour check arms itself again whenever \<open>check_succesor\<close> ends on the expired neighbours,
  and the registration whenever the node is not busy, its dimension fits the cube and its name the message.\<close>

theorem timers_rearmed:
  "(\<exists>s' es. daemon_event E (Timeout Hb_T) s = Inr s' \<and> trace s' = trace s @ es \<and> Arm_Timer Hb_T T_HB \<in> set es) \<and>
   (distinct (map n_prim_addr (neigh_table s)) \<longrightarrow>
    (\<forall>n\<in>set (neigh_table s). expired n \<longrightarrow> (\<exists>c. check_succesor (prim_addr s) n = Inr c)) \<longrightarrow>
      (\<exists>s'. daemon_event E (Timeout Chk_Neigh_T) s = Inr s' \<and> trace s' = trace s @ [Arm_Timer Chk_Neigh_T T_LHB])) \<and>
   (\<not> busy s \<longrightarrow> hc_dim s \<le> 64 \<longrightarrow> univ_addr s \<noteq> [] \<longrightarrow> length (univ_addr s) \<le> length (rv_univ_addr (rv_junk E)) \<longrightarrow>
      (\<exists>s' es. daemon_event E (Timeout Rv_T) s = Inr s' \<and> trace s' = trace s @ es \<and> Arm_Timer Rv_T T_RV \<in> set es))"
proof (intro conjI impI)
  define t where "t = hb_checks E s"
  have "keeps s t" by (simp add: t_def hb_checks_def)
  then obtain es0 where t: "trace t = trace s @ es0" by (auto simp add: keeps_def)
  have "keeps (arm_timer Hb_T T_HB t) (send_hb E (socket_global s) True s)"
    by (simp add: send_hb_def t_def [symmetric] Let_def)
  then obtain es1 where "trace (send_hb E (socket_global s) True s) = trace s @ (es0 @ Arm_Timer Hb_T T_HB # es1)"
    using t by (auto simp add: keeps_def arm_timer_def)
  then show "\<exists>s' es. daemon_event E (Timeout Hb_T) s = Inr s' \<and> trace s' = trace s @ es \<and> Arm_Timer Hb_T T_HB \<in> set es"
    by (simp add: daemon_event_def timer_handler_of_def)
next
  assume "distinct (map n_prim_addr (neigh_table s))"
    and "\<forall>n\<in>set (neigh_table s). expired n \<longrightarrow> (\<exists>c. check_succesor (prim_addr s) n = Inr c)"
  then show "\<exists>s'. daemon_event E (Timeout Chk_Neigh_T) s = Inr s' \<and> trace s' = trace s @ [Arm_Timer Chk_Neigh_T T_LHB]"
    using check_loop_result [of "[]" "neigh_table s" s]
    by (auto simp add: daemon_event_def timer_handler_of_def check_neighbors_def arm_timer_def)
next
  assume a: "\<not> busy s" "hc_dim s \<le> 64" "univ_addr s \<noteq> []" "length (univ_addr s) \<le> length (rv_univ_addr (rv_junk E))"
  then obtain s' where r: "register_rv E s = Inr s'" using register_rv_total by blast
  show "\<exists>s' es. daemon_event E (Timeout Rv_T) s = Inr s' \<and> trace s' = trace s @ es \<and> Arm_Timer Rv_T T_RV \<in> set es"
    by (rule register_rv_shape [OF r]) (use a r in \<open>auto simp add: busy_def daemon_event_def timer_handler_of_def\<close>)
qed

theorem timers_rearmed_witness:
  "\<exists>s1 s2 s3. daemon_event sample_env (Timeout Hb_T) sample_node = Inr s1 \<and>
     daemon_event sample_env (Timeout Chk_Neigh_T) sample_node = Inr s2 \<and> trace s2 = [Arm_Timer Chk_Neigh_T T_LHB] \<and>
     daemon_event sample_env (Timeout Rv_T) sample_node = Inr s3"
  using timers_rearmed [of sample_env sample_node] by (auto simp add: busy_def)

section \<open>A node that has lost its neighbours\<close>

text \<open>A node that has a secondary address and loses all its neighbours goes back to the
  root address at its next heart beat, but \<open>check_if_i_am_only\<close> leaves \<open>sec_addr_flag\<close> set: the clean-up of
  secondary addresses that follows takes one from the mask it has just reset, which wraps to 255.
  Every later request for an address is then answered with mask 0, no address at all.\<close>

theorem lonely_node_mask_wraps:
  assumes "neigh_table s = []" and "prim_addr s \<noteq> root s" and "sec_addr_flag s" and "\<not> busy s"
    and "hc_dim s \<le> 64" and "s' = send_hb E sk timer s"
  shows "prim_addr s' = root s \<and> prim_mask s' = 255 \<and> \<not> sec_addr_flag s' \<and>
    (\<forall>s'' E' src fd. antop_process_pkt E fd (Ctrl (par_msg E' src)) s' = Inr s'' \<longrightarrow>
      (\<exists>m. last_sent s'' = Some m \<and> a_mask (ad_addr m) = 0))"
proof -
  define u where "u = check_if_i_am_only E s"
  have u: "prim_addr u = root s" "prim_mask u = 0" "sec_mask u = 0" "sec_addr_flag u" "neigh_table u = []" "rcvd_addr u = []"
    "hc_dim u = hc_dim s" "\<not> flag_fragmentacion u" "\<not> flag_mezcla u"
    using assms(1-4) by (simp_all add: u_def check_if_i_am_only_def del_and_addnew_def io_defs busy_def)
  define v where "v = check_neigh_of_secondary_address u"
  have v: "prim_addr v = root s" "prim_mask v = 255" "\<not> sec_addr_flag v" "rcvd_addr v = []" "hc_dim v = hc_dim s"
    "\<not> flag_fragmentacion v" "\<not> flag_mezcla v"
    using u by (simp_all add: v_def check_neigh_of_secondary_address_def Let_def io_defs)
  have c: "hb_checks E s = check_n_s_l_table v"
    using assms(4) by (simp add: hb_checks_def busy_def u_def v_def)
  have s': "prim_addr s' = root s" "prim_mask s' = 255" "\<not> sec_addr_flag s'" "rcvd_addr s' = []" "hc_dim s' = hc_dim s"
    using v by (simp_all add: assms(6) send_hb_def c check_n_s_l_table_def check_n_s_l_loop_id Let_def io_defs)
  have "hc_dim s' \<le> unat (prim_mask s')" using assms(5) s' by simp
  with s' process_par_full [of s'] show ?thesis by blast
qed

theorem lonely_node_mask_wraps_witness:
  "prim_mask (send_hb sample_env 3 True (sample_node\<lparr>prim_addr := net_default, sec_addr_flag := True\<rparr>)) = 255"
proof -
  let ?s = "sample_node\<lparr>prim_addr := net_default, sec_addr_flag := True\<rparr>"
  have "net_default \<noteq> net_root" by (simp add: net_default_def net_root_def)
  then show ?thesis using lonely_node_mask_wraps [of ?s _ sample_env 3 True] by (simp add: busy_def)
qed

section \<open>Getting an address from a full network\<close>

definition full_pap :: "rx \<Rightarrow> bool" where
  "full_pap r = (case r of Rx (Ctrl m) moveon \<Rightarrow> pkt_type_f m = PAP \<and> a_mask (ad_addr m) = 0 | _ \<Rightarrow> False)"

lemma receive_full_pap:
  assumes "full_pap r"
  shows "\<exists>red. receive_pap E sk r s = Inr (1, s\<lparr>red_numero := red\<rparr>)"
proof -
  obtain m b where "r = Rx (Ctrl m) b" "pkt_type_f m = PAP" "a_mask (ad_addr m) = 0"
    using assms by (auto simp add: full_pap_def split: rx.splits packet.splits)
  then show ?thesis
    by (auto simp add: receive_pap_def antop_socket_read_def antop_process_pkt_def process_ctrl_def packet_type_defs Let_def)
qed

lemma collect_full_paps:
  "\<forall>r\<in>set rs. full_pap r \<Longrightarrow> \<exists>red. collect_paps E sk rs 0 [] s = Inr (0, [], False, s\<lparr>red_numero := red\<rparr>)"
proof (induction rs arbitrary: s)
  case Nil
  show ?case by (simp, rule exI [of _ "red_numero s"]) simp
next
  case (Cons r rs)
  obtain red1 where "receive_pap E sk r s = Inr (1, s\<lparr>red_numero := red1\<rparr>)" using receive_full_pap Cons.prems by fastforce
  moreover obtain red2 where "collect_paps E sk rs 0 [] (s\<lparr>red_numero := red1\<rparr>) = Inr (0, [], False, s\<lparr>red_numero := red2\<rparr>)"
    using Cons.IH [of "s\<lparr>red_numero := red1\<rparr>"] Cons.prems by auto
  ultimately show ?case by (simp add: MAX_RCVD_PAP_def, intro exI [of _ red2]) simp
qed

text \<open>A newcomer that is answered only by full nodes (proposals with mask 0), or
  by nobody, does not learn that no address is available: it takes the root address of the network that has just answered
  it, with an empty mask, and the network number of its own interface.\<close>

theorem full_network_is_split:
  assumes "\<forall>r\<in>set paps. full_pap r"
  shows "\<exists>s'. get_prim_addr E src sk ((paps, reply) # rounds) s = Inr (Some NULL_ADDR_SET, s') \<and>
    prim_addr s' = prim_addr s \<and> prim_mask s' = 0 \<and> prim_mask_inicial s' = 0 \<and> red_numero s' = word_of_int (mac_address E) \<and>
    last (trace s') = Set_If_Addr (prim_addr s)"
proof -
  obtain red where "collect_paps E sk paps 0 [] (send_par E src sk s) = Inr (0, [], False, send_par E src sk s\<lparr>red_numero := red\<rparr>)"
    using collect_full_paps [OF assms] by blast
  then show ?thesis by (simp add: NO_ADDR_AVLB_def Let_def send_par_msg io_defs emit_def)
qed

theorem full_network_is_split_witness:
  "\<exists>s'. get_prim_addr sample_env zero_addr 3 [([Rx (Ctrl (null_ctrl\<lparr>pkt_type_f := PAP\<rparr>)) True], None)] sample_node =
     Inr (Some NULL_ADDR_SET, s') \<and> prim_addr s' = net_root"
  using full_network_is_split [of "[Rx (Ctrl (null_ctrl\<lparr>pkt_type_f := PAP\<rparr>)) True]" sample_env zero_addr 3 None "[]" sample_node]
  by (auto simp add: full_pap_def null_ctrl_def)

section \<open>Heart beats of neighbours\<close>

lemma refresh_filter:
  "filter (\<lambda>n. n_prim_addr n \<noteq> a) (refresh_neighbor a msk xs) = filter (\<lambda>n. n_prim_addr n \<noteq> a) xs"
  "map n_prim_addr (refresh_neighbor a msk xs) = map n_prim_addr xs"
  by (induction xs) auto

lemma refresh_found:
  assumes "a \<in> n_prim_addr ` set xs"
  shows "\<exists>n\<in>set (refresh_neighbor a msk xs). n_prim_addr n = a \<and> n_count n = 0 \<and> n_prim_mask n = msk"
  using assms by (induction xs) auto

lemma detector_keeps_table:
  assumes "prim_addr s = root s \<or> ping6 E (root s) \<noteq> 0"
  shows "\<exists>nr. detector_de_fragmentacion E s = Inr (s\<lparr>neighbor_to_root := nr\<rparr>)"
proof (cases "prim_addr s = root s")
  case True
  then show ?thesis by (simp add: detector_de_fragmentacion_def, intro exI [of _ "neighbor_to_root s"]) simp
next
  case False
  with assms have "detector_de_fragmentacion E s = Inr (s\<lparr>neighbor_to_root := closest_to_root s\<rparr>)"
    by (auto simp add: detector_de_fragmentacion_def Let_def)
  then show ?thesis ..
qed

text \<open>The table after a heart beat, when the detector leaves it alone.\<close>

lemma hb_enter_table:
  assumes "(bind (find_neighbor (p_prim_addr hb) (neigh_table t)) (\<lambda>aux. case aux of None \<Rightarrow> add_neighbor hb False t
      | Some _ \<Rightarrow> Inr (t\<lparr>neigh_table := refresh_neighbor (p_prim_addr hb) (a_mask (ad_addr hb)) (neigh_table t)\<rparr>))) =
        Inr (t\<lparr>neigh_table := tab\<rparr>)"
    and "t = init_neigh_table E s" and "prim_addr s = root s \<or> ping6 E (root s) \<noteq> 0"
  shows "\<exists>s'. hb_enter E hb False s = Inr s' \<and> neigh_table s' = tab"
proof -
  have "prim_addr (t\<lparr>neigh_table := tab\<rparr>) = root (t\<lparr>neigh_table := tab\<rparr>) \<or> ping6 E (root (t\<lparr>neigh_table := tab\<rparr>)) \<noteq> 0"
    using assms(2,3) by (simp add: init_neigh_table_def)
  then obtain nr where "detector_de_fragmentacion E (t\<lparr>neigh_table := tab\<rparr>) = Inr (t\<lparr>neigh_table := tab, neighbor_to_root := nr\<rparr>)"
    using detector_keeps_table by blast
  moreover from assms(1) obtain aux where "find_neighbor (p_prim_addr hb) (neigh_table t) = Inr aux" by (auto elim: bind_InrE)
  ultimately show ?thesis using assms(1)
    by (cases aux) (simp_all add: hb_enter_def assms(2) [symmetric] Let_def)
qed

lemma init_neigh_table_ok:
  assumes "distinct (map n_prim_addr (neigh_table s))" and "neigh_tab.well_formed (neigh_table s)" and "t = init_neigh_table E s"
  shows "neigh_table t \<noteq> []" "distinct (map n_prim_addr (neigh_table t))" "neigh_tab.well_formed (neigh_table t)"
    "neigh_tab.entries (neigh_table t) = neigh_tab.entries (neigh_table s)"
  using assms by (auto simp add: init_neigh_table_def neigh_tab.well_formed_def neigh_tab.entries_def)

lemma entries_filter:
  "filter (\<lambda>n. n_prim_addr n \<noteq> b) (neigh_tab.entries xs) = neigh_tab.entries (filter (\<lambda>n. n_prim_addr n \<noteq> b) xs)"
  by (simp add: neigh_tab.entries_def conj_commute)

lemma find_neighbor_known:
  assumes "b \<in> n_prim_addr ` set tab" and "neigh_tab.well_formed tab" and "b \<noteq> zero_addr"
  shows "\<exists>n. find_neighbor b tab = Inr (Some n)"
proof -
  obtain x rest where tab: "tab = x # rest" using assms(1) by (cases tab) auto
  then have "n_prim_addr x \<noteq> zero_addr" using assms by (auto simp add: neigh_tab.well_formed_def)
  moreover obtain n where "find (\<lambda>it. n_prim_addr it = b) tab = Some n"
    using assms(1) by (cases "find (\<lambda>it. n_prim_addr it = b) tab") (auto simp add: find_None_iff)
  ultimately show ?thesis using tab by (simp add: find_neighbor_def)
qed

text \<open>The sender is new: it takes the place of the sentinel or goes to the end.\<close>

lemma insert_new_neighbor:
  assumes "b \<notin> n_prim_addr ` set tab" and "neigh_tab.well_formed tab" and "tab \<noteq> []" and "distinct (map n_prim_addr tab)"
    and "n_prim_addr n = b" and "b \<noteq> zero_addr"
  shows "\<exists>tab'. find_neighbor b tab = Inr None \<and> neigh_insert n tab = Inr tab' \<and> n \<in> set tab' \<and> distinct (map n_prim_addr tab') \<and>
    neigh_tab.entries tab' = neigh_tab.entries tab @ [n]"
proof -
  obtain x rest where tab: "tab = x # rest" using assms(3) by (cases tab) auto
  obtain tab' where ins: "neigh_insert n tab = Inr tab'" using neigh_tab.ins_total [OF assms(3)] by blast
  have "find_neighbor b tab = Inr None" using assms(1) tab by (auto simp add: find_neighbor_def find_None_iff)
  moreover have "n \<in> set tab'" "distinct (map n_prim_addr tab')"
    using ins assms(1,4,5) by (auto simp add: neigh_insert_def tab split: if_splits)
  ultimately show ?thesis using ins neigh_tab.entries_ins(1) [OF assms(2) _ ins] assms(5,6) by auto
qed

text \<open>C11: A node that neither fragments nor merges processes a heart beat of its own network from a node at
  distance 1 without a fault: it enters the sender once or refreshes its entry (count 0, the mask it announces), and changes no other
  entry. The root is this node or answers the ping of the detector of fragmentation (otherwise the node fragments and empties the
  table); the sender has not the address of the node's secondary link nor the null address; and the table holds no address twice and is
  well formed.\<close>

theorem heart_beat_recorded:
  assumes "\<not> busy s" and "a_red_numero (ad_addr hb) = red_numero s" and "p_prim_addr hb = b"
    and "hamming (prim_addr s) b = 1" and "b \<noteq> sec_addr s" and "b \<noteq> zero_addr"
    and "distinct (map n_prim_addr (neigh_table s))" and "neigh_tab.well_formed (neigh_table s)"
    and "prim_addr s = root s \<or> ping6 E (root s) \<noteq> 0"
  shows "\<exists>s'. process_hb E hb s = Inr s' \<and> distinct (map n_prim_addr (neigh_table s')) \<and>
    (\<exists>n\<in>set (neigh_table s'). n_prim_addr n = b \<and> n_count n = 0 \<and> n_prim_mask n = a_mask (ad_addr hb)) \<and>
    filter (\<lambda>n. n_prim_addr n \<noteq> b) (neigh_tab.entries (neigh_table s')) =
      filter (\<lambda>n. n_prim_addr n \<noteq> b) (neigh_tab.entries (neigh_table s))"
proof -
  define t where "t = init_neigh_table E s"
  note t = init_neigh_table_ok [OF assms(7,8) t_def]
  have "prim_addr s \<noteq> b" using assms(4) by auto
  with assms have hb: "process_hb E hb s = hb_enter E hb False s"
    by (simp add: process_hb_def busy_def detector_de_mezcla_def hb_own_net_def Let_def)
  note fin = hb_enter_table [OF _ t_def assms(9)]
  show ?thesis
  proof (cases "b \<in> n_prim_addr ` set (neigh_table t)")
    case True
    let ?tab = "refresh_neighbor b (a_mask (ad_addr hb)) (neigh_table t)"
    obtain s' where s': "process_hb E hb s = Inr s'" "neigh_table s' = ?tab"
      using find_neighbor_known [OF True t(3) assms(6)] fin [of hb ?tab] hb assms(3) by auto
    have "filter (\<lambda>n. n_prim_addr n \<noteq> b) (neigh_tab.entries ?tab) = filter (\<lambda>n. n_prim_addr n \<noteq> b) (neigh_tab.entries (neigh_table t))"
      unfolding entries_filter refresh_filter ..
    moreover have "distinct (map n_prim_addr ?tab)" using t(2) by (simp add: refresh_filter)
    ultimately show ?thesis using s' t(4) refresh_found [OF True] by metis
  next
    case False
    let ?n = "hb_neighbor hb False"
    have n: "n_prim_addr ?n = b" "n_count ?n = 0" "n_prim_mask ?n = a_mask (ad_addr hb)" using assms(3) by (simp_all add: hb_neighbor_def)
    obtain tab where tab: "find_neighbor b (neigh_table t) = Inr None" "neigh_insert ?n (neigh_table t) = Inr tab" "?n \<in> set tab"
      "distinct (map n_prim_addr tab)" "neigh_tab.entries tab = neigh_tab.entries (neigh_table s) @ [?n]"
      using insert_new_neighbor [OF False t(3,1,2) n(1) assms(6)] t(4) by auto
    then obtain s' where "process_hb E hb s = Inr s'" "neigh_table s' = tab"
      using fin [of hb tab] hb assms(3) by (auto simp add: add_neighbor_def)
    moreover have "filter (\<lambda>n. n_prim_addr n \<noteq> b) (neigh_tab.entries tab) = filter (\<lambda>n. n_prim_addr n \<noteq> b) (neigh_tab.entries (neigh_table s))"
      using tab(5) n(1) by simp
    ultimately show ?thesis using tab n by metis
  qed
qed

theorem heart_beat_recorded_witness:
  "\<exists>s'. process_hb sample_env (null_ctrl\<lparr>p_prim_addr := toggle net_root 3\<rparr>) sample_node = Inr s' \<and>
     toggle net_root 3 \<in> n_prim_addr ` set (neigh_table s')"
proof -
  have z: "toggle net_root 3 \<noteq> zero_addr" by (rule rooted_neq_zero) (simp add: rooted_toggle)
  have "hamming net_root (toggle net_root 3) = 1" using hamming_upto_toggle [of 3 64 net_root] by (simp add: hamming_upto_commute)
  with z obtain s' where "process_hb sample_env (null_ctrl\<lparr>p_prim_addr := toggle net_root 3\<rparr>) sample_node = Inr s'"
    "\<exists>n\<in>set (neigh_table s'). n_prim_addr n = toggle net_root 3"
    using heart_beat_recorded [of sample_node "null_ctrl\<lparr>p_prim_addr := toggle net_root 3\<rparr>" "toggle net_root 3" sample_env]
    by (auto simp add: busy_def neigh_tab.well_formed_def null_ctrl_def)
  then show ?thesis by (metis image_eqI)
qed

end
