(* ===== verification/Forwarding_Correct.thy ===== *)
theory Forwarding_Correct
  imports Pkt_Handle Daemon_Correct
begin

text \<open>
  Properties of the forwarding: who processes a message of the rendezvous service, which neighbour a packet
  goes to, that no neighbour is tried twice, and where the code departs from this.
\<close>

section \<open>Address spaces served\<close>

lemma serves_plain:
  assumes "rcvd_addr n = []" and "\<not> sec_addr_flag n" and "unat (prim_mask n) \<le> 64"
  shows "serves a n = Inr (in_space a (prim_addr n) (unat (prim_mask n)))"
  using assms by (simp add: serves_def check_addr_space_ok)

lemma rv_route_drop:
  "rv_route F pkt n = Inr (RV_DROP, n') \<Longrightarrow> serves (dst_of pkt) n = Inr True"
  by (auto simp add: rv_route_def RV_ACCEPT_def RV_DROP_def split: if_splits elim!: bind_InrE)

lemma rv_table_add_total:
  assumes "c_string (rv_univ_addr m) = Inr name" and "length name < NAME_SIZE"
  shows "\<exists>n'. rv_table_add m n = Inr n'"
  using assms by (auto simp add: rv_table_add_def)

text \<open>A packet that a node reads as a registration of a name that fits into the table.\<close>

definition reads_registration :: "node \<Rightarrow> byte list \<Rightarrow> bool" where
  "reads_registration n pkt \<longleftrightarrow> (\<exists>m name. udp_byte n pkt = Inr RV_REG \<and> rv_at pkt (udp_pkt_off n pkt) = Inr m \<and>
     c_string (rv_univ_addr m) = Inr name \<and> length name < NAME_SIZE)"

lemma registration_routed:
  assumes "reads_registration n pkt" and "serves (dst_of pkt) n = Inr own"
  shows "own \<Longrightarrow> \<exists>m n' e. rv_at pkt (udp_pkt_off n pkt) = Inr m \<and> rv_table_add m n = Inr n' \<and> rv_route F pkt n = Inr (RV_DROP, n') \<and>
      e \<in> set (rv_table n') \<and> c_string (rv_univ_addr m) = Inr (univ_name e) \<and> hc_addr e = rv_prim_addr m"
    and "\<not> own \<Longrightarrow> rv_route F pkt n = Inr (RV_ACCEPT, n)"
proof -
  obtain m name where m: "udp_byte n pkt = Inr RV_REG" "rv_at pkt (udp_pkt_off n pkt) = Inr m"
    "c_string (rv_univ_addr m) = Inr name" "length name < NAME_SIZE"
    using assms(1) by (auto simp add: reads_registration_def)
  obtain n' where n': "rv_table_add m n = Inr n'" using rv_table_add_total [OF m(3,4)] by blast
  obtain e where "e \<in> set (rv_table n')" "univ_name e = name" "hc_addr e = rv_prim_addr m" using rv_add_mem [OF n' m(3)] .
  with m n' assms(2) show "own \<Longrightarrow> \<exists>m n' e. rv_at pkt (udp_pkt_off n pkt) = Inr m \<and> rv_table_add m n = Inr n' \<and> rv_route F pkt n = Inr (RV_DROP, n') \<and>
      e \<in> set (rv_table n') \<and> c_string (rv_univ_addr m) = Inr (univ_name e) \<and> hc_addr e = rv_prim_addr m"
    by (intro exI [of _ m] exI [of _ n'] exI [of _ e]) (simp add: rv_route_def)
  show "\<not> own \<Longrightarrow> rv_route F pkt n = Inr (RV_ACCEPT, n)" using m(1) assms(2) by (simp add: rv_route_def)
qed

text \<open>C15: In a network that has grown by complete joins, of dimension at most 64 and without secondary
  addresses, a packet that every node reads as a registration of a name of less than 20 bytes is taken from the network by exactly
  one node, the one whose address space holds the destination of the packet (the address of the server): there its message is entered, so that
  the table has the address it registers under its name. Every other node lets the packet pass and stays as it was.\<close>

theorem rendezvous_served_once:
  assumes "net D ns" and "D \<le> 64" and "\<forall>n\<in>set ns. \<not> sec_addr_flag n" and "\<forall>n\<in>set ns. reads_registration n pkt"
  shows "\<exists>i<length ns. check_addr_space (dst_of pkt) (prim_addr (ns ! i)) (prim_mask (ns ! i)) = Inr 0 \<and>
    (\<exists>m n' e. rv_at pkt (udp_pkt_off (ns ! i) pkt) = Inr m \<and> rv_table_add m (ns ! i) = Inr n' \<and>
       rv_route F pkt (ns ! i) = Inr (RV_DROP, n') \<and>
       e \<in> set (rv_table n') \<and> c_string (rv_univ_addr m) = Inr (univ_name e) \<and> hc_addr e = rv_prim_addr m) \<and>
    (\<forall>j<length ns. j \<noteq> i \<longrightarrow> check_addr_space (dst_of pkt) (prim_addr (ns ! j)) (prim_mask (ns ! j)) \<noteq> Inr 0 \<and>
       rv_route F pkt (ns ! j) = Inr (RV_ACCEPT, ns ! j))"
proof -
  note inv = net_inv [OF assms(1,2)]
  have small: "rcvd_addr n = []" "unat (prim_mask n) \<le> 64" if "n \<in> set ns" for n using inv that assms(2) by (auto simp add: allocating_def)
  have sv: "serves (dst_of pkt) n = Inr (owns n (dst_of pkt))" if "n \<in> set ns" for n
    using serves_plain small assms(3) that by (simp add: owns_def)
  have space: "check_addr_space (dst_of pkt) (prim_addr n) (prim_mask n) = Inr 0 \<longleftrightarrow> owns n (dst_of pkt)" if "n \<in> set ns" for n
    using small(2) [OF that] by (simp add: owns_def check_addr_space_ok)
  have "\<exists>!i. i < length ns \<and> owns (ns ! i) (dst_of pkt)"
    using inv filter_one_iff [of "\<lambda>n. owns n (dst_of pkt)" ns] by simp
  then obtain i where i: "i < length ns" "owns (ns ! i) (dst_of pkt)" "\<forall>j<length ns. j \<noteq> i \<longrightarrow> \<not> owns (ns ! j) (dst_of pkt)" by blast
  have mem: "ns ! j \<in> set ns" "reads_registration (ns ! j) pkt" if "j < length ns" for j using that assms(4) by simp_all
  note run = registration_routed [OF mem(2) sv [OF mem(1)]]
  show ?thesis
    using i(3) space mem(1) run(2) by (intro exI [of _ i] conjI allI impI i(1) run(1) [OF i(1,1,2)]) (simp_all add: i(1,2))
qed

text \<open>A registration as another node forwards it: no options header, the message at offset 48, the empty name.\<close>

definition sample_reg :: "byte list" where
  "sample_reg = replicate 48 0 @ [RV_REG] @ replicate 95 0"

definition sample_fenv :: fenv where
  "sample_fenv = \<lparr>fe_env = sample_env,
     fe_route = \<lparr>rt_dst = net_root, rt_gtw = zero_addr, rt_metric = 0, rt_dst_mask = 0, rt_distance = 0, rt_table = 0\<rparr>,
     fe_aux = \<lparr>ra_src = zero_addr, ra_dst = zero_addr, ra_gtw = zero_addr, ra_bitmap = [], ra_count = 0, ra_id = 0\<rparr>,
     fe_ptr = net_default, fe_nat = \<lparr>sn_dst = zero_addr, sn_src = zero_addr\<rparr>, fe_nat_null = True, fe_gw = zero_addr, fe_distance = 0\<rparr>"

lemma sample_reg_fields:
  "length sample_reg = 144" "sample_reg ! 48 = RV_REG"
  "\<exists>m. rv_at sample_reg 48 = Inr m \<and> c_string (rv_univ_addr m) = Inr []"
proof -
  show len: "length sample_reg = 144" by (simp add: sample_reg_def)
  show "sample_reg ! 48 = RV_REG" unfolding sample_reg_def nth_append by simp
  have "take 50 (drop 76 sample_reg) = replicate 50 0" by (simp add: sample_reg_def take_replicate drop_replicate)
  then show "\<exists>m. rv_at sample_reg 48 = Inr m \<and> c_string (rv_univ_addr m) = Inr []"
    by (simp add: rv_at_def len c_string_def)
qed

lemma sample_reg_addr:
  assumes "off \<le> 24 \<or> off = 56"
  shows "addr_at sample_reg off = zero_addr"
proof -
  have b: "sample_reg ! k = 0" if "k < 48 \<or> 48 < k \<and> k < 144" for k
    using that by (auto simp add: sample_reg_def nth_append nth_Cons split: nat.split)
  have "le16 0 0 = 0" by (simp add: le16_def)
  with assms b have "s6_addr16 (addr_at sample_reg off) i = s6_addr16 zero_addr i" if "i < 8" for i
    using that by (auto simp add: addr_at_def load16_def)
  then show ?thesis by (rule s6_eqI)
qed

theorem rendezvous_served_once_witness:
  "\<exists>p2 q' i n' e. net 64 [p2, q'] \<and> i < 2 \<and> rv_route sample_fenv sample_reg ([p2, q'] ! i) = Inr (RV_DROP, n') \<and> e \<in> set (rv_table n')"
proof -
  obtain p2 q' where n: "net 64 [p2, q']" "prim_addr p2 = net_root" "prim_addr q' = toggle net_root 0"
    "\<not> sec_addr_flag p2" "\<not> sec_addr_flag q'" using two_nodes by blast
  have "rooted (prim_addr n)" if "n \<in> set [p2, q']" for n using that n by (auto simp add: rooted_toggle)
  then have off: "udp_pkt_off n sample_reg = 48" if "n \<in> set [p2, q']" for n
    using that sample_reg_addr [of SRC_ADDR_OFFSET] rooted_neq_zero
    by (fastforce simp add: udp_pkt_off_def src_of_def offset_defs)
  then have "\<forall>n\<in>set [p2, q']. reads_registration n sample_reg"
    using sample_reg_fields by (fastforce simp add: reads_registration_def udp_byte_def NAME_SIZE_def)
  from rendezvous_served_once [OF n(1) order_refl _ this] n(4,5)
  have "\<exists>i<length [p2, q']. \<exists>n' e. rv_route sample_fenv sample_reg ([p2, q'] ! i) = Inr (RV_DROP, n') \<and> e \<in> set (rv_table n')" by fastforce
  with n(1) show ?thesis by (metis length_Cons list.size(3) numeral_2_eq_2)
qed

section \<open>The choice of a neighbour\<close>

text \<open>A neighbour still to be tried, and the distance by which it is judged.\<close>

definition untried :: "bool list \<Rightarrow> nat \<Rightarrow> neighbor \<Rightarrow> bool" where
  "untried vis i it \<longleftrightarrow> \<not> vis ! i \<and> n_available it \<noteq> 0"

definition measured :: "bool \<Rightarrow> in6_addr \<Rightarrow> neighbor \<Rightarrow> nat" where
  "measured rv dst it = (if rv then hamming_upto (unat (n_prim_mask it)) dst (n_prim_addr it) else hamming dst (n_prim_addr it))"

lemma measured_eq:
  "unat (n_prim_mask it) \<le> 64 \<Longrightarrow> (if rv then dist_w_mask dst it else Inr (dist dst it)) = Inr (measured rv dst it)"
  by (simp add: measured_def dist_w_mask_ok)

text \<open>The result of the search: what it started with, or an untried neighbour that no untried one beats.\<close>

definition is_choice :: "bool list \<Rightarrow> bool \<Rightarrow> in6_addr \<Rightarrow> (nat \<times> neighbor) list \<Rightarrow> nat option \<Rightarrow> nat \<Rightarrow> nat option \<Rightarrow> bool" where
  "is_choice vis rv dst xs nh bd res \<longleftrightarrow>
     res = nh \<and> (\<forall>i it. (i, it) \<in> set xs \<and> untried vis i it \<longrightarrow> bd \<le> measured rv dst it) \<or>
     (\<exists>i it. (i, it) \<in> set xs \<and> res = Some i \<and> untried vis i it \<and> measured rv dst it \<le> bd \<and>
        (\<forall>i' it'. (i', it') \<in> set xs \<and> untried vis i' it' \<longrightarrow> measured rv dst it \<le> measured rv dst it'))"

lemma is_choice_leave:
  assumes "untried vis i it \<Longrightarrow> bd \<le> measured rv dst it" and "is_choice vis rv dst xs nh bd res"
  shows "is_choice vis rv dst ((i, it) # xs) nh bd res"
  using assms(2) [unfolded is_choice_def]
proof (elim disjE exE conjE)
  assume "res = nh" "\<forall>i' it'. (i', it') \<in> set xs \<and> untried vis i' it' \<longrightarrow> bd \<le> measured rv dst it'"
  then show "is_choice vis rv dst ((i, it) # xs) nh bd res"
    unfolding is_choice_def [of vis rv dst "(i, it) # xs"] using assms(1) by (intro disjI1) auto
next
  fix k kt assume "(k, kt) \<in> set xs" "res = Some k" "untried vis k kt" "measured rv dst kt \<le> bd"
    "\<forall>i' it'. (i', it') \<in> set xs \<and> untried vis i' it' \<longrightarrow> measured rv dst kt \<le> measured rv dst it'"
  moreover from this have "untried vis i it \<Longrightarrow> measured rv dst kt \<le> measured rv dst it" using assms(1) by (blast intro: le_trans)
  ultimately show "is_choice vis rv dst ((i, it) # xs) nh bd res"
    unfolding is_choice_def [of vis rv dst "(i, it) # xs"] by (intro disjI2 exI [of _ k] exI [of _ kt]) auto
qed

lemma is_choice_take:
  assumes "untried vis i it" and "measured rv dst it \<le> bd" and "is_choice vis rv dst xs (Some i) (measured rv dst it) res"
  shows "is_choice vis rv dst ((i, it) # xs) nh bd res"
  using assms(3) [unfolded is_choice_def]
proof (elim disjE exE conjE)
  assume "res = Some i" "\<forall>i' it'. (i', it') \<in> set xs \<and> untried vis i' it' \<longrightarrow> measured rv dst it \<le> measured rv dst it'"
  then show "is_choice vis rv dst ((i, it) # xs) nh bd res"
    unfolding is_choice_def [of vis rv dst "(i, it) # xs"] using assms(1,2) by (intro disjI2 exI [of _ i] exI [of _ it]) auto
next
  fix k kt assume "(k, kt) \<in> set xs" "res = Some k" "untried vis k kt" "measured rv dst kt \<le> measured rv dst it"
    "\<forall>i' it'. (i', it') \<in> set xs \<and> untried vis i' it' \<longrightarrow> measured rv dst kt \<le> measured rv dst it'"
  then show "is_choice vis rv dst ((i, it) # xs) nh bd res"
    unfolding is_choice_def [of vis rv dst "(i, it) # xs"] using assms(1,2) by (intro disjI2 exI [of _ k] exI [of _ kt]) auto
qed

lemma closest_spec:
  assumes "\<forall>it\<in>snd ` set xs. unat (n_prim_mask it) \<le> 64"
  shows "\<exists>res. closest (Inr rv) dst vis xs nh bd = Inr res \<and> is_choice vis rv dst xs nh bd res"
  using assms
proof (induction xs arbitrary: nh bd)
  case Nil
  then show ?case by (simp add: is_choice_def)
next
  case (Cons x xs)
  obtain i it where x: "x = (i, it)" by fastforce
  let ?d = "measured rv dst it"
  have m: "unat (n_prim_mask it) \<le> 64" and ms: "\<forall>it\<in>snd ` set xs. unat (n_prim_mask it) \<le> 64" using Cons.prems x by auto
  show ?case
  proof (cases "untried vis i it")
    case False
    then have "closest (Inr rv) dst vis (x # xs) nh bd = closest (Inr rv) dst vis xs nh bd" by (auto simp add: x untried_def)
    then show ?thesis using Cons.IH [OF ms, of nh bd] False by (auto simp add: x intro: is_choice_leave)
  next
    case True
    define better where "better = (?d < bd \<or> (?d = bd \<and> in_space dst (n_prim_addr it) (unat (n_prim_mask it))))"
    have c: "closest (Inr rv) dst vis (x # xs) nh bd =
        (if better then closest (Inr rv) dst vis xs (Some i) ?d else closest (Inr rv) dst vis xs nh bd)"
      using True m measured_eq [OF m, of rv dst]
      by (auto simp add: x untried_def check_addr_space_ok better_def)
    have le: "better \<Longrightarrow> ?d \<le> bd" "\<not> better \<Longrightarrow> bd \<le> ?d" by (auto simp add: better_def)
    show ?thesis
    proof (cases better)
      case b: True
      with c Cons.IH [OF ms, of "Some i" ?d] is_choice_take [OF True le(1) [OF b]] show ?thesis by (auto simp add: x)
    next
      case False
      with c Cons.IH [OF ms, of nh bd] is_choice_leave [of vis i it bd rv dst] le(2) [OF False] show ?thesis by (auto simp add: x)
    qed
  qed
qed

lemma next_available_spec:
  "k < length tab \<Longrightarrow> i + k < MAX_NEIGHBORS \<Longrightarrow> untried vis (i + k) (tab ! k) \<Longrightarrow>
    \<exists>k'<length tab. next_available vis i tab = Inr (Some (i + k')) \<and> i + k' < MAX_NEIGHBORS \<and> untried vis (i + k') (tab ! k')"
proof (induction tab arbitrary: i k)
  case (Cons it rest)
  show ?case
  proof (cases "untried vis i it")
    case True
    then show ?thesis using Cons.prems by (intro exI [of _ 0]) (auto simp add: untried_def)
  next
    case False
    then have k: "k \<noteq> 0" using Cons.prems by (cases k) auto
    then obtain k' where "k' < length rest" "next_available vis (Suc i) rest = Inr (Some (Suc i + k'))"
      "Suc i + k' < MAX_NEIGHBORS" "untried vis (Suc i + k') (rest ! k')"
      using Cons.IH [of "k - 1" "Suc i"] Cons.prems by (cases k) auto
    then show ?thesis using False by (intro exI [of _ "Suc k'"]) (auto simp add: untried_def)
  qed
qed simp

lemma set_zip_positions: "(i, it) \<in> set (zip [0..<n] tab) \<longleftrightarrow> i < n \<and> i < length tab \<and> it = tab ! i"
  by (auto simp add: in_set_zip intro: exI [of _ i])

lemma not_all_visited:
  "\<not> all_visited vis tab \<Longrightarrow> \<exists>i<length tab. i < MAX_NEIGHBORS \<and> untried vis i (tab ! i)"
  by (fastforce simp add: all_visited_def list_all_iff set_zip_positions untried_def)

text \<open>While a neighbour is left, the choice succeeds; up to the second attempt it is one of the nearest.\<close>

lemma choose_neighbor_spec:
  assumes "\<not> all_visited (ra_bitmap e) tab" and "\<forall>it\<in>set tab. unat (n_prim_mask it) \<le> 64"
  shows "\<exists>i<length tab. i < MAX_NEIGHBORS \<and> choose_neighbor (Inr rv) dst e tab = Inr (Some i) \<and> untried (ra_bitmap e) i (tab ! i) \<and>
    (ra_count e < 2 \<longrightarrow> (\<forall>k<length tab. k < MAX_NEIGHBORS \<and> untried (ra_bitmap e) k (tab ! k) \<longrightarrow>
       measured rv dst (tab ! i) \<le> measured rv dst (tab ! k)))"
proof (cases "ra_count e < 2")
  case True
  let ?xs = "zip [0..<MAX_NEIGHBORS] tab"
  have m: "\<forall>it\<in>snd ` set ?xs. unat (n_prim_mask it) \<le> 64" using assms(2) by (auto simp add: set_zip_positions)
  obtain k where k: "k < length tab" "k < MAX_NEIGHBORS" "untried (ra_bitmap e) k (tab ! k)" using not_all_visited [OF assms(1)] by blast
  have far: "measured rv dst (tab ! k) < 10000"
    using hamming_upto_le [of 64 dst "n_prim_addr (tab ! k)"] hamming_upto_le [of "unat (n_prim_mask (tab ! k))" dst "n_prim_addr (tab ! k)"]
      assms(2) k(1) by (auto simp add: measured_def dest!: bspec [OF _ nth_mem])
  obtain res where res: "closest (Inr rv) dst (ra_bitmap e) ?xs None 10000 = Inr res" "is_choice (ra_bitmap e) rv dst ?xs None 10000 res"
    using closest_spec [OF m] by blast
  then obtain i where i: "i < length tab" "i < MAX_NEIGHBORS" "res = Some i" "untried (ra_bitmap e) i (tab ! i)"
    "\<forall>k<length tab. k < MAX_NEIGHBORS \<and> untried (ra_bitmap e) k (tab ! k) \<longrightarrow> measured rv dst (tab ! i) \<le> measured rv dst (tab ! k)"
    using k far by (auto simp add: is_choice_def set_zip_positions)
  then show ?thesis using True res(1) by (intro exI [of _ i]) (simp add: choose_neighbor_def NEIGHBORS_BEFORE_PARENT_def)
next
  case False
  obtain k where k: "k < length tab" "k < MAX_NEIGHBORS" "untried (ra_bitmap e) k (tab ! k)" using not_all_visited [OF assms(1)] by blast
  then obtain k' where "k' < length tab" "next_available (ra_bitmap e) 0 tab = Inr (Some k')" "k' < MAX_NEIGHBORS" "untried (ra_bitmap e) k' (tab ! k')"
    using next_available_spec [of k tab 0] by auto
  moreover obtain x rest where "tab = x # rest" using k(1) by (cases tab) auto
  ultimately show ?thesis using False
    by (cases "untried (ra_bitmap e) 0 x") (auto simp add: choose_neighbor_def NEIGHBORS_BEFORE_PARENT_def untried_def MAX_NEIGHBORS_def)
qed

section \<open>One step of the forwarding\<close>

lemma dump_shape:
  assumes "rt_table_dump F K s = Inr (rt, s')"
  shows "\<exists>t. s' = s\<lparr>nd := (nd s)\<lparr>route_t := t\<rparr>\<rparr>"
  using assms by (auto simp add: rt_table_dump_def Let_def split: if_splits prod.splits)

lemma dump_rt_info:
  "rt_table_dump F K s = Inr (rt, s') \<Longrightarrow> rt_table_dump F K (s\<lparr>rt_info := x\<rparr>) = Inr (rt, s'\<lparr>rt_info := x\<rparr>)"
  by (auto simp add: rt_table_dump_def Let_def split: if_splits prod.splits)

text \<open>Every auxiliary entry has a bitmap of the size of the code.\<close>

definition rt_info_ok :: "'k fwd \<Rightarrow> bool" where
  "rt_info_ok s \<longleftrightarrow> (\<forall>e\<in>set (rt_info s). length (ra_bitmap e) = MAX_NEIGHBORS)"

definition same_node :: "'k fwd \<Rightarrow> 'k fwd \<Rightarrow> bool" where
  "same_node s s' \<longleftrightarrow> (nd s')\<lparr>route_t := []\<rparr> = (nd s)\<lparr>route_t := []\<rparr> \<and> nat_table s' = nat_table s \<and> nat_wild s' = nat_wild s"

lemma same_node_refl [simp]: "same_node s s"
  by (simp add: same_node_def)

lemma same_node_trans: "same_node s t \<Longrightarrow> same_node t u \<Longrightarrow> same_node s u"
  by (simp add: same_node_def)

lemma same_nodeD:
  assumes "same_node s s'"
  shows "neigh_table (nd s') = neigh_table (nd s)" "prim_addr (nd s') = prim_addr (nd s)" "sec_addr (nd s') = sec_addr (nd s)"
    "nat_wild s' = nat_wild s"
proof -
  have e: "(nd s')\<lparr>route_t := []\<rparr> = (nd s)\<lparr>route_t := []\<rparr>" using assms by (simp add: same_node_def)
  show "neigh_table (nd s') = neigh_table (nd s)" using arg_cong [OF e, of neigh_table] by simp
  show "prim_addr (nd s') = prim_addr (nd s)" using arg_cong [OF e, of prim_addr] by simp
  show "sec_addr (nd s') = sec_addr (nd s)" using arg_cong [OF e, of sec_addr] by simp
  show "nat_wild s' = nat_wild s" using assms by (simp add: same_node_def)
qed

lemma same_node_dump: "rt_table_dump F K s = Inr (rt, s') \<Longrightarrow> same_node s s' \<and> rt_info s' = rt_info s \<and> kern s' = kern s"
  by (drule dump_shape) (auto simp add: same_node_def)

lemma same_nodeI: "nd s' = nd s \<Longrightarrow> nat_table s' = nat_table s \<Longrightarrow> nat_wild s' = nat_wild s \<Longrightarrow> same_node s s'"
  by (simp add: same_node_def)

lemma requests [simp]:
  "rt_info (add_rt_route K a b m d s) = rt_info s" "rt_info (del_rt_route K a b m d s) = rt_info s"
  "kern (add_rt_route K a b m d s) = k_newroute K a b m d (kern s)" "kern (del_rt_route K a b m d s) = k_delroute K a b m d (kern s)"
  "nd (add_rt_route K a b m d s) = nd s" "nd (del_rt_route K a b m d s) = nd s"
  "nat_table (add_rt_route K a b m d s) = nat_table s" "nat_table (del_rt_route K a b m d s) = nat_table s"
  "nat_wild (add_rt_route K a b m d s) = nat_wild s" "nat_wild (del_rt_route K a b m d s) = nat_wild s"
  by (simp_all add: add_rt_route_def del_rt_route_def)

lemma same_node_requests: "same_node s (add_rt_route K a b m d s)" "same_node s (del_rt_route K a b m d s)"
  by (rule same_nodeI; simp)+

lemma clear_first_ok: "\<forall>e\<in>set es. length (ra_bitmap e) = MAX_NEIGHBORS \<Longrightarrow> \<forall>e\<in>set (clear_first a es). length (ra_bitmap e) = MAX_NEIGHBORS"
  by (induction es) auto

lemma length_clear_first [simp]: "length (clear_first a es) = length es"
  by (induction es) auto

lemma add_rt_info_cases:
  assumes "add_rt_info F dst src i s = Inr (j, s')"
  obtains (new) e tms where "length (ra_bitmap e) = MAX_NEIGHBORS" "j = length (rt_info s)"
      "s' = s\<lparr>rt_info := rt_info s @ [e], armed := armed s @ tms\<rparr>"
    | (old) e where "j < length (rt_info s)" "ra_bitmap e = ra_bitmap (rt_info s ! j)"
      "s' = s\<lparr>rt_info := clear_first dst ((rt_info s)[j := e])\<rparr>"
proof -
  define hits where "hits = filter (\<lambda>j. ra_dst (rt_info s ! j) = fe_ptr F) [0..<length (rt_info s) - 1]"
  have ne: "rt_info s \<noteq> []" using assms by (auto simp add: add_rt_info_def)
  show thesis
  proof (cases hits)
    case Nil
    show ?thesis using assms ne Nil unfolding add_rt_info_def hits_def [symmetric] Let_def
      by (intro new [of "(fe_aux F)\<lparr>ra_dst := dst, ra_src := (case src of None \<Rightarrow> zero_addr | Some a \<Rightarrow> a), ra_count := 0,
          ra_id := word_of_int i, ra_bitmap := replicate MAX_NEIGHBORS False\<rparr>"]) auto
  next
    case (Cons k ks)
    have "k \<in> set hits" using Cons by simp
    then have k: "k < length (rt_info s)" by (auto simp add: hits_def)
    show ?thesis using assms ne Cons k unfolding add_rt_info_def hits_def [symmetric] Let_def
      by (intro old [of "case src of None \<Rightarrow> (rt_info s ! k)\<lparr>ra_dst := dst\<rparr> | Some a \<Rightarrow> (rt_info s ! k)\<lparr>ra_dst := dst, ra_src := a\<rparr>"])
         (auto simp add: clear_vb_def split: option.split)
  qed
qed

lemma add_rt_info_ok:
  assumes "add_rt_info F dst src i s = Inr (j, s')" and "rt_info_ok s"
  shows "j < length (rt_info s') \<and> rt_info_ok s' \<and> same_node s s'"
proof -
  have same: "same_node s (s\<lparr>rt_info := x\<rparr>)" "same_node s (s\<lparr>rt_info := x, armed := y\<rparr>)" for x y
    by (rule same_nodeI; simp)+
  from assms(1) show ?thesis
  proof (cases rule: add_rt_info_cases)
    case (new e tms)
    then show ?thesis using assms(2) same(2) by (simp add: rt_info_ok_def)
  next
    case (old e)
    have "\<forall>e\<in>set ((rt_info s)[j := e]). length (ra_bitmap e) = MAX_NEIGHBORS"
      using old assms(2) by (auto simp add: rt_info_ok_def dest!: set_update_subset_insert [THEN subsetD])
    then show ?thesis using old same(1) clear_first_ok by (auto simp add: rt_info_ok_def)
  qed
qed

lemma route_entry_ok:
  "route_entry F K dst s = Inr (ids, s') \<Longrightarrow> same_node s s' \<and> rt_info s' = rt_info s"
  by (auto simp add: route_entry_def Let_def split: if_splits elim!: bind_InrE dest!: same_node_dump
      intro: same_node_trans same_node_trans [OF same_node_trans [OF _ same_node_requests(1)]])

lemma aux_entry_ok:
  assumes "aux_entry F dst rt_id best s = Inr (j, s')" and "rt_info_ok s"
  shows "j < length (rt_info s') \<and> rt_info_ok s' \<and> same_node s s'"
proof -
  define old where "old = (if best > -1 then filter (\<lambda>j. int (unat (ra_id (rt_info s ! j))) = best) [0..<length (rt_info s)] else [])"
  have e: "(case old of j # _ \<Rightarrow> Inr (j, s) | [] \<Rightarrow> add_rt_info F dst None rt_id s) = Inr (j, s')"
    using assms(1) by (simp only: aux_entry_def Let_def old_def)
  show ?thesis
  proof (cases old)
    case Nil
    then show ?thesis using e assms(2) add_rt_info_ok by fastforce
  next
    case (Cons k ks)
    then have "k \<in> set old" by simp
    then have "k < length (rt_info s)" by (auto simp add: old_def split: if_splits)
    then show ?thesis using e Cons assms(2) by auto
  qed
qed

lemma find_entry_ok:
  assumes "find_entry F K dst s = Inr (Some (rt_id, j), s')" and "rt_info_ok s"
  shows "j < length (rt_info s') \<and> rt_info_ok s' \<and> same_node s s'"
proof -
  from assms(1) obtain best t where t: "route_entry F K dst s = Inr (Some (rt_id, best), t)" "aux_entry F dst rt_id best t = Inr (j, s')"
    by (auto simp add: find_entry_def split: option.splits elim!: bind_InrE)
  have "rt_info_ok t" using route_entry_ok [OF t(1)] assms(2) by (simp add: rt_info_ok_def)
  then show ?thesis using aux_entry_ok [OF t(2)] route_entry_ok [OF t(1)] same_node_trans by blast
qed

lemma mark_from_ok:
  assumes "mark_from a tab e = Inr e'"
  shows "length (ra_bitmap e') = length (ra_bitmap e)"
  using assms by (auto simp add: mark_from_def split: list.splits if_splits)

lemma rt_table_dump_ok:
  "route_t (nd s) \<noteq> [] \<Longrightarrow> \<exists>rt s'. rt_table_dump F K s = Inr (rt, s')"
  by (simp add: rt_table_dump_def Let_def split: prod.split)

lemma add_src_nat_runs:
  assumes "\<not> nat_wild s"
  shows "\<exists>s'. add_src_nat F dst src s = Inr s' \<and> kern s' = kern s \<and> rt_info s' = rt_info s"
  using assms by (auto simp add: add_src_nat_def Let_def)

lemma install_hop_result:
  assumes "rt_table_dump F K s = Inr (rt, s2)" and "0 \<le> rt_id" and "nat rt_id < length rt" and "rt_dst (rt ! nat rt_id) = dst_of pkt"
    and "\<not> nat_wild s \<or> n_sec_addr_conn (neigh_table (nd s) ! nh) = 0" and "j < length (rt_info s)"
  shows "\<exists>s'. install_hop F K rt_id j nh pkt s = Inr (add_ttl (-1) pkt, s') \<and>
    kern s' = k_newroute K (dst_of pkt) (n_prim_addr (neigh_table (nd s) ! nh)) 128 (rt_distance (rt ! nat rt_id))
      (k_delroute K (dst_of pkt) (rt_gtw (rt ! nat rt_id)) (word_of_int (rt_dst_mask (rt ! nat rt_id))) (rt_distance (rt ! nat rt_id)) (kern s)) \<and>
    ra_bitmap (rt_info s' ! j) = (ra_bitmap (rt_info s ! j))[nh := True]"
proof -
  define r where "r = rt ! nat rt_id"
  define s3 where "s3 = add_rt_route K (rt_dst r) (n_prim_addr (neigh_table (nd s2) ! nh)) 128 (rt_distance r)
      (del_rt_route K (rt_dst r) (rt_gtw r) (word_of_int (rt_dst_mask r)) (rt_distance r) s2)"
  note d = same_node_dump [OF assms(1)]
  have nt: "neigh_table (nd s2) = neigh_table (nd s)" "nat_wild s2 = nat_wild s" using same_nodeD d by blast+
  obtain s4 where s4: "(if n_sec_addr_conn (neigh_table (nd s2) ! nh) \<noteq> 0 then add_src_nat F (rt_dst r) (sec_addr (nd s2)) s3 else Inr s3) = Inr s4"
    "kern s4 = kern s3" "rt_info s4 = rt_info s3"
  proof (cases "n_sec_addr_conn (neigh_table (nd s2) ! nh) \<noteq> 0")
    case True
    then have "\<not> nat_wild s3" using nt assms(5) by (simp add: s3_def)
    from add_src_nat_runs [OF this, of F "rt_dst r" "sec_addr (nd s2)"] show ?thesis using True by (auto intro: that)
  qed (rule that [of s3], simp_all)
  have eqs: "rt_info s2 = rt_info s" "kern s2 = kern s" using d by simp_all
  have in_range: "\<not> (rt_id < 0 \<or> int (length rt) \<le> rt_id)" using assms(2,3) by linarith
  have ri: "rt_info s3 = rt_info s" using eqs by (simp add: s3_def)
  have "install_hop F K rt_id j nh pkt s =
      bind (if n_sec_addr_conn (neigh_table (nd s2) ! nh) \<noteq> 0 then add_src_nat F (rt_dst r) (sec_addr (nd s2)) s3 else Inr s3)
        (\<lambda>s. Inr (add_ttl (-1) pkt, s\<lparr>rt_info := (rt_info s)[j := (rt_info s ! j)\<lparr>ra_bitmap := (ra_bitmap (rt_info s ! j))[nh := True]\<rparr>]\<rparr>))"
    using in_range assms(4) unfolding install_hop_def s3_def r_def by (simp add: assms(1) Let_def)
  also have "\<dots> = Inr (add_ttl (-1) pkt, s4\<lparr>rt_info := (rt_info s)[j := (rt_info s ! j)\<lparr>ra_bitmap := (ra_bitmap (rt_info s ! j))[nh := True]\<rparr>]\<rparr>)"
    by (simp only: s4 ri bind_simps)
  finally show ?thesis using s4(2) eqs nt(1) assms(4,6) by (simp add: s3_def r_def)
qed

text \<open>C22: The packet for a destination goes to a neighbour that is available and has not been tried for that destination, up
  to the second attempt to one of the nearest of these (messages of the rendezvous service measuring with the masks); this neighbour becomes the
  gateway of the destination in the kernel, is marked as tried, and the hop limit of the packet goes down by one. So no neighbour
  is tried twice for a destination, and their number bounds the attempts.

  This is what happens when the search for the destination succeeds: \<open>find_entry\<close> has found or added its route and its
  auxiliary entry, \<open>mark_from\<close> has marked the neighbour the packet came from, a neighbour is left, the next dump of the kernel
  still has the route at the same position, the bitmaps have their size, the bytes read of the packet are there and the masks of the
  neighbours are at most 64. The table of
  translated sources must be sound, or no neighbour be linked by a secondary address: the code leaves the first link of that table
  uninitialised.\<close>

theorem next_hop_is_closest:
  assumes "find_entry F K (dst_of pkt) s = Inr (Some (rt_id, j), s1)" and "rt_info_ok s" and "tab = neigh_table (nd s)"
    and "from_addr pkt = Inr from" and "mark_from from tab (rt_info s1 ! j) = Inr e" and "\<not> all_visited (ra_bitmap e) tab"
    and "\<forall>it\<in>set tab. unat (n_prim_mask it) \<le> 64" and "udp_byte (nd s) pkt = Inr b"
    and "rt_table_dump F K s1 = Inr (rt, s2)" and "0 \<le> rt_id" and "nat rt_id < length rt" and "rt_dst (rt ! nat rt_id) = dst_of pkt"
    and "\<not> nat_wild s \<or> (\<forall>it\<in>set tab. n_sec_addr_conn it = 0)"
  shows "\<exists>s' i. send_to_next_neighbor F K pkt s = Inr (add_ttl (-1) pkt, s') \<and> i < length tab \<and> untried (ra_bitmap e) i (tab ! i) \<and>
    (ra_count e < 2 \<longrightarrow> (\<forall>k<length tab. k < MAX_NEIGHBORS \<and> untried (ra_bitmap e) k (tab ! k) \<longrightarrow>
       measured (rv_byte b) (dst_of pkt) (tab ! i) \<le> measured (rv_byte b) (dst_of pkt) (tab ! k))) \<and>
    (\<exists>d k. kern s' = k_newroute K (dst_of pkt) (n_prim_addr (tab ! i)) 128 d k) \<and>
    ra_bitmap (rt_info s' ! j) = (ra_bitmap e)[i := True] \<and> \<not> untried (ra_bitmap (rt_info s' ! j)) i (tab ! i)"
proof -
  note fe = find_entry_ok [OF assms(1,2)]
  have nt: "neigh_table (nd s1) = tab" "prim_addr (nd s1) = prim_addr (nd s)" "nat_wild s1 = nat_wild s"
    using same_nodeD [of s s1] fe assms(3) by auto
  have j: "j < length (rt_info s1)" and len: "length (ra_bitmap e) = MAX_NEIGHBORS"
    using fe mark_from_ok [OF assms(5)] by (auto simp add: rt_info_ok_def)
  have tab: "tab \<noteq> []" using assms(6) by (auto simp add: all_visited_def)
  define t where "t = s1\<lparr>rt_info := (rt_info s1)[j := e]\<rparr>"
  have t: "neigh_table (nd t) = tab" "rt_info t ! j = e" "j < length (rt_info t)" "nd t = nd s1" "nat_wild t = nat_wild s" using nt j by (simp_all add: t_def)
  obtain i where i: "i < length tab" "i < MAX_NEIGHBORS" "choose_neighbor (Inr (rv_byte b)) (dst_of pkt) e tab = Inr (Some i)"
    "untried (ra_bitmap e) i (tab ! i)" "ra_count e < 2 \<longrightarrow> (\<forall>k<length tab. k < MAX_NEIGHBORS \<and> untried (ra_bitmap e) k (tab ! k) \<longrightarrow>
       measured (rv_byte b) (dst_of pkt) (tab ! i) \<le> measured (rv_byte b) (dst_of pkt) (tab ! k))"
    using choose_neighbor_spec [OF assms(6,7)] by blast
  have "udp_pkt_off (nd t) pkt = udp_pkt_off (nd s) pkt" using nt(2) by (simp add: udp_pkt_off_def t(4))
  then have ub: "udp_byte (nd t) pkt = Inr b" using assms(8) by (auto simp add: udp_byte_def split: if_splits)
  have run: "send_to_next_neighbor F K pkt s = install_hop F K rt_id j i pkt t"
    using assms(1,3,4,5,6) i(3) tab nt(1) ub t by (simp add: send_to_next_neighbor_def t_def [symmetric] Let_def)
  have "rt_table_dump F K t = Inr (rt, s2\<lparr>rt_info := rt_info t\<rparr>)" using dump_rt_info [OF assms(9)] by (simp add: t_def)
  moreover have "\<not> nat_wild t \<or> n_sec_addr_conn (neigh_table (nd t) ! i) = 0" using assms(13) t(1,5) nth_mem [OF i(1)] by auto
  ultimately obtain s' where
    s': "install_hop F K rt_id j i pkt t = Inr (add_ttl (-1) pkt, s')" "\<exists>d k. kern s' = k_newroute K (dst_of pkt) (n_prim_addr (tab ! i)) 128 d k"
      "ra_bitmap (rt_info s' ! j) = (ra_bitmap e)[i := True]"
    using install_hop_result [OF _ assms(10-12) _ t(3), of F K "s2\<lparr>rt_info := rt_info t\<rparr>" i] t(1,2) by auto
  show ?thesis using run s' i len by (intro exI [of _ s'] exI [of _ i]) (auto simp add: untried_def)
qed

text \<open>A kernel as a list of routes of the main table, and a node with one neighbour.\<close>

definition list_kernel :: "rt_msg list kernel_ops" where
  "list_kernel =
     \<lparr>k_dump = (\<lambda>k. (k, True)),
      k_newroute = (\<lambda>dst gw msk d k. k @ [\<lparr>m_inet6 = True, m_dst_len = msk, m_table = Some 254, m_dst = Some dst,
        m_priority = Some d, m_gateway = Some gw\<rparr>]),
      k_delroute = (\<lambda>dst gw msk d k. remove_first (\<lambda>m. m_dst m = Some dst \<and> m_gateway m = Some gw) k)\<rparr>"

definition sample_fwd :: "rt_msg list fwd" where
  "sample_fwd =
     \<lparr>nd = sample_node\<lparr>neigh_table := [sample_neighbor (toggle net_root 3) 0],
        route_t := [\<lparr>rt_dst = zero_addr, rt_gtw = zero_addr, rt_metric = 0, rt_dst_mask = 0, rt_distance = 0, rt_table = 0\<rparr>]\<rparr>,
      rt_info = [\<lparr>ra_src = zero_addr, ra_dst = net_root, ra_gtw = zero_addr, ra_bitmap = replicate MAX_NEIGHBORS False, ra_count = 0, ra_id = 0\<rparr>],
      nat_table = [], nat_wild = False, kern = [], armed = []\<rparr>"

text \<open>What the search for an entry does for the first packet to the null address.\<close>

definition sample_route :: route where
  "sample_route = \<lparr>rt_dst = zero_addr, rt_gtw = no_gateway, rt_metric = 0, rt_dst_mask = 128, rt_distance = 10, rt_table = 254\<rparr>"

lemma sample_find_entry:
  "\<exists>s1 e. find_entry sample_fenv list_kernel zero_addr sample_fwd = Inr (Some (0, 1), s1) \<and> rt_info s1 ! 1 = e \<and>
     ra_bitmap e = replicate MAX_NEIGHBORS False \<and> ra_count e = 0 \<and>
     rt_table_dump sample_fenv list_kernel s1 = Inr ([sample_route, fe_route sample_fenv], s1)"
proof -
  have z: "zero_addr \<noteq> net_root" "net_root \<noteq> zero_addr" using rooted_neq_zero [OF rooted_net_root] by simp_all
  show ?thesis
    by (simp add: find_entry_def route_entry_def aux_entry_def rt_table_dump_def sample_fwd_def list_kernel_def has_route_def
        add_rt_route_def data_cb_def attributes_show_ipv6_def last_route_def sample_fenv_def add_rt_info_def Let_def z MAX_TTL_def sample_route_def)
qed

theorem next_hop_is_closest_witness:
  "\<exists>s' k d. send_to_next_neighbor sample_fenv list_kernel sample_reg sample_fwd = Inr (add_ttl (-1) sample_reg, s') \<and>
     kern s' = k_newroute list_kernel zero_addr (toggle net_root 3) 128 d k"
proof -
  let ?tab = "[sample_neighbor (toggle net_root 3) 0]"
  have a: "dst_of sample_reg = zero_addr" "src_of sample_reg = zero_addr" "from_addr sample_reg = Inr zero_addr"
    using sample_reg_fields(1) by (simp_all add: dst_of_def src_of_def from_addr_def sample_reg_addr offset_defs)
  have r: "rooted (toggle net_root 3)" by (simp add: rooted_toggle)
  have z: "toggle net_root 3 \<noteq> zero_addr" "net_root \<noteq> zero_addr" using rooted_neq_zero [OF r] rooted_neq_zero [OF rooted_net_root] by simp_all
  obtain s1 e where f: "find_entry sample_fenv list_kernel zero_addr sample_fwd = Inr (Some (0, 1), s1)" "rt_info s1 ! 1 = e"
     "ra_bitmap e = replicate MAX_NEIGHBORS False" "rt_table_dump sample_fenv list_kernel s1 = Inr ([sample_route, fe_route sample_fenv], s1)"
    using sample_find_entry by blast
  have tab: "neigh_table (nd sample_fwd) = ?tab" by (simp add: sample_fwd_def)
  have 1: "find_entry sample_fenv list_kernel (dst_of sample_reg) sample_fwd = Inr (Some (0, 1), s1)" using f(1) a(1) by simp
  have 2: "rt_info_ok sample_fwd" by (simp add: rt_info_ok_def sample_fwd_def)
  have 3: "mark_from zero_addr ?tab (rt_info s1 ! 1) = Inr e" using z f(2) by (simp add: mark_from_def)
  have 4: "\<not> all_visited (ra_bitmap e) ?tab" using f(3) by (simp add: all_visited_def MAX_NEIGHBORS_def upt_rec sample_neighbor_def)
  have 5: "\<forall>it\<in>set ?tab. unat (n_prim_mask it) \<le> 64" by simp
  have 6: "udp_byte (nd sample_fwd) sample_reg = Inr RV_REG"
    using z(2) a(2) sample_reg_fields by (simp add: udp_byte_def udp_pkt_off_def sample_fwd_def UDP_PKT_OFF_def)
  have 7: "\<not> nat_wild sample_fwd \<or> (\<forall>it\<in>set ?tab. n_sec_addr_conn it = 0)" by (simp add: sample_fwd_def)
  have 8: "rt_dst ([sample_route, fe_route sample_fenv] ! nat 0) = dst_of sample_reg" using a(1) by (simp add: sample_route_def)
  show ?thesis
    using next_hop_is_closest [OF 1 2 tab [symmetric] a(3) 3 4 5 6 f(4) order_refl _ 8 7] a(1) by auto
qed

section \<open>The dump of the routes\<close>

text \<open>A message on a complete route of the main table, and the entry it makes.\<close>

definition main_msg :: "rt_msg \<Rightarrow> bool" where
  "main_msg m \<longleftrightarrow> m_inet6 m \<and> m_table m = Some 254 \<and> m_dst m \<noteq> None \<and> m_priority m \<noteq> None \<and> m_gateway m \<noteq> None"

definition entry_of :: "rt_msg \<Rightarrow> route \<Rightarrow> route" where
  "entry_of m r = r\<lparr>rt_dst_mask := uint (m_dst_len m), rt_table := 254, rt_dst := the (m_dst m), rt_distance := the (m_priority m),
     rt_gtw := the (m_gateway m)\<rparr>"

lemma data_cb_main:
  assumes "main_msg m" and "k + 1 < length rt"
  shows "data_cb F m (rt, k) = (rt[k := entry_of m (rt ! k)], k + 1)"
  using assms by (auto simp add: data_cb_def attributes_show_ipv6_def main_msg_def entry_of_def Let_def)

lemma dump_main:
  "\<forall>m\<in>set ms. main_msg m \<Longrightarrow> k + length ms < length rt \<Longrightarrow>
     \<exists>rt'. fold (data_cb F) ms (rt, k) = (rt', k + length ms) \<and> length rt' = length rt \<and>
       (\<forall>i<length ms. rt' ! (k + i) = entry_of (ms ! i) (rt ! (k + i))) \<and> (\<forall>i. i < k \<or> k + length ms \<le> i \<longrightarrow> rt' ! i = rt ! i)"
proof (induction ms arbitrary: k rt)
  case (Cons m ms)
  let ?rt = "rt[k := entry_of m (rt ! k)]"
  have "main_msg m" "k + 1 < length rt" using Cons.prems by simp_all
  then have step: "fold (data_cb F) (m # ms) (rt, k) = fold (data_cb F) ms (?rt, k + 1)" by (simp only: fold.simps o_apply data_cb_main)
  obtain rt' where rt': "fold (data_cb F) ms (?rt, k + 1) = (rt', k + 1 + length ms)" "length rt' = length ?rt"
    "\<forall>i<length ms. rt' ! (k + 1 + i) = entry_of (ms ! i) (?rt ! (k + 1 + i))" "\<forall>i. i < k + 1 \<or> k + 1 + length ms \<le> i \<longrightarrow> rt' ! i = ?rt ! i"
    using Cons.IH [of "k + 1" ?rt] Cons.prems by auto
  have "rt' ! (k + i) = entry_of ((m # ms) ! i) (rt ! (k + i))" if "i < length (m # ms)" for i
    using rt'(3,4) that Cons.prems(2) by (cases i) auto
  moreover have "rt' ! i = rt ! i" if "i < k \<or> k + length (m # ms) \<le> i" for i
    using rt'(4) that by auto
  ultimately show ?case using step rt'(1,2) by simp
qed simp

text \<open>The list that a dump returns starts with the routes of the kernel in their order, but the
  list is reused and never shortened: behind them every entry of the previous dump is still there, though the
  kernel has the route no more. The forwarding, which searches the whole list, goes on using deleted routes.\<close>

theorem dump_keeps_stale_routes:
  assumes "k_dump K (kern s) = (ms, True)" and "\<forall>m\<in>set ms. main_msg m" and "length ms < length (route_t (nd s))"
  shows "\<exists>rt s'. rt_table_dump F K s = Inr (rt, s') \<and> length rt = length (route_t (nd s)) \<and>
    (\<forall>i<length ms. Some (rt_dst (rt ! i)) = m_dst (ms ! i) \<and> Some (rt_gtw (rt ! i)) = m_gateway (ms ! i)) \<and>
    (\<forall>i. length ms \<le> i \<longrightarrow> rt ! i = route_t (nd s) ! i) \<and>
    (\<forall>dst. has_route dst (drop (length ms) (route_t (nd s))) \<longrightarrow> has_route dst rt)"
proof -
  obtain rt where rt: "fold (data_cb F) ms (route_t (nd s), 0) = (rt, length ms)" "length rt = length (route_t (nd s))"
    "\<forall>i<length ms. rt ! i = entry_of (ms ! i) (route_t (nd s) ! i)" "\<forall>i. length ms \<le> i \<longrightarrow> rt ! i = route_t (nd s) ! i"
    using dump_main [OF assms(2), of 0 "route_t (nd s)" F] assms(3) by auto
  have "drop (length ms) (route_t (nd s)) = drop (length ms) rt" using rt(2,4) by (intro nth_equalityI) auto
  then have "has_route dst (drop (length ms) (route_t (nd s))) \<longrightarrow> has_route dst rt" for dst
    by (auto simp add: has_route_def list_ex_iff dest: in_set_dropD)
  moreover have "Some (rt_dst (rt ! i)) = m_dst (ms ! i) \<and> Some (rt_gtw (rt ! i)) = m_gateway (ms ! i)" if "i < length ms" for i
    using rt(3) that bspec [OF assms(2) nth_mem [OF that]] by (simp add: entry_of_def main_msg_def)
  moreover have "route_t (nd s) \<noteq> []" using assms(3) by auto
  ultimately show ?thesis using rt assms(1) by (simp add: rt_table_dump_def)
qed

theorem dump_keeps_stale_routes_witness:
  "\<exists>rt s'. rt_table_dump sample_fenv list_kernel (sample_fwd\<lparr>nd := sample_node\<lparr>route_t := [sample_route, sample_route]\<rparr>\<rparr>) = Inr (rt, s') \<and>
     has_route zero_addr rt \<and> kern s' = []"
proof -
  let ?s = "sample_fwd\<lparr>nd := sample_node\<lparr>route_t := [sample_route, sample_route]\<rparr>\<rparr>"
  have d: "k_dump list_kernel (kern ?s) = ([], True)" by (simp add: list_kernel_def sample_fwd_def)
  have "has_route zero_addr (drop (length []) (route_t (nd ?s)))"
    by (simp add: has_route_def sample_route_def no_gateway_def zero_addr_def)
  then obtain rt s' where "rt_table_dump sample_fenv list_kernel ?s = Inr (rt, s')" "has_route zero_addr rt"
    using dump_keeps_stale_routes [OF d, of sample_fenv] by auto
  moreover from this(1) have "kern s' = []" using same_node_dump by (fastforce simp add: sample_fwd_def)
  ultimately show ?thesis by blast
qed

section \<open>The verdict\<close>

lemma fold_retry:
  "\<forall>it\<in>set its. n_available it \<noteq> 0 \<Longrightarrow> fold (retry_unavailable F K k) its (Inr (pkt, s)) = Inr (pkt, s)"
  by (induction its) (auto simp add: retry_unavailable_def)

text \<open>A packet from a neighbour to another node, for which the kernel has a route that does not lead back,
  while all neighbours are available, makes \<open>route\<close> fall off its end: the firewall hook compares
  an indeterminate value with \<open>RV_DROP\<close>, so that the packet may be dropped.\<close>

theorem known_route_has_no_verdict:
  assumes "udp_byte (nd s) pkt = Inr ty" and "\<not> passes (nd s) ty pkt" and "\<not> rv_byte ty"
    and "src_of pkt \<noteq> prim_addr (nd s)" and "dst_of pkt \<noteq> prim_addr (nd s)" and "from_addr pkt = Inr from"
    and "\<exists>it\<in>set (neigh_table (nd s)). n_prim_addr it = src_of pkt" and "\<forall>it\<in>set (neigh_table (nd s)). n_available it \<noteq> 0"
    and "rt_table_dump F K s = Inr (rt, s1)" and "has_route (dst_of pkt) rt"
    and "\<forall>r\<in>set rt. rt_dst r = dst_of pkt \<longrightarrow> rt_gtw r \<noteq> from"
  shows "\<exists>s'. route F K PRE_ROUTING pkt s = Inr (None, pkt, s')"
proof -
  define ks where "ks = filter (\<lambda>k. rt_dst (rt ! k) = dst_of pkt \<and> rt_gtw (rt ! k) \<noteq> dst_of pkt) [0..<length rt]"
  have "\<exists>k<length rt. rt_dst (rt ! k) = dst_of pkt \<and> rt_gtw (rt ! k) \<noteq> dst_of pkt"
    using assms(10) by (auto simp add: has_route_def list_ex_iff in_set_conv_nth)
  then have "ks \<noteq> []" by (auto simp add: ks_def filter_empty_conv)
  then obtain k rest where ks: "ks = k # rest" by (cases ks) auto
  then have "k \<in> set ks" by simp
  then have k: "rt_gtw (rt ! k) \<noteq> from" using assms(11) by (auto simp add: ks_def)
  have nt: "neigh_table (nd s1) = neigh_table (nd s)" using same_node_dump [OF assms(9)] same_nodeD by blast
  have "route_forward F K PRE_ROUTING pkt None s = Inr (None, pkt, s1)"
    using assms(5,6,8,9) k ks nt unfolding route_forward_def by (simp add: ks_def [symmetric] fold_retry)
  moreover have "list_ex (\<lambda>it. n_prim_addr it = src_of pkt) (neigh_table (nd s))" using assms(7) by (simp add: list_ex_iff)
  ultimately show ?thesis using assms(1-6) by (simp add: route_def RV_ACCEPT_def RV_DROP_def Let_def)
qed

text \<open>A packet from the neighbour of \<open>sample_fwd\<close> to \<open>net_default\<close>, with an empty payload.\<close>

definition sample_data :: "byte list" where
  "sample_data = replicate 8 0 @ [0x20, 0x01, 0x0d, 0xb8, 0, 0, 0, 0, 0x10, 0, 0, 0, 0, 0, 0, 0x01]
     @ [0x20, 0x01, 0x0d, 0xb8, 0, 0, 0, 0, 0, 0, 0, 0, 0, 0, 0, 0x0a] @ replicate 104 0"

lemma sample_data_addr:
  "src_of sample_data = toggle net_root 3" "dst_of sample_data = net_default" "addr_at sample_data FROM_ADDR_OFFSET = zero_addr"
  by (simp_all add: src_of_def dst_of_def addr_at_def s6_build_def s6_of_words_def upt_rec load16_def le16_def sample_data_def
      nth_append offset_defs toggle_def net_root_def net_default_def zero_addr_def s6_set_def s6_addr16_def htons_def)

theorem known_route_has_no_verdict_witness:
  "\<exists>s'. route sample_fenv list_kernel PRE_ROUTING sample_data
     (sample_fwd\<lparr>nd := (nd sample_fwd)\<lparr>route_t := [sample_route\<lparr>rt_dst := net_default\<rparr>]\<rparr>\<rparr>) = Inr (None, sample_data, s')"
proof -
  let ?s = "sample_fwd\<lparr>nd := (nd sample_fwd)\<lparr>route_t := [sample_route\<lparr>rt_dst := net_default\<rparr>]\<rparr>\<rparr>"
  have len: "length sample_data = 144" "sample_data ! 48 = 0" by (simp_all add: sample_data_def nth_append)
  have ne: "toggle net_root 3 \<noteq> net_root" "net_default \<noteq> net_root" "s6_addr16 net_default 0 = s6_addr16 net_root 0" "no_gateway \<noteq> zero_addr"
      "no_gateway \<noteq> net_default"
    by (simp_all add: toggle_def net_root_def net_default_def s6_set_def s6_of_words_def s6_addr16_def htons_def
        no_gateway_def zero_addr_def)
  have p: "prim_addr (nd ?s) = net_root" by (simp add: sample_fwd_def)
  have ty: "udp_byte (nd ?s) sample_data = Inr 0"
    using len ne p by (simp add: udp_byte_def udp_pkt_off_def sample_data_addr UDP_PKT_OFF_def)
  have pass: "\<not> passes (nd ?s) 0 sample_data" "\<not> rv_byte 0"
    using ne p by (simp_all add: passes_def sample_data_addr rv_byte_def packet_type_defs)
  have fr: "from_addr sample_data = Inr zero_addr" using len(1) sample_data_addr(3) by (simp add: from_addr_def FROM_ADDR_OFFSET_def)
  have d: "rt_table_dump sample_fenv list_kernel ?s = Inr ([sample_route\<lparr>rt_dst := net_default\<rparr>], ?s)"
    by (simp add: rt_table_dump_def list_kernel_def sample_fwd_def Let_def)
  have "src_of sample_data \<noteq> prim_addr (nd ?s)" "dst_of sample_data \<noteq> prim_addr (nd ?s)" using ne p by (simp_all add: sample_data_addr)
  from known_route_has_no_verdict [OF ty pass this fr _ _ d] show ?thesis
    using ne by (simp add: sample_data_addr has_route_def sample_fwd_def sample_route_def sample_neighbor_def)
qed

end
