(* ===== verification/Hooks_Correct.thy ===== *)
theory Hooks_Correct
  imports Pkt_Hooks Dns_Correct Forwarding_Correct
begin

text \<open>
  Properties of the hooks: which packets are taken from the network, what is built for a packet of the node itself and
  what becomes of it, the route of an echo reply, and the DNS queries that are intercepted.
\<close>

section \<open>Packets that are dropped\<close>

lemma route_forward_verdict:
  "route_forward F K hk pkt re s = Inr (v, pkt', s') \<Longrightarrow> v = None \<or> v = Some RV_ACCEPT"
  by (auto simp add: route_forward_def Let_def split: if_splits list.splits option.splits prod.splits elim!: bind_InrE)

lemma route_drop:
  assumes "route F K hk pkt s = Inr (Some RV_DROP, pkt', s')"
  shows "\<exists>ty. udp_byte (nd s) pkt = Inr ty \<and> rv_byte ty \<and> \<not> passes (nd s) ty pkt \<and> dst_of pkt \<noteq> prim_addr (nd s) \<and>
    (hk = PRE_ROUTING \<longrightarrow> src_of pkt \<noteq> prim_addr (nd s)) \<and> serves (dst_of pkt) (nd s) = Inr True \<and>
    (\<exists>n. rv_route F pkt (nd s) = Inr (RV_DROP, n) \<and> s' = s\<lparr>nd := n\<rparr> \<and> pkt' = pkt)"
  using assms
  by (auto simp add: route_def RV_DROP_def RV_ACCEPT_def Let_def split: if_splits option.splits elim!: bind_InrE
      dest!: route_forward_verdict rv_route_drop [unfolded RV_DROP_def])

text \<open>C24: A hook takes a packet from the network exactly when it is the first hook and the packet is a message of the
  rendezvous service inside the network, neither sent by the node nor addressed to it, whose destination lies in a space that the
  node serves and which \<open>rv_route\<close> has handled without a fault: a registration entered into the table or a lookup answered. The
  packet and the rest of the state are unchanged. (The 32 bytes are those by which the buffer is longer than the packet. A
  packet on a known route gets no verdict at all, because \<open>route\<close> ends without a value: that is the fault \<open>Missing_Return\<close>.)\<close>

theorem only_served_dropped:
  "cb F K hk pkt s = Inr (Drop d, s') \<longleftrightarrow>
     (let p = pkt @ replicate 32 0
      in hk = PRE_ROUTING \<and> d = pkt \<and> dst_of p \<noteq> prim_addr (nd s) \<and> src_of p \<noteq> prim_addr (nd s) \<and> serves (dst_of p) (nd s) = Inr True \<and>
         (\<exists>ty n. udp_byte (nd s) p = Inr ty \<and> rv_byte ty \<and> \<not> passes (nd s) ty p \<and> rv_route F p (nd s) = Inr (RV_DROP, n) \<and> s' = s\<lparr>nd := n\<rparr>))"
  (is "?drop \<longleftrightarrow> ?served")
proof
  assume ?drop
  then obtain data where pre: "hk = PRE_ROUTING" and r: "route F K PRE_ROUTING (pkt @ replicate 32 0) s = Inr (Some RV_DROP, data, s')"
    and d: "d = take (length pkt) data"
    by (cases hk) (auto simp add: cb_def Let_def split: option.splits if_splits elim!: bind_InrE)
  from route_drop [OF r] d pre show ?served by (auto simp add: Let_def)
next
  assume ?served
  then show ?drop by (auto simp add: cb_def route_def RV_DROP_def RV_ACCEPT_def Let_def)
qed

section \<open>The options header\<close>

lemma first_eight:
  assumes "8 \<le> length xs"
  obtains b0 b1 b2 b3 b4 b5 b6 b7 ys where "xs = [b0, b1, b2, b3, b4, b5, b6, b7] @ ys"
proof -
  have "Suc (Suc (Suc (Suc (Suc (Suc (Suc (Suc 0))))))) \<le> length xs" using assms by simp
  then show thesis using that by (auto simp only: Suc_le_length_iff append.simps)
qed

lemma header_split:
  assumes "40 \<le> length pkt"
  obtains b0 b1 b2 b3 b4 b5 b6 b7 as p where "pkt = [b0, b1, b2, b3, b4, b5, b6, b7] @ as @ p" and "length as = 32"
proof -
  have "8 \<le> length pkt" using assms by simp
  then obtain b0 b1 b2 b3 b4 b5 b6 b7 ys where pkt: "pkt = [b0, b1, b2, b3, b4, b5, b6, b7] @ ys" by (rule first_eight)
  then have "ys = take 32 ys @ drop 32 ys" "length (take 32 ys) = 32" using assms by simp_all
  with pkt show thesis using that by metis
qed

lemma header_updates:
  "([b0, b1, b2, b3, b4, b5, b6, b7] @ z)[3 := v] = [b0, b1, b2, v, b4, b5, b6, b7] @ z"
  "([b0, b1, b2, b3, b4, b5, b6, b7] @ z)[4 := v, 5 := w, 7 := x, 6 := y] = [b0, b1, b2, b3, v, w, y, x] @ z"
  "([b0, b1, b2, b3, b4, b5, b6, b7] @ z) ! 3 = b3" "([b0, b1, b2, b3, b4, b5, b6, b7] @ z) ! 6 = b6"
  by (simp_all add: numeral_eq_Suc)

lemma insert_option_value:
  assumes "length as = 32" and "length payload = 40 + length p"
  shows "insert_option a ([b0, b1, b2, b3, b4, b5, b6, b7] @ as @ p) payload =
    Inr ([b0, b1, b2, b3 OR MASK_IA, ucast (drop_bit 8 (word_of_nat (length p + 32) :: 16 word)), word_of_nat (length p + 32), 60, MAX_TTL] @
      as @ option_header b6 a @ drop 40 payload)"
proof -
  let ?h = "[b0, b1, b2, b3 OR MASK_IA, b4, b5, b6, b7]"
  define gap where "gap = take 32 (p @ replicate 32 (0 :: byte))"
  have gap: "length gap = 32" by (simp add: gap_def)
  have set: "set_is_antop (([b0, b1, b2, b3, b4, b5, b6, b7] @ as @ p) @ replicate 32 0) = ?h @ as @ p @ replicate 32 0"
    by (simp only: set_is_antop_def FLAGS_OFFSET_def Let_def append.assoc header_updates)
  have "p @ replicate 32 0 = gap @ drop 32 (p @ replicate 32 0)" unfolding gap_def by (rule append_take_drop_id [symmetric])
  then have w1: "write_at 72 (drop 40 payload) (?h @ as @ p @ replicate 32 0) = Inr (?h @ as @ gap @ drop 40 payload)"
    using write_at_append [of "?h @ as @ gap" 72 "drop 40 payload" "drop 32 (p @ replicate 32 0)"] assms gap by simp
  have w2: "write_at 40 (option_header b6 a) ([c0, c1, c2, c3, c4, c5, c6, c7] @ as @ gap @ z) =
      Inr ([c0, c1, c2, c3, c4, c5, c6, c7] @ as @ option_header b6 a @ z)" for c0 c1 c2 c3 c4 c5 c6 c7 z
    using write_at_same [of "[c0, c1, c2, c3, c4, c5, c6, c7] @ as" 40 gap "option_header b6 a" z] assms gap by (simp add: option_header_def)
  have len: "length ([b0, b1, b2, b3, b4, b5, b6, b7] @ as @ p) = length p + 40" using assms(1) by simp
  have nat: "length p + 40 + 32 - 40 = length p + 32" by simp
  show ?thesis
    unfolding insert_option_def Let_def set w1 bind_simps header_updates w2 len nat by simp
qed

lemma header_addrs:
  assumes "length as = 32" and "length h = 8"
  shows "addr_at (h @ as @ z) 8 = addr_at as 0" and "addr_at (h @ as @ z) 24 = addr_at as 16"
  using assms by (intro addr_at_cong; simp add: nth_append)+

lemma be16_bytes: "256 * unat (ucast (drop_bit 8 w) :: byte) + unat (ucast w :: byte) = unat w" for w :: "16 word"
  using arg_cong [OF le16_bytes [of w], of unat] by (simp add: unat_le16)

lemma byte_of_nat: "(word_of_nat n :: byte) = ucast (word_of_nat n :: 16 word)"
  by (simp add: word_eq_iff_unsigned [where ?'a = nat] unsigned_ucast_eq unsigned_of_nat)

text \<open>The header a packet of the node is given names the node as the one it comes from, keeps the addresses
  and the payload, chains to the next header the packet had, and the length field counts it.\<close>

lemma option_header_correct:
  assumes "40 \<le> length pkt" and "length pkt < 2 ^ 16"
  shows "\<exists>d. insert_option a pkt pkt = Inr d \<and> length d = length pkt + 32 \<and> src_of d = src_of pkt \<and> dst_of d = dst_of pkt \<and>
    from_addr d = Inr a \<and> d ! NXT_HDR_OFFSET = 60 \<and> d ! 40 = pkt ! NXT_HDR_OFFSET \<and> d ! TTL_OFFSET = MAX_TTL \<and>
    drop 72 d = drop 40 pkt \<and> 256 * unat (d ! 4) + unat (d ! 5) = length d - 40"
proof -
  obtain b0 b1 b2 b3 b4 b5 b6 b7 as p where pkt: "pkt = [b0, b1, b2, b3, b4, b5, b6, b7] @ as @ p" and as: "length as = 32"
    using header_split [OF assms(1)] .
  define len where "len = (word_of_nat (length p + 32) :: 16 word)"
  define h where "h = [b0, b1, b2, b3 OR MASK_IA, ucast (drop_bit 8 len), ucast len, 60, MAX_TTL]"
  define d where "d = h @ as @ option_header b6 a @ p"
  have h: "length h = 8" by (simp add: h_def)
  have "(word_of_nat (length p + 32) :: byte) = ucast len" unfolding len_def by (rule byte_of_nat)
  then have ins: "insert_option a pkt pkt = Inr d"
    using insert_option_value [OF as, of pkt p a b0 b1 b2 b3 b4 b5 b6 b7] as unfolding d_def h_def len_def pkt by simp
  have len: "unat len = length d - 40"
    using assms(2) as unfolding len_def unsigned_of_nat by (simp add: d_def h_def pkt take_bit_nat_eq_self option_header_def)
  define pre where "pre = h @ as @ [b6, 3, 1, 10] @ replicate 10 0 @ [16, 16]"
  have "length pre = FROM_ADDR_OFFSET" "d = pre @ addr_bytes a @ p"
    using as h by (simp_all add: d_def pre_def option_header_def FROM_ADDR_OFFSET_def)
  then have "addr_at d FROM_ADDR_OFFSET = a" using addr_at_bytes by simp
  then have "from_addr d = Inr a" using as by (simp add: from_addr_def d_def h_def option_header_def FROM_ADDR_OFFSET_def)
  moreover have "src_of d = src_of pkt" "dst_of d = dst_of pkt"
    using header_addrs [OF as h] header_addrs [OF as, of "[b0, b1, b2, b3, b4, b5, b6, b7]"]
    by (simp_all add: src_of_def dst_of_def offset_defs d_def pkt)
  moreover have "256 * unat (d ! 4) + unat (d ! 5) = length d - 40"
    using be16_bytes [of len] len by (simp add: d_def h_def)
  ultimately show ?thesis
    using ins as by (intro exI [of _ d]) (simp add: d_def h_def pkt option_header_def NXT_HDR_OFFSET_def TTL_OFFSET_def nth_append)
qed

section \<open>What leaves the node\<close>

text \<open>An address of the network: its first four words are those of the address of the root.\<close>

definition hc_prefix :: "in6_addr \<Rightarrow> bool" where
  "hc_prefix a \<longleftrightarrow> (\<forall>i<4. s6_addr16 a i = s6_addr16 net_root i)"

text \<open>C40: The header with the address of the sender is built but not sent: at the hook of outgoing packets the verdict
  carries no bytes, so the packet leaves as it was. When the packet holds a message of the rendezvous service (behind the two headers, at 48),
  the next node reads what it takes for the sender's address from the middle of that message: the counter, which nobody sets, and the first
  twelve bytes of the address the message names. When that address is one of the network, as it is in every registration and lookup, this
  is no address of the network, so no neighbour with an address of the network is marked as tried, and the packet may go back where it
  came from.\<close>

theorem from_option_lost:
  assumes "cb F K LOCAL_OUT pkt s = Inr (v, s')" and "40 \<le> length pkt" and "length pkt < 2 ^ 16" and "rv_at pkt 48 = Inr m"
    and "hc_prefix (rv_prim_addr m)" and "\<forall>it\<in>set tab. hc_prefix (n_prim_addr it)"
  shows "(\<exists>d. insert_option (prim_addr (nd s)) pkt pkt = Inr d \<and> from_addr d = Inr (prim_addr (nd s)) \<and> src_of d = src_of pkt \<and>
      dst_of d = dst_of pkt \<and> drop 72 d = drop 40 pkt \<and> 256 * unat (d ! 4) + unat (d ! 5) = length d - 40) \<and>
    on_wire v pkt = Some pkt \<and>
    (\<exists>from. from_addr (pkt @ replicate 32 0) = Inr from \<and> s6_addr16 from 0 = ucast (rv_n m) \<and>
      (\<forall>i<6. s6_addr16 from (i + 2) = s6_addr16 (rv_prim_addr m) i) \<and> \<not> hc_prefix from \<and> mark_from from tab e = Inr e)"
proof -
  let ?from = "addr_at (pkt @ replicate 32 0) 56"
  have len: "144 \<le> length pkt" and n: "rv_n m = le32 pkt 56" and a: "rv_prim_addr m = addr_at pkt 60"
    using assms(4) by (auto simp add: rv_at_def split: if_splits)
  have "s6_addr16 ?from 0 = load16 pkt 56" using len by (simp add: addr_at_def load16_def nth_append)
  then have w0: "s6_addr16 ?from 0 = ucast (rv_n m)" by (metis n ucast_le32)
  have w: "s6_addr16 ?from (i + 2) = s6_addr16 (rv_prim_addr m) i" if "i < 6" for i
    using that len by (simp add: a addr_at_def load16_def nth_append algebra_simps)
  have "s6_addr16 ?from 2 = s6_addr16 net_root 0" using w [of 0] assms(5) by (simp add: hc_prefix_def numeral_2_eq_2)
  moreover have "s6_addr16 net_root 0 \<noteq> s6_addr16 net_root 2" by (simp add: net_root_def s6_addr16_def)
  ultimately have no: "\<not> hc_prefix ?from" unfolding hc_prefix_def by (metis numeral_less_iff semiring_norm(76,78))
  then have "\<forall>i<length tab. n_prim_addr (tab ! i) \<noteq> ?from" using assms(6) nth_mem [of _ tab] by metis
  then have "filter (\<lambda>i. n_prim_addr (tab ! i) = ?from) [0..<length tab] = []" by (simp add: filter_empty_conv)
  then have "mark_from ?from tab e = Inr e" by (simp add: mark_from_def)
  moreover have "from_addr (pkt @ replicate 32 0) = Inr ?from" using len by (simp add: from_addr_def FROM_ADDR_OFFSET_def)
  moreover have "on_wire v pkt = Some pkt" using assms(1) by (auto simp add: cb_def Let_def elim!: bind_InrE)
  ultimately show ?thesis using option_header_correct [OF assms(2,3), of "prim_addr (nd s)"] w0 w no by blast
qed

lemma route_passes:
  assumes "udp_byte (nd s) d = Inr ty" and "s6_addr16 (dst_of d) 0 \<noteq> s6_addr16 (prim_addr (nd s)) 0"
  shows "route F K hk d s = Inr (Some RV_ACCEPT, d, s)"
  using assms by (simp add: route_def passes_def)

text \<open>A registration in a packet without an upper-layer header.\<close>

definition sample_raw :: "byte list" where
  "sample_raw = [0x60, 0, 0, 0, 0, 104, 59, 64] @ replicate 40 0 @ [RV_REG] @ replicate 11 0 @ addr_bytes net_root @ replicate 68 0"

theorem from_option_lost_witness:
  "\<exists>v s' from. cb sample_fenv list_kernel LOCAL_OUT sample_raw sample_fwd = Inr (v, s') \<and> on_wire v sample_raw = Some sample_raw \<and>
     from_addr (sample_raw @ replicate 32 0) = Inr from \<and> mark_from from [sample_neighbor (toggle net_root 3) 0] (fe_aux sample_fenv) = Inr (fe_aux sample_fenv)"
proof -
  have len: "length sample_raw = 144" by (simp add: sample_raw_def)
  have zero: "addr_at sample_raw off = zero_addr" if "off = 8 \<or> off = 24" for off
  proof -
    have "addr_at sample_raw off = addr_at (replicate 16 0) 0"
      using that by (intro addr_at_cong) (auto simp add: sample_raw_def nth_append)
    also have "\<dots> = zero_addr" by (simp add: addr_at_def s6_build_def s6_of_words_def upt_rec load16_def le16_def zero_addr_def)
    finally show ?thesis .
  qed
  obtain d where d: "insert_option net_root sample_raw sample_raw = Inr d" "length d = 176" "src_of d = zero_addr" "dst_of d = zero_addr"
    using option_header_correct [of sample_raw net_root] len zero by (auto simp add: src_of_def dst_of_def offset_defs)
  have ne: "s6_addr16 zero_addr 0 \<noteq> s6_addr16 net_root 0" "s6_addr16 (toggle net_root 3) 0 \<noteq> 0"
    by (simp_all add: zero_addr_def net_root_def toggle_def s6_set_def s6_of_words_def s6_addr16_def htons_def)
  have p: "prim_addr (nd sample_fwd) = net_root" "nat_table sample_fwd = []" by (simp_all add: sample_fwd_def)
  have "\<exists>ty. udp_byte (nd sample_fwd) d = Inr ty" using d(2) by (simp add: udp_byte_def udp_pkt_off_def UDP_PKT_OFF_def)
  then obtain ty where "udp_byte (nd sample_fwd) d = Inr ty" ..
  from route_passes [OF this] d ne p have "route sample_fenv list_kernel LOCAL_OUT d sample_fwd = Inr (Some RV_ACCEPT, d, sample_fwd)" by simp
  moreover have "byte_at NXT_HDR_OFFSET sample_raw = Inr 59" by (simp add: byte_at_def NXT_HDR_OFFSET_def sample_raw_def)
  ultimately have c: "cb sample_fenv list_kernel LOCAL_OUT sample_raw sample_fwd = Inr (Accept None, sample_fwd)"
    using d p by (simp add: cb_def local_out_def nat_source_def)
  obtain m where m: "rv_at sample_raw 48 = Inr m" "rv_prim_addr m = addr_at sample_raw 60" using len by (simp add: rv_at_def)
  have "addr_at sample_raw 60 = net_root"
    using addr_at_bytes [of "[0x60, 0, 0, 0, 0, 104, 59, 64] @ replicate 40 0 @ [RV_REG] @ replicate 11 0" 60 net_root "replicate 68 0"]
    by (simp add: sample_raw_def)
  then have "hc_prefix (rv_prim_addr m)" using m(2) by (simp add: hc_prefix_def)
  moreover have "hc_prefix (toggle net_root 3)"
    by (simp add: hc_prefix_def toggle_def)
  ultimately show ?thesis using from_option_lost [OF c _ _ m(1), of "[sample_neighbor (toggle net_root 3) 0]" "fe_aux sample_fenv"] c len by auto
qed

section \<open>Echo requests\<close>

lemma reply_gateway_fold:
  fixes d :: nat
  shows "\<exists>d' gw'. fold (\<lambda>it (d, gw). if d > dist src it then (dist src it, n_prim_addr it) else (d, gw)) tab (d, gw) = (d', gw') \<and>
    d' \<le> d \<and> (\<forall>it\<in>set tab. d' \<le> dist src it) \<and> (d' = d \<and> gw' = gw \<or> (\<exists>it\<in>set tab. d' = dist src it \<and> gw' = n_prim_addr it))"
proof (induction tab arbitrary: d gw)
  case (Cons it tab)
  show ?case
  proof (cases "dist src it < d")
    case True
    with Cons.IH [of "dist src it" "n_prim_addr it"] show ?thesis by fastforce
  next
    case False
    with Cons.IH [of d gw] show ?thesis by fastforce
  qed
qed simp

lemma reply_gateway_nearest:
  assumes "tab \<noteq> []"
  obtains it where "it \<in> set tab" and "reply_gateway F src tab = n_prim_addr it" and "\<forall>it'\<in>set tab. dist src it \<le> dist src it'"
proof -
  obtain d gw where f: "fold (\<lambda>it (d, gw). if d > dist src it then (dist src it, n_prim_addr it) else (d, gw)) tab (99, fe_gw F) = (d, gw)"
    "\<forall>it\<in>set tab. d \<le> dist src it" "d = 99 \<and> gw = fe_gw F \<or> (\<exists>it\<in>set tab. d = dist src it \<and> gw = n_prim_addr it)"
    using reply_gateway_fold [of src tab 99 "fe_gw F"] by blast
  have "dist src (hd tab) \<le> 64" using hamming_upto_le [of 64 src "n_prim_addr (hd tab)"] by simp
  then have "d \<noteq> 99" using f(2) assms by (cases tab) auto
  then show thesis using f that by (auto simp add: reply_gateway_def)
qed

text \<open>C25: An echo request for the node makes it install a route back to the sender through a neighbour that no
  other beats in distance to the sender; the packet passes unchanged.\<close>

theorem echo_reply_routed:
  assumes "40 < length pkt" and "pkt ! NXT_HDR_OFFSET = 58" and "pkt ! 40 = 128" and "neigh_table (nd s) \<noteq> []"
  shows "\<exists>it\<in>set (neigh_table (nd s)).
    cb F K LOCAL_IN pkt s = Inr (Accept (Some pkt), add_rt_route K (src_of pkt) (n_prim_addr it) 128 (uint MAX_TTL) s) \<and>
    (\<forall>it'\<in>set (neigh_table (nd s)). dist (src_of pkt) it \<le> dist (src_of pkt) it')"
proof -
  have nxt: "byte_at NXT_HDR_OFFSET pkt = Inr 58" using assms(1,2) by (simp add: byte_at_def NXT_HDR_OFFSET_def)
  obtain it where "it \<in> set (neigh_table (nd s))" "reply_gateway F (src_of pkt) (neigh_table (nd s)) = n_prim_addr it"
    "\<forall>it'\<in>set (neigh_table (nd s)). dist (src_of pkt) it \<le> dist (src_of pkt) it'"
    using reply_gateway_nearest [OF assms(4)] .
  then show ?thesis using assms(1,3) nxt by (intro bexI [of _ it]) (auto simp add: cb_def local_in_def byte_at_def)
qed

theorem echo_reply_routed_witness:
  "cb sample_fenv list_kernel LOCAL_IN ([0x60, 0, 0, 0, 0, 8, 58, 64] @ addr_bytes net_default @ addr_bytes net_root @ [128, 0, 0, 0, 0, 0, 0, 0]) sample_fwd =
     Inr (Accept (Some ([0x60, 0, 0, 0, 0, 8, 58, 64] @ addr_bytes net_default @ addr_bytes net_root @ [128, 0, 0, 0, 0, 0, 0, 0])),
       add_rt_route list_kernel net_default (toggle net_root 3) 128 10 sample_fwd)"
proof -
  let ?p = "[0x60, 0, 0, 0, 0, 8, 58, 64] @ addr_bytes net_default @ addr_bytes net_root @ [128, 0, 0, 0, 0, 0, 0, 0]"
  have "src_of ?p = net_default"
    using addr_at_bytes [of "[0x60, 0, 0, 0, 0, 8, 58, 64]" 8 net_default] by (simp add: src_of_def SRC_ADDR_OFFSET_def)
  moreover have "?p ! NXT_HDR_OFFSET = 58" "?p ! 40 = 128" "40 < length ?p" by (simp_all add: NXT_HDR_OFFSET_def nth_append)
  ultimately show ?thesis using echo_reply_routed [of ?p sample_fwd sample_fenv list_kernel] by (simp add: sample_fwd_def MAX_TTL_def)
qed

section \<open>DNS queries of the node\<close>

text \<open>
  A DNS query as a resolver sends it: IPv6 and UDP header, DNS header with recursion desired and one question, the name, and the
  type of IPv6 addresses.
\<close>

definition resolver_packet :: "byte list \<Rightarrow> byte list \<Rightarrow> byte list \<Rightarrow> byte list \<Rightarrow> byte list \<Rightarrow> byte list" where
  "resolver_packet ip udp head name rest = ip @ udp @ head @ name @ 0 # rest"

definition is_resolver_query :: "byte list \<Rightarrow> byte list \<Rightarrow> byte list \<Rightarrow> byte list \<Rightarrow> byte list \<Rightarrow> bool" where
  "is_resolver_query ip udp head name rest \<longleftrightarrow>
     length ip = 40 \<and> ip ! NXT_HDR_OFFSET = 17 \<and> length udp = 8 \<and> udp ! 2 = 0 \<and> udp ! 3 = 53 \<and>
     (let port = htons (load16 udp 0) in port \<noteq> 0 \<and> port \<noteq> MDNS_PORT \<and> int (unat port) \<noteq> ANTOP_PORT \<and> port \<noteq> MDNS_PORT_AUX \<and> port \<noteq> DNS_PORT_AUX) \<and>
     length head = 12 \<and> head ! 2 = 1 \<and> head ! 5 = 1 \<and> name \<noteq> [] \<and> 0 \<notin> set name \<and> 4 \<le> length rest \<and> rest ! 1 = 28"

lemma dns_query_seen:
  assumes "is_resolver_query ip udp head name rest" and "length pre = 72"
  defines "d \<equiv> pre @ udp @ head @ name @ 0 # rest"
  shows "word_at 72 d = Inr (load16 udp 0)" and "word_at 74 d = Inr (htons DNS_PORT)" and "is_dns_query d = Inr True"
    and "mark_rv d = Inr d" and "dns_translate k d = Inr d"
proof -
  have len: "length udp = 8" "length head = 12" "0 \<notin> set name" "4 \<le> length rest" and flags: "head ! 2 = 1" "head ! 5 = 1" "rest ! 1 = 28" "udp ! 2 = 0" "udp ! 3 = 53"
    using assms(1) by (simp_all add: is_resolver_query_def)
  have "load16 udp 2 = htons DNS_PORT" using flags by (simp add: load16_def le16_def htons_def DNS_PORT_def)
  then show w: "word_at 72 d = Inr (load16 udp 0)" "word_at 74 d = Inr (htons DNS_PORT)"
    using load16_append [OF assms(2), of 0 udp] load16_append [OF assms(2), of 2 udp] len assms(2) by (simp_all add: word_at_def d_def)
  have h: "byte_at 82 d = Inr 1" "byte_at 85 d = Inr 1"
    using nth_at [of "pre @ udp" 80 2 head] nth_at [of "pre @ udp" 80 5 head] len flags assms(2) by (simp_all add: byte_at_def d_def)
  have n: "string_at (80 + MDNS_QUERY_OFFSET) d = Inr name"
    using string_at_append [of "pre @ udp @ head" 92 name rest] len assms(2) by (simp add: d_def MDNS_QUERY_OFFSET_def)
  have t: "byte_at (80 + MDNS_QUERY_OFFSET + length name + 2) d = Inr 28"
    using nth_at [of "pre @ udp @ head @ name @ [0]" "93 + length name" 1 rest "[]"] len flags assms(2) by (simp add: byte_at_def d_def MDNS_QUERY_OFFSET_def)
  have ports: "htons (load16 udp 0) \<noteq> MDNS_PORT" "int (unat (htons (load16 udp 0))) \<noteq> ANTOP_PORT" "htons (load16 udp 0) \<noteq> MDNS_PORT_AUX"
    "htons (load16 udp 0) \<noteq> DNS_PORT_AUX" using assms(1) by (simp_all add: is_resolver_query_def Let_def)
  then show "is_dns_query d = Inr True" using w h n t by (simp add: is_dns_query_def)
  show "dns_translate k d = Inr d" using w ports by (simp add: dns_translate_def)
  have "byte_at 74 d = Inr 0" "byte_at 75 d = Inr 53"
    using nth_at [OF assms(2), of 2 udp] nth_at [OF assms(2), of 3 udp] len flags assms(2) by (simp_all add: byte_at_def d_def)
  then show "mark_rv d = Inr d" by (simp add: mark_rv_def)
qed

lemma resolver_split:
  assumes "length ip = 40"
  obtains b0 b1 b2 b3 b4 b5 b7 as where "ip ! NXT_HDR_OFFSET = b6 \<Longrightarrow> ip = [b0, b1, b2, b3, b4, b5, b6, b7] @ as" and "length as = 32"
proof -
  obtain b0 b1 b2 b3 b4 b5 c6 b7 as p where ip: "ip = [b0, b1, b2, b3, b4, b5, c6, b7] @ as @ p" "length as = 32"
    by (rule header_split [of ip]) (use assms in simp_all)
  then have "p = []" using assms by simp
  then have "ip ! NXT_HDR_OFFSET = b6 \<Longrightarrow> ip = [b0, b1, b2, b3, b4, b5, b6, b7] @ as" using ip by (simp add: NXT_HDR_OFFSET_def)
  with ip(2) show thesis using that by blast
qed

lemma dns_intercepted:
  assumes "is_resolver_query ip udp head name rest" and "length h = 8" and "length as = 32" and "length opt = 32"
    and "ends_after (fe_env F) (tl name)" and "tl name \<noteq> []" and "hc_dim n \<le> 64" and "unat (mask_junk (fe_env F)) \<le> 64"
    and "cache_unused n"
  defines "d \<equiv> h @ as @ opt @ udp @ head @ name @ 0 # rest"
    and "d' \<equiv> h @ addr_bytes (prim_addr n) @ drop 16 as @ opt @ udp @ head @ name @ 0 # rest"
  obtains n' q qry srv where "dns_intercept F d n = Inr (d', n')" and "dns n' = dns n @ [q]" and "asks q head name rest"
    and "q_dst_port q = load16 udp 0" and "q_src_port q = htons DNS_PORT" and "rv_type qry = RV_ADDR_LOOKUP"
    and "c_string (rv_univ_addr qry) = Inr (tl name)" and "prim_addr n' = prim_addr n"
    and "trace n' = trace n @ [Sendmsg (Rv qry) (src_addr (fe_env F) n) srv (socket_global n) ANTOP_PORT]"
proof -
  let ?pre = "h @ as @ opt" and ?pre' = "h @ addr_bytes (prim_addr n) @ drop 16 as @ opt"
  have pre: "length ?pre = 72" "length ?pre' = 72" using assms(2-4) by simp_all
  have e: "d = ?pre @ udp @ head @ name @ 0 # rest" "d' = ?pre' @ udp @ head @ name @ 0 # rest" by (simp_all add: d_def d'_def)
  note seen = dns_query_seen [OF assms(1) pre(1), folded e(1)] and seen' = dns_query_seen [OF assms(1) pre(2), folded e(2)]
  have "d = h @ take 16 as @ drop 16 as @ opt @ udp @ head @ name @ 0 # rest" by (simp add: d_def)
  then have w: "write_at SRC_ADDR_OFFSET (addr_bytes (prim_addr n)) d = Inr d'"
    using write_at_same [of h SRC_ADDR_OFFSET "take 16 as"] assms(2,3) by (simp add: SRC_ADDR_OFFSET_def d'_def)
  have wf: "well_formed_query (?pre' @ udp) head name rest" and port: "load16 udp 0 \<noteq> 0"
    using assms(1) pre(2) by (auto simp add: well_formed_query_def is_resolver_query_def Let_def htons_def)
  have q: "query_packet (?pre' @ udp) head name rest = d'" by (simp add: query_packet_def d'_def)
  show thesis
  proof (rule query_queued [OF assms(5) wf assms(6-9) port, of "htons DNS_PORT", unfolded q])
    fix n' qry srv
    assume r: "rv_type qry = RV_ADDR_LOOKUP" "c_string (rv_univ_addr qry) = Inr (tl name)"
      "answer_dns_query (fe_env F) (Query_Data d') (length d') (load16 udp 0) False (htons DNS_PORT) n = Inr n'"
      "trace n' = trace n @ [Sendmsg (Rv qry) (src_addr (fe_env F) n) srv (socket_global n) ANTOP_PORT]"
      "dns n' = dns n @ [\<lparr>q_pkt = d', q_dst_port = load16 udp 0, q_src_port = htons DNS_PORT\<rparr>]" "prim_addr n' = prim_addr n"
    have "asks \<lparr>q_pkt = d', q_dst_port = load16 udp 0, q_src_port = htons DNS_PORT\<rparr> head name rest"
      using wf q by (auto simp add: asks_def)
    note asks = this
    have "dns_intercept F d n = Inr (d', n')" using seen(3) seen'(1,2) w r(3) by (simp add: dns_intercept_def)
    from this r(5) asks show thesis by (rule that) (use r in simp_all)
  qed
qed

text \<open>C23: A DNS query for an IPv6 address that a resolver of the node sends to an address outside the network
  passes unchanged; the node keeps a copy of it and the port it came from, and sends a lookup of the name, without the
  length of the first label, to a server of the rendezvous.

  What it takes. The destination lies outside the prefix of the network, no translation of source addresses is set up, the
  cache holds no name (nothing ever enters one) and the dimension is at most 64. And for the uninitialised memory the code uses: the
  mask \<open>solve_name\<close> measures with is at most 64, and the byte behind the name in the fresh message is 0.\<close>

theorem resolver_query_intercepted:
  assumes "is_resolver_query ip udp head name rest" and "tl name \<noteq> []" and "hc_dim (nd s) \<le> 64" and "cache_unused (nd s)"
    and "nat_table s = []" and "s6_addr16 (dst_of ip) 0 \<noteq> s6_addr16 (prim_addr (nd s)) 0"
    and "unat (mask_junk (fe_env F)) \<le> 64" and "ends_after (fe_env F) (tl name)"
  shows "\<exists>n q qry srv. cb F K LOCAL_OUT (resolver_packet ip udp head name rest) s = Inr (Accept None, s\<lparr>nd := n\<rparr>) \<and>
    dns n = dns (nd s) @ [q] \<and> asks q head name rest \<and> q_dst_port q = load16 udp 0 \<and> q_src_port q = htons DNS_PORT \<and>
    rv_type qry = RV_ADDR_LOOKUP \<and> c_string (rv_univ_addr qry) = Inr (tl name) \<and>
    trace n = trace (nd s) @ [Sendmsg (Rv qry) (src_addr (fe_env F) (nd s)) srv (socket_global (nd s)) ANTOP_PORT]"
proof -
  have len: "length ip = 40" "ip ! NXT_HDR_OFFSET = 17" "length udp = 8" using assms(1) by (simp_all add: is_resolver_query_def)
  obtain b0 b1 b2 b3 b4 b5 b7 as where ip: "ip = [b0, b1, b2, b3, b4, b5, 17, b7] @ as" and as: "length as = 32"
    using resolver_split [OF len(1), of 17] len(2) by metis
  let ?body = "udp @ head @ name @ 0 # rest" and ?pkt = "resolver_packet ip udp head name rest"
  define l where "l = (word_of_nat (length ?body + 32) :: 16 word)"
  define h where "h = [b0, b1, b2, b3 OR MASK_IA, ucast (drop_bit 8 l), word_of_nat (length ?body + 32), 60, MAX_TTL]"
  define opt where "opt = option_header 17 (prim_addr (nd s))"
  have h: "length h = 8" "length opt = 32" by (simp_all add: h_def opt_def option_header_def)
  have ins: "insert_option (prim_addr (nd s)) ?pkt ?pkt = Inr (h @ as @ opt @ ?body)"
    using insert_option_value [OF as, of ?pkt ?body "prim_addr (nd s)" b0 b1 b2 b3 b4 b5 17 b7] as
    unfolding h_def l_def opt_def by (simp add: resolver_packet_def ip)
  have nxt: "byte_at NXT_HDR_OFFSET ?pkt = Inr 17" by (simp add: byte_at_def resolver_packet_def ip NXT_HDR_OFFSET_def)
  let ?d = "h @ addr_bytes (prim_addr (nd s)) @ drop 16 as @ opt @ ?body"
  obtain n q qry srv where dns: "dns_intercept F (h @ as @ opt @ ?body) (nd s) = Inr (?d, n)" and keeps: "prim_addr n = prim_addr (nd s)"
    and n: "dns n = dns (nd s) @ [q]" "asks q head name rest" "q_dst_port q = load16 udp 0" "q_src_port q = htons DNS_PORT"
      "rv_type qry = RV_ADDR_LOOKUP" "c_string (rv_univ_addr qry) = Inr (tl name)"
      "trace n = trace (nd s) @ [Sendmsg (Rv qry) (src_addr (fe_env F) (nd s)) srv (socket_global (nd s)) ANTOP_PORT]"
    using dns_intercepted [OF assms(1) h(1) as h(2) assms(8,2,3,7,4)] .
  have "length (h @ addr_bytes (prim_addr (nd s)) @ drop 16 as @ opt) = 72" using h as by simp
  from dns_query_seen(4,5) [OF assms(1) this]
  have seen: "mark_rv ?d = Inr ?d" "dns_translate (length ?pkt) ?d = Inr ?d" by simp_all
  have "addr_at ?d 24 = addr_at ip 24"
    using header_addrs(2) [OF _ h(1), of "addr_bytes (prim_addr (nd s)) @ drop 16 as" "opt @ ?body"] as
      header_addrs(2) [OF as, of "[b0, b1, b2, b3, b4, b5, 17, b7]" "[]"]
    by (simp add: ip addr_at_cong [of "addr_bytes (prim_addr (nd s)) @ drop 16 as" 16 as 16] nth_append)
  then have dst: "dst_of ?d = dst_of ip" by (simp add: dst_of_def DST_ADDR_OFFSET_def)
  have "udp_byte n ?d = Inr (?d ! udp_pkt_off n ?d)" using h as assms(1)
    by (simp add: udp_byte_def udp_pkt_off_def UDP_PKT_OFF_def is_resolver_query_def)
  then have "route F K LOCAL_OUT ?d (s\<lparr>nd := n\<rparr>) = Inr (Some RV_ACCEPT, ?d, s\<lparr>nd := n\<rparr>)"
    using assms(6) dst keeps by (intro route_passes) (simp_all)
  then have "cb F K LOCAL_OUT ?pkt s = Inr (Accept None, s\<lparr>nd := n\<rparr>)"
    using nxt ins dns seen assms(5) by (simp add: cb_def local_out_def nat_source_def)
  with n show ?thesis by blast
qed

theorem resolver_query_intercepted_witness:
  "\<exists>n q. cb sample_fenv list_kernel LOCAL_OUT (resolver_packet ([0x60, 0, 0, 0, 0, 28, 17, 64] @ replicate 32 0) [0x9c, 0x40, 0, 53, 0, 28, 0, 0]
       sample_head [2, 110, 49] [0, 28, 0, 1]) sample_fwd = Inr (Accept None, sample_fwd\<lparr>nd := n\<rparr>) \<and>
     dns n = [q] \<and> asks q sample_head [2, 110, 49] [0, 28, 0, 1] \<and> q_dst_port q = htons 40000"
proof -
  let ?ip = "[0x60, 0, 0, 0, 0, 28, 17, 64] @ replicate 32 0" and ?udp = "[0x9c, 0x40, 0, 53, 0, 28, 0, 0] :: byte list"
  have l: "load16 ?udp 0 = htons 40000" by (simp add: load16_def le16_def htons_def)
  have p: "htons (htons 40000) = 40000" by (simp add: htons_def)
  have 1: "is_resolver_query ?ip ?udp sample_head [2, 110, 49] [0, 28, 0, 1]"
    by (simp only: is_resolver_query_def l p Let_def)
      (simp add: NXT_HDR_OFFSET_def MDNS_PORT_def ANTOP_PORT_def MDNS_PORT_AUX_def DNS_PORT_AUX_def sample_head_def nth_append)
  have 2: "ends_after (fe_env sample_fenv) (tl [2, 110, 49])" by (simp add: ends_after_def sample_fenv_def null_rv_def)
  have 4: "cache_unused (nd sample_fwd)" by (simp add: cache_unused_def sample_fwd_def)
  have "addr_at ?ip 24 = addr_at (replicate 16 0) 0" by (intro addr_at_cong) (simp add: nth_append)
  also have "\<dots> = zero_addr" by (simp add: addr_at_def s6_build_def s6_of_words_def upt_rec load16_def le16_def zero_addr_def)
  finally have "dst_of ?ip = zero_addr" by (simp add: dst_of_def DST_ADDR_OFFSET_def)
  then have 3: "s6_addr16 (dst_of ?ip) 0 \<noteq> s6_addr16 (prim_addr (nd sample_fwd)) 0"
    by (simp add: sample_fwd_def zero_addr_def net_root_def s6_addr16_def htons_def)
  from resolver_query_intercepted [OF 1 _ _ 4 _ 3 _ 2, of list_kernel] l show ?thesis
    by (fastforce simp add: sample_fwd_def sample_fenv_def)
qed

text \<open>A registration for an address of the space of the node.\<close>

definition served_reg :: "byte list" where
  "served_reg = replicate 24 0 @ addr_bytes (toggle net_root 3) @ replicate 8 0 @ RV_REG # replicate 95 0"

lemma served_reg_fields:
  "dst_of (served_reg @ replicate 32 0) = toggle net_root 3" "length served_reg = 144" "served_reg ! 48 = RV_REG"
  "src_of (served_reg @ replicate 32 0) = zero_addr"
  "\<exists>m. rv_at (served_reg @ replicate 32 0) 48 = Inr m \<and> c_string (rv_univ_addr m) = Inr []"
proof -
  show "dst_of (served_reg @ replicate 32 0) = toggle net_root 3"
    using addr_at_bytes [of "replicate 24 0" 24 "toggle net_root 3"] by (simp add: dst_of_def DST_ADDR_OFFSET_def served_reg_def)
  show len: "length served_reg = 144" by (simp add: served_reg_def)
  show "served_reg ! 48 = RV_REG" by (simp add: served_reg_def nth_append)
  have "addr_at (served_reg @ replicate 32 0) 8 = addr_at (replicate 16 0) 0"
    by (intro addr_at_cong) (simp add: served_reg_def nth_append)
  also have "\<dots> = zero_addr" by (simp add: addr_at_def s6_build_def s6_of_words_def upt_rec load16_def le16_def zero_addr_def)
  finally show "src_of (served_reg @ replicate 32 0) = zero_addr" by (simp add: src_of_def SRC_ADDR_OFFSET_def)
  have "take 50 (drop 76 (served_reg @ replicate 32 0)) = replicate 50 0" by (simp add: served_reg_def take_replicate drop_replicate)
  then show "\<exists>m. rv_at (served_reg @ replicate 32 0) 48 = Inr m \<and> c_string (rv_univ_addr m) = Inr []"
    by (simp add: rv_at_def len c_string_def)
qed

theorem only_served_dropped_witness:
  "\<exists>s'. cb sample_fenv list_kernel PRE_ROUTING served_reg sample_fwd = Inr (Drop served_reg, s') \<and>
     serves (dst_of (served_reg @ replicate 32 0)) (nd sample_fwd) = Inr True"
proof -
  let ?p = "served_reg @ replicate 32 0"
  note f = served_reg_fields
  have ne: "net_root \<noteq> zero_addr" "zero_addr \<noteq> net_root" "toggle net_root 3 \<noteq> net_root" "s6_addr16 (toggle net_root 3) 0 = s6_addr16 net_root 0"
    using rooted_neq_zero [OF rooted_net_root] by (simp_all add: net_root_def toggle_def s6_set_def s6_of_words_def s6_addr16_def htons_def)
  have off: "udp_pkt_off (nd sample_fwd) ?p = 48" using f(4) ne by (simp add: udp_pkt_off_def sample_fwd_def UDP_PKT_OFF_def)
  have u: "udp_byte (nd sample_fwd) ?p = Inr RV_REG" using off f(2,3) by (simp add: udp_byte_def nth_append)
  have c: "check_addr_space (dst_of ?p) (prim_addr (nd sample_fwd)) (prim_mask (nd sample_fwd)) = Inr 0"
    by (simp add: sample_fwd_def check_addr_space_ok in_space_def)
  then have sv: "serves (dst_of ?p) (nd sample_fwd) = Inr True" by (simp add: serves_def)
  obtain m where m: "rv_at ?p 48 = Inr m" "c_string (rv_univ_addr m) = Inr []" using f(5) by blast
  obtain n where "rv_table_add m (nd sample_fwd) = Inr n" using m(2) by (cases "\<exists>e\<in>set (rv_table (nd sample_fwd)). univ_name e = []") (auto simp add: rv_table_add_def NAME_SIZE_def)
  then have "rv_route sample_fenv ?p (nd sample_fwd) = Inr (RV_DROP, n)" using m(1) u sv off by (simp add: rv_route_def)
  then have c: "cb sample_fenv list_kernel PRE_ROUTING served_reg sample_fwd = Inr (Drop served_reg, sample_fwd\<lparr>nd := n\<rparr>)"
    using u f ne by (simp add: cb_def route_def passes_def sample_fwd_def rv_byte_def packet_type_defs RV_DROP_def Let_def)
  from only_served_dropped [THEN iffD1, OF this, unfolded Let_def] have "serves (dst_of ?p) (nd sample_fwd) = Inr True" by (elim conjE)
  with c show ?thesis by (intro exI conjI)
qed

end
