(* ===== verification/Ping6_Correct.thy ===== *)
theory Ping6_Correct
  imports Ping6 Hooks_Correct Fragmentation_Correct
begin

text \<open>
  The probe among the other parts: what its request is for the node that receives it, and what its answer means for the
  fragmentation.
\<close>

section \<open>The request at its receiver\<close>

lemma length_echo_data: "length echo_data = 4"
  by (simp add: echo_data_def)

lemma length_probe_frame [simp]: "length mac = 6 \<Longrightarrow> length (probe_frame mac src dst) = 66"
  by (simp add: probe_frame_def probe_ip_header_def probe_icmp_header_def echo_data_def)

text \<open>The packet behind the Ethernet header, and the bytes its checksum covers.\<close>

lemma probe_packet:
  "length mac = 6 \<Longrightarrow> drop ETH_HDRLEN (probe_frame mac src dst) = probe_ip_header src dst 4 @ probe_icmp_header src dst echo_data @ echo_data"
  using length_echo_data by (simp add: probe_frame_def ETH_HDRLEN_def)

definition pseudo_header :: "in6_addr \<Rightarrow> in6_addr \<Rightarrow> nat \<Rightarrow> 8 word list" where
  "pseudo_header src dst len = addr_bytes src @ addr_bytes dst @ [0, 0, word_of_nat (len div 256), word_of_nat (len mod 256), 0, 0, 0, 58]"

lemma probe_checksum:
  "checksum (pseudo_header src dst 12 @ probe_icmp_header src dst echo_data @ echo_data) = 0"
proof (rule checksum_completed)
  let ?buf = "icmp_buf src dst 128 0 (htons 1000) (htons 0) echo_data"
  have e: "even (length echo_data)" by (simp add: echo_data_def)
  show "le_sum ?buf \<le> 2147516416" using le_sum_bound [of ?buf] by (simp add: icmp_buf_def echo_data_def)
  show "le_sum (pseudo_header src dst 12 @ probe_icmp_header src dst echo_data @ echo_data) = le_sum ?buf + unat (checksum ?buf)"
    unfolding icmp6_checksum_buf [OF e, symmetric]
    by (simp add: pseudo_header_def icmp_buf_def probe_icmp_header_def le_sum_append le_sum_store16 echo_data_def)
qed

text \<open>C35: The probe is an echo request of 66 bytes whose checksum a receiver finds correct, and the node that is
  asked, whose packets go through the same program, reads it as one from the address of the asking node and installs a route back to
  it, through the neighbour nearest to it.\<close>

theorem probe_installs_route:
  assumes "wlan0_mac P = Some mac" and "length mac = 6" and "wlan0_index P \<noteq> 0"
  shows "\<exists>frame. fst (probe P prim dst es) = [frame] \<and> length frame = 66 \<and>
    checksum (pseudo_header prim dst 12 @ drop (ETH_HDRLEN + IP6_HDRLEN) frame) = 0 \<and>
    dst_of (drop ETH_HDRLEN frame) = dst \<and>
    local_in F K (drop ETH_HDRLEN frame) s =
      Inr (add_rt_route K prim (reply_gateway F prim (neigh_table (nd s))) 128 (uint MAX_TTL) s)"
proof -
  let ?f = "probe_frame mac prim dst"
  have p: "fst (probe P prim dst es) = [?f]" using assms(1,3) probe_loop_first [of es] by (simp add: probe_alt)
  have icmp: "drop (ETH_HDRLEN + IP6_HDRLEN) ?f = probe_icmp_header prim dst echo_data @ echo_data"
    unfolding add.commute [of ETH_HDRLEN] drop_drop [symmetric] probe_packet [OF assms(2)] by (simp add: IP6_HDRLEN_def probe_ip_header_def)
  have nx: "byte_at NXT_HDR_OFFSET (drop ETH_HDRLEN ?f) = Inr 58" "byte_at 40 (drop ETH_HDRLEN ?f) = Inr 128"
    unfolding probe_packet [OF assms(2)]
    by (simp_all add: byte_at_def NXT_HDR_OFFSET_def probe_ip_header_def probe_icmp_header_def nth_append store16_def)
  have src: "src_of (drop ETH_HDRLEN ?f) = prim" "dst_of (drop ETH_HDRLEN ?f) = dst"
    unfolding probe_packet [OF assms(2)] src_of_def dst_of_def probe_ip_header_def
    using addr_at_bytes [of "[0x60, 0, 0, 0] @ store16 (htons (word_of_nat (ICMP_HDRLEN + 4))) @ [58, 255]" 8 prim]
      addr_at_bytes [of "[0x60, 0, 0, 0] @ store16 (htons (word_of_nat (ICMP_HDRLEN + 4))) @ [58, 255] @ addr_bytes prim" 24 dst]
    by (simp_all add: SRC_ADDR_OFFSET_def DST_ADDR_OFFSET_def)
  show ?thesis
    using p assms(2) icmp probe_checksum [of prim dst] nx src by (intro exI [of _ ?f]) (simp add: local_in_def)
qed

theorem probe_installs_route_witness:
  "\<exists>frame. fst (probe \<lparr>wlan0_mac = Some [2, 0, 0, 0, 0, 7], wlan0_index = 3\<rparr> net_default net_root []) = [frame] \<and> length frame = 66 \<and>
    local_in sample_fenv list_kernel (drop ETH_HDRLEN frame) sample_fwd =
      Inr (add_rt_route list_kernel net_default (reply_gateway sample_fenv net_default (neigh_table (nd sample_fwd))) 128 (uint MAX_TTL) sample_fwd)"
  using probe_installs_route [of "\<lparr>wlan0_mac = Some [2, 0, 0, 0, 0, 7], wlan0_index = 3\<rparr>" "[2, 0, 0, 0, 0, 7]" net_default net_root "[]"
      sample_fenv list_kernel sample_fwd]
  by auto

section \<open>The answer and the fragmentation\<close>

text \<open>The neighbour towards the root has gone.\<close>

definition root_lost :: "node \<Rightarrow> bool" where
  "root_lost s \<longleftrightarrow> prim_addr s \<noteq> root s \<and> \<not> list_ex (\<lambda>it. nr_addr (closest_to_root s) = n_prim_addr it) (neigh_table s)"

text \<open>A node that has lost its way to the root starts a fragmentation exactly when the first thing that ends its
  probe is silence. It does not when it has no interface \<open>wlan0\<close>, or hears an echo reply of any node to any other; then only the
  neighbour it takes for the one towards the root changes.\<close>

theorem fragmentation_needs_silence:
  assumes "snd (probe P (prim_addr s) (root s) es) = Returns (ping6 E (root s))" and "\<not> flag_fragmentacion s"
  shows "\<exists>s'. detector_de_fragmentacion E s = Inr s' \<and>
    (flag_fragmentacion s' \<longleftrightarrow> root_lost s \<and> wlan0_mac P \<noteq> None \<and> find decides es = Some No_Frame) \<and>
    (flag_fragmentacion s' \<or> s' = s \<or> s' = s\<lparr>neighbor_to_root := closest_to_root s\<rparr>)"
proof -
  have v: "ping6 E (root s) = 0 \<longleftrightarrow> wlan0_mac P \<noteq> None \<and> find decides es = Some No_Frame"
  proof (cases "wlan0_mac P = None \<or> wlan0_index P = 0")
    case True
    then show ?thesis using assms(1) by (cases "wlan0_mac P") (simp_all add: probe_alt)
  next
    case False
    then have "Returns (ping6 E (root s)) = (case find decides es of None \<Rightarrow> Waits | Some e \<Rightarrow> verdict_of e)"
      using assms(1) probe_loop_first [of es] by (auto simp add: probe_alt)
    then show ?thesis using False by (auto simp add: verdict_of_def split: option.splits recv_event.splits)
  qed
  obtain t where t: "fragmentacion E (s\<lparr>neighbor_to_root := closest_to_root s\<rparr>) = Inr t" "flag_fragmentacion t"
    using fragmentacion_result [of E "s\<lparr>neighbor_to_root := closest_to_root s\<rparr>"] by auto
  show ?thesis
    using assms(2) t v by (auto simp add: detector_de_fragmentacion_def root_lost_def Let_def)
qed

theorem fragmentation_needs_silence_witness:
  "\<exists>s'. detector_de_fragmentacion sample_env (sample_node\<lparr>prim_addr := net_default\<rparr>) = Inr s' \<and> \<not> flag_fragmentacion s'"
proof -
  let ?P = "\<lparr>wlan0_mac = None, wlan0_index = 3\<rparr>"
  have "snd (probe ?P (prim_addr (sample_node\<lparr>prim_addr := net_default\<rparr>)) (root (sample_node\<lparr>prim_addr := net_default\<rparr>)) []) =
      Returns (ping6 sample_env (root (sample_node\<lparr>prim_addr := net_default\<rparr>)))" by (simp add: probe_alt)
  from fragmentation_needs_silence [OF this] show ?thesis by auto
qed

end
