(* ===== verification/Netlink.thy ===== *)
theory Netlink
  imports Buffers
begin

text \<open>
  The netlink messages the daemon exchanges with the kernel, as the library in its source tree builds and reads them
  (\<open>nlmsg.c\<close>, \<open>attr.c\<close>). A message lies in a buffer of bytes; a pointer is an offset into it, and an access
  outside the buffer is a fault. Lengths have the width they have in the code: 32 bits for a message, 16 bits
  for an attribute, and \<open>int\<close> where two pointers are subtracted. Pointers and \<open>size_t\<close> have 64 bits and do not
  wrap around. The number of the last error is not modelled.
\<close>

type_synonym mem = "8 word list"

section \<open>Alignment\<close>

text \<open>The macro, on an unsigned 32-bit length, which may wrap around, and on sizes that do not.\<close>

definition MNL_ALIGN32 :: "32 word \<Rightarrow> 32 word" where
  "MNL_ALIGN32 len = (len + 3) AND NOT 3"

definition MNL_ALIGN :: "nat \<Rightarrow> nat" where
  "MNL_ALIGN len = (len + 3) div 4 * 4"

definition MNL_NLMSG_HDRLEN :: nat where "MNL_NLMSG_HDRLEN = 16"
definition MNL_ATTR_HDRLEN :: nat where "MNL_ATTR_HDRLEN = 4"

text \<open>Conversion to \<open>int\<close>.\<close>

definition to_int :: "int \<Rightarrow> int" where
  "to_int i = sint (word_of_int i :: 32 word)"

section \<open>Messages\<close>

text \<open>The fields of \<open>struct nlmsghdr\<close>.\<close>

definition nlmsg_len :: "nat \<Rightarrow> mem \<Rightarrow> 32 word result" where "nlmsg_len nlh = read32 nlh"
definition nlmsg_type :: "nat \<Rightarrow> mem \<Rightarrow> 16 word result" where "nlmsg_type nlh = read16 (nlh + 4)"
definition nlmsg_flags :: "nat \<Rightarrow> mem \<Rightarrow> 16 word result" where "nlmsg_flags nlh = read16 (nlh + 6)"
definition nlmsg_seq :: "nat \<Rightarrow> mem \<Rightarrow> 32 word result" where "nlmsg_seq nlh = read32 (nlh + 8)"
definition nlmsg_pid :: "nat \<Rightarrow> mem \<Rightarrow> 32 word result" where "nlmsg_pid nlh = read32 (nlh + 12)"

definition mnl_nlmsg_size :: "nat \<Rightarrow> nat" where
  "mnl_nlmsg_size len = len + MNL_NLMSG_HDRLEN"

definition mnl_nlmsg_get_payload_len :: "nat \<Rightarrow> mem \<Rightarrow> 64 word result" where
  "mnl_nlmsg_get_payload_len nlh buf = bind (nlmsg_len nlh buf) (\<lambda>l. Inr (ucast l - word_of_nat MNL_NLMSG_HDRLEN))"

definition mnl_nlmsg_put_header :: "nat \<Rightarrow> mem \<Rightarrow> mem result" where
  "mnl_nlmsg_put_header nlh buf =
     bind (write_at nlh (replicate MNL_NLMSG_HDRLEN 0) buf) (write_at nlh (store32 (word_of_nat MNL_NLMSG_HDRLEN)))"

text \<open>Returns the offset of the extra header.\<close>

definition mnl_nlmsg_put_extra_header :: "nat \<Rightarrow> nat \<Rightarrow> mem \<Rightarrow> (nat \<times> mem) result" where
  "mnl_nlmsg_put_extra_header nlh sz buf =
     bind (nlmsg_len nlh buf) (\<lambda>l.
       let ptr = nlh + unat l
       in bind (write_at nlh (store32 (l + word_of_nat (MNL_ALIGN sz))) buf) (\<lambda>buf.
          bind (write_at ptr (replicate sz 0) buf) (\<lambda>buf. Inr (ptr, buf))))"

definition mnl_nlmsg_get_payload :: "nat \<Rightarrow> nat" where
  "mnl_nlmsg_get_payload nlh = nlh + MNL_NLMSG_HDRLEN"

definition mnl_nlmsg_get_payload_offset :: "nat \<Rightarrow> nat \<Rightarrow> nat" where
  "mnl_nlmsg_get_payload_offset nlh off = nlh + MNL_NLMSG_HDRLEN + MNL_ALIGN off"

definition mnl_nlmsg_ok :: "nat \<Rightarrow> mem \<Rightarrow> 32 word \<Rightarrow> bool result" where
  "mnl_nlmsg_ok nlh buf len =
     (if sint len \<ge> 16 then bind (nlmsg_len nlh buf) (\<lambda>l. Inr (l \<ge> 16 \<and> sint l \<le> sint len)) else Inr False)"

definition mnl_nlmsg_next :: "nat \<Rightarrow> mem \<Rightarrow> 32 word \<Rightarrow> (nat \<times> 32 word) result" where
  "mnl_nlmsg_next nlh buf len =
     bind (nlmsg_len nlh buf) (\<lambda>l. Inr (nlh + unat (MNL_ALIGN32 l), len - MNL_ALIGN32 l))"

definition mnl_nlmsg_get_payload_tail :: "nat \<Rightarrow> mem \<Rightarrow> nat result" where
  "mnl_nlmsg_get_payload_tail nlh buf = bind (nlmsg_len nlh buf) (\<lambda>l. Inr (nlh + unat (MNL_ALIGN32 l)))"

definition mnl_nlmsg_seq_ok :: "nat \<Rightarrow> mem \<Rightarrow> 32 word \<Rightarrow> bool result" where
  "mnl_nlmsg_seq_ok nlh buf seq = bind (nlmsg_seq nlh buf) (\<lambda>s. Inr (if s \<noteq> 0 \<and> seq \<noteq> 0 then s = seq else True))"

definition mnl_nlmsg_portid_ok :: "nat \<Rightarrow> mem \<Rightarrow> 32 word \<Rightarrow> bool result" where
  "mnl_nlmsg_portid_ok nlh buf portid = bind (nlmsg_pid nlh buf) (\<lambda>p. Inr (if p \<noteq> 0 \<and> portid \<noteq> 0 then p = portid else True))"

section \<open>Reading attributes\<close>

definition nla_len :: "nat \<Rightarrow> mem \<Rightarrow> 16 word result" where "nla_len attr = read16 attr"
definition nla_type :: "nat \<Rightarrow> mem \<Rightarrow> 16 word result" where "nla_type attr = read16 (attr + 2)"

definition NLA_F_NESTED :: "16 word" where "NLA_F_NESTED = 0x8000"
definition NLA_TYPE_MASK :: "16 word" where "NLA_TYPE_MASK = 0x3fff"

definition mnl_attr_get_type :: "nat \<Rightarrow> mem \<Rightarrow> 16 word result" where
  "mnl_attr_get_type attr buf = bind (nla_type attr buf) (\<lambda>t. Inr (t AND NLA_TYPE_MASK))"

definition mnl_attr_get_len :: "nat \<Rightarrow> mem \<Rightarrow> 16 word result" where
  "mnl_attr_get_len attr buf = nla_len attr buf"

definition mnl_attr_get_payload_len :: "nat \<Rightarrow> mem \<Rightarrow> 16 word result" where
  "mnl_attr_get_payload_len attr buf = bind (nla_len attr buf) (\<lambda>l. Inr (l - word_of_nat MNL_ATTR_HDRLEN))"

definition mnl_attr_get_payload :: "nat \<Rightarrow> nat" where
  "mnl_attr_get_payload attr = attr + MNL_ATTR_HDRLEN"

definition mnl_attr_ok :: "nat \<Rightarrow> mem \<Rightarrow> int \<Rightarrow> bool result" where
  "mnl_attr_ok attr buf len =
     (if len \<ge> 4 then bind (nla_len attr buf) (\<lambda>l. Inr (l \<ge> 4 \<and> uint l \<le> len)) else Inr False)"

definition mnl_attr_next :: "nat \<Rightarrow> mem \<Rightarrow> nat result" where
  "mnl_attr_next attr buf = bind (nla_len attr buf) (\<lambda>l. Inr (attr + MNL_ALIGN (unat l)))"

definition mnl_attr_type_valid :: "nat \<Rightarrow> mem \<Rightarrow> 16 word \<Rightarrow> int result" where
  "mnl_attr_type_valid attr buf mx = bind (mnl_attr_get_type attr buf) (\<lambda>t. Inr (if t > mx then -1 else 1))"

definition mnl_attr_get_u8 :: "nat \<Rightarrow> mem \<Rightarrow> 8 word result" where
  "mnl_attr_get_u8 attr buf = read8 (mnl_attr_get_payload attr) buf"

definition mnl_attr_get_u16 :: "nat \<Rightarrow> mem \<Rightarrow> 16 word result" where
  "mnl_attr_get_u16 attr buf = read16 (mnl_attr_get_payload attr) buf"

definition mnl_attr_get_u32 :: "nat \<Rightarrow> mem \<Rightarrow> 32 word result" where
  "mnl_attr_get_u32 attr buf = read32 (mnl_attr_get_payload attr) buf"

definition mnl_attr_get_u64 :: "nat \<Rightarrow> mem \<Rightarrow> 64 word result" where
  "mnl_attr_get_u64 attr buf =
     bind (read32 (mnl_attr_get_payload attr) buf) (\<lambda>lo. bind (read32 (mnl_attr_get_payload attr + 4) buf) (\<lambda>hi.
       Inr (ucast lo OR push_bit 32 (ucast hi))))"

definition mnl_attr_get_str :: "nat \<Rightarrow> nat" where
  "mnl_attr_get_str attr = mnl_attr_get_payload attr"

section \<open>Validation\<close>

datatype mnl_attr_data_type =
    MNL_TYPE_UNSPEC | MNL_TYPE_U8 | MNL_TYPE_U16 | MNL_TYPE_U32 | MNL_TYPE_U64 | MNL_TYPE_STRING | MNL_TYPE_FLAG
  | MNL_TYPE_MSECS | MNL_TYPE_NESTED | MNL_TYPE_NESTED_COMPAT | MNL_TYPE_NUL_STRING | MNL_TYPE_BINARY | MNL_TYPE_MAX

fun mnl_attr_data_type_len :: "mnl_attr_data_type \<Rightarrow> nat" where
  "mnl_attr_data_type_len MNL_TYPE_U8 = 1"
| "mnl_attr_data_type_len MNL_TYPE_U16 = 2"
| "mnl_attr_data_type_len MNL_TYPE_U32 = 4"
| "mnl_attr_data_type_len MNL_TYPE_U64 = 8"
| "mnl_attr_data_type_len _ = 0"

text \<open>\<open>__mnl_attr_validate\<close>.\<close>

definition validate_attr :: "nat \<Rightarrow> mem \<Rightarrow> mnl_attr_data_type \<Rightarrow> nat \<Rightarrow> int result" where
  "validate_attr attr buf ty exp_len =
     bind (mnl_attr_get_payload_len attr buf) (\<lambda>l.
       let attr_len = unat l; attr_data = mnl_attr_get_payload attr
       in if attr_len < exp_len then Inr (-1)
          else
            bind (case ty of
                MNL_TYPE_FLAG \<Rightarrow> Inr (attr_len > 0)
              | MNL_TYPE_NUL_STRING \<Rightarrow>
                  if attr_len = 0 then Inr True else bind (read8 (attr_data + attr_len - 1) buf) (\<lambda>b. Inr (b \<noteq> 0))
              | MNL_TYPE_STRING \<Rightarrow> Inr (attr_len = 0)
              | MNL_TYPE_NESTED \<Rightarrow> Inr (attr_len \<noteq> 0 \<and> attr_len < MNL_ATTR_HDRLEN)
              | _ \<Rightarrow> Inr False) (\<lambda>bad.
            if bad then Inr (-1)
            else if exp_len \<noteq> 0 \<and> attr_len > exp_len then Inr (-1) else Inr 0))"

definition mnl_attr_validate :: "nat \<Rightarrow> mem \<Rightarrow> mnl_attr_data_type \<Rightarrow> int result" where
  "mnl_attr_validate attr buf ty =
     (if ty = MNL_TYPE_MAX then Inr (-1) else validate_attr attr buf ty (mnl_attr_data_type_len ty))"

definition mnl_attr_validate2 :: "nat \<Rightarrow> mem \<Rightarrow> mnl_attr_data_type \<Rightarrow> nat \<Rightarrow> int result" where
  "mnl_attr_validate2 attr buf ty exp_len =
     (if ty = MNL_TYPE_MAX then Inr (-1) else validate_attr attr buf ty exp_len)"

section \<open>Going through the attributes\<close>

definition MNL_CB_ERROR :: int where "MNL_CB_ERROR = -1"
definition MNL_CB_STOP :: int where "MNL_CB_STOP = 0"
definition MNL_CB_OK :: int where "MNL_CB_OK = 1"

text \<open>A callback gets the offset of an attribute and the data passed along.\<close>

type_synonym 's attr_cb = "nat \<Rightarrow> 's \<Rightarrow> (int \<times> 's) result"

lemma attr_ok_bounds:
  assumes "mnl_attr_ok attr buf len = Inr True" and "mnl_attr_next attr buf = Inr attr'"
  shows "attr < attr'" and "attr + 2 \<le> length buf" and "attr' \<le> attr + MNL_ALIGN (nat len)"
proof -
  obtain l where l: "nla_len attr buf = Inr l" "4 \<le> l" "uint l \<le> len" "attr' = attr + MNL_ALIGN (unat l)"
    using assms by (auto simp add: mnl_attr_ok_def mnl_attr_next_def split: if_splits elim!: bind_InrE)
  have "4 \<le> unat l" using l(2) by (simp add: word_le_nat_alt)
  then show "attr < attr'" using l(4) by (simp add: MNL_ALIGN_def)
  show "attr + 2 \<le> length buf" using l(1) by (simp add: nla_len_def read16_def split: if_splits)
  have "unat l \<le> nat len" using l(3) unat_eq_nat_uint [of l] nat_mono by metis
  then have "MNL_ALIGN (unat l) \<le> MNL_ALIGN (nat len)" unfolding MNL_ALIGN_def by (intro mult_le_mono1 div_le_mono) simp
  then show "attr' \<le> attr + MNL_ALIGN (nat len)" using l(4) by simp
qed

text \<open>The loop of \<open>mnl_attr_for_each\<close> and \<open>mnl_attr_for_each_nested\<close> up to the offset \<open>end\<close>.\<close>

function attr_loop :: "'s attr_cb \<Rightarrow> mem \<Rightarrow> nat \<Rightarrow> nat \<Rightarrow> int \<Rightarrow> 's \<Rightarrow> (int \<times> 's) result" where
  "attr_loop cb buf tail attr ret s =
     bind (mnl_attr_ok attr buf (to_int (int tail - int attr))) (\<lambda>ok.
       if ok then
         bind (cb attr s) (\<lambda>(ret, s).
           if ret \<le> MNL_CB_STOP then Inr (ret, s)
           else bind (mnl_attr_next attr buf) (\<lambda>attr. attr_loop cb buf tail attr ret s))
       else Inr (ret, s))"
  by pat_completeness auto

termination
  by (relation "measure (\<lambda>(cb, buf, tail, attr, ret, s). length buf - attr)")
    (simp, use attr_ok_bounds in fastforce)

declare attr_loop.simps [simp del]

definition mnl_attr_parse :: "nat \<Rightarrow> nat \<Rightarrow> 's attr_cb \<Rightarrow> 's \<Rightarrow> mem \<Rightarrow> (int \<times> 's) result" where
  "mnl_attr_parse nlh off cb s buf =
     bind (mnl_nlmsg_get_payload_tail nlh buf) (\<lambda>tail.
       attr_loop cb buf tail (mnl_nlmsg_get_payload_offset nlh off) MNL_CB_OK s)"

definition mnl_attr_parse_nested :: "nat \<Rightarrow> 's attr_cb \<Rightarrow> 's \<Rightarrow> mem \<Rightarrow> (int \<times> 's) result" where
  "mnl_attr_parse_nested nested cb s buf =
     bind (mnl_attr_get_payload_len nested buf) (\<lambda>l.
       attr_loop cb buf (mnl_attr_get_payload nested + unat l) (mnl_attr_get_payload nested) MNL_CB_OK s)"

section \<open>Adding attributes\<close>

text \<open>The length of the attribute is stored in 16 bits.\<close>

definition mnl_attr_put :: "nat \<Rightarrow> 16 word \<Rightarrow> mem \<Rightarrow> mem \<Rightarrow> mem result" where
  "mnl_attr_put nlh ty data buf =
     bind (mnl_nlmsg_get_payload_tail nlh buf) (\<lambda>attr.
       let payload_len = word_of_nat (MNL_ALIGN 4 + length data) :: 16 word
       in bind (write_at (attr + 2) (store16 ty) buf) (\<lambda>buf.
          bind (write_at attr (store16 payload_len) buf) (\<lambda>buf.
          bind (write_at (mnl_attr_get_payload attr) data buf) (\<lambda>buf.
          bind (nlmsg_len nlh buf) (\<lambda>l.
            write_at nlh (store32 (l + word_of_nat (MNL_ALIGN (unat payload_len)))) buf)))))"

definition store64 :: "64 word \<Rightarrow> mem" where
  "store64 w = store32 (ucast w) @ store32 (ucast (drop_bit 32 w))"

definition mnl_attr_put_u8 :: "nat \<Rightarrow> 16 word \<Rightarrow> 8 word \<Rightarrow> mem \<Rightarrow> mem result" where
  "mnl_attr_put_u8 nlh ty data = mnl_attr_put nlh ty [data]"

definition mnl_attr_put_u16 :: "nat \<Rightarrow> 16 word \<Rightarrow> 16 word \<Rightarrow> mem \<Rightarrow> mem result" where
  "mnl_attr_put_u16 nlh ty data = mnl_attr_put nlh ty (store16 data)"

definition mnl_attr_put_u32 :: "nat \<Rightarrow> 16 word \<Rightarrow> 32 word \<Rightarrow> mem \<Rightarrow> mem result" where
  "mnl_attr_put_u32 nlh ty data = mnl_attr_put nlh ty (store32 data)"

definition mnl_attr_put_u64 :: "nat \<Rightarrow> 16 word \<Rightarrow> 64 word \<Rightarrow> mem \<Rightarrow> mem result" where
  "mnl_attr_put_u64 nlh ty data = mnl_attr_put nlh ty (store64 data)"

text \<open>A string without its end, and with it.\<close>

definition mnl_attr_put_str :: "nat \<Rightarrow> 16 word \<Rightarrow> mem \<Rightarrow> mem \<Rightarrow> mem result" where
  "mnl_attr_put_str nlh ty data = mnl_attr_put nlh ty data"

definition mnl_attr_put_strz :: "nat \<Rightarrow> 16 word \<Rightarrow> mem \<Rightarrow> mem \<Rightarrow> mem result" where
  "mnl_attr_put_strz nlh ty data = mnl_attr_put nlh ty (data @ [0])"

definition mnl_attr_nest_start :: "nat \<Rightarrow> 16 word \<Rightarrow> mem \<Rightarrow> (nat \<times> mem) result" where
  "mnl_attr_nest_start nlh ty buf =
     bind (mnl_nlmsg_get_payload_tail nlh buf) (\<lambda>start.
     bind (write_at (start + 2) (store16 (NLA_F_NESTED OR ty)) buf) (\<lambda>buf.
     bind (nlmsg_len nlh buf) (\<lambda>l.
     bind (write_at nlh (store32 (l + word_of_nat (MNL_ALIGN 4))) buf) (\<lambda>buf. Inr (start, buf)))))"

text \<open>Whether there is room is computed with 64 bits.\<close>

definition mnl_attr_put_check :: "nat \<Rightarrow> nat \<Rightarrow> 16 word \<Rightarrow> mem \<Rightarrow> mem \<Rightarrow> (bool \<times> mem) result" where
  "mnl_attr_put_check nlh buflen ty data buf =
     bind (nlmsg_len nlh buf) (\<lambda>l.
       if unat l + MNL_ATTR_HDRLEN + MNL_ALIGN (length data) > buflen then Inr (False, buf)
       else bind (mnl_attr_put nlh ty data buf) (\<lambda>buf. Inr (True, buf)))"

definition mnl_attr_put_u8_check :: "nat \<Rightarrow> nat \<Rightarrow> 16 word \<Rightarrow> 8 word \<Rightarrow> mem \<Rightarrow> (bool \<times> mem) result" where
  "mnl_attr_put_u8_check nlh buflen ty data = mnl_attr_put_check nlh buflen ty [data]"

definition mnl_attr_put_u16_check :: "nat \<Rightarrow> nat \<Rightarrow> 16 word \<Rightarrow> 16 word \<Rightarrow> mem \<Rightarrow> (bool \<times> mem) result" where
  "mnl_attr_put_u16_check nlh buflen ty data = mnl_attr_put_check nlh buflen ty (store16 data)"

definition mnl_attr_put_u32_check :: "nat \<Rightarrow> nat \<Rightarrow> 16 word \<Rightarrow> 32 word \<Rightarrow> mem \<Rightarrow> (bool \<times> mem) result" where
  "mnl_attr_put_u32_check nlh buflen ty data = mnl_attr_put_check nlh buflen ty (store32 data)"

definition mnl_attr_put_u64_check :: "nat \<Rightarrow> nat \<Rightarrow> 16 word \<Rightarrow> 64 word \<Rightarrow> mem \<Rightarrow> (bool \<times> mem) result" where
  "mnl_attr_put_u64_check nlh buflen ty data = mnl_attr_put_check nlh buflen ty (store64 data)"

definition mnl_attr_put_str_check :: "nat \<Rightarrow> nat \<Rightarrow> 16 word \<Rightarrow> mem \<Rightarrow> mem \<Rightarrow> (bool \<times> mem) result" where
  "mnl_attr_put_str_check nlh buflen ty data = mnl_attr_put_check nlh buflen ty data"

definition mnl_attr_put_strz_check :: "nat \<Rightarrow> nat \<Rightarrow> 16 word \<Rightarrow> mem \<Rightarrow> mem \<Rightarrow> (bool \<times> mem) result" where
  "mnl_attr_put_strz_check nlh buflen ty data = mnl_attr_put_check nlh buflen ty (data @ [0])"

definition mnl_attr_nest_start_check :: "nat \<Rightarrow> nat \<Rightarrow> 16 word \<Rightarrow> mem \<Rightarrow> (nat option \<times> mem) result" where
  "mnl_attr_nest_start_check nlh buflen ty buf =
     bind (nlmsg_len nlh buf) (\<lambda>l.
       if unat l + MNL_ATTR_HDRLEN > buflen then Inr (None, buf)
       else bind (mnl_attr_nest_start nlh ty buf) (\<lambda>(start, buf). Inr (Some start, buf)))"

definition mnl_attr_nest_end :: "nat \<Rightarrow> nat \<Rightarrow> mem \<Rightarrow> mem result" where
  "mnl_attr_nest_end nlh start buf =
     bind (mnl_nlmsg_get_payload_tail nlh buf) (\<lambda>tail. write_at start (store16 (word_of_int (int tail - int start))) buf)"

definition mnl_attr_nest_cancel :: "nat \<Rightarrow> nat \<Rightarrow> mem \<Rightarrow> mem result" where
  "mnl_attr_nest_cancel nlh start buf =
     bind (mnl_nlmsg_get_payload_tail nlh buf) (\<lambda>tail. bind (nlmsg_len nlh buf) (\<lambda>l.
       write_at nlh (store32 (l - word_of_int (int tail - int start))) buf))"

end
