(* ===== verification/Netlink_Run.thy ===== *)
theory Netlink_Run
  imports Netlink
begin

text \<open>
  The handling of received netlink messages (\<open>callback.c\<close>) and the batches of messages to be sent (\<open>nlmsg.c\<close>).
  A received buffer is walked message by message; each goes to the callback for data or, when it is a control
  message, to a handler chosen by its type. The walk may not end, so its value is an option.
\<close>

section \<open>Control messages\<close>

text \<open>A callback gets the offset of a message and the data passed along; the buffer it reads is the first argument of those that read it.\<close>

type_synonym 's nl_cb = "nat \<Rightarrow> 's \<Rightarrow> (int \<times> 's) result"

definition NLMSG_NOOP :: nat where "NLMSG_NOOP = 1"
definition NLMSG_ERROR :: nat where "NLMSG_ERROR = 2"
definition NLMSG_DONE :: nat where "NLMSG_DONE = 3"
definition NLMSG_OVERRUN :: nat where "NLMSG_OVERRUN = 4"
definition NLMSG_MIN_TYPE :: nat where "NLMSG_MIN_TYPE = 16"

definition mnl_cb_noop :: "'s nl_cb" where
  "mnl_cb_noop nlh s = Inr (MNL_CB_OK, s)"

text \<open>A \<open>struct nlmsgerr\<close> is an error number and the header it belongs to, 20 bytes.\<close>

definition mnl_cb_error :: "mem \<Rightarrow> 's nl_cb" where
  "mnl_cb_error buf nlh s =
     bind (nlmsg_len nlh buf) (\<lambda>l.
       if unat l < mnl_nlmsg_size 20 then Inr (MNL_CB_ERROR, s)
       else bind (read32 (mnl_nlmsg_get_payload nlh) buf) (\<lambda>err. Inr (if err = 0 then MNL_CB_STOP else MNL_CB_ERROR, s)))"

definition mnl_cb_stop :: "'s nl_cb" where
  "mnl_cb_stop nlh s = Inr (MNL_CB_STOP, s)"

definition default_cb_array :: "mem \<Rightarrow> nat \<Rightarrow> 's nl_cb option" where
  "default_cb_array buf ty =
     (if ty = NLMSG_NOOP then Some mnl_cb_noop
      else if ty = NLMSG_ERROR then Some (mnl_cb_error buf)
      else if ty = NLMSG_DONE then Some mnl_cb_stop
      else if ty = NLMSG_OVERRUN then Some mnl_cb_noop
      else None)"

section \<open>The walk\<close>

text \<open>
  One turn of the loop: whether it is the last, the value so far, and the data. The array of handlers of the caller covers
  the types below its length; an entry may be missing.
\<close>

definition cb_step :: "mem \<Rightarrow> 32 word \<Rightarrow> 32 word \<Rightarrow> 's nl_cb option \<Rightarrow> (nat \<Rightarrow> 's nl_cb option) \<Rightarrow> nat \<Rightarrow>
    nat \<Rightarrow> int \<Rightarrow> 's \<Rightarrow> (bool \<times> int \<times> 's) result" where
  "cb_step buf seq portid cb_data cb_ctl_array cb_ctl_array_len nlh ret s =
     bind (mnl_nlmsg_portid_ok nlh buf portid) (\<lambda>ok. if \<not> ok then Inr (True, -1, s) else
     bind (mnl_nlmsg_seq_ok nlh buf seq) (\<lambda>ok. if \<not> ok then Inr (True, -1, s) else
     bind (nlmsg_type nlh buf) (\<lambda>t.
       let ty = unat t;
           cb = (if ty \<ge> NLMSG_MIN_TYPE then cb_data
                 else if ty < cb_ctl_array_len then cb_ctl_array ty
                 else default_cb_array buf ty)
       in case cb of
            None \<Rightarrow> Inr (False, ret, s)
          | Some f \<Rightarrow> bind (f nlh s) (\<lambda>(ret, s). Inr (ret \<le> MNL_CB_STOP, ret, s)))))"

partial_function (option) cb_loop :: "(nat \<Rightarrow> int \<Rightarrow> 's \<Rightarrow> (bool \<times> int \<times> 's) result) \<Rightarrow> mem \<Rightarrow> nat \<Rightarrow> 32 word \<Rightarrow> int \<Rightarrow> 's \<Rightarrow>
    (int \<times> 's) result option" where
  "cb_loop step buf nlh len ret s =
     (case mnl_nlmsg_ok nlh buf len of
        Inl e \<Rightarrow> Some (Inl e)
      | Inr ok \<Rightarrow>
          if \<not> ok then Some (Inr (ret, s))
          else case step nlh ret s of
            Inl e \<Rightarrow> Some (Inl e)
          | Inr r \<Rightarrow>
              if fst r then Some (Inr (snd r))
              else case mnl_nlmsg_next nlh buf len of
                Inl e \<Rightarrow> Some (Inl e)
              | Inr nx \<Rightarrow> cb_loop step buf (fst nx) (snd nx) (fst (snd r)) (snd (snd r)))"

definition mnl_cb_run2 :: "mem \<Rightarrow> nat \<Rightarrow> 32 word \<Rightarrow> 32 word \<Rightarrow> 's nl_cb option \<Rightarrow> 's \<Rightarrow> (nat \<Rightarrow> 's nl_cb option) \<Rightarrow> nat \<Rightarrow>
    (int \<times> 's) result option" where
  "mnl_cb_run2 buf numbytes seq portid cb_data s cb_ctl_array cb_ctl_array_len =
     cb_loop (cb_step buf seq portid cb_data cb_ctl_array cb_ctl_array_len) buf 0 (word_of_nat numbytes) MNL_CB_OK s"

definition mnl_cb_run :: "mem \<Rightarrow> nat \<Rightarrow> 32 word \<Rightarrow> 32 word \<Rightarrow> 's nl_cb option \<Rightarrow> 's \<Rightarrow> (int \<times> 's) result option" where
  "mnl_cb_run buf numbytes seq portid cb_data s = mnl_cb_run2 buf numbytes seq portid cb_data s (\<lambda>_. None) 0"

section \<open>Batches\<close>

text \<open>The buffer of a batch starts at offset 0.\<close>

record mnl_nlmsg_batch =
  b_limit :: nat
  b_buflen :: nat
  b_cur :: nat
  b_overflow :: bool

definition mnl_nlmsg_batch_start :: "nat \<Rightarrow> mnl_nlmsg_batch" where
  "mnl_nlmsg_batch_start limit = \<lparr>b_limit = limit, b_buflen = 0, b_cur = 0, b_overflow = False\<rparr>"

definition mnl_nlmsg_batch_next :: "mem \<Rightarrow> mnl_nlmsg_batch \<Rightarrow> (bool \<times> mnl_nlmsg_batch) result" where
  "mnl_nlmsg_batch_next buf b =
     bind (nlmsg_len (b_cur b) buf) (\<lambda>l.
       if b_buflen b + unat l > b_limit b then Inr (False, b\<lparr>b_overflow := True\<rparr>)
       else Inr (True, b\<lparr>b_cur := b_buflen b + unat l, b_buflen := b_buflen b + unat l\<rparr>))"

text \<open>Copying between regions that overlap is undefined.\<close>

definition mnl_nlmsg_batch_reset :: "mem \<Rightarrow> mnl_nlmsg_batch \<Rightarrow> (mem \<times> mnl_nlmsg_batch) result" where
  "mnl_nlmsg_batch_reset buf b =
     (if b_overflow b then
        bind (nlmsg_len (b_cur b) buf) (\<lambda>l.
          if b_cur b < unat l then Inl Overlapping_Copy
          else
            bind (read_bytes (b_cur b) (unat l) buf) (\<lambda>m. bind (write_at 0 m buf) (\<lambda>buf.
              Inr (buf, b\<lparr>b_buflen := unat l, b_cur := unat l, b_overflow := False\<rparr>))))
      else Inr (buf, b\<lparr>b_buflen := 0, b_cur := 0\<rparr>))"

definition mnl_nlmsg_batch_size :: "mnl_nlmsg_batch \<Rightarrow> nat" where
  "mnl_nlmsg_batch_size b = b_buflen b"

definition mnl_nlmsg_batch_current :: "mnl_nlmsg_batch \<Rightarrow> nat" where
  "mnl_nlmsg_batch_current b = b_cur b"

definition mnl_nlmsg_batch_is_empty :: "mnl_nlmsg_batch \<Rightarrow> bool" where
  "mnl_nlmsg_batch_is_empty b \<longleftrightarrow> b_buflen b = 0"

end
