(* ===== verification/Rt_Netlink.thy ===== *)
theory Rt_Netlink
  imports Rt_Table Netlink_Run
begin

text \<open>
  The netlink messages behind the routes and the addresses of the interface, byte by byte (\<open>rt_table.c\<close>, \<open>if_addr.c\<close>,
  \<open>if_info.c\<close>, and \<open>mnl_socket_recvfrom\<close> of \<open>socket.c\<close>). The kernel is what arrives at the socket. The limits
  \<open>RTA_MAX\<close>, \<open>RTAX_MAX\<close> and \<open>IFLA_MAX\<close> belong to the headers of the system and are arguments. Opening, binding and sending
  succeed. Reads for messages on the console are left out.
\<close>

definition AF_INET6 :: "8 word" where "AF_INET6 = 10"
definition RTM_GETLINK :: "16 word" where "RTM_GETLINK = 18"
definition RTM_NEWADDR :: "16 word" where "RTM_NEWADDR = 20"
definition RTM_GETADDR :: "16 word" where "RTM_GETADDR = 22"
definition RTM_NEWROUTE :: "16 word" where "RTM_NEWROUTE = 24"
definition RTM_DELROUTE :: "16 word" where "RTM_DELROUTE = 25"
definition RTM_GETROUTE :: "16 word" where "RTM_GETROUTE = 26"
definition NLM_F_REQUEST :: "16 word" where "NLM_F_REQUEST = 1"
definition NLM_F_ROOT :: "16 word" where "NLM_F_ROOT = 0x100"
definition NLM_F_DUMP :: "16 word" where "NLM_F_DUMP = 0x300"
definition NLM_F_REPLACE :: "16 word" where "NLM_F_REPLACE = 0x100"
definition NLM_F_CREATE :: "16 word" where "NLM_F_CREATE = 0x400"

definition RTA_DST :: "16 word" where "RTA_DST = 1"
definition RTA_SRC :: "16 word" where "RTA_SRC = 2"
definition RTA_OIF :: "16 word" where "RTA_OIF = 4"
definition RTA_GATEWAY :: "16 word" where "RTA_GATEWAY = 5"
definition RTA_PRIORITY :: "16 word" where "RTA_PRIORITY = 6"
definition RTA_PREFSRC :: "16 word" where "RTA_PREFSRC = 7"
definition RTA_METRICS :: "16 word" where "RTA_METRICS = 8"
definition RTA_FLOW :: "16 word" where "RTA_FLOW = 11"
definition RTA_TABLE :: "16 word" where "RTA_TABLE = 15"
definition IFA_ADDRESS :: "16 word" where "IFA_ADDRESS = 1"

lemmas rta_defs = RTA_DST_def RTA_SRC_def RTA_OIF_def RTA_GATEWAY_def RTA_PRIORITY_def RTA_PREFSRC_def RTA_METRICS_def RTA_FLOW_def RTA_TABLE_def

section \<open>Receiving\<close>

text \<open>What \<open>recvmsg\<close> does: it fails, or delivers a datagram and the length of the address it comes from.\<close>

datatype arrival = Recv_Failed | Received mem nat

text \<open>A datagram that does not fit fills the buffer and is an error; the address of a netlink socket has 12 bytes.\<close>

definition mnl_socket_recvfrom :: "arrival \<Rightarrow> mem \<Rightarrow> int \<times> mem" where
  "mnl_socket_recvfrom a buf =
     (case a of
        Recv_Failed \<Rightarrow> (-1, buf)
      | Received d namelen \<Rightarrow>
          let buf' = take (length buf) d @ drop (length d) buf
          in if length d > length buf then (-1, buf')
             else if namelen \<noteq> 12 then (-1, buf')
             else (int (length d), buf'))"

text \<open>
  The loop behind a request: datagrams are handled until the callback says that it is over. The value is what the loop
  leaves in \<open>ret\<close> and the data; when nothing arrives any more the program would wait, here the receiving fails.
\<close>

fun recv_loop :: "(mem \<Rightarrow> nat \<Rightarrow> 's \<Rightarrow> (int \<times> 's) result option) \<Rightarrow> arrival list \<Rightarrow> mem \<Rightarrow> 's \<Rightarrow> (int \<times> 's) result option" where
  "recv_loop run [] buf s = Some (Inr (-1, s))"
| "recv_loop run (a # as) buf s =
     (let (ret, buf) = mnl_socket_recvfrom a buf
      in if ret > 0 then
           case run buf (nat ret) s of
             None \<Rightarrow> None
           | Some (Inl e) \<Rightarrow> Some (Inl e)
           | Some (Inr (ret, s)) \<Rightarrow> if ret \<le> MNL_CB_STOP then Some (Inr (ret, s)) else recv_loop run as buf s
         else Some (Inr (ret, s)))"

section \<open>Reading a route\<close>

text \<open>The array of attributes by type.\<close>

type_synonym attr_tb = "16 word \<Rightarrow> nat option"

definition data_attr_cb :: "16 word \<Rightarrow> mem \<Rightarrow> attr_tb attr_cb" where
  "data_attr_cb rta_max buf attr tb =
     bind (mnl_attr_get_type attr buf) (\<lambda>ty.
     bind (mnl_attr_type_valid attr buf rta_max) (\<lambda>v.
       if v < 0 then Inr (MNL_CB_OK, tb)
       else
         bind (if ty = RTA_TABLE \<or> ty = RTA_DST \<or> ty = RTA_SRC \<or> ty = RTA_OIF \<or> ty = RTA_FLOW \<or> ty = RTA_PREFSRC \<or>
                  ty = RTA_GATEWAY \<or> ty = RTA_METRICS
               then mnl_attr_validate attr buf MNL_TYPE_NESTED else Inr 0) (\<lambda>v.
           if v < 0 then Inr (MNL_CB_ERROR, tb) else Inr (MNL_CB_OK, tb(ty := Some attr)))))"

text \<open>The callback for the metrics stores nothing.\<close>

definition data_attr_cb2 :: "16 word \<Rightarrow> mem \<Rightarrow> unit attr_cb" where
  "data_attr_cb2 rtax_max buf attr s =
     bind (mnl_attr_type_valid attr buf rtax_max) (\<lambda>v.
       if v < 0 then Inr (MNL_CB_OK, s)
       else bind (mnl_attr_validate attr buf MNL_TYPE_U32) (\<lambda>v. Inr (if v < 0 then MNL_CB_ERROR else MNL_CB_OK, s)))"

text \<open>An address at the payload of an attribute, whatever the length of the attribute.\<close>

definition get_addr :: "nat \<Rightarrow> mem \<Rightarrow> in6_addr result" where
  "get_addr attr buf = bind (read_bytes (mnl_attr_get_payload attr) 16 buf) (\<lambda>_. Inr (addr_at buf (mnl_attr_get_payload attr)))"

text \<open>An attribute that is there changes the entry.\<close>

definition set_from :: "attr_tb \<Rightarrow> 16 word \<Rightarrow> (nat \<Rightarrow> 'v result) \<Rightarrow> ('v \<Rightarrow> route \<Rightarrow> route) \<Rightarrow> route \<Rightarrow> route result" where
  "set_from tb ty get upd r = (case tb ty of None \<Rightarrow> Inr r | Some attr \<Rightarrow> bind (get attr) (\<lambda>v. Inr (upd v r)))"

definition show_ipv6_bytes :: "fenv \<Rightarrow> 16 word \<Rightarrow> mem \<Rightarrow> attr_tb \<Rightarrow> route list \<times> nat \<Rightarrow> (route list \<times> nat) result" where
  "show_ipv6_bytes F rtax_max buf tb rtk =
     (let (rt, k) = rtk
      in bind (set_from tb RTA_TABLE (\<lambda>a. mnl_attr_get_u32 a buf) (\<lambda>t r. r\<lparr>rt_table := ucast t\<rparr>) (rt ! k)) (\<lambda>r.
         if tb RTA_TABLE \<noteq> None \<and> rt_table r \<noteq> 254 then Inr (rt[k := r], k)
         else
           bind (set_from tb RTA_DST (\<lambda>a. get_addr a buf) (\<lambda>a r. r\<lparr>rt_dst := a\<rparr>) r) (\<lambda>r.
           bind (set_from tb RTA_PRIORITY (\<lambda>a. mnl_attr_get_u32 a buf) (\<lambda>d r. r\<lparr>rt_distance := sint d\<rparr>) r) (\<lambda>r.
           bind (set_from tb RTA_GATEWAY (\<lambda>a. get_addr a buf) (\<lambda>a r. r\<lparr>rt_gtw := a\<rparr>) r) (\<lambda>r.
           bind (case tb RTA_METRICS of None \<Rightarrow> Inr () | Some a \<Rightarrow>
                   bind (mnl_attr_parse_nested a (data_attr_cb2 rtax_max buf) () buf) (\<lambda>_. Inr ())) (\<lambda>_.
             let rt = rt[k := r];
                 rt = (if length rt = k + 1 then rt @ [fe_route F] else rt)
             in Inr (rt, k + 1)))))))"

text \<open>A \<open>struct rtmsg\<close> starts with the family and the length of the destination. What the parsing returns is ignored.\<close>

definition data_cb_bytes :: "fenv \<Rightarrow> 16 word \<Rightarrow> 16 word \<Rightarrow> mem \<Rightarrow> (route list \<times> nat) nl_cb" where
  "data_cb_bytes F rta_max rtax_max buf nlh rtk =
     (let rm = mnl_nlmsg_get_payload nlh; (rt, k) = rtk
      in bind (read8 (rm + 1) buf) (\<lambda>dst_len.
         let rt = rt[k := (rt ! k)\<lparr>rt_dst_mask := uint dst_len\<rparr>]
         in bind (mnl_attr_parse nlh 12 (data_attr_cb rta_max buf) (\<lambda>_. None) buf) (\<lambda>(_, tb).
            bind (read8 rm buf) (\<lambda>family.
            bind (if family = AF_INET6 then show_ipv6_bytes F rtax_max buf tb (rt, k) else Inr (rt, k)) (\<lambda>rtk.
              Inr (MNL_CB_OK, rtk))))))"

text \<open>The dump; \<open>buf\<close> is the uninitialised buffer of the function. A value \<open>-1\<close> of the loop is an error.\<close>

definition rt_dump_bytes :: "fenv \<Rightarrow> 16 word \<Rightarrow> 16 word \<Rightarrow> 32 word \<Rightarrow> 32 word \<Rightarrow> arrival list \<Rightarrow> mem \<Rightarrow> route list \<Rightarrow>
    (route list \<times> route list) result option" where
  "rt_dump_bytes F rta_max rtax_max seq portid arrivals buf rt =
     (if rt = [] then Some (Inl Wild_Pointer)
      else
        case recv_loop (\<lambda>buf n. mnl_cb_run buf n seq portid (Some (data_cb_bytes F rta_max rtax_max buf))) arrivals buf (rt, 0) of
          None \<Rightarrow> None
        | Some (Inl e) \<Rightarrow> Some (Inl e)
        | Some (Inr (ret, (rt, _))) \<Rightarrow> Some (Inr (if ret = -1 then [] else rt, rt)))"

section \<open>Requests\<close>

text \<open>The header: type, flags and sequence number.\<close>

definition nl_request :: "16 word \<Rightarrow> 16 word \<Rightarrow> 32 word \<Rightarrow> mem \<Rightarrow> mem result" where
  "nl_request ty flags seq buf =
     bind (mnl_nlmsg_put_header 0 buf) (\<lambda>buf. bind (write_at 4 (store16 ty) buf) (\<lambda>buf.
     bind (write_at 6 (store16 flags) buf) (write_at 8 (store32 seq))))"

definition dump_request :: "32 word \<Rightarrow> mem \<Rightarrow> mem result" where
  "dump_request seq buf =
     bind (nl_request RTM_GETROUTE (NLM_F_REQUEST OR NLM_F_DUMP OR NLM_F_ROOT) seq buf) (\<lambda>buf.
     bind (mnl_nlmsg_put_extra_header 0 12 buf) (\<lambda>(rtm, buf). write_at rtm [AF_INET6] buf))"

text \<open>
  The request that adds or deletes a route: family, lengths of destination and source, type of service, table, protocol, scope
  and type of the route, no flags; then the attributes.
\<close>

definition route_request :: "16 word \<Rightarrow> 32 word \<Rightarrow> 32 word \<Rightarrow> in6_addr \<Rightarrow> in6_addr \<Rightarrow> 8 word \<Rightarrow> int \<Rightarrow> mem \<Rightarrow> mem result" where
  "route_request ty seq ifindex dst gw msk distance buf =
     bind (nl_request ty (NLM_F_REQUEST OR NLM_F_CREATE) seq buf) (\<lambda>buf.
     bind (mnl_nlmsg_put_extra_header 0 12 buf) (\<lambda>(rtm, buf).
     bind (write_at rtm ([AF_INET6, msk, 0, 0, 254, 3, 253, 1] @ store32 0) buf) (\<lambda>buf.
     bind (mnl_attr_put 0 RTA_DST (addr_bytes dst) buf) (\<lambda>buf.
     bind (mnl_attr_put_u32 0 RTA_OIF ifindex buf) (\<lambda>buf.
     bind (mnl_attr_put_u32 0 RTA_PRIORITY (word_of_int distance) buf) (\<lambda>buf.
     mnl_attr_put 0 RTA_GATEWAY (addr_bytes gw) buf))))))"

section \<open>Addresses of the interface\<close>

text \<open>The callback keeps the attributes of every type up to the limit; the data is the address.\<close>

definition if_attr_cb :: "16 word \<Rightarrow> mem \<Rightarrow> attr_tb attr_cb" where
  "if_attr_cb ifla_max buf attr tb =
     bind (mnl_attr_get_type attr buf) (\<lambda>ty.
     bind (mnl_attr_type_valid attr buf ifla_max) (\<lambda>v. Inr (MNL_CB_OK, if v < 0 then tb else tb(ty := Some attr))))"

text \<open>A \<open>struct ifaddrmsg\<close> has 8 bytes, the index of the interface in the last four. The last address of the interface stays.\<close>

definition if_data_cb :: "16 word \<Rightarrow> 32 word \<Rightarrow> mem \<Rightarrow> in6_addr nl_cb" where
  "if_data_cb ifla_max ifindex buf nlh a =
     bind (mnl_attr_parse nlh 8 (if_attr_cb ifla_max buf) (\<lambda>_. None) buf) (\<lambda>(_, tb).
       case tb IFA_ADDRESS of
         None \<Rightarrow> Inr (MNL_CB_OK, a)
       | Some attr \<Rightarrow>
           bind (read32 (mnl_nlmsg_get_payload nlh + 4) buf) (\<lambda>idx.
             if idx = ifindex then bind (get_addr attr buf) (\<lambda>a. Inr (MNL_CB_OK, a)) else Inr (MNL_CB_OK, a)))"

text \<open>The process ends when the loop leaves \<open>-1\<close>: no value.\<close>

definition get_if_addr :: "16 word \<Rightarrow> 32 word \<Rightarrow> 32 word \<Rightarrow> 32 word \<Rightarrow> arrival list \<Rightarrow> mem \<Rightarrow> in6_addr \<Rightarrow> in6_addr option result option" where
  "get_if_addr ifla_max ifindex seq portid arrivals buf a =
     (case recv_loop (\<lambda>buf n. mnl_cb_run buf n seq portid (Some (if_data_cb ifla_max ifindex buf))) arrivals buf a of
        None \<Rightarrow> None
      | Some (Inl e) \<Rightarrow> Some (Inl e)
      | Some (Inr (ret, a)) \<Rightarrow> Some (Inr (if ret = -1 then None else Some a)))"

definition addr_dump_request :: "32 word \<Rightarrow> mem \<Rightarrow> mem result" where
  "addr_dump_request seq buf =
     bind (nl_request RTM_GETADDR (NLM_F_REQUEST OR NLM_F_DUMP) seq buf) (\<lambda>buf.
     bind (mnl_nlmsg_put_extra_header 0 1 buf) (\<lambda>(rt, buf). write_at rt [AF_INET6] buf))"

text \<open>\<open>set_if_addr\<close>: the interface is always the second; \<open>IFA_F_PERMANENT\<close> and \<open>RT_SCOPE_LINK\<close>.\<close>

definition set_addr_request :: "32 word \<Rightarrow> in6_addr \<Rightarrow> mem \<Rightarrow> mem result" where
  "set_addr_request seq a buf =
     bind (nl_request RTM_NEWADDR NLM_F_REPLACE seq buf) (\<lambda>buf.
     bind (mnl_nlmsg_put_extra_header 0 8 buf) (\<lambda>(ifa, buf).
     bind (write_at ifa ([AF_INET6, 64, 0x80, 253] @ store32 2) buf) (mnl_attr_put 0 IFA_ADDRESS (addr_bytes a))))"

text \<open>\<open>set_if_addr2\<close>: two requests to the kernel, the first only when there is an address to be taken away.\<close>

datatype ioctl_call = SIOCDIFADDR in6_addr | SIOCSIFADDR in6_addr

definition set_if_addr2 :: "in6_addr \<Rightarrow> in6_addr \<Rightarrow> bool \<Rightarrow> ioctl_call list" where
  "set_if_addr2 old a change_addr = (if change_addr then [SIOCDIFADDR old] else []) @ [SIOCSIFADDR a]"

text \<open>\<open>get_if\<close> of \<open>if_info.c\<close>: a check of the attributes of the links.\<close>

definition IFLA_IFNAME :: "16 word" where "IFLA_IFNAME = 3"
definition IFLA_MTU :: "16 word" where "IFLA_MTU = 4"

definition link_attr_cb :: "16 word \<Rightarrow> mem \<Rightarrow> attr_tb attr_cb" where
  "link_attr_cb ifla_max buf attr tb =
     bind (mnl_attr_get_type attr buf) (\<lambda>ty.
     bind (mnl_attr_type_valid attr buf ifla_max) (\<lambda>v.
       if v < 0 then Inr (MNL_CB_OK, tb)
       else
         bind (if ty = IFLA_MTU then mnl_attr_validate attr buf MNL_TYPE_U32
               else if ty = IFLA_IFNAME then mnl_attr_validate attr buf MNL_TYPE_STRING else Inr 0) (\<lambda>v.
           if v < 0 then Inr (MNL_CB_ERROR, tb) else Inr (MNL_CB_OK, tb(ty := Some attr)))))"

text \<open>What it prints of a link: the size of packets and the name, read as a string.\<close>

definition link_data_cb :: "16 word \<Rightarrow> mem \<Rightarrow> (32 word option \<times> mem option) list nl_cb" where
  "link_data_cb ifla_max buf nlh out =
     bind (mnl_attr_parse nlh 16 (link_attr_cb ifla_max buf) (\<lambda>_. None) buf) (\<lambda>(_, tb).
     bind (case tb IFLA_MTU of None \<Rightarrow> Inr None | Some a \<Rightarrow> bind (mnl_attr_get_u32 a buf) (\<lambda>m. Inr (Some m))) (\<lambda>mtu.
     bind (case tb IFLA_IFNAME of None \<Rightarrow> Inr None | Some a \<Rightarrow> bind (c_string (drop (mnl_attr_get_str a) buf)) (\<lambda>n. Inr (Some n))) (\<lambda>name.
       Inr (MNL_CB_OK, out @ [(mtu, name)]))))"

definition get_if :: "16 word \<Rightarrow> 32 word \<Rightarrow> 32 word \<Rightarrow> arrival list \<Rightarrow> mem \<Rightarrow> (32 word option \<times> mem option) list option result option" where
  "get_if ifla_max seq portid arrivals buf =
     (case recv_loop (\<lambda>buf n. mnl_cb_run buf n seq portid (Some (link_data_cb ifla_max buf))) arrivals buf [] of
        None \<Rightarrow> None
      | Some (Inl e) \<Rightarrow> Some (Inl e)
      | Some (Inr (ret, out)) \<Rightarrow> Some (Inr (if ret = -1 then None else Some out)))"

definition link_dump_request :: "32 word \<Rightarrow> mem \<Rightarrow> mem result" where
  "link_dump_request seq buf =
     bind (nl_request RTM_GETLINK (NLM_F_REQUEST OR NLM_F_DUMP) seq buf) (\<lambda>buf.
     bind (mnl_nlmsg_put_extra_header 0 1 buf) (\<lambda>(rt, buf). write_at rt [AF_INET6] buf))"

end
