(* ===== verification/Netlink_Correct.thy ===== *)
theory Netlink_Correct
  imports Netlink
begin

text \<open>
  Properties of the netlink library: what a message looks like while it is built, that reading returns what was
  put, for plain and for nested attributes, and that the checked variants stay inside the buffer.
\<close>

section \<open>Alignment\<close>

lemma MNL_ALIGN_simps [simp]: "MNL_ALIGN 0 = 0" "MNL_ALIGN 4 = 4" "MNL_ALIGN (4 + n) = 4 + MNL_ALIGN n"
  unfolding MNL_ALIGN_def by presburger+

lemma MNL_ALIGN_bounds: "n \<le> MNL_ALIGN n" "MNL_ALIGN n \<le> n + 3" "MNL_ALIGN n < n + 4"
  unfolding MNL_ALIGN_def by presburger+

lemma dvd_MNL_ALIGN [simp]: "4 dvd MNL_ALIGN n"
  by (simp add: MNL_ALIGN_def)

lemma MNL_ALIGN_id: "4 dvd n \<Longrightarrow> MNL_ALIGN n = n"
  unfolding MNL_ALIGN_def by presburger

lemma MNL_ALIGN_idem [simp]: "MNL_ALIGN (MNL_ALIGN n) = MNL_ALIGN n"
  by (simp add: MNL_ALIGN_id)

lemma MNL_ALIGN_add: "4 dvd n \<Longrightarrow> MNL_ALIGN (n + m) = n + MNL_ALIGN m"
  unfolding MNL_ALIGN_def by presburger

text \<open>The macro on 32 bits computes the same while there is no overflow.\<close>

lemma unat_MNL_ALIGN32: "unat l + 3 < 2 ^ 32 \<Longrightarrow> unat (MNL_ALIGN32 l) = MNL_ALIGN (unat l)"
proof -
  assume l: "unat l + 3 < 2 ^ 32"
  let ?w = "l + 3"
  have w: "unat ?w = unat l + 3" using l by (simp add: unat_word_ariths)
  have m: "(3 :: 32 word) = mask 2" by (simp add: mask_eq_exp_minus_1)
  have "(?w AND NOT (mask 2)) + (?w AND mask 2) = ?w"
    by (subst disjunctive_add_eq_or) (auto intro!: bit_word_eqI simp add: bit_and_iff bit_or_iff bit_not_iff)
  then have "?w AND NOT 3 = ?w - take_bit 2 ?w" unfolding m take_bit_eq_mask by (simp add: eq_diff_eq)
  moreover have t: "unat (take_bit 2 ?w) = unat ?w mod 4" by (simp only: unsigned_take_bit_eq) (simp add: take_bit_eq_mod)
  moreover have "take_bit 2 ?w \<le> ?w" unfolding word_le_nat_alt t by simp
  ultimately have "unat (MNL_ALIGN32 l) = unat ?w - unat ?w mod 4" by (simp only: MNL_ALIGN32_def unat_sub)
  then show ?thesis unfolding w MNL_ALIGN_def by (simp only: minus_mod_eq_mult_div mult.commute)
qed

section \<open>Reading what was stored\<close>

lemma read_stored:
  "length xs = off \<Longrightarrow> read16 off (xs @ store16 w @ zs) = Inr w"
  "length xs = off \<Longrightarrow> read32 off (xs @ store32 l @ zs) = Inr l"
  "length xs = off \<Longrightarrow> length d = n \<Longrightarrow> read_bytes off n (xs @ d @ zs) = Inr d"
  using load16_append [of xs off 0 "store16 w" zs] le32_append [of xs off 0 "store32 l" zs]
    load16_store16 [of w "[]"] le32_store32 [of l "[]"]
  by (simp_all add: read16_def read32_def read_bytes_def)

section \<open>The message under construction\<close>

text \<open>
  Behind what precedes it: its length, the rest of its header (12 bytes), its body and the bytes of the buffer not used yet.
\<close>

definition len_field :: "mem \<Rightarrow> 32 word" where
  "len_field body = word_of_nat (16 + length body)"

definition message :: "mem \<Rightarrow> mem \<Rightarrow> mem \<Rightarrow> mem \<Rightarrow> mem" where
  "message pre h body rest = pre @ store32 (len_field body) @ h @ body @ rest"

definition nl_wf :: "mem \<Rightarrow> mem \<Rightarrow> bool" where
  "nl_wf h body \<longleftrightarrow> length h = 12 \<and> 4 dvd length body \<and> 16 + length body < 2 ^ 31"

lemma len_field_unat: "16 + length body < 2 ^ 32 \<Longrightarrow> unat (len_field body) = 16 + length body"
  unfolding len_field_def unsigned_of_nat by (simp add: take_bit_nat_eq_self)

lemma nl_wf_unat: "nl_wf h body \<Longrightarrow> unat (len_field body) = 16 + length body"
  by (simp add: nl_wf_def len_field_unat)

lemma len_field_append: "len_field (body @ add) = len_field body + word_of_nat (length add)"
  by (simp add: len_field_def)

lemma len_field_cong: "length body = length body' \<Longrightarrow> len_field body = len_field body'"
  by (simp add: len_field_def)

lemma message_len: "nlmsg_len (length pre) (message pre h body rest) = Inr (len_field body)"
  unfolding nlmsg_len_def message_def by (rule read_stored) simp

lemma message_tail:
  assumes "nl_wf h body"
  shows "mnl_nlmsg_get_payload_tail (length pre) (message pre h body rest) = Inr (length pre + 16 + length body)"
proof -
  have "16 + length body + 3 < 2 ^ 32" "4 dvd 16 + length body" using assms by (auto simp add: nl_wf_def)
  then show ?thesis
    using nl_wf_unat [OF assms] by (simp add: mnl_nlmsg_get_payload_tail_def message_len unat_MNL_ALIGN32 MNL_ALIGN_id)
qed

lemma put_header_message:
  assumes "16 \<le> length rest"
  shows "mnl_nlmsg_put_header (length pre) (pre @ rest) = Inr (message pre (replicate 12 0) [] (drop 16 rest))"
proof -
  have r: "replicate 16 (0 :: 8 word) = replicate 4 0 @ replicate 12 0" by (simp only: replicate_add [symmetric]) simp
  have "write_at (length pre) (replicate 16 0) (pre @ rest) = Inr (pre @ replicate 4 0 @ replicate 12 0 @ drop 16 rest)"
    using assms write_at_append [of pre "length pre" "replicate 4 0 @ replicate 12 0" rest] unfolding r by simp
  moreover have "write_at (length pre) (store32 16) (pre @ replicate 4 0 @ replicate 12 0 @ drop 16 rest) =
      Inr (pre @ store32 16 @ replicate 12 0 @ drop 16 rest)" by (rule write_at_same) simp_all
  ultimately show ?thesis
    by (simp only: mnl_nlmsg_put_header_def MNL_NLMSG_HDRLEN_def message_def bind_simps) (simp add: len_field_def)
qed

text \<open>The length field after something has been added.\<close>

lemma grow_message:
  "length add = n \<Longrightarrow> write_at (length pre) (store32 (len_field body + word_of_nat n)) (message pre h body (add @ rest)) =
    Inr (message pre h (body @ add) rest)"
  unfolding message_def len_field_append by (simp add: write_at_same)

text \<open>A write behind the body.\<close>

lemma write_rest:
  assumes "nl_wf h body" and "k + length bs \<le> length rest" and "off = length pre + 16 + length body + k"
  shows "write_at off bs (message pre h body rest) = Inr (message pre h body (take k rest @ bs @ drop (k + length bs) rest))"
proof -
  have "length (pre @ store32 (len_field body) @ h @ body @ take k rest) = off" using assms by (simp add: nl_wf_def)
  from write_at_append [OF this, of bs "drop k rest"] show ?thesis using assms(2) by (simp add: message_def add.commute)
qed

lemma put_extra_message:
  assumes "nl_wf h body" and "MNL_ALIGN n \<le> length rest"
  shows "mnl_nlmsg_put_extra_header (length pre) n (message pre h body rest) =
    Inr (length pre + 16 + length body, message pre h (body @ replicate n 0 @ take (MNL_ALIGN n - n) (drop n rest)) (drop (MNL_ALIGN n) rest))"
proof -
  let ?pad = "take (MNL_ALIGN n - n) (drop n rest)" and ?off = "length pre + 16 + length body"
  have n: "n \<le> MNL_ALIGN n" by (rule MNL_ALIGN_bounds)
  have "drop n rest = ?pad @ drop (MNL_ALIGN n) rest"
    using n by (metis append_take_drop_id drop_drop le_add_diff_inverse2)
  then have rest: "rest = (take n rest @ ?pad) @ drop (MNL_ALIGN n) rest" by (metis append.assoc append_take_drop_id)
  have len: "length (take n rest @ ?pad) = MNL_ALIGN n" "length (take n rest) = n" "length ?pad = MNL_ALIGN n - n" using assms(2) n by simp_all
  have w1: "write_at (length pre) (store32 (len_field body + word_of_nat (MNL_ALIGN n))) (message pre h body rest) =
      Inr (message pre h (body @ take n rest @ ?pad) (drop (MNL_ALIGN n) rest))"
    using grow_message [OF len(1), of pre body h "drop (MNL_ALIGN n) rest"] rest by simp
  have lf: "len_field (body @ take n rest @ ?pad) = len_field (body @ replicate n 0 @ ?pad)" using len by (intro len_field_cong) simp
  have off: "length (pre @ store32 (len_field (body @ replicate n 0 @ ?pad)) @ h @ body) = ?off" using assms(1) by (simp add: nl_wf_def)
  have w2: "write_at ?off (replicate n 0) (message pre h (body @ take n rest @ ?pad) (drop (MNL_ALIGN n) rest)) =
      Inr (message pre h (body @ replicate n 0 @ ?pad) (drop (MNL_ALIGN n) rest))"
    unfolding message_def lf using write_at_same [OF off, of "take n rest" "replicate n 0" "?pad @ drop (MNL_ALIGN n) rest"] len(2) by simp
  show ?thesis using w1 w2 nl_wf_unat [OF assms(1)] by (simp add: mnl_nlmsg_put_extra_header_def message_len Let_def add.assoc)
qed

section \<open>Attributes\<close>

text \<open>An attribute in memory: its length, its type, its data and what pads it to a multiple of four.\<close>

definition alen :: "mem \<Rightarrow> 16 word" where
  "alen data = word_of_nat (4 + length data)"

definition attr_bytes :: "16 word \<Rightarrow> mem \<Rightarrow> mem \<Rightarrow> mem" where
  "attr_bytes ty data pad = store16 (alen data) @ store16 ty @ data @ pad"

definition attr_wf :: "mem \<Rightarrow> mem \<Rightarrow> bool" where
  "attr_wf data pad \<longleftrightarrow> length data \<le> 65531 \<and> length data + length pad = MNL_ALIGN (length data)"

lemma length_attr_bytes: "attr_wf data pad \<Longrightarrow> length (attr_bytes ty data pad) = 4 + MNL_ALIGN (length data)"
  by (simp add: attr_bytes_def attr_wf_def)

lemma alen_unat: "length data \<le> 65531 \<Longrightarrow> unat (alen data) = 4 + length data"
  unfolding alen_def unsigned_of_nat by (simp add: take_bit_nat_eq_self)

lemma put_message:
  assumes "nl_wf h body" and "length data \<le> 65531" and "4 + MNL_ALIGN (length data) \<le> length rest"
  defines "pad \<equiv> take (MNL_ALIGN (length data) - length data) (drop (4 + length data) rest)"
  shows "mnl_attr_put (length pre) ty data (message pre h body rest) =
      Inr (message pre h (body @ attr_bytes ty data pad) (drop (4 + MNL_ALIGN (length data)) rest))"
    and "attr_wf data pad"
proof -
  let ?n = "length data" and ?off = "length pre + 16 + length body"
  have n: "?n \<le> MNL_ALIGN ?n" by (rule MNL_ALIGN_bounds)
  show pad: "attr_wf data pad" using assms(2,3) n by (simp add: attr_wf_def pad_def)
  let ?l = "store16 (alen data)" and ?t = "store16 ty" and ?r = "drop (4 + MNL_ALIGN ?n) rest"
  have "MNL_ALIGN ?n - ?n + (4 + ?n) = 4 + MNL_ALIGN ?n" using n by simp
  then have r: "drop (4 + ?n) rest = pad @ ?r" unfolding pad_def by (metis append_take_drop_id drop_drop)
  have w1: "write_at (?off + 2) ?t (message pre h body rest) = Inr (message pre h body (take 2 rest @ ?t @ drop 4 rest))"
    using write_rest [OF assms(1), of 2 ?t rest "?off + 2" pre] assms(3) by simp
  have w2: "write_at ?off ?l (message pre h body (take 2 rest @ ?t @ drop 4 rest)) = Inr (message pre h body (?l @ ?t @ drop 4 rest))"
    using write_rest [OF assms(1), of 0 ?l "take 2 rest @ ?t @ drop 4 rest" ?off pre] assms(3) by simp
  have w3: "write_at (?off + 4) data (message pre h body (?l @ ?t @ drop 4 rest)) =
      Inr (message pre h body (attr_bytes ty data pad @ ?r))"
    using write_rest [OF assms(1), of 4 data "?l @ ?t @ drop 4 rest" "?off + 4" pre] assms(3) n r
    by (simp add: attr_bytes_def add.commute)
  have g: "write_at (length pre) (store32 (len_field body + word_of_nat (4 + MNL_ALIGN ?n))) (message pre h body (attr_bytes ty data pad @ ?r)) =
      Inr (message pre h (body @ attr_bytes ty data pad) ?r)"
    using pad by (intro grow_message) (simp add: length_attr_bytes)
  have al: "word_of_nat (MNL_ALIGN 4 + ?n) = alen data" "MNL_ALIGN (unat (alen data)) = 4 + MNL_ALIGN ?n"
    using alen_unat [OF assms(2)] by (simp_all add: alen_def)
  show "mnl_attr_put (length pre) ty data (message pre h body rest) = Inr (message pre h (body @ attr_bytes ty data pad) ?r)"
    unfolding mnl_attr_put_def message_tail [OF assms(1)] bind_simps Let_def al w1 w2 mnl_attr_get_payload_def MNL_ATTR_HDRLEN_def w3
      message_len g ..
qed

section \<open>Going through the attributes\<close>

text \<open>The callback seen from the attributes.\<close>

fun attr_fold :: "('a \<Rightarrow> 's \<Rightarrow> (int \<times> 's) result) \<Rightarrow> 'a list \<Rightarrow> int \<Rightarrow> 's \<Rightarrow> (int \<times> 's) result" where
  "attr_fold f [] ret s = Inr (ret, s)"
| "attr_fold f (a # as) ret s =
     bind (f a s) (\<lambda>(ret, s). if ret \<le> MNL_CB_STOP then Inr (ret, s) else attr_fold f as ret s)"

text \<open>Attributes with the bytes that pad them.\<close>

type_synonym padded = "16 word \<times> mem \<times> mem"

definition enc :: "padded list \<Rightarrow> mem" where
  "enc as = concat (map (\<lambda>(ty, d, p). attr_bytes ty d p) as)"

definition plain :: "padded list \<Rightarrow> (16 word \<times> mem) list" where
  "plain as = map (\<lambda>(ty, d, p). (ty, d)) as"

text \<open>The attributes with their offsets.\<close>

fun placed :: "nat \<Rightarrow> padded list \<Rightarrow> (nat \<times> 16 word \<times> mem) list" where
  "placed off [] = []"
| "placed off ((ty, d, p) # as) = (off, ty, d) # placed (off + (4 + MNL_ALIGN (length d))) as"

definition padded_wf :: "padded list \<Rightarrow> bool" where
  "padded_wf as \<longleftrightarrow> (\<forall>(ty, d, p)\<in>set as. attr_wf d p)"

lemma enc_simps [simp]: "enc [] = []" "enc ((ty, d, p) # as) = attr_bytes ty d p @ enc as" "enc (as @ bs) = enc as @ enc bs"
  by (simp_all add: enc_def)

lemma plain_simps [simp]: "plain [] = []" "plain ((ty, d, p) # as) = (ty, d) # plain as" "plain (as @ bs) = plain as @ plain bs"
  by (simp_all add: plain_def)

lemma padded_wf_simps [simp]: "padded_wf []" "padded_wf ((ty, d, p) # as) \<longleftrightarrow> attr_wf d p \<and> padded_wf as"
  "padded_wf (as @ bs) \<longleftrightarrow> padded_wf as \<and> padded_wf bs"
  by (simp_all add: padded_wf_def ball_Un)

lemma dvd_length_enc: "padded_wf as \<Longrightarrow> 4 dvd length (enc as)"
  by (induction as) (auto simp add: length_attr_bytes)

lemma to_int_id: "- (2 ^ 31) \<le> i \<Longrightarrow> i < 2 ^ 31 \<Longrightarrow> to_int i = i"
  unfolding to_int_def sint_sbintrunc' by (simp add: signed_take_bit_int_eq_self)

lemma attr_at:
  assumes "length xs = off" and "attr_wf d p"
  shows "nla_len off (xs @ attr_bytes ty d p @ zs) = Inr (alen d)" and "nla_type off (xs @ attr_bytes ty d p @ zs) = Inr ty"
    and "mnl_attr_next off (xs @ attr_bytes ty d p @ zs) = Inr (off + (4 + MNL_ALIGN (length d)))"
proof -
  show l: "nla_len off (xs @ attr_bytes ty d p @ zs) = Inr (alen d)"
    using read_stored(1) [OF assms(1), of "alen d"] by (simp add: nla_len_def attr_bytes_def)
  show "nla_type off (xs @ attr_bytes ty d p @ zs) = Inr ty"
    using read_stored(1) [of "xs @ store16 (alen d)" "off + 2" ty] assms(1) by (simp add: nla_type_def attr_bytes_def)
  have "unat (alen d) = 4 + length d" using assms(2) by (simp add: attr_wf_def alen_unat)
  then show "mnl_attr_next off (xs @ attr_bytes ty d p @ zs) = Inr (off + (4 + MNL_ALIGN (length d)))"
    using l by (simp add: mnl_attr_next_def)
qed

lemma attr_ok_at:
  assumes "length xs = off" and "attr_wf d p" and "4 + int (length d) \<le> len"
  shows "mnl_attr_ok off (xs @ attr_bytes ty d p @ zs) len = Inr True"
proof -
  have "unat (alen d) = 4 + length d" using assms(2) by (simp add: attr_wf_def alen_unat)
  then have "uint (alen d) = 4 + int (length d)" "4 \<le> alen d" by (simp_all add: uint_nat word_le_nat_alt)
  then show ?thesis using attr_at(1) [OF assms(1,2)] assms(3) by (simp add: mnl_attr_ok_def)
qed

lemma attr_loop_attrs:
  assumes "\<And>xs ty d p zs s. attr_wf d p \<Longrightarrow> Q ty d \<Longrightarrow> buf = xs @ attr_bytes ty d p @ zs \<Longrightarrow> cb (length xs) s = f (length xs, ty, d) s"
    and "padded_wf as \<and> (\<forall>(ty, d, p)\<in>set as. Q ty d)" and "buf = xs @ enc as @ zs" and "length (enc as) < 2 ^ 31"
  shows "attr_loop cb buf (length xs + length (enc as)) (length xs) ret s = attr_fold f (placed (length xs) as) ret s"
  using assms(2-4)
proof (induction as arbitrary: xs ret s)
  case Nil
  have "to_int 0 = 0" by (simp add: to_int_def)
  then show ?case by (subst attr_loop.simps) (simp add: mnl_attr_ok_def)
next
  case (Cons a as)
  obtain ty d p where a: "a = (ty, d, p)" by (cases a)
  have wf: "attr_wf d p" "padded_wf as \<and> (\<forall>(ty, d, p)\<in>set as. Q ty d)" "Q ty d" using Cons.prems(1) a by simp_all
  let ?xs' = "xs @ attr_bytes ty d p"
  have buf: "buf = xs @ attr_bytes ty d p @ (enc as @ zs)" "buf = ?xs' @ enc as @ zs" using Cons.prems(2) a by simp_all
  have len: "length (enc (a # as)) = 4 + MNL_ALIGN (length d) + length (enc as)" using a wf(1) by (simp add: length_attr_bytes)
  have stop: "length xs + length (enc (a # as)) = length ?xs' + length (enc as)" using a by simp
  have rem: "to_int (int (length xs + length (enc (a # as))) - int (length xs)) = 4 + int (MNL_ALIGN (length d)) + int (length (enc as))"
    using Cons.prems(3) unfolding len by (subst to_int_id) simp_all
  have "int (length d) \<le> int (MNL_ALIGN (length d))" using MNL_ALIGN_bounds(1) by simp
  then have ok: "mnl_attr_ok (length xs) buf (to_int (int (length xs + length (enc (a # as))) - int (length xs))) = Inr True"
    unfolding rem by (subst buf(1), intro attr_ok_at) (simp_all add: wf)
  have nxt: "mnl_attr_next (length xs) buf = Inr (length ?xs')"
    using attr_at(3) [of xs "length xs" d p ty "enc as @ zs"] wf(1) buf(1) by (simp add: length_attr_bytes)
  have ih: "attr_loop cb buf (length xs + length (enc (a # as))) (length ?xs') ret' s' = attr_fold f (placed (length ?xs') as) ret' s'" for ret' s'
    unfolding stop using Cons.prems(3) len by (intro Cons.IH wf(2) buf(2)) simp
  have pl: "placed (length xs) (a # as) = (length xs, ty, d) # placed (length ?xs') as"
    using wf(1) a by (simp add: length_attr_bytes add.assoc)
  have cb: "cb (length xs) s = f (length xs, ty, d) s" using wf(1,3) buf(1) by (rule assms(1))
  show ?case
  proof (cases "f (length xs, ty, d) s")
    case (Inl e)
    then show ?thesis by (subst attr_loop.simps) (simp only: ok bind_simps if_True cb, simp add: pl)
  next
    case (Inr r)
    obtain ret' s' where r: "r = (ret', s')" by (cases r)
    show ?thesis
      by (cases "ret' \<le> MNL_CB_STOP"; subst attr_loop.simps)
        (simp only: ok bind_simps if_True if_False cb Inr r prod.case nxt ih, simp add: pl Inr r)+
  qed
qed

lemma parse_message:
  assumes "\<And>xs ty d p zs s. attr_wf d p \<Longrightarrow> Q ty d \<Longrightarrow> message pre h (extra @ enc as) rest = xs @ attr_bytes ty d p @ zs \<Longrightarrow> cb (length xs) s = f (length xs, ty, d) s"
    and "nl_wf h (extra @ enc as)" and "padded_wf as \<and> (\<forall>(ty, d, p)\<in>set as. Q ty d)" and "length extra = MNL_ALIGN n"
  shows "mnl_attr_parse (length pre) n cb s (message pre h (extra @ enc as) rest) =
    attr_fold f (placed (length pre + 16 + MNL_ALIGN n) as) MNL_CB_OK s"
proof -
  let ?xs = "pre @ store32 (len_field (extra @ enc as)) @ h @ extra"
  have off: "mnl_nlmsg_get_payload_offset (length pre) n = length ?xs" "length pre + 16 + length (extra @ enc as) = length ?xs + length (enc as)"
    using assms(2,4) by (simp_all add: mnl_nlmsg_get_payload_offset_def MNL_NLMSG_HDRLEN_def nl_wf_def)
  have "message pre h (extra @ enc as) rest = ?xs @ enc as @ rest" by (simp add: message_def)
  moreover have "length (enc as) < 2 ^ 31" using assms(2) by (simp add: nl_wf_def)
  ultimately have "attr_loop cb (message pre h (extra @ enc as) rest) (length ?xs + length (enc as)) (length ?xs) MNL_CB_OK s =
      attr_fold f (placed (length ?xs) as) MNL_CB_OK s"
    using assms(3) by (intro attr_loop_attrs [where f = f and Q = Q] assms(1))
  moreover have "length ?xs = length pre + 16 + MNL_ALIGN n" using assms(2,4) by (simp add: nl_wf_def)
  ultimately show ?thesis unfolding mnl_attr_parse_def message_tail [OF assms(2)] bind_simps off by (simp only:)
qed

section \<open>What is put is what is read\<close>

text \<open>A sequence of attributes put one after the other, and the callback that collects them.\<close>

fun put_all :: "nat \<Rightarrow> (16 word \<times> mem) list \<Rightarrow> mem \<Rightarrow> mem result" where
  "put_all nlh [] buf = Inr buf"
| "put_all nlh ((ty, d) # as) buf = bind (mnl_attr_put nlh ty d buf) (put_all nlh as)"

definition collect :: "mem \<Rightarrow> (16 word \<times> mem) list attr_cb" where
  "collect buf attr s =
     bind (mnl_attr_get_type attr buf) (\<lambda>ty. bind (mnl_attr_get_payload_len attr buf) (\<lambda>l.
     bind (read_bytes (mnl_attr_get_payload attr) (unat l) buf) (\<lambda>d. Inr (MNL_CB_OK, s @ [(ty, d)]))))"

definition room :: "(16 word \<times> mem) list \<Rightarrow> nat" where
  "room as = (\<Sum>(ty, d)\<leftarrow>as. 4 + MNL_ALIGN (length d))"

lemma room_member: "(t, x) \<in> set as \<Longrightarrow> 4 + MNL_ALIGN (length x) \<le> room as"
  by (induction as) (auto simp add: room_def)

lemma length_enc: "padded_wf as \<Longrightarrow> length (enc as) = room (plain as)"
  by (induction as) (auto simp add: room_def length_attr_bytes)

lemma put_all_message:
  assumes "nl_wf h body" and "\<forall>(ty, d)\<in>set as. length d \<le> 65531" and "room as \<le> length rest" and "16 + length body + room as < 2 ^ 31"
  shows "\<exists>ps. plain ps = as \<and> padded_wf ps \<and>
    put_all (length pre) as (message pre h body rest) = Inr (message pre h (body @ enc ps) (drop (room as) rest))"
  using assms
proof (induction as arbitrary: body rest)
  case Nil
  then show ?case by (intro exI [of _ "[]"]) (simp add: room_def)
next
  case (Cons a as)
  obtain ty d where a: "a = (ty, d)" by (cases a)
  have d: "length d \<le> 65531" "room (a # as) = 4 + MNL_ALIGN (length d) + room as" using Cons.prems(2) a by (simp_all add: room_def)
  have fit: "4 + MNL_ALIGN (length d) \<le> length rest" using Cons.prems(3) d(2) by simp
  obtain p where p: "attr_wf d p" "mnl_attr_put (length pre) ty d (message pre h body rest) =
      Inr (message pre h (body @ attr_bytes ty d p) (drop (4 + MNL_ALIGN (length d)) rest))"
    using put_message [OF Cons.prems(1) d(1) fit] by blast
  have l: "length (attr_bytes ty d p) = 4 + MNL_ALIGN (length d)" using p(1) by (rule length_attr_bytes)
  have "nl_wf h (body @ attr_bytes ty d p)" using Cons.prems(1,4) d(2) l by (simp add: nl_wf_def)
  moreover have "\<forall>(ty, d)\<in>set as. length d \<le> 65531" using Cons.prems(2) by simp
  moreover have "room as \<le> length (drop (4 + MNL_ALIGN (length d)) rest)" using Cons.prems(3) d(2) by simp
  moreover have "16 + length (body @ attr_bytes ty d p) + room as < 2 ^ 31" using Cons.prems(4) d(2) l by simp
  ultimately obtain ps where ps: "plain ps = as" "padded_wf ps"
    "put_all (length pre) as (message pre h (body @ attr_bytes ty d p) (drop (4 + MNL_ALIGN (length d)) rest)) =
      Inr (message pre h ((body @ attr_bytes ty d p) @ enc ps) (drop (room as) (drop (4 + MNL_ALIGN (length d)) rest)))"
    using Cons.IH by blast
  then show ?case using p d(2) a by (intro exI [of _ "(ty, d, p) # ps"]) (simp add: add.commute)
qed

lemma collect_at:
  assumes "attr_wf d p" and "buf = xs @ attr_bytes ty d p @ zs"
  shows "collect buf (length xs) s = Inr (MNL_CB_OK, s @ [(ty AND NLA_TYPE_MASK, d)])"
proof -
  note at = attr_at [of xs "length xs", OF refl assms(1), of ty zs, folded assms(2)]
  have "unat (alen d - 4) = length d"
    using assms(1) alen_unat [of d] by (simp add: attr_wf_def unat_sub word_le_nat_alt)
  moreover have "read_bytes (length xs + 4) (length d) buf = Inr d"
    using read_stored(3) [of "xs @ store16 (alen d) @ store16 ty" "length xs + 4" d "length d" "p @ zs"] assms(2) by (simp add: attr_bytes_def)
  ultimately show ?thesis
    using at by (simp add: collect_def mnl_attr_get_type_def mnl_attr_get_payload_len_def mnl_attr_get_payload_def MNL_ATTR_HDRLEN_def)
qed

lemma collect_fold:
  "attr_fold (\<lambda>(off, ty, d) s. Inr (MNL_CB_OK, s @ [(ty AND NLA_TYPE_MASK, d)])) (placed k as) MNL_CB_OK s =
    Inr (MNL_CB_OK, s @ map (\<lambda>(ty, d). (ty AND NLA_TYPE_MASK, d)) (plain as))"
  by (induction k as arbitrary: s rule: placed.induct) (auto simp add: MNL_CB_OK_def MNL_CB_STOP_def)

text \<open>What is built at an offset of a buffer.\<close>

lemma build_message:
  assumes "\<forall>(ty, d)\<in>set as. length d \<le> 65531" and "nlh + 16 + MNL_ALIGN n + room as \<le> length buf" and "16 + MNL_ALIGN n + room as < 2 ^ 31"
  shows "\<exists>buf1 buf2 buf3 extra ps rest. mnl_nlmsg_put_header nlh buf = Inr buf1 \<and> mnl_nlmsg_put_extra_header nlh n buf1 = Inr (nlh + 16, buf2) \<and>
    put_all nlh as buf2 = Inr buf3 \<and> length buf3 = length buf \<and> buf3 = message (take nlh buf) (replicate 12 0) (extra @ enc ps) rest \<and>
    plain ps = as \<and> padded_wf ps \<and> length extra = MNL_ALIGN n \<and> take n extra = replicate n 0 \<and> nl_wf (replicate 12 0) (extra @ enc ps)"
proof -
  define pre where "pre = take nlh buf"
  define space where "space = drop nlh buf"
  have nlh: "length pre = nlh" and buf: "buf = pre @ space" and space: "16 + MNL_ALIGN n + room as \<le> length space"
    using assms(2) by (simp_all add: pre_def space_def)
  let ?h = "replicate 12 (0 :: 8 word)"
  have 1: "mnl_nlmsg_put_header nlh buf = Inr (message pre ?h [] (drop 16 space))"
    unfolding buf using put_header_message [of space pre] space nlh by simp
  have wf: "nl_wf ?h []" by (simp add: nl_wf_def)
  define extra where "extra = replicate n 0 @ take (MNL_ALIGN n - n) (drop n (drop 16 space))"
  have extra: "length extra = MNL_ALIGN n" "take n extra = replicate n 0" using space MNL_ALIGN_bounds(1) [of n] by (simp_all add: extra_def)
  have 2: "mnl_nlmsg_put_extra_header nlh n (message pre ?h [] (drop 16 space)) = Inr (nlh + 16, message pre ?h extra (drop (MNL_ALIGN n) (drop 16 space)))"
    using put_extra_message [OF wf, of n "drop 16 space" pre] space nlh by (simp add: extra_def)
  have wf2: "nl_wf ?h extra" using assms(3) extra(1) by (simp add: nl_wf_def)
  have "room as \<le> length (drop (MNL_ALIGN n) (drop 16 space))" "16 + length extra + room as < 2 ^ 31" using space assms(3) extra(1) by simp_all
  from put_all_message [OF wf2 assms(1) this, of pre]
  obtain ps where ps: "plain ps = as" "padded_wf ps" "put_all nlh as (message pre ?h extra (drop (MNL_ALIGN n) (drop 16 space))) =
      Inr (message pre ?h (extra @ enc ps) (drop (room as) (drop (MNL_ALIGN n) (drop 16 space))))"
    unfolding nlh by blast
  have len: "length (enc ps) = room as" using length_enc [OF ps(2)] ps(1) by simp
  have wf3: "nl_wf ?h (extra @ enc ps)" using dvd_length_enc [OF ps(2)] assms(3) extra(1) len by (simp add: nl_wf_def)
  have "length (message pre ?h (extra @ enc ps) (drop (room as) (drop (MNL_ALIGN n) (drop 16 space)))) = length buf"
    using space extra(1) len by (simp add: message_def buf)
  with 1 2 ps extra wf3 show ?thesis unfolding pre_def by blast
qed

lemma message_ok:
  assumes "nl_wf h body"
  shows "mnl_nlmsg_ok (length pre) (message pre h body rest) (len_field body) = Inr True"
proof -
  have u: "unat (len_field body) = 16 + length body" by (rule nl_wf_unat [OF assms])
  have "sint (len_field body) = int (16 + length body)"
    using assms u by (simp add: nl_wf_def sint_uint uint_nat signed_take_bit_int_eq_self_iff)
  then show ?thesis using u by (simp add: mnl_nlmsg_ok_def message_len word_le_nat_alt)
qed

text \<open>C17: A message that is built in a buffer with room for it, with an extra header and one
  attribute after the other, passes the check for messages, leaves what precedes it alone, and going through its attributes
  gives back the types and the data that were put, in their order.\<close>

theorem attributes_round_trip:
  assumes "\<forall>(ty, d)\<in>set as. ty AND NLA_TYPE_MASK = ty \<and> length d \<le> 65531" and "nlh + 16 + MNL_ALIGN n + room as \<le> length buf"
    and "16 + MNL_ALIGN n + room as < 2 ^ 31"
  shows "\<exists>buf1 buf2 buf3. mnl_nlmsg_put_header nlh buf = Inr buf1 \<and> mnl_nlmsg_put_extra_header nlh n buf1 = Inr (nlh + 16, buf2) \<and>
    put_all nlh as buf2 = Inr buf3 \<and> length buf3 = length buf \<and> take nlh buf3 = take nlh buf \<and>
    mnl_nlmsg_ok nlh buf3 (word_of_nat (16 + MNL_ALIGN n + room as)) = Inr True \<and>
    mnl_attr_parse nlh n (collect buf3) [] buf3 = Inr (MNL_CB_OK, as)"
proof -
  have "\<forall>(ty, d)\<in>set as. length d \<le> 65531" using assms(1) by auto
  from build_message [OF this assms(2,3)] obtain buf1 buf2 buf3 extra ps rest where
    b: "mnl_nlmsg_put_header nlh buf = Inr buf1" "mnl_nlmsg_put_extra_header nlh n buf1 = Inr (nlh + 16, buf2)"
    "put_all nlh as buf2 = Inr buf3" "length buf3 = length buf"
    and buf3: "buf3 = message (take nlh buf) (replicate 12 0) (extra @ enc ps) rest"
    and ps: "plain ps = as" "padded_wf ps" "length extra = MNL_ALIGN n" "nl_wf (replicate 12 0) (extra @ enc ps)"
    by metis
  have nlh: "length (take nlh buf) = nlh" using assms(2) by simp
  have same: "map (\<lambda>(ty, d). (ty AND NLA_TYPE_MASK, d)) as = as"
    using assms(1) by (intro map_idI) auto
  have "mnl_attr_parse nlh n (collect buf3) [] buf3 = attr_fold (\<lambda>(off, ty, d) s. Inr (MNL_CB_OK, s @ [(ty AND NLA_TYPE_MASK, d)])) (placed (nlh + 16 + MNL_ALIGN n) ps) MNL_CB_OK []"
    using parse_message [of "\<lambda>_ _. True" "take nlh buf" "replicate 12 0" extra ps rest "collect buf3", OF _ ps(4) _ ps(3)] ps(2) collect_at [of _ _ buf3] nlh buf3
    by simp
  then have "mnl_attr_parse nlh n (collect buf3) [] buf3 = Inr (MNL_CB_OK, as)" using ps(1) same by (simp add: collect_fold)
  moreover have "mnl_nlmsg_ok nlh buf3 (word_of_nat (16 + MNL_ALIGN n + room as)) = Inr True"
    using message_ok [OF ps(4), of "take nlh buf" rest] nlh buf3 ps(1,3) length_enc [OF ps(2)] by (simp add: len_field_def add.assoc)
  moreover have "take nlh buf3 = take nlh buf" using nlh unfolding buf3 message_def by simp
  ultimately show ?thesis using b by blast
qed

theorem attributes_round_trip_witness:
  "\<exists>buf1 buf2 buf3. mnl_nlmsg_put_header 8 (replicate 64 7) = Inr buf1 \<and> mnl_nlmsg_put_extra_header 8 12 buf1 = Inr (24, buf2) \<and>
    put_all 8 [(4, [1, 0, 0, 0]), (1, [9, 9, 9])] buf2 = Inr buf3 \<and>
    mnl_attr_parse 8 12 (collect buf3) [] buf3 = Inr (MNL_CB_OK, [(4, [1, 0, 0, 0]), (1, [9, 9, 9])])"
  using attributes_round_trip [of "[(4, [1, 0, 0, 0]), (1, [9, 9, 9])]" 8 12 "replicate 64 7"]
  by (auto simp add: NLA_TYPE_MASK_def MNL_ALIGN_def room_def)

section \<open>Nested attributes\<close>

lemma nest_start_message:
  assumes "nl_wf h body" and "4 \<le> length rest"
  shows "mnl_attr_nest_start (length pre) ty (message pre h body rest) =
    Inr (length pre + 16 + length body, message pre h (body @ take 2 rest @ store16 (NLA_F_NESTED OR ty)) (drop 4 rest))"
proof -
  let ?off = "length pre + 16 + length body" and ?t = "store16 (NLA_F_NESTED OR ty)"
  have w: "write_at (?off + 2) ?t (message pre h body rest) = Inr (message pre h body ((take 2 rest @ ?t) @ drop 4 rest))"
    using write_rest [OF assms(1), of 2 ?t rest "?off + 2" pre] assms(2) by simp
  have l: "length (take 2 rest @ ?t) = 4" using assms(2) by simp
  have "(4 :: 32 word) = word_of_nat 4" by simp
  then show ?thesis
    using w grow_message [OF l, of pre body h "drop 4 rest"] by (simp add: mnl_attr_nest_start_def message_tail [OF assms(1)] message_len)
qed

lemma nest_end_message:
  assumes "nl_wf h (body @ j @ ty @ inner)" and "length j = 2" and "length ty = 2"
  shows "mnl_attr_nest_end (length pre) (length pre + 16 + length body) (message pre h (body @ j @ ty @ inner) rest) =
    Inr (message pre h (body @ store16 (alen inner) @ ty @ inner) rest)"
proof -
  let ?start = "length pre + 16 + length body"
  have t: "int (length pre + 16 + length (body @ j @ ty @ inner)) - int ?start = int (4 + length inner)" using assms(2,3) by simp
  have lf: "len_field (body @ j @ ty @ inner) = len_field (body @ store16 (alen inner) @ ty @ inner)"
    using assms(2) by (intro len_field_cong) simp
  have xs: "length (pre @ store32 (len_field (body @ store16 (alen inner) @ ty @ inner)) @ h @ body) = ?start" using assms(1) by (simp add: nl_wf_def)
  have "write_at ?start (store16 (alen inner)) (message pre h (body @ j @ ty @ inner) rest) =
      Inr (message pre h (body @ store16 (alen inner) @ ty @ inner) rest)"
    unfolding message_def lf using write_at_same [OF xs, of j "store16 (alen inner)" "ty @ inner @ rest"] assms(2) by simp
  then show ?thesis
    unfolding mnl_attr_nest_end_def message_tail [OF assms(1)] bind_simps t by (simp add: alen_def)
qed

lemma parse_nested_at:
  assumes "buf = xs @ attr_bytes ty (enc ps) [] @ zs" and "padded_wf ps" and "length (enc ps) \<le> 65531"
  shows "mnl_attr_parse_nested (length xs) (collect buf) [] buf = Inr (MNL_CB_OK, map (\<lambda>(ty, d). (ty AND NLA_TYPE_MASK, d)) (plain ps))"
proof -
  have wf: "attr_wf (enc ps) []" using dvd_length_enc [OF assms(2)] assms(3) by (simp add: attr_wf_def MNL_ALIGN_id)
  note at = attr_at [of xs "length xs", OF refl wf, of ty zs, folded assms(1)]
  let ?xs = "xs @ store16 (alen (enc ps)) @ store16 ty"
  have "unat (alen (enc ps) - 4) = length (enc ps)"
    using alen_unat [OF assms(3)] by (simp add: unat_sub word_le_nat_alt)
  then have "mnl_attr_parse_nested (length xs) (collect buf) [] buf =
      attr_loop (collect buf) buf (length ?xs + length (enc ps)) (length ?xs) MNL_CB_OK []"
    using at by (simp add: mnl_attr_parse_nested_def mnl_attr_get_payload_len_def mnl_attr_get_payload_def MNL_ATTR_HDRLEN_def)
  also have "\<dots> = attr_fold (\<lambda>(off, ty, d) s. Inr (MNL_CB_OK, s @ [(ty AND NLA_TYPE_MASK, d)])) (placed (length ?xs) ps) MNL_CB_OK []"
    by (intro attr_loop_attrs [where Q = "\<lambda>_ _. True"]) (use assms(2) collect_at [of _ _ buf] assms(1,3) in \<open>simp_all add: attr_bytes_def\<close>)
  finally show ?thesis by (simp add: collect_fold)
qed

text \<open>Attributes put between the start and the end of a nest in a message become the payload of
  one attribute with the nesting flag behind the others, and going through that nest gives back what was put into it.\<close>

theorem nested_attributes_round_trip:
  assumes "nl_wf h body" and "\<forall>(ty, d)\<in>set as. ty AND NLA_TYPE_MASK = ty" and "4 + room as \<le> length rest" and "room as \<le> 65531"
    and "20 + length body + room as < 2 ^ 31"
  shows "\<exists>start buf1 buf2 inner. mnl_attr_nest_start (length pre) ty (message pre h body rest) = Inr (start, buf1) \<and>
    put_all (length pre) as buf1 = Inr buf2 \<and>
    mnl_attr_nest_end (length pre) start buf2 = Inr (message pre h (body @ attr_bytes (NLA_F_NESTED OR ty) inner []) (drop (4 + room as) rest)) \<and>
    mnl_attr_parse_nested start (collect (message pre h (body @ attr_bytes (NLA_F_NESTED OR ty) inner []) (drop (4 + room as) rest))) []
      (message pre h (body @ attr_bytes (NLA_F_NESTED OR ty) inner []) (drop (4 + room as) rest)) = Inr (MNL_CB_OK, as)"
proof -
  have d: "\<forall>(ty, d)\<in>set as. length d \<le> 65531"
  proof (clarify)
    fix t x assume "(t, x) \<in> set as"
    then have "4 + MNL_ALIGN (length x) \<le> room as" by (rule room_member)
    with assms(4) MNL_ALIGN_bounds(1) [of "length x"] show "length x \<le> 65531" by linarith
  qed
  let ?t = "store16 (NLA_F_NESTED OR ty)" and ?start = "length pre + 16 + length body"
  let ?b1 = "body @ take 2 rest @ ?t"
  have 1: "mnl_attr_nest_start (length pre) ty (message pre h body rest) = Inr (?start, message pre h ?b1 (drop 4 rest))"
    using assms(1,3) by (intro nest_start_message) simp_all
  have wf1: "nl_wf h ?b1" using assms(1,3,5) by (simp add: nl_wf_def)
  have "room as \<le> length (drop 4 rest)" "16 + length ?b1 + room as < 2 ^ 31" using assms(3,5) by simp_all
  from put_all_message [OF wf1 d this, of pre] obtain ps where ps: "plain ps = as" "padded_wf ps"
    "put_all (length pre) as (message pre h ?b1 (drop 4 rest)) = Inr (message pre h (?b1 @ enc ps) (drop (room as) (drop 4 rest)))"
    by blast
  have len: "length (enc ps) = room as" using length_enc [OF ps(2)] ps(1) by simp
  have "length (body @ take 2 rest @ ?t @ enc ps) = length body + 4 + room as" using assms(3) len by simp
  moreover have "4 dvd length body + 4 + room as" using assms(1) dvd_length_enc [OF ps(2)] len by (simp add: nl_wf_def)
  ultimately have wf2: "nl_wf h (body @ take 2 rest @ ?t @ enc ps)" using assms(1,5) by (simp only: nl_wf_def) simp
  let ?B = "message pre h (body @ attr_bytes (NLA_F_NESTED OR ty) (enc ps) []) (drop (4 + room as) rest)"
  have 2: "mnl_attr_nest_end (length pre) ?start (message pre h (?b1 @ enc ps) (drop (room as) (drop 4 rest))) = Inr ?B"
    using nest_end_message [OF wf2, of pre "drop (4 + room as) rest"] assms(3) by (simp add: attr_bytes_def add.commute)
  let ?xs = "pre @ store32 (len_field (body @ attr_bytes (NLA_F_NESTED OR ty) (enc ps) [])) @ h @ body"
  have "?B = ?xs @ attr_bytes (NLA_F_NESTED OR ty) (enc ps) [] @ drop (4 + room as) rest" by (simp add: message_def)
  from parse_nested_at [OF this ps(2)] assms(4) len
  have "mnl_attr_parse_nested (length ?xs) (collect ?B) [] ?B = Inr (MNL_CB_OK, map (\<lambda>(ty, d). (ty AND NLA_TYPE_MASK, d)) as)" using ps(1) by simp
  moreover have "map (\<lambda>(ty, d). (ty AND NLA_TYPE_MASK, d)) as = as" using assms(2) by (intro map_idI) auto
  moreover have "length ?xs = ?start" using assms(1) by (simp add: nl_wf_def)
  ultimately have "mnl_attr_parse_nested ?start (collect ?B) [] ?B = Inr (MNL_CB_OK, as)" by (simp only:)
  with 1 ps(3) 2 show ?thesis by blast
qed

theorem nested_attributes_round_trip_witness:
  "\<exists>start buf1 buf2 buf3. mnl_attr_nest_start 0 8 (message [] (replicate 12 0) [] (replicate 32 7)) = Inr (start, buf1) \<and>
     put_all 0 [(2, [1, 2, 3, 4])] buf1 = Inr buf2 \<and> mnl_attr_nest_end 0 start buf2 = Inr buf3 \<and>
     mnl_attr_parse_nested start (collect buf3) [] buf3 = Inr (MNL_CB_OK, [(2, [1, 2, 3, 4])])"
  using nested_attributes_round_trip [of "replicate 12 0" "[]" "[(2, [1, 2, 3, 4])]" "replicate 32 7" "[]" 8]
  by (auto simp add: nl_wf_def NLA_TYPE_MASK_def MNL_ALIGN_def room_def)

section \<open>The checked variants\<close>

text \<open>An attribute of at most 65531 bytes is added by the checked variant exactly when the message with it ends
  within the limit given, and otherwise nothing changes; no byte behind the limit is touched.\<close>

theorem put_check_stays_inside:
  assumes "nl_wf h body" and "length d \<le> 65531" and "buflen \<le> 16 + length body + length rest" and "buflen < 2 ^ 31"
  shows "if 20 + length body + MNL_ALIGN (length d) \<le> buflen
    then \<exists>p. attr_wf d p \<and> nl_wf h (body @ attr_bytes ty d p) \<and> mnl_attr_put_check (length pre) buflen ty d (message pre h body rest) =
      Inr (True, message pre h (body @ attr_bytes ty d p) (drop (4 + MNL_ALIGN (length d)) rest))
    else mnl_attr_put_check (length pre) buflen ty d (message pre h body rest) = Inr (False, message pre h body rest)"
proof -
  have u: "unat (len_field body) + 4 + MNL_ALIGN (length d) = 20 + length body + MNL_ALIGN (length d)" using nl_wf_unat [OF assms(1)] by simp
  show ?thesis
  proof (cases "20 + length body + MNL_ALIGN (length d) \<le> buflen")
    case True
    then have "4 + MNL_ALIGN (length d) \<le> length rest" using assms(3) by simp
    from put_message [OF assms(1,2) this] obtain p where p: "attr_wf d p" "mnl_attr_put (length pre) ty d (message pre h body rest) =
        Inr (message pre h (body @ attr_bytes ty d p) (drop (4 + MNL_ALIGN (length d)) rest))" by blast
    moreover have "nl_wf h (body @ attr_bytes ty d p)" using assms(1,4) True length_attr_bytes [OF p(1)] by (simp add: nl_wf_def)
    ultimately show ?thesis using True u by (auto simp add: mnl_attr_put_check_def message_len MNL_ATTR_HDRLEN_def)
  next
    case False
    then show ?thesis using u by (simp add: mnl_attr_put_check_def message_len MNL_ATTR_HDRLEN_def)
  qed
qed

theorem put_check_stays_inside_witness:
  "(\<exists>buf. mnl_attr_put_check 0 24 1 [5, 6] (message [] (replicate 12 0) [] (replicate 16 7)) = Inr (True, buf)) \<and>
   mnl_attr_put_check 0 23 1 [5, 6] (message [] (replicate 12 0) [] (replicate 16 7)) = Inr (False, message [] (replicate 12 0) [] (replicate 16 7))"
  using put_check_stays_inside [of "replicate 12 0" "[]" "[5, 6]" 24 "replicate 16 7" 1 "[]"]
    put_check_stays_inside [of "replicate 12 0" "[]" "[5, 6]" 23 "replicate 16 7" 1 "[]"]
  by (auto simp add: nl_wf_def MNL_ALIGN_def)

end
