(* ===== verification/Netlink_Walk.thy ===== *)
theory Netlink_Walk
  imports Netlink_Correct Netlink_Run
begin

text \<open>
  Properties of the walk through received messages: when it returns and when it does not, what it makes of a datagram of
  well-formed messages, and that batches lose no message.
\<close>

section \<open>Does the walk return?\<close>

lemma nlmsg_ok_bounds:
  assumes "mnl_nlmsg_ok nlh buf len = Inr True"
  obtains l where "nlmsg_len nlh buf = Inr l" and "16 \<le> l" and "sint l \<le> sint len" and "nlh + 4 \<le> length buf"
  using assms by (auto simp add: mnl_nlmsg_ok_def nlmsg_len_def read32_def split: if_splits)

lemma MNL_ALIGN32_grows:
  assumes "16 \<le> l" and "l \<le> 0xFFFFFFFC"
  shows "16 \<le> unat (MNL_ALIGN32 l)"
proof -
  have "16 \<le> unat l" "unat l \<le> unat (0xFFFFFFFC :: 32 word)" using assms by (simp_all add: word_le_nat_alt)
  then have "16 \<le> unat l" "unat l + 3 < 2 ^ 32" by simp_all
  then show ?thesis using unat_MNL_ALIGN32 [of l] MNL_ALIGN_bounds(1) [of "unat l"] by linarith
qed

lemma cb_loop_returns:
  assumes "\<And>off l. nlmsg_len off buf = Inr l \<Longrightarrow> l \<le> 0xFFFFFFFC"
  shows "\<exists>r. cb_loop step buf nlh len ret s = Some r"
proof (induction "length buf - nlh" arbitrary: nlh len ret s rule: less_induct)
  case less
  show ?case
  proof (cases "mnl_nlmsg_ok nlh buf len = Inr True")
    case True
    then obtain l where l: "nlmsg_len nlh buf = Inr l" "16 \<le> l" "nlh + 4 \<le> length buf" by (rule nlmsg_ok_bounds)
    have "16 \<le> unat (MNL_ALIGN32 l)" using l(2) assms [OF l(1)] by (rule MNL_ALIGN32_grows)
    then have "length buf - (nlh + unat (MNL_ALIGN32 l)) < length buf - nlh" using l(3) by simp
    then have "\<exists>r. cb_loop step buf (nlh + unat (MNL_ALIGN32 l)) len' ret' s' = Some r" for len' ret' s'
      by (rule less.hyps)
    then show ?thesis using True l(1) by (subst cb_loop.simps) (auto simp add: mnl_nlmsg_next_def split: sum.splits)
  next
    case False
    then show ?thesis by (subst cb_loop.simps) (auto split: sum.splits)
  qed
qed

lemma cb_loop_hangs:
  assumes "mnl_nlmsg_ok nlh buf len = Inr True" and "nlmsg_len nlh buf = Inr l" and "MNL_ALIGN32 l = 0"
    and "\<And>ret s. P ret s \<Longrightarrow> \<exists>ret' s'. step nlh ret s = Inr (False, ret', s') \<and> P ret' s'" and "P ret s"
  shows "cb_loop step buf nlh len ret s = None"
proof -
  have "step = step \<and> buf = buf \<and> nlh = nlh \<and> len = len \<and> P ret s \<longrightarrow> False" if "cb_loop step buf nlh len ret s = Some y" for y
  proof (rule cb_loop.raw_induct [OF _ that, where P = "\<lambda>stp b n ln r0 s0 _. stp = step \<and> b = buf \<and> n = nlh \<and> ln = len \<and> P r0 s0 \<longrightarrow> False"], rule impI)
    fix rec stp b n ln r0 s0 y
    assume ih: "\<And>stp b n ln r0 s0 y. rec stp b n ln r0 s0 = Some y \<Longrightarrow> stp = step \<and> b = buf \<and> n = nlh \<and> ln = len \<and> P r0 s0 \<longrightarrow> False"
      and body: "(case mnl_nlmsg_ok n b ln of Inl e \<Rightarrow> Some (Inl e)
        | Inr ok \<Rightarrow> if \<not> ok then Some (Inr (r0, s0))
          else case stp n r0 s0 of Inl e \<Rightarrow> Some (Inl e)
          | Inr r \<Rightarrow> if fst r then Some (Inr (snd r))
            else case mnl_nlmsg_next n b ln of Inl e \<Rightarrow> Some (Inl e)
            | Inr nx \<Rightarrow> rec stp b (fst nx) (snd nx) (fst (snd r)) (snd (snd r))) = Some y"
      and n: "stp = step \<and> b = buf \<and> n = nlh \<and> ln = len \<and> P r0 s0"
    then obtain r1 s1 where "step nlh r0 s0 = Inr (False, r1, s1)" "P r1 s1" using assms(4) by blast
    then have "rec step buf nlh len r1 s1 = Some y" using body n assms(1-3) by (simp add: mnl_nlmsg_next_def)
    from ih [OF this] \<open>P r1 s1\<close> show False by simp
  qed
  then show ?thesis using assms(5) by (cases "cb_loop step buf nlh len ret s") auto
qed

text \<open>Whatever the callbacks do, the walk through a received buffer returns, unless four of its bytes read as one of the
  three largest lengths.\<close>

theorem cb_run_returns:
  assumes "\<forall>off l. nlmsg_len off buf = Inr l \<longrightarrow> l \<le> 0xFFFFFFFC"
  shows "\<exists>r. mnl_cb_run2 buf numbytes seq portid cb_data s ctl ctl_len = Some r"
  unfolding mnl_cb_run2_def using assms by (intro cb_loop_returns) blast

definition sample_noop :: mem where
  "sample_noop = store32 16 @ store16 1 @ replicate 10 0"

theorem cb_run_returns_witness:
  "\<exists>r. mnl_cb_run2 sample_noop 16 0 0 (None :: nat nl_cb option) 0 (\<lambda>_. None) 0 = Some r"
proof -
  have "list_all (\<lambda>off. le32 sample_noop off \<le> 0xFFFFFFFC) [0..<13]" by code_simp
  then have "\<forall>off<13. le32 sample_noop off \<le> 0xFFFFFFFC" by (simp add: list_all_iff)
  then have "\<forall>off l. nlmsg_len off sample_noop = Inr l \<longrightarrow> l \<le> 0xFFFFFFFC"
    by (auto simp add: nlmsg_len_def read32_def sample_noop_def split: if_splits)
  then show ?thesis by (rule cb_run_returns)
qed

text \<open>A message whose length is one of those three is taken to be well formed, since as an \<open>int\<close> it is negative; its
  aligned length is 0, and the walk stays at it for ever: an empty message of no effect is enough.\<close>

theorem cb_run_hangs:
  assumes "nlmsg_len 0 buf = Inr l" and "l > 0xFFFFFFFC" and "nlmsg_type 0 buf = Inr (word_of_nat NLMSG_NOOP)"
    and "nlmsg_pid 0 buf = Inr 0" and "nlmsg_seq 0 buf = Inr 0" and "16 \<le> n" and "n < 2 ^ 31"
  shows "mnl_cb_run buf n seq portid cb_data s = None"
proof -
  have l: "l = 0xFFFFFFFD \<or> l = 0xFFFFFFFE \<or> l = 0xFFFFFFFF"
  proof -
    have "unat l < 2 ^ 32" by (rule order_less_le_trans [OF unsigned_less]) simp
    moreover have "unat (0xFFFFFFFC :: 32 word) < unat l" using assms(2) by (simp only: word_less_nat_alt)
    ultimately have "unat l = unat (0xFFFFFFFD :: 32 word) \<or> unat l = unat (0xFFFFFFFE :: 32 word) \<or> unat l = unat (0xFFFFFFFF :: 32 word)" by simp linarith
    then show ?thesis by (simp only: word_unat_eq_iff [symmetric])
  qed
  have "sint (word_of_nat n :: 32 word) = int n" using assms(7) by (simp add: sint_uint uint_nat unsigned_of_nat take_bit_nat_eq_self signed_take_bit_int_eq_self_iff)
  moreover have "sint l < 0" "16 \<le> l" and al: "MNL_ALIGN32 l = 0" using l by (auto simp add: MNL_ALIGN32_def)
  ultimately have "mnl_nlmsg_ok 0 buf (word_of_nat n) = Inr True" using assms(1,6) by (simp add: mnl_nlmsg_ok_def)
  moreover have "\<exists>ret' s'. cb_step buf seq portid cb_data (\<lambda>_. None) 0 0 ret s = Inr (False, ret', s') \<and> True" for ret s
    using assms(3-5)
    by (simp add: cb_step_def mnl_nlmsg_portid_ok_def mnl_nlmsg_seq_ok_def default_cb_array_def NLMSG_NOOP_def NLMSG_MIN_TYPE_def mnl_cb_noop_def
        MNL_CB_OK_def MNL_CB_STOP_def)
  ultimately show ?thesis
    unfolding mnl_cb_run_def mnl_cb_run2_def by (rule cb_loop_hangs [OF _ assms(1) al, where P = "\<lambda>_ _. True"]) simp
qed

theorem cb_run_hangs_witness:
  "mnl_cb_run (store32 0xFFFFFFFF @ store16 1 @ replicate 10 0) 16 7 9 (None :: nat nl_cb option) 0 = None"
proof -
  let ?b = "store32 0xFFFFFFFF @ store16 1 @ replicate 10 (0 :: 8 word)"
  have l: "nlmsg_len 0 ?b = Inr 0xFFFFFFFF" unfolding nlmsg_len_def using read_stored(2) [of "[]" 0] by simp
  have f: "nlmsg_type 0 ?b = Inr (word_of_nat NLMSG_NOOP)" "nlmsg_pid 0 ?b = Inr 0" "nlmsg_seq 0 ?b = Inr 0" by code_simp+
  have "(0xFFFFFFFF :: 32 word) > 0xFFFFFFFC" by code_simp
  from l this f show ?thesis by (rule cb_run_hangs) simp_all
qed

section \<open>Datagrams of well-formed messages\<close>

text \<open>Messages one after the other, and the walk seen from what they say; \<open>e\<close> gives the header and the body of each.\<close>

definition dgram :: "(mem \<times> mem) list \<Rightarrow> mem" where
  "dgram ms = concat (map (\<lambda>(h, b). store32 (len_field b) @ h @ b) ms)"

fun run_fold :: "('m \<Rightarrow> int \<Rightarrow> 's \<Rightarrow> (bool \<times> int \<times> 's) result) \<Rightarrow> 'm list \<Rightarrow> int \<Rightarrow> 's \<Rightarrow> (int \<times> 's) result" where
  "run_fold f [] ret s = Inr (ret, s)"
| "run_fold f (m # ms) ret s = bind (f m ret s) (\<lambda>(fin, ret, s). if fin then Inr (ret, s) else run_fold f ms ret s)"

lemma dgram_simps [simp]: "dgram [] = []" "dgram ((h, b) # ms) = store32 (len_field b) @ h @ b @ dgram ms"
  by (simp_all add: dgram_def)

lemma cb_loop_messages:
  assumes "\<And>xs m zs ret s. P m \<Longrightarrow> buf = message xs (fst (e m)) (snd (e m)) zs \<Longrightarrow> step (length xs) ret s = f m ret s"
    and "\<forall>m\<in>set ms. P m \<and> nl_wf (fst (e m)) (snd (e m))" and "buf = xs @ dgram (map e ms) @ zs" and "length (dgram (map e ms)) < 2 ^ 31"
  shows "cb_loop step buf (length xs) (word_of_nat (length (dgram (map e ms)))) ret s = Some (run_fold f ms ret s)"
  using assms(2-4)
proof (induction ms arbitrary: xs ret s)
  case Nil
  then show ?case by (subst cb_loop.simps) (simp add: mnl_nlmsg_ok_def)
next
  case (Cons m ms)
  obtain h b where m: "e m = (h, b)" by (cases "e m")
  have wf: "nl_wf h b" "P m" using Cons.prems(1) m by auto
  have buf: "buf = message xs h b (dgram (map e ms) @ zs)" using Cons.prems(2) m by (simp add: message_def)
  let ?len = "word_of_nat (length (dgram (map e (m # ms)))) :: 32 word"
  let ?xs = "xs @ store32 (len_field b) @ h @ b"
  have h: "length h = 12" using wf by (simp add: nl_wf_def)
  have u: "unat (len_field b) = 16 + length b" by (rule nl_wf_unat [OF wf(1)])
  have total: "length (dgram (map e (m # ms))) = 16 + length b + length (dgram (map e ms))" using m h by simp
  have al: "MNL_ALIGN32 (len_field b) = word_of_nat (16 + length b)"
  proof -
    have "unat (MNL_ALIGN32 (len_field b)) = 16 + length b"
      using wf u unat_MNL_ALIGN32 [of "len_field b"] by (simp add: nl_wf_def MNL_ALIGN_id)
    then show ?thesis using wf by (simp only: word_eq_iff_unsigned [where ?'a = nat] unsigned_of_nat) (simp add: nl_wf_def take_bit_nat_eq_self)
  qed
  have "sint ?len = int (length (dgram (map e (m # ms))))"
    using Cons.prems(3) by (simp only: sint_uint uint_nat unsigned_of_nat) (simp add: take_bit_nat_eq_self signed_take_bit_int_eq_self_iff)
  moreover have "sint (len_field b) = int (16 + length b)"
    using wf u by (simp add: nl_wf_def sint_uint uint_nat signed_take_bit_int_eq_self_iff)
  ultimately have ok: "mnl_nlmsg_ok (length xs) buf ?len = Inr True"
    using total u unfolding buf by (simp add: mnl_nlmsg_ok_def message_len word_le_nat_alt)
  have nx: "mnl_nlmsg_next (length xs) buf ?len = Inr (length ?xs, word_of_nat (length (dgram (map e ms))))"
    using wf u h unat_MNL_ALIGN32 [of "len_field b"] unfolding buf
    by (simp add: mnl_nlmsg_next_def message_len al [symmetric] nl_wf_def MNL_ALIGN_id) (simp add: al m h)
  have ih: "cb_loop step buf (length ?xs) (word_of_nat (length (dgram (map e ms)))) ret' s' = Some (run_fold f ms ret' s')" for ret' s'
    using Cons.prems m by (intro Cons.IH) simp_all
  have st: "step (length xs) ret s = f m ret s" using wf(2) buf m by (intro assms(1)) simp_all
  show ?case
    using ok nx ih st m by (subst cb_loop.simps) (auto split: sum.split prod.split)
qed

section \<open>Batches\<close>

text \<open>The batch holds the messages, one after the other from the head of the buffer.\<close>

definition batch_holds :: "mem \<Rightarrow> mnl_nlmsg_batch \<Rightarrow> mem list \<Rightarrow> bool" where
  "batch_holds buf b ms \<longleftrightarrow> take (mnl_nlmsg_batch_size b) buf = concat ms \<and> mnl_nlmsg_batch_size b = length (concat ms) \<and>
     mnl_nlmsg_batch_current b = mnl_nlmsg_batch_size b \<and> \<not> b_overflow b"

lemma batch_starts_empty: "batch_holds buf (mnl_nlmsg_batch_start limit) []"
  by (simp add: batch_holds_def mnl_nlmsg_batch_start_def mnl_nlmsg_batch_size_def mnl_nlmsg_batch_current_def)

text \<open>A message written behind a batch joins it when the batch then still ends within its limit. Otherwise the
  batch stays what it was, ready to be sent, and a reset makes the message the first of the next batch, unless it is
  longer than the batch before it: then the copy is undefined.\<close>

theorem batch_loses_nothing:
  assumes "batch_holds buf b ms" and "take (length m) (drop (mnl_nlmsg_batch_current b) buf) = m"
    and "nlmsg_len (mnl_nlmsg_batch_current b) buf = Inr (word_of_nat (length m))" and "length m < 2 ^ 32"
  shows "\<exists>ok b'. mnl_nlmsg_batch_next buf b = Inr (ok, b') \<and> ok = (length (concat (ms @ [m])) \<le> b_limit b) \<and>
    (if ok then batch_holds buf b' (ms @ [m])
     else take (mnl_nlmsg_batch_size b') buf = concat ms \<and>
       (if length m \<le> length (concat ms)
        then \<exists>buf' b''. mnl_nlmsg_batch_reset buf b' = Inr (buf', b'') \<and> batch_holds buf' b'' [m] \<and> length buf' = length buf
        else mnl_nlmsg_batch_reset buf b' = Inl Overlapping_Copy))"
proof -
  have u: "unat (word_of_nat (length m) :: 32 word) = length m" using assms(4) by (simp add: unsigned_of_nat take_bit_nat_eq_self)
  have b: "b_cur b = length (concat ms)" "b_buflen b = length (concat ms)" "take (length (concat ms)) buf = concat ms" "\<not> b_overflow b"
    using assms(1) by (auto simp add: batch_holds_def mnl_nlmsg_batch_size_def mnl_nlmsg_batch_current_def)
  have len: "length (concat ms) \<le> length buf" using b(3) by (metis length_take min.cobounded1)
  have m: "take (length m) (drop (length (concat ms)) buf) = m" "nlmsg_len (length (concat ms)) buf = Inr (word_of_nat (length m))"
    using assms(2,3) b(1) by (simp_all add: mnl_nlmsg_batch_current_def)
  have "length m \<le> length buf - length (concat ms)" using m(1) by (metis length_drop length_take min.cobounded1)
  then have room: "length (concat ms) + length m \<le> length buf" using len by simp
  show ?thesis
  proof (cases "length (concat (ms @ [m])) \<le> b_limit b")
    case True
    then show ?thesis
      using b m u take_add [of "length (concat ms)" "length m" buf]
      by (auto simp add: mnl_nlmsg_batch_next_def batch_holds_def mnl_nlmsg_batch_size_def mnl_nlmsg_batch_current_def)
  next
    case False
    then have nx: "mnl_nlmsg_batch_next buf b = Inr (False, b\<lparr>b_overflow := True\<rparr>)"
      using b m u by (simp add: mnl_nlmsg_batch_next_def)
    have "mnl_nlmsg_batch_reset buf (b\<lparr>b_overflow := True\<rparr>) =
        Inr (m @ drop (length m) buf, b\<lparr>b_buflen := length m, b_cur := length m, b_overflow := False\<rparr>)" if "length m \<le> length (concat ms)"
      using that b m u room by (simp add: mnl_nlmsg_batch_reset_def read_bytes_def write_at_def)
    moreover have "mnl_nlmsg_batch_reset buf (b\<lparr>b_overflow := True\<rparr>) = Inl Overlapping_Copy" if "\<not> length m \<le> length (concat ms)"
      using that b m u by (simp add: mnl_nlmsg_batch_reset_def)
    ultimately show ?thesis
      using nx False b room by (auto simp add: batch_holds_def mnl_nlmsg_batch_size_def mnl_nlmsg_batch_current_def)
  qed
qed

theorem batch_loses_nothing_witness:
  "\<exists>b'. mnl_nlmsg_batch_next (sample_noop @ sample_noop) \<lparr>b_limit = 20, b_buflen = 16, b_cur = 16, b_overflow = False\<rparr> = Inr (False, b') \<and>
     (\<exists>buf' b''. mnl_nlmsg_batch_reset (sample_noop @ sample_noop) b' = Inr (buf', b'') \<and> batch_holds buf' b'' [sample_noop])"
proof -
  let ?b = "\<lparr>b_limit = 20, b_buflen = 16, b_cur = 16, b_overflow = False\<rparr>"
  have l: "length sample_noop = 16" by (simp add: sample_noop_def)
  have h: "batch_holds (sample_noop @ sample_noop) ?b [sample_noop]"
    using l by (simp add: batch_holds_def mnl_nlmsg_batch_size_def mnl_nlmsg_batch_current_def)
  have "nlmsg_len 16 (sample_noop @ sample_noop) = Inr 16" by code_simp
  then show ?thesis using batch_loses_nothing [OF h, of sample_noop] l by (auto simp add: mnl_nlmsg_batch_current_def)
qed

end
