(* ===== verification/Rt_Netlink_Correct.thy ===== *)
theory Rt_Netlink_Correct
  imports Rt_Netlink Netlink_Walk Forwarding_Correct
begin

text \<open>
  The routes over netlink: the dump of \<open>Rt_Table\<close>, stated on what the messages say, is what the code computes from their
  bytes; the requests are well typed and say what they should.
\<close>

section \<open>The attributes of a route\<close>

definition checked_type :: "16 word \<Rightarrow> bool" where
  "checked_type ty \<longleftrightarrow> ty = RTA_TABLE \<or> ty = RTA_DST \<or> ty = RTA_SRC \<or> ty = RTA_OIF \<or> ty = RTA_FLOW \<or> ty = RTA_PREFSRC \<or>
     ty = RTA_GATEWAY \<or> ty = RTA_METRICS"

text \<open>What the kernel sends: no flags in the types, and the sizes that belong to them.\<close>

definition attr_typed :: "16 word \<Rightarrow> mem \<Rightarrow> bool" where
  "attr_typed ty d \<longleftrightarrow> ty AND NLA_TYPE_MASK = ty \<and> (ty = RTA_TABLE \<or> ty = RTA_PRIORITY \<or> ty = RTA_OIF \<longrightarrow> length d = 4) \<and>
     (ty = RTA_DST \<or> ty = RTA_GATEWAY \<longrightarrow> length d = 16) \<and> (checked_type ty \<longrightarrow> d = [] \<or> 4 \<le> length d)"

definition route_attrs :: "padded list \<Rightarrow> bool" where
  "route_attrs ps \<longleftrightarrow> padded_wf ps \<and> (\<forall>(ty, d, p)\<in>set ps. attr_typed ty d)"

definition note_attr :: "16 word \<Rightarrow> nat \<times> 16 word \<times> mem \<Rightarrow> attr_tb \<Rightarrow> attr_tb" where
  "note_attr mx a tb = (case a of (off, ty, d) \<Rightarrow> if ty > mx then tb else tb(ty := Some off))"

lemma validate_nested_at:
  assumes "length xs = off" and "attr_wf d p" and "d = [] \<or> 4 \<le> length d"
  shows "mnl_attr_validate off (xs @ attr_bytes ty d p @ zs) MNL_TYPE_NESTED = Inr 0"
proof -
  have "unat (alen d - 4) = length d"
    using assms(2) alen_unat [of d] by (simp add: attr_wf_def unat_sub word_le_nat_alt)
  then show ?thesis
    using attr_at(1) [OF assms(1,2), of ty zs] assms(3)
    by (auto simp add: mnl_attr_validate_def validate_attr_def mnl_attr_get_payload_len_def MNL_ATTR_HDRLEN_def Let_def)
qed

lemma data_attr_cb_at:
  assumes "attr_wf d p" and "buf = xs @ attr_bytes ty d p @ zs" and "attr_typed ty d"
  shows "data_attr_cb mx buf (length xs) tb = Inr (MNL_CB_OK, note_attr mx (length xs, ty, d) tb)"
proof -
  have ty: "mnl_attr_get_type (length xs) buf = Inr ty"
    using attr_at(2) [of xs "length xs" d p ty zs] assms by (simp add: mnl_attr_get_type_def attr_typed_def)
  have v: "mnl_attr_type_valid (length xs) buf mx = Inr (if ty > mx then -1 else 1)" by (simp add: mnl_attr_type_valid_def ty)
  have "(if checked_type ty then mnl_attr_validate (length xs) buf MNL_TYPE_NESTED else Inr 0) = Inr 0"
    using validate_nested_at [OF refl assms(1), of xs ty zs] assms(2,3) by (simp add: attr_typed_def)
  then show ?thesis using ty v by (simp add: data_attr_cb_def note_attr_def checked_type_def [symmetric])
qed

text \<open>The last attribute of a type is the one that is noted.\<close>

definition last_attr :: "16 word \<Rightarrow> 16 word \<Rightarrow> padded list \<Rightarrow> mem option" where
  "last_attr mx ty ps = map_option (\<lambda>(_, d, _). d) (find (\<lambda>(t, _, _). t = ty \<and> \<not> t > mx) (rev ps))"

lemma placed_append: "placed off (ps @ [(ty, d, p)]) = placed off ps @ [(off + room (plain ps), ty, d)]"
  by (induction off ps rule: placed.induct) (simp_all add: room_def add.assoc)

lemma note_attrs:
  assumes "padded_wf ps" and "length xs = off"
  shows "case last_attr mx ty ps of
      None \<Rightarrow> fold (note_attr mx) (placed off ps) (\<lambda>_. None) ty = None
    | Some d \<Rightarrow> \<exists>ys p zs. fold (note_attr mx) (placed off ps) (\<lambda>_. None) ty = Some (length ys) \<and> xs @ enc ps = ys @ attr_bytes ty d p @ zs \<and>
        attr_wf d p \<and> (ty, d, p) \<in> set ps"
  using assms(1)
proof (induction ps rule: rev_induct)
  case Nil
  then show ?case by (simp add: last_attr_def)
next
  case (snoc a ps)
  obtain t d p where a: "a = (t, d, p)" by (cases a)
  have wf: "padded_wf ps" "attr_wf d p" using snoc.prems a by simp_all
  have tb: "fold (note_attr mx) (placed off (ps @ [a])) (\<lambda>_. None) = note_attr mx (off + room (plain ps), t, d) (fold (note_attr mx) (placed off ps) (\<lambda>_. None))"
    by (simp add: a placed_append)
  have enc: "xs @ enc (ps @ [a]) = (xs @ enc ps) @ attr_bytes t d p" by (simp add: a)
  have off: "off + room (plain ps) = length (xs @ enc ps)" using length_enc [OF wf(1)] assms(2) by simp
  show ?case
  proof (cases "t = ty \<and> \<not> t > mx")
    case True
    then have t: "t = ty" "\<not> ty > mx" by auto
    then have la: "last_attr mx ty (ps @ [a]) = Some d" by (simp add: last_attr_def a)
    have "fold (note_attr mx) (placed off (ps @ [a])) (\<lambda>_. None) ty = Some (length (xs @ enc ps))" using t off tb by (simp add: note_attr_def)
    then show ?thesis unfolding la option.case using t wf(2) enc a
      by (intro exI [where x = "xs @ enc ps"] exI [where x = p] exI [where x = "[]"]) simp
  next
    case False
    then have "last_attr mx ty (ps @ [a]) = last_attr mx ty ps" by (auto simp add: last_attr_def a)
    moreover have "fold (note_attr mx) (placed off (ps @ [a])) (\<lambda>_. None) ty = fold (note_attr mx) (placed off ps) (\<lambda>_. None) ty"
      using False tb by (auto simp add: note_attr_def)
    ultimately show ?thesis using snoc.IH [OF wf(1)] enc
      by (auto split: option.splits) (metis append.assoc)
  qed
qed

lemma note_fold:
  "attr_fold (\<lambda>a s. Inr (MNL_CB_OK, note_attr mx a s)) as MNL_CB_OK tb = Inr (MNL_CB_OK, fold (note_attr mx) as tb)"
  by (induction as arbitrary: tb) (simp_all add: MNL_CB_OK_def MNL_CB_STOP_def)

lemma parse_route:
  assumes "nl_wf h (rtm @ enc ps)" and "route_attrs ps" and "length rtm = 12"
  shows "mnl_attr_parse (length xs) 12 (data_attr_cb mx (message xs h (rtm @ enc ps) zs)) tb (message xs h (rtm @ enc ps) zs) =
    Inr (MNL_CB_OK, fold (note_attr mx) (placed (length xs + 28) ps) tb)"
proof -
  have "MNL_ALIGN 12 = 12" by (simp add: MNL_ALIGN_def)
  then have "mnl_attr_parse (length xs) 12 (data_attr_cb mx (message xs h (rtm @ enc ps) zs)) tb (message xs h (rtm @ enc ps) zs) =
      attr_fold (\<lambda>a s. Inr (MNL_CB_OK, note_attr mx a s)) (placed (length xs + 28) ps) MNL_CB_OK tb"
    using parse_message [of attr_typed xs h rtm ps zs "data_attr_cb mx (message xs h (rtm @ enc ps) zs)" "\<lambda>a s. Inr (MNL_CB_OK, note_attr mx a s)" 12]
      assms data_attr_cb_at [where buf = "message xs h (rtm @ enc ps) zs"] by (simp add: route_attrs_def add.commute)
  then show ?thesis by (simp add: note_fold)
qed

section \<open>Values of attributes\<close>

lemma u32_at:
  assumes "length d = 4"
  shows "mnl_attr_get_u32 (length ys) (ys @ attr_bytes ty d p @ zs) = Inr (le32 d 0)"
proof -
  have "length (ys @ store16 (alen d) @ store16 ty) = length ys + 4" by simp
  from le32_append [OF this, of 0 d "p @ zs"] assms show ?thesis
    by (simp add: mnl_attr_get_u32_def mnl_attr_get_payload_def MNL_ATTR_HDRLEN_def read32_def attr_bytes_def)
qed

lemma addr_of_attr:
  assumes "length d = 16"
  shows "get_addr (length ys) (ys @ attr_bytes ty d p @ zs) = Inr (addr_at d 0)"
proof -
  have "addr_at (ys @ attr_bytes ty d p @ zs) (length ys + 4) = addr_at d 0"
    using assms by (intro addr_at_cong) (simp add: attr_bytes_def nth_append)
  then show ?thesis
    using assms by (simp add: get_addr_def mnl_attr_get_payload_def MNL_ATTR_HDRLEN_def read_bytes_def attr_bytes_def)
qed

text \<open>Going through attributes never leaves the buffer, whatever is in it.\<close>

lemma attr_loop_total:
  assumes "\<And>attr s. attr + 4 \<le> length buf \<Longrightarrow> \<exists>r. cb attr s = Inr r" and "tail \<le> length buf" and "tail < 2 ^ 31" and "attr \<le> tail + 3"
  shows "\<exists>r. attr_loop cb buf tail attr ret s = Inr r"
  using assms(4)
proof (induction "length buf - attr" arbitrary: attr ret s rule: less_induct)
  case less
  let ?rem = "to_int (int tail - int attr)"
  have rem: "?rem = int tail - int attr"
    using less.prems assms(3) by (intro to_int_id) simp_all
  show ?case
  proof (cases "4 \<le> ?rem")
    case False
    then show ?thesis by (subst attr_loop.simps) (simp add: mnl_attr_ok_def)
  next
    case True
    then have b: "attr + 4 \<le> tail" "attr + 4 \<le> length buf" using rem assms(2) by simp_all
    then obtain l where l: "nla_len attr buf = Inr l" by (simp add: nla_len_def read16_def)
    obtain r1 s1 where cb: "cb attr s = Inr (r1, s1)" using assms(1) [OF b(2)] by (metis surj_pair)
    let ?next = "attr + MNL_ALIGN (unat l)"
    have nx: "mnl_attr_next attr buf = Inr ?next" by (simp add: mnl_attr_next_def l)
    have ok: "mnl_attr_ok attr buf ?rem = Inr (4 \<le> l \<and> uint l \<le> ?rem)" using True by (simp add: mnl_attr_ok_def l)
    have ih: "\<exists>r. attr_loop cb buf tail ?next ret' s' = Inr r" if "4 \<le> l" "uint l \<le> ?rem" for ret' s'
    proof (rule less.hyps)
      have "4 \<le> unat l" using that(1) by (simp add: word_le_nat_alt)
      then show "length buf - ?next < length buf - attr" using b(2) MNL_ALIGN_bounds(1) [of "unat l"] by simp
      have "int (unat l) \<le> int tail - int attr" using that(2) unfolding rem uint_nat .
      then have "attr + unat l \<le> tail" by linarith
      then show "?next \<le> tail + 3" using MNL_ALIGN_bounds(2) [of "unat l"] by linarith
    qed
    show ?thesis
    proof (cases "4 \<le> l \<and> uint l \<le> ?rem")
      case True
      then have "mnl_attr_ok attr buf ?rem = Inr True" unfolding ok by blast
      then have "attr_loop cb buf tail attr ret s = (if r1 \<le> MNL_CB_STOP then Inr (r1, s1) else attr_loop cb buf tail ?next r1 s1)"
        by (subst attr_loop.simps) (simp only: cb nx bind_simps if_True prod.case)
      moreover obtain r where "attr_loop cb buf tail ?next r1 s1 = Inr r" using ih True by blast
      ultimately show ?thesis by (simp only:) simp
    next
      case False
      with ok show ?thesis by (subst attr_loop.simps) auto
    qed
  qed
qed

lemma metrics_at:
  assumes "length d \<le> 65531" and "length ys + 4 + length d < 2 ^ 31"
  shows "\<exists>r. mnl_attr_parse_nested (length ys) (data_attr_cb2 rx (ys @ attr_bytes ty d p @ zs)) () (ys @ attr_bytes ty d p @ zs) = Inr r"
proof -
  let ?buf = "ys @ attr_bytes ty d p @ zs"
  have l: "mnl_attr_get_payload_len (length ys) ?buf = Inr (alen d - 4)"
    using read_stored(1) [of ys "length ys" "alen d"] by (simp add: mnl_attr_get_payload_len_def nla_len_def attr_bytes_def MNL_ATTR_HDRLEN_def)
  have u: "unat (alen d - 4) = length d" using alen_unat [OF assms(1)] by (simp add: unat_sub word_le_nat_alt)
  have "\<exists>r. data_attr_cb2 rx ?buf attr s = Inr r" if "attr + 4 \<le> length ?buf" for attr s
    using that
    by (simp add: data_attr_cb2_def mnl_attr_type_valid_def mnl_attr_get_type_def nla_type_def read16_def mnl_attr_validate_def validate_attr_def
        mnl_attr_get_payload_len_def nla_len_def Let_def)
  then have "\<exists>r. attr_loop (data_attr_cb2 rx ?buf) ?buf (length ys + 4 + length d) (length ys + 4) MNL_CB_OK () = Inr r"
    using assms by (intro attr_loop_total) (simp_all add: attr_bytes_def)
  then show ?thesis by (simp add: mnl_attr_parse_nested_def l u mnl_attr_get_payload_def MNL_ATTR_HDRLEN_def)
qed

section \<open>A route message\<close>

text \<open>What a message says: the fixed header behind the netlink header, and the attributes.\<close>

definition route_msg :: "16 word \<Rightarrow> mem \<Rightarrow> padded list \<Rightarrow> rt_msg" where
  "route_msg mx rtm ps =
     \<lparr>m_inet6 = (rtm ! 0 = AF_INET6), m_dst_len = rtm ! 1,
      m_table = map_option (\<lambda>d. uint (le32 d 0)) (last_attr mx RTA_TABLE ps),
      m_dst = map_option (\<lambda>d. addr_at d 0) (last_attr mx RTA_DST ps),
      m_priority = map_option (\<lambda>d. sint (le32 d 0)) (last_attr mx RTA_PRIORITY ps),
      m_gateway = map_option (\<lambda>d. addr_at d 0) (last_attr mx RTA_GATEWAY ps)\<rparr>"

lemma set_from_noted:
  assumes "route_attrs ps" and "buf = xs @ enc ps @ zs" and "tb = fold (note_attr mx) (placed (length xs) ps) (\<lambda>_. None)"
    and "\<And>ys d p zs. attr_wf d p \<Longrightarrow> attr_typed ty d \<Longrightarrow> buf = ys @ attr_bytes ty d p @ zs \<Longrightarrow> get (length ys) = Inr (v d)"
  shows "set_from tb ty get upd r = Inr (case last_attr mx ty ps of None \<Rightarrow> r | Some d \<Rightarrow> upd (v d) r)"
    and "tb ty = None \<longleftrightarrow> last_attr mx ty ps = None"
proof -
  have "set_from tb ty get upd r = Inr (case last_attr mx ty ps of None \<Rightarrow> r | Some d \<Rightarrow> upd (v d) r) \<and>
      (tb ty = None \<longleftrightarrow> last_attr mx ty ps = None)"
  proof (cases "last_attr mx ty ps")
    case None
    then have "tb ty = None" using note_attrs [of ps xs "length xs" mx ty] assms(1,3) by (simp add: route_attrs_def)
    then show ?thesis using None by (simp add: set_from_def)
  next
    case (Some d)
    then obtain ys p zs' where n: "tb ty = Some (length ys)" "xs @ enc ps = ys @ attr_bytes ty d p @ zs'" "attr_wf d p" "(ty, d, p) \<in> set ps"
      using note_attrs [of ps xs "length xs" mx ty] assms(1,3) by (auto simp add: route_attrs_def)
    have "buf = ys @ attr_bytes ty d p @ (zs' @ zs)" using assms(2) n(2) by (metis append.assoc)
    moreover have "attr_typed ty d" using n(4) assms(1) by (auto simp add: route_attrs_def)
    ultimately have "get (length ys) = Inr (v d)" using n(3) by (intro assms(4))
    then show ?thesis using n(1) Some by (simp add: set_from_def)
  qed
  then show "set_from tb ty get upd r = Inr (case last_attr mx ty ps of None \<Rightarrow> r | Some d \<Rightarrow> upd (v d) r)"
    and "tb ty = None \<longleftrightarrow> last_attr mx ty ps = None" by simp_all
qed

lemma show_ipv6_refines:
  assumes "route_attrs ps" and "buf = xs @ enc ps @ zs" and "tb = fold (note_attr mx) (placed (length xs) ps) (\<lambda>_. None)"
    and "length buf < 2 ^ 31"
  shows "show_ipv6_bytes F rx buf tb (rt, k) = Inr (attributes_show_ipv6 F (route_msg mx rtm ps) (rt, k))"
proof -
  have u32: "mnl_attr_get_u32 (length ys) buf = Inr (le32 d 0)" if "attr_typed ty d" "buf = ys @ attr_bytes ty d p @ zs'" "ty = RTA_TABLE \<or> ty = RTA_PRIORITY"
    for ty d ys p zs' using that u32_at [of d ys ty p zs'] by (auto simp add: attr_typed_def)
  have addr: "get_addr (length ys) buf = Inr (addr_at d 0)" if "attr_typed ty d" "buf = ys @ attr_bytes ty d p @ zs'" "ty = RTA_DST \<or> ty = RTA_GATEWAY"
    for ty d ys p zs' using that addr_of_attr [of d ys ty p zs'] by (auto simp add: attr_typed_def)
  note n = set_from_noted [OF assms(1-3)]
  have t: "set_from tb RTA_TABLE (\<lambda>a. mnl_attr_get_u32 a buf) (\<lambda>t r. r\<lparr>rt_table := ucast t\<rparr>) r =
      Inr (case last_attr mx RTA_TABLE ps of None \<Rightarrow> r | Some d \<Rightarrow> r\<lparr>rt_table := ucast (le32 d 0)\<rparr>)" for r
    by (rule n(1), use u32 in blast)
  have t2: "tb RTA_TABLE = None \<longleftrightarrow> last_attr mx RTA_TABLE ps = None"
    by (rule n(2) [where get = "\<lambda>a. mnl_attr_get_u32 a buf" and v = "\<lambda>d. le32 d 0"], use u32 in blast)
  have d: "set_from tb RTA_DST (\<lambda>a. get_addr a buf) (\<lambda>a r. r\<lparr>rt_dst := a\<rparr>) r =
      Inr (case last_attr mx RTA_DST ps of None \<Rightarrow> r | Some d \<Rightarrow> r\<lparr>rt_dst := addr_at d 0\<rparr>)" for r
    by (rule n(1), use addr in blast)
  have pr: "set_from tb RTA_PRIORITY (\<lambda>a. mnl_attr_get_u32 a buf) (\<lambda>d r. r\<lparr>rt_distance := sint d\<rparr>) r =
      Inr (case last_attr mx RTA_PRIORITY ps of None \<Rightarrow> r | Some d \<Rightarrow> r\<lparr>rt_distance := sint (le32 d 0)\<rparr>)" for r
    by (rule n(1), use u32 in blast)
  have g: "set_from tb RTA_GATEWAY (\<lambda>a. get_addr a buf) (\<lambda>a r. r\<lparr>rt_gtw := a\<rparr>) r =
      Inr (case last_attr mx RTA_GATEWAY ps of None \<Rightarrow> r | Some d \<Rightarrow> r\<lparr>rt_gtw := addr_at d 0\<rparr>)" for r
    by (rule n(1), use addr in blast)
  have m: "\<exists>x. (case tb RTA_METRICS of None \<Rightarrow> Inr () | Some a \<Rightarrow> bind (mnl_attr_parse_nested a (data_attr_cb2 rx buf) () buf) (\<lambda>_. Inr ())) = Inr x"
  proof (cases "last_attr mx RTA_METRICS ps")
    case None
    then have "tb RTA_METRICS = None" using note_attrs [of ps xs "length xs" mx RTA_METRICS] assms(1,3) by (simp add: route_attrs_def)
    then show ?thesis by simp
  next
    case (Some d)
    then obtain ys p zs' where n: "tb RTA_METRICS = Some (length ys)" "xs @ enc ps = ys @ attr_bytes RTA_METRICS d p @ zs'" "attr_wf d p"
      using note_attrs [of ps xs "length xs" mx RTA_METRICS] assms(1,3) by (auto simp add: route_attrs_def)
    have b: "buf = ys @ attr_bytes RTA_METRICS d p @ (zs' @ zs)" using assms(2) n(2) by (metis append.assoc)
    then have "length ys + 4 + length d < 2 ^ 31" using assms(4) by (simp add: attr_bytes_def)
    with metrics_at [of d ys rx RTA_METRICS p "zs' @ zs"] n(1,3) b show ?thesis by (auto simp add: attr_wf_def)
  qed
  then obtain x where m: "(case tb RTA_METRICS of None \<Rightarrow> Inr () | Some a \<Rightarrow> bind (mnl_attr_parse_nested a (data_attr_cb2 rx buf) () buf) (\<lambda>_. Inr ())) = Inr x" ..
  have uc: "(word_of_int (uint (le32 z 0)) :: 8 word) = ucast (le32 z 0)" for z by simp
  show ?thesis
    unfolding show_ipv6_bytes_def attributes_show_ipv6_def route_msg_def Let_def prod.case t bind_simps d pr g m rt_msg.select_convs t2
    by (cases "last_attr mx RTA_TABLE ps"; cases "last_attr mx RTA_DST ps"; cases "last_attr mx RTA_PRIORITY ps"; cases "last_attr mx RTA_GATEWAY ps")
      (simp_all add: uc Let_def)
qed

lemma data_cb_refines:
  assumes "nl_wf h (rtm @ enc ps)" and "length rtm = 12" and "route_attrs ps" and "buf = message xs h (rtm @ enc ps) zs" and "length buf < 2 ^ 31"
  shows "data_cb_bytes F mx rx buf (length xs) (rt, k) = Inr (MNL_CB_OK, data_cb F (route_msg mx rtm ps) (rt, k))"
proof -
  let ?xs = "xs @ store32 (len_field (rtm @ enc ps)) @ h @ rtm"
  have len: "length ?xs = length xs + 28" "length (xs @ store32 (len_field (rtm @ enc ps)) @ h) = length xs + 16"
    using assms(1,2) by (simp_all add: nl_wf_def)
  have buf: "buf = ?xs @ enc ps @ zs" "buf = (xs @ store32 (len_field (rtm @ enc ps)) @ h) @ rtm @ (enc ps @ zs)" using assms(4) by (simp_all add: message_def)
  have r: "read8 (length xs + 16) buf = Inr (rtm ! 0)" "read8 (length xs + 16 + 1) buf = Inr (rtm ! 1)"
    using nth_at [OF len(2), of 0 rtm] nth_at [OF len(2), of 1 rtm] assms(2) len unfolding buf(2) by (simp_all add: read8_def)
  have p: "mnl_attr_parse (length xs) 12 (data_attr_cb mx buf) (\<lambda>_. None) buf = Inr (MNL_CB_OK, fold (note_attr mx) (placed (length ?xs) ps) (\<lambda>_. None))"
    using parse_route [OF assms(1,3,2), of xs mx zs] assms(4) len by simp
  show ?thesis
    using r p show_ipv6_refines [OF assms(3) buf(1) refl assms(5), where mx = mx and rtm = rtm]
    by (simp add: data_cb_bytes_def data_cb_def mnl_nlmsg_get_payload_def MNL_NLMSG_HDRLEN_def Let_def route_msg_def [of mx rtm ps])
qed

section \<open>The dump\<close>

definition nl_hdr :: "16 word \<Rightarrow> 16 word \<Rightarrow> 32 word \<Rightarrow> 32 word \<Rightarrow> mem" where
  "nl_hdr ty flags seq pid = store16 ty @ store16 flags @ store32 seq @ store32 pid"

lemma hdr_fields:
  assumes "buf = message xs (nl_hdr ty flags seq pid) b zs"
  shows "nlmsg_type (length xs) buf = Inr ty" and "nlmsg_seq (length xs) buf = Inr seq" and "nlmsg_pid (length xs) buf = Inr pid"
proof -
  let ?l = "xs @ store32 (len_field b)"
  show "nlmsg_type (length xs) buf = Inr ty"
    using read_stored(1) [of ?l "length xs + 4" ty] assms by (simp add: nlmsg_type_def message_def nl_hdr_def)
  show "nlmsg_seq (length xs) buf = Inr seq"
    using read_stored(2) [of "?l @ store16 ty @ store16 flags" "length xs + 8" seq] assms by (simp add: nlmsg_seq_def message_def nl_hdr_def)
  show "nlmsg_pid (length xs) buf = Inr pid"
    using read_stored(2) [of "?l @ store16 ty @ store16 flags @ store32 seq" "length xs + 12" pid] assms by (simp add: nlmsg_pid_def message_def nl_hdr_def)
qed

text \<open>What the kernel answers to the request: routes, and at the end that it is done or an error.\<close>

datatype kmsg = Kroute "16 word" mem "padded list" | Kdone | Kerror "32 word"

fun kmsg_enc :: "32 word \<Rightarrow> 32 word \<Rightarrow> kmsg \<Rightarrow> mem \<times> mem" where
  "kmsg_enc seq pid (Kroute flags rtm ps) = (nl_hdr RTM_NEWROUTE flags seq pid, rtm @ enc ps)"
| "kmsg_enc seq pid Kdone = (nl_hdr (word_of_nat NLMSG_DONE) 2 seq pid, replicate 4 0)"
| "kmsg_enc seq pid (Kerror e) = (nl_hdr (word_of_nat NLMSG_ERROR) 0 seq pid, store32 e @ replicate 16 0)"

fun kmsg_ok :: "kmsg \<Rightarrow> bool" where
  "kmsg_ok (Kroute flags rtm ps) \<longleftrightarrow> length rtm = 12 \<and> route_attrs ps \<and> 28 + length (enc ps) < 2 ^ 31"
| "kmsg_ok Kdone \<longleftrightarrow> True"
| "kmsg_ok (Kerror e) \<longleftrightarrow> e \<noteq> 0"

fun kmsg_run :: "fenv \<Rightarrow> 16 word \<Rightarrow> kmsg \<Rightarrow> int \<Rightarrow> route list \<times> nat \<Rightarrow> (bool \<times> int \<times> route list \<times> nat) result" where
  "kmsg_run F mx (Kroute flags rtm ps) ret rtk = Inr (False, MNL_CB_OK, data_cb F (route_msg mx rtm ps) rtk)"
| "kmsg_run F mx Kdone ret rtk = Inr (True, MNL_CB_STOP, rtk)"
| "kmsg_run F mx (Kerror e) ret rtk = Inr (True, MNL_CB_ERROR, rtk)"

lemma kmsg_wf: "kmsg_ok m \<Longrightarrow> nl_wf (fst (kmsg_enc seq pid m)) (snd (kmsg_enc seq pid m))"
  by (cases m) (auto simp add: nl_wf_def nl_hdr_def route_attrs_def dvd_length_enc)

lemma step_refines:
  assumes "kmsg_ok m" and "buf = message xs (fst (kmsg_enc seq pid m)) (snd (kmsg_enc seq pid m)) zs" and "length buf < 2 ^ 31"
  shows "cb_step buf seq pid (Some (data_cb_bytes F mx rx buf)) (\<lambda>_. None) 0 (length xs) ret rtk = kmsg_run F mx m ret rtk"
proof -
  have fine: "mnl_nlmsg_portid_ok (length xs) buf pid = Inr True" "mnl_nlmsg_seq_ok (length xs) buf seq = Inr True"
    using assms(2) by (cases m; simp add: mnl_nlmsg_portid_ok_def mnl_nlmsg_seq_ok_def hdr_fields)+
  obtain rt k where rtk: "rtk = (rt, k)" by (cases rtk)
  show ?thesis
  proof (cases m)
    case (Kroute flags rtm ps)
    have "nlmsg_type (length xs) buf = Inr RTM_NEWROUTE" using assms(2) Kroute by (simp add: hdr_fields)
    moreover have "data_cb_bytes F mx rx buf (length xs) (rt, k) = Inr (MNL_CB_OK, data_cb F (route_msg mx rtm ps) (rt, k))"
      using assms Kroute kmsg_wf [OF assms(1), of seq pid] by (intro data_cb_refines) simp_all
    ultimately show ?thesis using fine rtk Kroute
      by (simp add: cb_step_def RTM_NEWROUTE_def NLMSG_MIN_TYPE_def MNL_CB_OK_def MNL_CB_STOP_def)
  next
    case Kdone
    have "nlmsg_type (length xs) buf = Inr (word_of_nat NLMSG_DONE)" using assms(2) Kdone by (simp add: hdr_fields)
    then show ?thesis using fine Kdone
      by (simp add: cb_step_def default_cb_array_def mnl_cb_stop_def NLMSG_MIN_TYPE_def NLMSG_DONE_def NLMSG_NOOP_def NLMSG_ERROR_def)
  next
    case (Kerror e)
    have ty: "nlmsg_type (length xs) buf = Inr (word_of_nat NLMSG_ERROR)" using assms(2) Kerror by (simp add: hdr_fields)
    have len: "nlmsg_len (length xs) buf = Inr (len_field (store32 e @ replicate 16 0))" using assms(2) Kerror by (simp add: message_len)
    have l: "unat (len_field (store32 e @ replicate 16 0)) = 36" by (simp add: len_field_unat)
    have "read32 (length xs + 16) buf = Inr e"
      using read_stored(2) [of "xs @ store32 (len_field (store32 e @ replicate 16 0)) @ nl_hdr (word_of_nat NLMSG_ERROR) 0 seq pid" "length xs + 16" e "replicate 16 0 @ zs"]
        assms(2) Kerror by (simp add: message_def nl_hdr_def)
    then show ?thesis using fine ty len l Kerror assms(1)
      by (simp add: cb_step_def default_cb_array_def mnl_cb_error_def mnl_nlmsg_size_def mnl_nlmsg_get_payload_def MNL_NLMSG_HDRLEN_def
          NLMSG_MIN_TYPE_def NLMSG_NOOP_def NLMSG_ERROR_def MNL_CB_ERROR_def MNL_CB_STOP_def)
  qed
qed

text \<open>One datagram.\<close>

definition dgram_of :: "32 word \<Rightarrow> 32 word \<Rightarrow> kmsg list \<Rightarrow> mem" where
  "dgram_of seq pid ms = dgram (map (kmsg_enc seq pid) ms)"

lemma run_datagram:
  assumes "\<forall>m\<in>set ms. kmsg_ok m" and "buf = dgram_of seq pid ms @ zs" and "length buf < 2 ^ 31"
  shows "mnl_cb_run buf (length (dgram_of seq pid ms)) seq pid (Some (data_cb_bytes F mx rx buf)) rtk =
    Some (run_fold (kmsg_run F mx) ms MNL_CB_OK rtk)"
proof -
  have "cb_loop (cb_step buf seq pid (Some (data_cb_bytes F mx rx buf)) (\<lambda>_. None) 0) buf (length ([] :: mem))
      (word_of_nat (length (dgram (map (kmsg_enc seq pid) ms)))) MNL_CB_OK rtk = Some (run_fold (kmsg_run F mx) ms MNL_CB_OK rtk)"
    by (rule cb_loop_messages [where P = kmsg_ok and zs = zs]) (use assms kmsg_wf step_refines in \<open>auto simp add: dgram_of_def\<close>)
  then show ?thesis by (simp add: mnl_cb_run_def mnl_cb_run2_def dgram_of_def)
qed

text \<open>What the routes say.\<close>

definition says :: "16 word \<Rightarrow> kmsg list \<Rightarrow> rt_msg list" where
  "says mx ms = concat (map (\<lambda>m. case m of Kroute flags rtm ps \<Rightarrow> [route_msg mx rtm ps] | _ \<Rightarrow> []) ms)"

definition routes :: "kmsg list \<Rightarrow> bool" where
  "routes ms \<longleftrightarrow> (\<forall>m\<in>set ms. kmsg_ok m \<and> (\<exists>flags rtm ps. m = Kroute flags rtm ps))"

lemma says_simps [simp]: "says mx [] = []" "says mx (Kroute flags rtm ps # ms) = route_msg mx rtm ps # says mx ms"
  "says mx (ms @ ms') = says mx ms @ says mx ms'" "says mx [Kdone] = []" "says mx [Kerror e] = []"
  by (simp_all add: says_def)

lemma run_routes:
  assumes "routes ms"
  shows "run_fold (kmsg_run F mx) (ms @ ms') MNL_CB_OK rtk = run_fold (kmsg_run F mx) ms' MNL_CB_OK (fold (data_cb F) (says mx ms) rtk)"
  using assms
proof (induction ms arbitrary: rtk)
  case (Cons m ms)
  then obtain flags rtm ps where "m = Kroute flags rtm ps" "routes ms" by (auto simp add: routes_def)
  then show ?case using Cons.IH [of "data_cb F (route_msg mx rtm ps) rtk"] by simp
qed simp

lemma recv_fits:
  "length d \<le> length buf \<Longrightarrow> mnl_socket_recvfrom (Received d 12) buf = (int (length d), d @ drop (length d) buf)"
  by (simp add: mnl_socket_recvfrom_def Let_def)

abbreviation dump_run :: "fenv \<Rightarrow> 16 word \<Rightarrow> 16 word \<Rightarrow> 32 word \<Rightarrow> 32 word \<Rightarrow> mem \<Rightarrow> nat \<Rightarrow> route list \<times> nat \<Rightarrow> (int \<times> route list \<times> nat) result option" where
  "dump_run F mx rx seq pid \<equiv> (\<lambda>buf n. mnl_cb_run buf n seq pid (Some (data_cb_bytes F mx rx buf)))"

lemma recv_datagram:
  assumes "\<forall>m\<in>set ms. kmsg_ok m" and "ms \<noteq> []" and "length (dgram_of seq pid ms) \<le> length buf" and "length buf < 2 ^ 31"
    and "run_fold (kmsg_run F mx) ms MNL_CB_OK rtk = Inr (ret, rtk')"
  shows "recv_loop (dump_run F mx rx seq pid) (Received (dgram_of seq pid ms) 12 # as) buf rtk =
    (if ret \<le> MNL_CB_STOP then Some (Inr (ret, rtk'))
     else recv_loop (dump_run F mx rx seq pid) as (dgram_of seq pid ms @ drop (length (dgram_of seq pid ms)) buf) rtk')"
proof -
  let ?d = "dgram_of seq pid ms" and ?buf = "dgram_of seq pid ms @ drop (length (dgram_of seq pid ms)) buf"
  obtain m ms' where "ms = m # ms'" using assms(2) by (cases ms) auto
  then have pos: "0 < length ?d" by (simp add: dgram_of_def dgram_def split_beta)
  have "length ?buf < 2 ^ 31" using assms(3,4) by simp
  from run_datagram [OF assms(1) refl this] assms(5)
  have "mnl_cb_run ?buf (length ?d) seq pid (Some (data_cb_bytes F mx rx ?buf)) rtk = Some (Inr (ret, rtk'))" by simp
  then show ?thesis using pos assms(3) by (simp add: recv_fits)
qed

definition chunk_ok :: "32 word \<Rightarrow> 32 word \<Rightarrow> nat \<Rightarrow> kmsg list \<Rightarrow> bool" where
  "chunk_ok seq pid n ms \<longleftrightarrow> length (dgram_of seq pid ms) \<le> n"

definition kfinal :: "kmsg \<Rightarrow> int" where
  "kfinal fin = (if fin = Kdone then MNL_CB_STOP else MNL_CB_ERROR)"

lemma recv_chunks:
  assumes "\<forall>c\<in>set chunks. routes c \<and> c \<noteq> [] \<and> chunk_ok seq pid (length buf) c" and "routes ms"
    and "chunk_ok seq pid (length buf) (ms @ [fin])" and "fin = Kdone \<or> (\<exists>e. fin = Kerror e \<and> e \<noteq> 0)" and "length buf < 2 ^ 31"
  shows "recv_loop (dump_run F mx rx seq pid) (map (\<lambda>ms. Received (dgram_of seq pid ms) 12) (chunks @ [ms @ [fin]])) buf rtk =
    Some (Inr (kfinal fin, fold (data_cb F) (says mx (concat chunks @ ms)) rtk))"
  using assms(1,3,5)
proof (induction chunks arbitrary: buf rtk)
  case Nil
  have ok: "\<forall>m\<in>set (ms @ [fin]). kmsg_ok m" using assms(2,4) by (auto simp add: routes_def)
  have "run_fold (kmsg_run F mx) (ms @ [fin]) MNL_CB_OK rtk = Inr (kfinal fin, fold (data_cb F) (says mx ms) rtk)"
    using assms(4) by (auto simp add: run_routes [OF assms(2)] kfinal_def)
  from recv_datagram [OF ok _ _ Nil.prems(3) this, where rx = rx and as = "[]"] Nil.prems(2)
  show ?case by (simp add: chunk_ok_def kfinal_def MNL_CB_STOP_def MNL_CB_ERROR_def)
next
  case (Cons c chunks)
  let ?buf = "dgram_of seq pid c @ drop (length (dgram_of seq pid c)) buf"
  have c: "routes c" "c \<noteq> []" "length (dgram_of seq pid c) \<le> length buf" using Cons.prems(1) by (simp_all add: chunk_ok_def)
  then have len: "length ?buf = length buf" by simp
  have ok: "\<forall>m\<in>set c. kmsg_ok m" using c(1) by (auto simp add: routes_def)
  have "run_fold (kmsg_run F mx) c MNL_CB_OK rtk = Inr (MNL_CB_OK, fold (data_cb F) (says mx c) rtk)"
    using run_routes [OF c(1), of F mx "[]" rtk] by simp
  from recv_datagram [OF ok c(2,3) Cons.prems(3) this, where rx = rx and as = "map (\<lambda>ms. Received (dgram_of seq pid ms) 12) (chunks @ [ms @ [fin]])"]
  have "recv_loop (dump_run F mx rx seq pid) (map (\<lambda>ms. Received (dgram_of seq pid ms) 12) ((c # chunks) @ [ms @ [fin]])) buf rtk =
      recv_loop (dump_run F mx rx seq pid) (map (\<lambda>ms. Received (dgram_of seq pid ms) 12) (chunks @ [ms @ [fin]])) ?buf (fold (data_cb F) (says mx c) rtk)"
    by (simp del: recv_loop.simps add: MNL_CB_OK_def MNL_CB_STOP_def)
  also have "\<dots> = Some (Inr (kfinal fin, fold (data_cb F) (says mx (concat chunks @ ms)) (fold (data_cb F) (says mx c) rtk)))"
  proof (rule Cons.IH)
    show "\<forall>c\<in>set chunks. routes c \<and> c \<noteq> [] \<and> chunk_ok seq pid (length ?buf) c" using Cons.prems(1) unfolding len by simp
    show "chunk_ok seq pid (length ?buf) (ms @ [fin])" "length ?buf < 2 ^ 31" using Cons.prems(2,3) unfolding len by simp_all
  qed
  finally show ?case by simp
qed

text \<open>C16: The dump of the routes, byte by byte over netlink, computes what the dump on abstract messages computes, however
  the kernel spreads its messages over datagrams and whatever surrounds the attributes: list, reuse of entries and
  the value returned, also when the kernel ends with an error.\<close>

theorem dump_refines:
  assumes "\<forall>c\<in>set chunks. routes c \<and> c \<noteq> [] \<and> chunk_ok seq pid (length buf) c" and "routes ms"
    and "chunk_ok seq pid (length buf) (ms @ [fin])" and "fin = Kdone \<or> (\<exists>e. fin = Kerror e \<and> e \<noteq> 0)" and "length buf < 2 ^ 31"
    and "k_dump K (kern s) = (says mx (concat chunks @ ms), fin = Kdone)" and "route_t (nd s) \<noteq> []"
  shows "\<exists>v s'. rt_table_dump F K s = Inr (v, s') \<and>
    rt_dump_bytes F mx rx seq pid (map (\<lambda>ms. Received (dgram_of seq pid ms) 12) (chunks @ [ms @ [fin]])) buf (route_t (nd s)) =
      Some (Inr (v, route_t (nd s')))"
proof -
  let ?rtk = "fold (data_cb F) (says mx (concat chunks @ ms)) (route_t (nd s), 0)"
  obtain rt k where rtk: "?rtk = (rt, k)" by (cases ?rtk)
  have "rt_dump_bytes F mx rx seq pid (map (\<lambda>ms. Received (dgram_of seq pid ms) 12) (chunks @ [ms @ [fin]])) buf (route_t (nd s)) =
      Some (Inr (if kfinal fin = -1 then [] else rt, rt))"
    unfolding rt_dump_bytes_def recv_chunks [OF assms(1-5)] rtk using assms(7) by simp
  moreover have "rt_table_dump F K s = Inr (if fin = Kdone then rt else [], s\<lparr>nd := (nd s)\<lparr>route_t := rt\<rparr>\<rparr>)"
    using assms(6,7) rtk by (simp add: rt_table_dump_def)
  ultimately show ?thesis by (auto simp add: kfinal_def MNL_CB_STOP_def MNL_CB_ERROR_def)
qed

text \<open>The fixed part of a message about a route.\<close>

definition rtm_bytes :: "8 word \<Rightarrow> mem" where
  "rtm_bytes msk = [AF_INET6, msk, 0, 0, 254, 3, 253, 1] @ store32 0"

text \<open>Two routes in two datagrams, one of them with the name of its gateway, and the end.\<close>

definition sample_route_kmsg :: kmsg where
  "sample_route_kmsg = Kroute 2 (rtm_bytes 64) [(RTA_GATEWAY, addr_bytes net_default, [])]"

lemma sample_route_routes: "routes [sample_route_kmsg]"
  by (simp add: routes_def sample_route_kmsg_def rtm_bytes_def route_attrs_def attr_wf_def attr_typed_def rta_defs NLA_TYPE_MASK_def
      MNL_ALIGN_def attr_bytes_def)

theorem dump_refines_witness:
  "\<exists>v s'. rt_table_dump sample_fenv list_kernel (sample_fwd\<lparr>nd := sample_node\<lparr>route_t := [sample_route]\<rparr>,
        kern := says 20 [sample_route_kmsg, sample_route_kmsg]\<rparr>) = Inr (v, s') \<and>
     rt_dump_bytes sample_fenv 20 16 7 9 [Received (dgram_of 7 9 [sample_route_kmsg]) 12, Received (dgram_of 7 9 [sample_route_kmsg, Kdone]) 12]
       (replicate 256 0) [sample_route] = Some (Inr (v, route_t (nd s')))"
proof -
  let ?s = "sample_fwd\<lparr>nd := sample_node\<lparr>route_t := [sample_route]\<rparr>, kern := says 20 [sample_route_kmsg, sample_route_kmsg]\<rparr>"
  have c: "\<forall>c\<in>set [[sample_route_kmsg]]. routes c \<and> c \<noteq> [] \<and> chunk_ok 7 9 (length (replicate 256 (0 :: 8 word))) c"
    and e: "chunk_ok 7 9 (length (replicate 256 (0 :: 8 word))) ([sample_route_kmsg] @ [Kdone])"
    using sample_route_routes
    by (simp_all add: chunk_ok_def dgram_of_def sample_route_kmsg_def rtm_bytes_def nl_hdr_def attr_bytes_def)
  have k: "k_dump list_kernel (kern ?s) = (says 20 (concat [[sample_route_kmsg]] @ [sample_route_kmsg]), Kdone = Kdone)" by (simp add: list_kernel_def)
  show ?thesis using dump_refines [OF c sample_route_routes e _ _ k, of sample_fenv 16] by simp
qed

section \<open>Requests\<close>

text \<open>A message about a route: well formed, with a fixed part of 12 bytes and attributes of the right sizes.\<close>

definition route_typed :: "mem \<Rightarrow> bool" where
  "route_typed buf \<longleftrightarrow> (\<exists>h rtm ps rest. buf = message [] h (rtm @ enc ps) rest \<and> nl_wf h (rtm @ enc ps) \<and> length rtm = 12 \<and> route_attrs ps)"

lemma nl_request_message:
  assumes "16 \<le> length buf"
  shows "nl_request ty flags seq buf = Inr (message [] (nl_hdr ty flags seq 0) [] (drop 16 buf))"
proof -
  let ?r = "drop 16 buf" and ?l = "store32 (len_field [])" and ?z = "replicate 4 (0 :: 8 word)"
  have 1: "mnl_nlmsg_put_header 0 buf = Inr (?l @ replicate 12 0 @ ?r)"
    using put_header_message [OF assms, of "[]"] by (simp add: message_def)
  have z: "replicate 12 (0 :: 8 word) = replicate 2 0 @ replicate 2 0 @ ?z @ ?z" by (simp only: replicate_add [symmetric]) simp
  have z4: "?z = store32 0" by code_simp
  have "write_at 4 (store16 ty) (?l @ replicate 12 0 @ ?r) = Inr (?l @ store16 ty @ replicate 2 0 @ ?z @ ?z @ ?r)"
    unfolding z append_assoc by (rule write_at_same) simp_all
  moreover have "write_at 6 (store16 flags) ((?l @ store16 ty) @ replicate 2 0 @ ?z @ ?z @ ?r) = Inr ((?l @ store16 ty) @ store16 flags @ ?z @ ?z @ ?r)"
    by (rule write_at_same) simp_all
  moreover have "write_at 8 (store32 seq) ((?l @ store16 ty @ store16 flags) @ ?z @ ?z @ ?r) = Inr ((?l @ store16 ty @ store16 flags) @ store32 seq @ ?z @ ?r)"
    by (rule write_at_same) simp_all
  ultimately show ?thesis using 1 by (simp add: nl_request_def message_def nl_hdr_def z4)
qed

lemma message_extra:
  assumes "length h = 12" and "length body = length body'"
  shows "write_at 16 body' (message [] h body rest) = Inr (message [] h body' rest)"
proof -
  have "len_field body = len_field body'" using assms(2) by (rule len_field_cong)
  then show ?thesis
    using write_at_same [of "store32 (len_field body') @ h" 16 body body' rest] assms by (simp add: message_def)
qed

lemma last_attr_plain: "last_attr mx ty ps = map_option snd (find (\<lambda>(t, d). t = ty \<and> \<not> t > mx) (rev (plain ps)))"
  by (induction ps rule: rev_induct) (auto simp add: last_attr_def split: if_splits)

definition req_attrs :: "32 word \<Rightarrow> in6_addr \<Rightarrow> in6_addr \<Rightarrow> int \<Rightarrow> (16 word \<times> mem) list" where
  "req_attrs ifindex dst gw distance =
     [(RTA_DST, addr_bytes dst), (RTA_OIF, store32 ifindex), (RTA_PRIORITY, store32 (word_of_int distance)), (RTA_GATEWAY, addr_bytes gw)]"

lemma route_request_message:
  assumes "84 \<le> length buf"
  obtains ps where "plain ps = req_attrs ifindex dst gw distance" and "padded_wf ps"
    and "route_request ty seq ifindex dst gw msk distance buf =
      Inr (message [] (nl_hdr ty (NLM_F_REQUEST OR NLM_F_CREATE) seq 0) (rtm_bytes msk @ enc ps) (drop 84 buf))"
proof -
  let ?h = "nl_hdr ty (NLM_F_REQUEST OR NLM_F_CREATE) seq 0" and ?as = "req_attrs ifindex dst gw distance"
  have h: "length ?h = 12" by (simp add: nl_hdr_def)
  have al: "MNL_ALIGN 12 = 12" "MNL_ALIGN 16 = 16" by (simp_all add: MNL_ALIGN_def)
  have 1: "nl_request ty (NLM_F_REQUEST OR NLM_F_CREATE) seq buf = Inr (message [] ?h [] (drop 16 buf))"
    using assms by (intro nl_request_message) simp
  have "nl_wf ?h []" using h by (simp add: nl_wf_def)
  from put_extra_message [OF this, of 12 "drop 16 buf" "[]"] assms
  have 2: "mnl_nlmsg_put_extra_header 0 12 (message [] ?h [] (drop 16 buf)) = Inr (16, message [] ?h (replicate 12 0) (drop 28 buf))" by (simp add: al)
  have 3: "write_at 16 (rtm_bytes msk) (message [] ?h (replicate 12 0) (drop 28 buf)) = Inr (message [] ?h (rtm_bytes msk) (drop 28 buf))"
    using h by (intro message_extra) (simp_all add: rtm_bytes_def)
  have room: "room ?as = 56" by (simp add: room_def req_attrs_def al)
  have "nl_wf ?h (rtm_bytes msk)" using h by (simp add: nl_wf_def rtm_bytes_def)
  moreover have "\<forall>(ty, d)\<in>set ?as. length d \<le> 65531" by (simp add: req_attrs_def)
  moreover have "room ?as \<le> length (drop 28 buf)" "16 + length (rtm_bytes msk) + room ?as < 2 ^ 31" using assms room by (simp_all add: rtm_bytes_def)
  ultimately obtain ps where ps: "plain ps = ?as" "padded_wf ps"
    "put_all 0 ?as (message [] ?h (rtm_bytes msk) (drop 28 buf)) = Inr (message [] ?h (rtm_bytes msk @ enc ps) (drop 56 (drop 28 buf)))"
    using put_all_message [of ?h "rtm_bytes msk" ?as "drop 28 buf" "[]"] room by (metis list.size(3))
  have "bind r Inr = r" for r :: "mem result" by (cases r) simp_all
  moreover have "put_all 0 [] = Inr" "put_all 0 ((t, d) # as) = (\<lambda>buf. bind (mnl_attr_put 0 t d buf) (put_all 0 as))" for t d as
    by (simp_all add: fun_eq_iff)
  ultimately have "route_request ty seq ifindex dst gw msk distance buf = put_all 0 ?as (message [] ?h (rtm_bytes msk) (drop 28 buf))"
    using 3 by (simp add: route_request_def 1 2 rtm_bytes_def req_attrs_def mnl_attr_put_u32_def)
  with ps that show ?thesis by simp
qed

text \<open>C18: The request that adds or deletes a route is well typed in any buffer of 84 bytes: a message of exactly that
  length that passes the check for messages, of the type asked for, whose attributes all have the size that belongs to
  their type. Reading it as a route, the way the dump is read, gives back destination, length of the mask, gateway and distance.\<close>

theorem route_request_well_typed:
  assumes "84 \<le> length buf" and "length buf < 2 ^ 31" and "6 \<le> mx"
  shows "\<exists>buf'. route_request ty seq ifindex dst gw msk distance buf = Inr buf' \<and> length buf' = length buf \<and> route_typed buf' \<and>
    mnl_nlmsg_ok 0 buf' 84 = Inr True \<and> nlmsg_type 0 buf' = Inr ty \<and> nlmsg_seq 0 buf' = Inr seq \<and>
    data_cb_bytes F mx rx buf' 0 (rt, k) = Inr (MNL_CB_OK, data_cb F
      \<lparr>m_inet6 = True, m_dst_len = msk, m_table = None, m_dst = Some dst, m_priority = Some (sint (word_of_int distance :: 32 word)), m_gateway = Some gw\<rparr> (rt, k))"
proof -
  let ?h = "nl_hdr ty (NLM_F_REQUEST OR NLM_F_CREATE) seq 0"
  obtain ps where ps: "plain ps = req_attrs ifindex dst gw distance" "padded_wf ps"
    "route_request ty seq ifindex dst gw msk distance buf = Inr (message [] ?h (rtm_bytes msk @ enc ps) (drop 84 buf))"
    by (rule route_request_message [OF assms(1)])
  let ?b = "message [] ?h (rtm_bytes msk @ enc ps) (drop 84 buf)"
  have l: "length (enc ps) = 56" "length (rtm_bytes msk) = 12" "length ?h = 12"
    using length_enc [OF ps(2)] unfolding ps(1) by (simp_all add: req_attrs_def room_def MNL_ALIGN_def rtm_bytes_def nl_hdr_def)
  have wf: "nl_wf ?h (rtm_bytes msk @ enc ps)" using l by (simp add: nl_wf_def)
  have "(t, d) \<in> set (plain ps) \<Longrightarrow> attr_typed t d" for t d
    unfolding ps(1) by (auto simp add: req_attrs_def attr_typed_def rta_defs NLA_TYPE_MASK_def)
  then have typed: "route_attrs ps" using ps(2) by (force simp add: route_attrs_def plain_def)
  have len: "length ?b = length buf" using l assms(1) by (simp add: message_def)
  have ok: "mnl_nlmsg_ok 0 ?b 84 = Inr True" using message_ok [OF wf, of "[]"] l by (simp add: len_field_def)
  have mx: "\<not> mx < RTA_DST" "\<not> mx < RTA_PRIORITY" "\<not> mx < RTA_GATEWAY" "\<not> mx < RTA_OIF"
    using assms(3) by (simp_all only: rta_defs not_less) (erule order_trans [rotated], simp)+
  have addr: "addr_at (addr_bytes a) 0 = a" for a using addr_at_bytes [of "[]" 0 a "[]"] by simp
  have "route_msg mx (rtm_bytes msk) ps =
      \<lparr>m_inet6 = True, m_dst_len = msk, m_table = None, m_dst = Some dst, m_priority = Some (sint (word_of_int distance :: 32 word)), m_gateway = Some gw\<rparr>"
    using mx le32_store32 [of "word_of_int distance" "[]"] addr
    by (simp add: route_msg_def last_attr_plain ps(1) req_attrs_def rtm_bytes_def rta_defs)
  then have "data_cb_bytes F mx rx ?b 0 (rt, k) = Inr (MNL_CB_OK, data_cb F
      \<lparr>m_inet6 = True, m_dst_len = msk, m_table = None, m_dst = Some dst, m_priority = Some (sint (word_of_int distance :: 32 word)), m_gateway = Some gw\<rparr> (rt, k))"
    using data_cb_refines [OF wf l(2) typed refl, of "[]" "drop 84 buf"] len assms(2) by simp
  moreover have "route_typed ?b" using wf l(2) typed unfolding route_typed_def by blast
  moreover have "nlmsg_type 0 ?b = Inr ty" "nlmsg_seq 0 ?b = Inr seq" using hdr_fields [of ?b "[]"] by simp_all
  ultimately show ?thesis using ps(3) len ok by (intro exI [of _ ?b]) simp
qed

theorem route_request_well_typed_witness:
  "\<exists>buf'. route_request RTM_NEWROUTE 7 2 zero_addr net_default 64 3 (replicate 100 1) = Inr buf' \<and> route_typed buf' \<and>
     data_cb_bytes sample_fenv 20 16 buf' 0 ([sample_route], 0) = Inr (MNL_CB_OK, data_cb sample_fenv
       \<lparr>m_inet6 = True, m_dst_len = 64, m_table = None, m_dst = Some zero_addr, m_priority = Some 3, m_gateway = Some net_default\<rparr> ([sample_route], 0))"
  using route_request_well_typed [of "replicate 100 1" 20 RTM_NEWROUTE 7 2 zero_addr net_default 64 3 sample_fenv 16 "[sample_route]" 0] by auto

end
