(* ===== verification/Older_Secondary.thy ===== *)
theory Older_Secondary
  imports Hcb_Address
begin

text \<open>
  The first version of the secondary addresses, still in \<open>hcb_address.c\<close> beside the one of \<open>secondary.c\<close> that replaced it; nothing calls
  it any more. It has a flag of its own, \<open>addr_avai\<close>, and a timer of its own, so its state is a node with these two. Two
  small functions on the clock are here as well.
\<close>

record older =
  o_nd :: node
  addr_avai :: bool
  san_timers :: "int list"

section \<open>The clock\<close>

text \<open>Times are in seconds: the deadline, and whether it is this very second. A later second does not count.\<close>

definition set_timer :: "int \<Rightarrow> int \<Rightarrow> int" where
  "set_timer now sec = now + sec"

definition check_timer :: "int \<Rightarrow> int \<Rightarrow> bool" where
  "check_timer now tv \<longleftrightarrow> now = tv"

lemma check_timer_misses: "0 < late \<Longrightarrow> \<not> check_timer (now + sec + late) (set_timer now sec)"
  by (simp add: check_timer_def set_timer_def)

section \<open>Proposals\<close>

definition san_t_handler1 :: "older \<Rightarrow> older" where
  "san_t_handler1 s = (if \<not> addr_avai s then s\<lparr>addr_avai := True\<rparr> else s)"

definition send_san :: "env \<Rightarrow> in6_addr \<Rightarrow> in6_addr \<Rightarrow> older \<Rightarrow> older" where
  "send_san E dst sec s =
     (let san = null_ctrl\<lparr>ad_addr := (ad_addr null_ctrl)\<lparr>a_addr := sec\<rparr>, p_src_addr := if_addr E, pkt_type_f := SAN\<rparr>
      in s\<lparr>o_nd := antop_socket_send E (Ctrl san) dst (socket_global (o_nd s)) ANTOP_PORT (o_nd s)\<rparr>)"

definition sap_packet :: "env \<Rightarrow> in6_addr \<Rightarrow> byte \<Rightarrow> node \<Rightarrow> ctrl_pkt" where
  "sap_packet E sec msk n =
     (ctrl_junk E)\<lparr>pkt_type_f := SAP, p_prim_addr := prim_addr n, p_src_addr := prim_addr n,
       ad_addr := (ad_addr (ctrl_junk E))\<lparr>a_addr := sec, a_mask := msk, a_red_numero := red_numero n\<rparr>,
       prim_addr_len := word_of_nat (hc_dim n)\<rparr>"

text \<open>The flag is not reset, so that the next proposal does not wait for the answer to this one.\<close>

definition send_sap :: "env \<Rightarrow> int \<Rightarrow> in6_addr \<Rightarrow> in6_addr \<Rightarrow> byte \<Rightarrow> older \<Rightarrow> older" where
  "send_sap E sock dst sec msk s =
     (if \<not> addr_avai s then s
      else s\<lparr>san_timers := san_timers s @ [T_SAN],
             o_nd := antop_socket_send E (Ctrl (sap_packet E sec msk (o_nd s))) dst sock ANTOP_PORT (o_nd s)\<rparr>)"

text \<open>A recovered address that is confirmed is freed without being unlinked.\<close>

definition process_san :: "ctrl_pkt \<Rightarrow> older \<Rightarrow> older result" where
  "process_san msg s =
     (if a_addr (ad_addr msg) \<in> r_prim_addr ` set (rcvd_addr (o_nd s)) then Inl Use_After_Free
      else Inr (s\<lparr>o_nd := (o_nd s)\<lparr>prim_mask := prim_mask (o_nd s) + 1\<rparr>\<rparr>))"

definition process_sap :: "env \<Rightarrow> ctrl_pkt \<Rightarrow> older \<Rightarrow> older result" where
  "process_sap E msg s =
     (if sec_addr_flag (o_nd s) then Inr s
      else
        let hb = (ctrl_junk E)\<lparr>p_prim_addr := p_src_addr msg, ad_addr := (ad_addr (ctrl_junk E))\<lparr>a_mask := a_mask (ad_addr msg)\<rparr>\<rparr>;
            n = emit (Set_If_Addr (a_addr (ad_addr msg))) ((o_nd s)\<lparr>sec_addr := a_addr (ad_addr msg)\<rparr>);
            n = n\<lparr>sec_mask := a_mask (ad_addr msg), sec_addr_flag := True\<rparr>
        in bind (add_neighbor hb True (init_neigh_table E n)) (\<lambda>n.
             Inr (send_san E (p_src_addr msg) (a_addr (ad_addr msg)) (s\<lparr>o_nd := n\<rparr>))))"

text \<open>
  First the recovered addresses, but for the last, then the child address of the node, whatever its distance from the
  neighbour: that test is in a comment.
\<close>

definition chk_sec_addr :: "env \<Rightarrow> neighbor \<Rightarrow> older \<Rightarrow> older result" where
  "chk_sec_addr E neigh s =
     (case find (\<lambda>it. dist (r_prim_addr it) neigh = 1) (butlast (rcvd_addr (o_nd s))) of
        Some it \<Rightarrow> Inr (send_sap E (socket_global (o_nd s)) (n_prim_addr neigh) (r_prim_addr it) (r_prim_mask it) s)
      | None \<Rightarrow>
          if unat (prim_mask (o_nd s)) \<ge> hc_dim (o_nd s) then Inr s
          else bind (split_addr (prim_addr (o_nd s)) (prim_mask (o_nd s))) (\<lambda>a.
                 Inr (send_sap E (socket_global (o_nd s)) (n_prim_addr neigh) a (prim_mask (o_nd s) + 1) s)))"

section \<open>What became of it\<close>

text \<open>Once a proposal has gone out nothing keeps the next from going out: the flag never changes.\<close>

lemma addr_avai_kept:
  "addr_avai (san_t_handler1 s) \<longleftrightarrow> True"
  "addr_avai (send_sap E sock dst sec msk s) = addr_avai s"
  "process_san msg s = Inr s' \<Longrightarrow> addr_avai s' = addr_avai s"
  "process_sap E msg s = Inr s' \<Longrightarrow> addr_avai s' = addr_avai s"
  "chk_sec_addr E neigh s = Inr s' \<Longrightarrow> addr_avai s' = addr_avai s"
  by (auto simp add: san_t_handler1_def send_sap_def process_san_def process_sap_def chk_sec_addr_def send_san_def Let_def elim!: bind_InrE
      split: if_splits option.splits)

text \<open>Two calls propose one and the same child address twice.\<close>

lemma proposes_twice:
  assumes "addr_avai s" and "rcvd_addr (o_nd s) = []" and "unat (prim_mask (o_nd s)) < hc_dim (o_nd s)"
    and "split_addr (prim_addr (o_nd s)) (prim_mask (o_nd s)) = Inr a"
  shows "\<exists>s1 s2 p. chk_sec_addr E n1 s = Inr s1 \<and> chk_sec_addr E n2 s1 = Inr s2 \<and> a_addr (ad_addr p) = a \<and>
    trace (o_nd s2) = trace (o_nd s) @
      [Sendmsg (Ctrl p) (if prim_addr_flag (o_nd s) then prim_addr (o_nd s) else if_addr E) (n_prim_addr n1) (socket_global (o_nd s)) ANTOP_PORT,
       Sendmsg (Ctrl p) (if prim_addr_flag (o_nd s) then prim_addr (o_nd s) else if_addr E) (n_prim_addr n2) (socket_global (o_nd s)) ANTOP_PORT]"
proof -
  let ?s1 = "send_sap E (socket_global (o_nd s)) (n_prim_addr n1) a (prim_mask (o_nd s) + 1) s"
  let ?s2 = "send_sap E (socket_global (o_nd s)) (n_prim_addr n2) a (prim_mask (o_nd s) + 1) ?s1"
  let ?p = "sap_packet E a (prim_mask (o_nd s) + 1) (o_nd s)"
  have 1: "chk_sec_addr E n1 s = Inr ?s1" using assms by (simp add: chk_sec_addr_def)
  have f: "rcvd_addr (o_nd ?s1) = []" "prim_mask (o_nd ?s1) = prim_mask (o_nd s)" "hc_dim (o_nd ?s1) = hc_dim (o_nd s)"
    "prim_addr (o_nd ?s1) = prim_addr (o_nd s)" "socket_global (o_nd ?s1) = socket_global (o_nd s)"
    "red_numero (o_nd ?s1) = red_numero (o_nd s)" "prim_addr_flag (o_nd ?s1) = prim_addr_flag (o_nd s)"
    using assms by (simp_all add: send_sap_def antop_socket_send_def)
  have 2: "chk_sec_addr E n2 ?s1 = Inr ?s2" using assms f by (simp add: chk_sec_addr_def)
  have "trace (o_nd ?s2) = trace (o_nd s) @
      [Sendmsg (Ctrl ?p) (if prim_addr_flag (o_nd s) then prim_addr (o_nd s) else if_addr E) (n_prim_addr n1) (socket_global (o_nd s)) ANTOP_PORT,
       Sendmsg (Ctrl ?p) (if prim_addr_flag (o_nd s) then prim_addr (o_nd s) else if_addr E) (n_prim_addr n2) (socket_global (o_nd s)) ANTOP_PORT]"
    using assms(1) by (simp add: send_sap_def antop_socket_send_def sap_packet_def)
  with 1 2 show ?thesis by (intro exI [of _ ?s1] exI [of _ ?s2] exI [of _ ?p]) (simp add: sap_packet_def)
qed

end
