(* ===== verification/Mnl_Socket.thy ===== *)
theory Mnl_Socket
  imports Netlink
begin

text \<open>
  Netlink sockets: \<open>socket.c\<close> of the netlink library, but for \<open>mnl_socket_recvfrom\<close>, which is in \<open>Rt_Netlink\<close>, and the older interface of
  \<open>rt_table.c\<close> to the same, which the daemon does not call. What the system calls return is an argument. That memory can
  be allocated is assumed.
\<close>

record sockaddr_nl =
  sn_family :: "16 word"
  sn_pid :: "32 word"
  sn_groups :: "32 word"

definition AF_NETLINK :: "16 word" where "AF_NETLINK = 16"

text \<open>What \<open>getsockname\<close> does: its value, the address it stores and the length it reports. The address has 12 bytes.\<close>

type_synonym sockname = "int \<times> sockaddr_nl \<times> nat"

section \<open>Sockets of the library\<close>

record mnl_socket =
  ms_fd :: int
  ms_addr :: sockaddr_nl

definition mnl_socket_get_fd :: "mnl_socket \<Rightarrow> int" where
  "mnl_socket_get_fd nl = ms_fd nl"

definition mnl_socket_get_portid :: "mnl_socket \<Rightarrow> 32 word" where
  "mnl_socket_get_portid nl = sn_pid (ms_addr nl)"

definition mnl_socket_open :: "int \<Rightarrow> mnl_socket option" where
  "mnl_socket_open fd =
     (if fd = -1 then None else Some \<lparr>ms_fd = fd, ms_addr = \<lparr>sn_family = 0, sn_pid = 0, sn_groups = 0\<rparr>\<rparr>)"

definition mnl_socket_bind :: "int \<Rightarrow> sockname \<Rightarrow> 32 word \<Rightarrow> 32 word \<Rightarrow> mnl_socket \<Rightarrow> int \<times> mnl_socket" where
  "mnl_socket_bind bound named groups pid nl =
     (let nl = nl\<lparr>ms_addr := \<lparr>sn_family = AF_NETLINK, sn_pid = pid, sn_groups = groups\<rparr>\<rparr>
      in if bound < 0 then (bound, nl)
         else
           let (ret, addr, addr_len) = named
           in if ret < 0 then (ret, nl)
              else
                let nl = nl\<lparr>ms_addr := addr\<rparr>
                in if addr_len \<noteq> 12 then (-1, nl) else if sn_family addr \<noteq> AF_NETLINK then (-1, nl) else (0, nl))"

text \<open>The bytes that go out, to the kernel.\<close>

definition mnl_socket_sendto :: "mem \<Rightarrow> nat \<Rightarrow> mem result" where
  "mnl_socket_sendto buf len = read_bytes 0 len buf"

definition mnl_socket_close :: "int \<Rightarrow> int" where
  "mnl_socket_close closed = closed"

text \<open>A socket that has been bound with success has the port the kernel reports, which need not be the one asked for.\<close>

lemma bound_port: "mnl_socket_bind bound named groups pid nl = (0, nl') \<Longrightarrow> bound = 0 \<or> 0 < bound \<Longrightarrow>
    mnl_socket_get_portid nl' = sn_pid (fst (snd named)) \<and> sn_family (ms_addr nl') = AF_NETLINK \<and> mnl_socket_get_fd nl' = mnl_socket_get_fd nl"
  by (auto simp add: mnl_socket_bind_def mnl_socket_get_portid_def mnl_socket_get_fd_def Let_def split: prod.splits if_splits)

section \<open>The older interface\<close>

text \<open>A handler is its type and a number; the list has the handler registered last in front.\<close>

record rtnl_handle =
  rtnl_fd :: int
  rtnl_seq :: "32 word"
  rtnl_dump :: "32 word"
  rtnl_local :: sockaddr_nl
  rh_handlers :: "(16 word \<times> nat) list"

text \<open>\<open>h\<close> is the memory as it has been allocated: \<open>rtnl_dump\<close> and the list of handlers are never set.\<close>

definition rtnl_open :: "rtnl_handle \<Rightarrow> int \<Rightarrow> int \<Rightarrow> sockname \<Rightarrow> 32 word \<Rightarrow> rtnl_handle option" where
  "rtnl_open h fd bound named now =
     (if fd < 0 then None
      else if bound < 0 then None
      else
        let (ret, addr, addrlen) = named
        in if ret < 0 then None
           else if addrlen \<noteq> 12 then None
           else if sn_family addr \<noteq> AF_NETLINK then None
           else Some (h\<lparr>rtnl_fd := fd, rtnl_local := addr, rtnl_seq := now\<rparr>))"

text \<open>The request: \<open>NLM_F_REQUEST\<close> and \<open>NLM_F_ROOT\<close>, the family \<open>AF_INET6\<close>, three bytes of padding.\<close>

definition rtnl_dump_type :: "16 word \<Rightarrow> rtnl_handle \<Rightarrow> mem \<times> rtnl_handle" where
  "rtnl_dump_type ty h =
     (let h = h\<lparr>rtnl_seq := rtnl_seq h + 1\<rparr>; h = h\<lparr>rtnl_dump := rtnl_seq h\<rparr>
      in (store32 20 @ store16 ty @ store16 0x0101 @ store32 (rtnl_seq h) @ store32 0 @ [10, 0, 0, 0], h))"

definition rtnl_handler_register :: "16 word \<times> nat \<Rightarrow> rtnl_handle \<Rightarrow> int \<times> rtnl_handle" where
  "rtnl_handler_register hdlr h = (1, h\<lparr>rh_handlers := hdlr # rh_handlers h\<rparr>)"

definition RTA_OK :: "nat \<Rightarrow> mem \<Rightarrow> int \<Rightarrow> bool result" where
  "RTA_OK rta buf len = (if len \<ge> 4 then bind (nla_len rta buf) (\<lambda>l. Inr (4 \<le> l \<and> uint l \<le> len)) else Inr False)"

lemma rta_ok_bounds: "RTA_OK rta buf len = Inr True \<Longrightarrow> nla_len rta buf = Inr l \<Longrightarrow> 0 < MNL_ALIGN (unat l) \<and> 4 \<le> len"
  by (auto simp add: RTA_OK_def MNL_ALIGN_def word_le_nat_alt split: if_splits)

text \<open>\<open>tb\<close> is the table of the caller; an entry behind its end is out of bounds.\<close>

function rta_loop :: "nat \<Rightarrow> mem \<Rightarrow> nat \<Rightarrow> int \<Rightarrow> nat option list \<Rightarrow> (int \<times> nat option list) result" where
  "rta_loop mx buf rta len tb =
     bind (RTA_OK rta buf len) (\<lambda>ok.
       if ok then
         bind (nla_type rta buf) (\<lambda>t. bind (nla_len rta buf) (\<lambda>l.
           if unat t \<le> mx \<and> unat t \<ge> length tb then Inl Out_Of_Bounds
           else rta_loop mx buf (rta + MNL_ALIGN (unat l)) (len - int (MNL_ALIGN (unat l))) (if unat t \<le> mx then tb[unat t := Some rta] else tb)))
       else Inr (len, tb))"
  by pat_completeness auto

termination
  by (relation "measure (\<lambda>(mx, buf, rta, len, tb). nat len)") (simp, use rta_ok_bounds in fastforce)

declare rta_loop.simps [simp del]

text \<open>The first \<open>max\<close> entries are cleared.\<close>

definition rtnl_parse_rta :: "nat \<Rightarrow> mem \<Rightarrow> nat \<Rightarrow> int \<Rightarrow> nat option list \<Rightarrow> (int \<times> nat option list) result" where
  "rtnl_parse_rta mx buf rta len tb =
     (if length tb < mx then Inl Out_Of_Bounds
      else bind (rta_loop mx buf rta len (replicate mx None @ drop mx tb)) (\<lambda>(len, tb). Inr (if len \<noteq> 0 then -1 else 0, tb)))"

text \<open>The entry for the type \<open>max\<close> itself is used but not cleared: it stays what it was when there is no such attribute.\<close>

lemma last_entry_stale: "length tb = mx + 1 \<Longrightarrow> rtnl_parse_rta mx buf rta 0 tb = Inr (0, replicate mx None @ [tb ! mx])"
  by (simp add: rtnl_parse_rta_def, subst rta_loop.simps) (simp add: RTA_OK_def Cons_nth_drop_Suc [symmetric])

end
