(* ===== verification/Netfilter.thy ===== *)
theory Netfilter
  imports Netlink_Run
begin

text \<open>
  The library between the daemon and the netfilter subsystems of the kernel (\<open>libnfnetlink.c\<close>): handles with their
  tables of callbacks, the building and reading of messages and attributes, and the loops over received buffers.
  Buffers and pointers are as in \<open>Netlink\<close>. What the system calls return is an argument. A callback works on the
  state of the client, which is the type variable \<open>'s\<close>. The macros of the headers of the system compute what those
  of \<open>libmnl.h\<close> compute. The number of the last error is modelled where a function of the library reads it.
\<close>

section \<open>Macros\<close>

abbreviation NLMSG_ALIGN :: "32 word \<Rightarrow> 32 word" where "NLMSG_ALIGN \<equiv> MNL_ALIGN32"
abbreviation NFA_ALIGN :: "nat \<Rightarrow> nat" where "NFA_ALIGN \<equiv> MNL_ALIGN"

definition NFNL_MAX_SUBSYS :: nat where "NFNL_MAX_SUBSYS = 16"
definition NFNL_F_SEQTRACK_ENABLED :: "32 word" where "NFNL_F_SEQTRACK_ENABLED = 1"
definition NLM_F_MULTI :: "16 word" where "NLM_F_MULTI = 2"
definition NFNL_CB_STOP :: int where "NFNL_CB_STOP = 0"

definition NFNL_SUBSYS_ID :: "16 word \<Rightarrow> nat" where "NFNL_SUBSYS_ID x = unat (drop_bit 8 x)"
definition NFNL_MSG_TYPE :: "16 word \<Rightarrow> nat" where "NFNL_MSG_TYPE x = unat (x AND 0x00ff)"

definition NLMSG_DATA :: "nat \<Rightarrow> nat" where "NLMSG_DATA nlh = nlh + 16"
definition NFM_NFA :: "nat \<Rightarrow> nat" where "NFM_NFA nfg = nfg + 4"
definition NFA_DATA :: "nat \<Rightarrow> nat" where "NFA_DATA nfa = nfa + 4"

definition NFA_TYPE :: "nat \<Rightarrow> mem \<Rightarrow> nat result" where
  "NFA_TYPE nfa buf = bind (nla_type nfa buf) (\<lambda>t. Inr (unat (t AND 0x7fff)))"

definition NFA_OK :: "nat \<Rightarrow> mem \<Rightarrow> int \<Rightarrow> bool result" where
  "NFA_OK nfa buf len = (if len > 0 then bind (nla_len nfa buf) (\<lambda>l. Inr (4 \<le> l \<and> uint l \<le> len)) else Inr False)"

definition NFA_NEXT :: "nat \<Rightarrow> mem \<Rightarrow> int \<Rightarrow> (nat \<times> int) result" where
  "NFA_NEXT nfa buf len = bind (nla_len nfa buf) (\<lambda>l. Inr (nfa + NFA_ALIGN (unat l), len - int (NFA_ALIGN (unat l))))"

definition NLMSG_OK :: "nat \<Rightarrow> mem \<Rightarrow> 64 word \<Rightarrow> bool result" where
  "NLMSG_OK nlh buf len = (if 16 \<le> len then bind (nlmsg_len nlh buf) (\<lambda>l. Inr (16 \<le> l \<and> ucast l \<le> len)) else Inr False)"

definition NLMSG_NEXT :: "nat \<Rightarrow> mem \<Rightarrow> 64 word \<Rightarrow> (nat \<times> 64 word) result" where
  "NLMSG_NEXT nlh buf len = bind (nlmsg_len nlh buf) (\<lambda>l. Inr (nlh + unat (NLMSG_ALIGN l), len - ucast (NLMSG_ALIGN l)))"

section \<open>Handles\<close>

text \<open>
  A callback gets the buffer, the offset of the message and the table of its attributes, offsets again. The array of
  subsystems has 17 entries; a pointer to one is its index. A subsystem that is not open has no callbacks.
\<close>

type_synonym 's nf_call = "mem \<Rightarrow> nat \<Rightarrow> nat option list \<Rightarrow> 's \<Rightarrow> (int \<times> 's) result"

record 's nfnl_callback =
  cb_call :: "'s nf_call option"
  attr_count :: nat

record 's nfnl_subsys_handle =
  ssh_subscriptions :: "32 word"
  subsys_id :: nat
  cb_count :: nat
  ssh_cb :: "'s nfnl_callback list option"

record 's nfnl_handle =
  nl_pid :: "32 word"
  nl_groups :: "32 word"
  nfh_subscriptions :: "32 word"
  nfh_seq :: "32 word"
  rcv_buffer_size :: nat
  nfh_flags :: "32 word"
  last_nlhdr :: "nat option"
  subsys :: "'s nfnl_subsys_handle list"

definition no_callback :: "'s nfnl_callback" where
  "no_callback = \<lparr>cb_call = None, attr_count = 0\<rparr>"

definition no_subsys :: "'s nfnl_subsys_handle" where
  "no_subsys = \<lparr>ssh_subscriptions = 0, subsys_id = 0, cb_count = 0, ssh_cb = None\<rparr>"

definition nfnl_portid :: "'s nfnl_handle \<Rightarrow> 32 word" where
  "nfnl_portid h = nl_pid h"

text \<open>\<open>bound\<close> tells whether \<open>bind\<close> succeeds.\<close>

definition recalc_rebind_subscriptions :: "bool \<Rightarrow> 's nfnl_handle \<Rightarrow> int \<times> 's nfnl_handle" where
  "recalc_rebind_subscriptions bound h =
     (let new = fold (\<lambda>ssh w. w OR ssh_subscriptions ssh) (take NFNL_MAX_SUBSYS (subsys h)) (nfh_subscriptions h);
          h = h\<lparr>nl_groups := new\<rparr>
      in if \<not> bound then (-1, h) else (0, h\<lparr>nfh_subscriptions := new\<rparr>))"

text \<open>Once the socket is there; \<open>pid\<close> is the port the kernel assigns and \<open>bufsize\<close> the value of \<open>NFNL_BUFFSIZE\<close>.\<close>

definition nfnl_open :: "bool \<Rightarrow> 32 word \<Rightarrow> 32 word \<Rightarrow> nat \<Rightarrow> 's nfnl_handle option" where
  "nfnl_open bound pid now bufsize =
     (let h = \<lparr>nl_pid = 0, nl_groups = 0, nfh_subscriptions = 0, nfh_seq = now, rcv_buffer_size = bufsize, nfh_flags = 0,
                last_nlhdr = None, subsys = replicate (NFNL_MAX_SUBSYS + 1) no_subsys\<rparr>;
          (err, h) = recalc_rebind_subscriptions bound h
      in if err < 0 then None
         else let h = h\<lparr>nl_pid := pid\<rparr> in Some (h\<lparr>nfh_flags := nfh_flags h OR NFNL_F_SEQTRACK_ENABLED\<rparr>))"

definition nfnl_set_sequence_tracking :: "'s nfnl_handle \<Rightarrow> 's nfnl_handle" where
  "nfnl_set_sequence_tracking h = h\<lparr>nfh_flags := nfh_flags h OR NFNL_F_SEQTRACK_ENABLED\<rparr>"

definition nfnl_unset_sequence_tracking :: "'s nfnl_handle \<Rightarrow> 's nfnl_handle" where
  "nfnl_unset_sequence_tracking h = h\<lparr>nfh_flags := nfh_flags h AND NOT NFNL_F_SEQTRACK_ENABLED\<rparr>"

definition nfnl_set_rcv_buffer_size :: "nat \<Rightarrow> 's nfnl_handle \<Rightarrow> 's nfnl_handle" where
  "nfnl_set_rcv_buffer_size sz h = h\<lparr>rcv_buffer_size := sz\<rparr>"

definition set_subsys :: "nat \<Rightarrow> ('s nfnl_subsys_handle \<Rightarrow> 's nfnl_subsys_handle) \<Rightarrow> 's nfnl_handle \<Rightarrow> 's nfnl_handle" where
  "set_subsys i f h = h\<lparr>subsys := (subsys h)[i := f (subsys h ! i)]\<rparr>"

definition nfnl_subsys_open :: "bool \<Rightarrow> nat \<Rightarrow> nat \<Rightarrow> 32 word \<Rightarrow> 's nfnl_handle \<Rightarrow> nat option \<times> 's nfnl_handle" where
  "nfnl_subsys_open bound sid count subs h =
     (if sid > NFNL_MAX_SUBSYS then (None, h)
      else if ssh_cb (subsys h ! sid) \<noteq> None then (None, h)
      else
        let h = set_subsys sid (\<lambda>ssh. ssh\<lparr>ssh_cb := Some (replicate count no_callback), cb_count := count,
                  ssh_subscriptions := subs, subsys_id := sid\<rparr>) h;
            (err, h) = recalc_rebind_subscriptions bound h
        in if err < 0 then (None, set_subsys sid (\<lambda>ssh. ssh\<lparr>ssh_cb := None\<rparr>) h) else (Some sid, h))"

definition nfnl_subsys_close :: "nat \<Rightarrow> 's nfnl_handle \<Rightarrow> 's nfnl_handle" where
  "nfnl_subsys_close = (\<lambda>sid. set_subsys sid (\<lambda>ssh. ssh\<lparr>ssh_subscriptions := 0, cb_count := 0, ssh_cb := None\<rparr>))"

text \<open>Before the socket is closed.\<close>

definition nfnl_close :: "'s nfnl_handle \<Rightarrow> 's nfnl_handle" where
  "nfnl_close h = fold nfnl_subsys_close [0..<NFNL_MAX_SUBSYS] h"

definition nfnl_callback_register :: "nat \<Rightarrow> nat \<Rightarrow> 's nfnl_callback \<Rightarrow> 's nfnl_handle \<Rightarrow> (int \<times> 's nfnl_handle) result" where
  "nfnl_callback_register sid ty cb h =
     (if ty \<ge> cb_count (subsys h ! sid) then Inr (-1, h)
      else case ssh_cb (subsys h ! sid) of
          None \<Rightarrow> Inl Null_Deref
        | Some cbs \<Rightarrow> Inr (0, set_subsys sid (\<lambda>ssh. ssh\<lparr>ssh_cb := Some (cbs[ty := cb])\<rparr>) h))"

definition nfnl_callback_unregister :: "nat \<Rightarrow> nat \<Rightarrow> 's nfnl_handle \<Rightarrow> (int \<times> 's nfnl_handle) result" where
  "nfnl_callback_unregister sid ty h =
     (if ty \<ge> cb_count (subsys h ! sid) then Inr (-1, h)
      else case ssh_cb (subsys h ! sid) of
          None \<Rightarrow> Inl Null_Deref
        | Some cbs \<Rightarrow> Inr (0, set_subsys sid (\<lambda>ssh. ssh\<lparr>ssh_cb := Some (cbs[ty := (cbs ! ty)\<lparr>cb_call := None\<rparr>])\<rparr>) h))"

section \<open>Building messages\<close>

definition nfnl_fill_hdr :: "32 word \<Rightarrow> nat \<Rightarrow> nat \<Rightarrow> 32 word \<Rightarrow> 8 word \<Rightarrow> 16 word \<Rightarrow> 16 word \<Rightarrow> 16 word \<Rightarrow> mem \<Rightarrow> 's nfnl_handle \<Rightarrow>
    (mem \<times> 's nfnl_handle) result" where
  "nfnl_fill_hdr now sid nlh len family res_id msg_type msg_flags buf h =
     (let ty = push_bit 8 (word_of_nat (subsys_id (subsys h ! sid))) OR msg_type;
          (sq, h) =
            (if nfh_flags h AND NFNL_F_SEQTRACK_ENABLED \<noteq> 0 then
               let h = h\<lparr>nfh_seq := nfh_seq h + 1\<rparr>
               in if nfh_seq h = 0 then (now, h\<lparr>nfh_seq := now\<rparr>) else (nfh_seq h, h)
             else (0, h))
      in bind (write_at nlh (store32 (len + 4 + 16) @ store16 ty @ store16 msg_flags @ store32 sq @ store32 0) buf) (\<lambda>buf.
         bind (write_at (nlh + 16) ([family, 0] @ store16 (htons res_id)) buf) (\<lambda>buf. Inr (buf, h))))"

text \<open>The comparison with \<open>maxlen\<close> is one of unsigned numbers.\<close>

definition nfnl_addattr_l :: "nat \<Rightarrow> 32 word \<Rightarrow> 16 word \<Rightarrow> mem \<Rightarrow> mem \<Rightarrow> (int \<times> mem) result" where
  "nfnl_addattr_l n maxlen ty data buf =
     bind (nlmsg_len n buf) (\<lambda>l.
       let len = 4 + length data
       in if NLMSG_ALIGN l + word_of_nat len > maxlen then Inr (-1, buf)
          else
            let nfa = n + unat (NLMSG_ALIGN l)
            in bind (write_at nfa (store16 (word_of_nat len) @ store16 ty) buf) (\<lambda>buf.
               bind (write_at (NFA_DATA nfa) data buf) (\<lambda>buf.
               bind (write_at n (store32 (NLMSG_ALIGN l + word_of_nat (NFA_ALIGN len))) buf) (\<lambda>buf. Inr (0, buf)))))"

definition nfnl_nfa_addattr_l :: "nat \<Rightarrow> nat \<Rightarrow> 16 word \<Rightarrow> mem \<Rightarrow> mem \<Rightarrow> (int \<times> mem) result" where
  "nfnl_nfa_addattr_l nfa maxlen ty data buf =
     bind (nla_len nfa buf) (\<lambda>l.
       let len = 4 + length data
       in if NFA_ALIGN (unat l) + len > maxlen then Inr (-1, buf)
          else
            let subnfa = nfa + NFA_ALIGN (unat l)
            in bind (write_at subnfa (store16 (word_of_nat len) @ store16 ty) buf) (\<lambda>buf.
               bind (write_at (NFA_DATA subnfa) data buf) (\<lambda>buf.
               bind (write_at nfa (store16 (word_of_nat (NFA_ALIGN (unat l) + len))) buf) (\<lambda>buf. Inr (0, buf)))))"

definition nfnl_addattr8 :: "nat \<Rightarrow> 32 word \<Rightarrow> 16 word \<Rightarrow> 8 word \<Rightarrow> mem \<Rightarrow> (int \<times> mem) result" where
  "nfnl_addattr8 n maxlen ty data = nfnl_addattr_l n maxlen ty [data]"

definition nfnl_addattr16 :: "nat \<Rightarrow> 32 word \<Rightarrow> 16 word \<Rightarrow> 16 word \<Rightarrow> mem \<Rightarrow> (int \<times> mem) result" where
  "nfnl_addattr16 n maxlen ty data = nfnl_addattr_l n maxlen ty (store16 data)"

definition nfnl_addattr32 :: "nat \<Rightarrow> 32 word \<Rightarrow> 16 word \<Rightarrow> 32 word \<Rightarrow> mem \<Rightarrow> (int \<times> mem) result" where
  "nfnl_addattr32 n maxlen ty data = nfnl_addattr_l n maxlen ty (store32 data)"

definition nfnl_nfa_addattr16 :: "nat \<Rightarrow> nat \<Rightarrow> 16 word \<Rightarrow> 16 word \<Rightarrow> mem \<Rightarrow> (int \<times> mem) result" where
  "nfnl_nfa_addattr16 nfa maxlen ty data = nfnl_nfa_addattr_l nfa maxlen ty (store16 data)"

definition nfnl_nfa_addattr32 :: "nat \<Rightarrow> nat \<Rightarrow> 16 word \<Rightarrow> 32 word \<Rightarrow> mem \<Rightarrow> (int \<times> mem) result" where
  "nfnl_nfa_addattr32 nfa maxlen ty data = nfnl_nfa_addattr_l nfa maxlen ty (store32 data)"

text \<open>The header of the attribute, and how many bytes are then sent from the buffer with the value.\<close>

definition nfnl_build_nfa_iovec :: "16 word \<Rightarrow> 32 word \<Rightarrow> mem \<times> nat" where
  "nfnl_build_nfa_iovec ty len = (store16 (4 + ucast len) @ store16 ty, unat (MNL_ALIGN32 len))"

section \<open>Reading attributes\<close>

text \<open>The loop of \<open>nfnl_parse_attr\<close> and \<open>nfnl_check_attributes\<close>; \<open>entry\<close> is what they do with an attribute of a type.\<close>

lemma nfa_next_shrinks:
  assumes "NFA_OK nfa buf len = Inr True" and "NFA_NEXT nfa buf len = Inr (nfa', len')"
  shows "len' < len" and "0 < len"
proof -
  obtain l where l: "nla_len nfa buf = Inr l" "4 \<le> l" "0 < len" "len' = len - int (MNL_ALIGN (unat l))"
    using assms by (auto simp add: NFA_OK_def NFA_NEXT_def split: if_splits elim!: bind_InrE)
  have "4 \<le> unat l" using l(2) by (simp add: word_le_nat_alt)
  then have "0 < MNL_ALIGN (unat l)" by (simp add: MNL_ALIGN_def)
  then show "len' < len" "0 < len" using l by simp_all
qed

function nfa_loop :: "(nat \<Rightarrow> nat \<Rightarrow> nat option list \<Rightarrow> nat option list result) \<Rightarrow> mem \<Rightarrow> nat \<Rightarrow> int \<Rightarrow> nat option list \<Rightarrow>
    (int \<times> nat option list) result" where
  "nfa_loop entry buf nfa len tb =
     bind (NFA_OK nfa buf len) (\<lambda>ok.
       if ok then
         bind (NFA_TYPE nfa buf) (\<lambda>ty. bind (entry ty nfa tb) (\<lambda>tb.
         bind (NFA_NEXT nfa buf len) (\<lambda>(nfa, len). nfa_loop entry buf nfa len tb)))
       else Inr (len, tb))"
  by pat_completeness auto

termination
  by (relation "measure (\<lambda>(entry, buf, nfa, len, tb). nat len)") (simp, use nfa_next_shrinks in fastforce)

declare nfa_loop.simps [simp del]

text \<open>The type 0 is the entry before the first.\<close>

definition parse_entry :: "nat \<Rightarrow> nat \<Rightarrow> nat \<Rightarrow> nat option list \<Rightarrow> nat option list result" where
  "parse_entry mx ty nfa tb = (if ty \<le> mx then (if ty = 0 then Inl Out_Of_Bounds else Inr (tb[ty - 1 := Some nfa])) else Inr tb)"

definition nfnl_parse_attr :: "nat \<Rightarrow> mem \<Rightarrow> nat \<Rightarrow> int \<Rightarrow> (int \<times> nat option list) result" where
  "nfnl_parse_attr mx buf nfa len =
     (if mx = 0 then Inl Assertion_Failed else nfa_loop (parse_entry mx) buf nfa len (replicate mx None))"

definition check_entry :: "nat \<Rightarrow> nat \<Rightarrow> nat \<Rightarrow> nat option list \<Rightarrow> nat option list result" where
  "check_entry count flavor attr nfa =
     (if flavor \<noteq> 0 then (if flavor > count then Inr nfa else Inr (nfa[flavor - 1 := Some attr])) else Inr nfa)"

text \<open>\<open>EINVAL\<close> is 22. The table of the callbacks belongs to a subsystem that is open.\<close>

definition nfnl_check_attributes :: "'s nfnl_handle \<Rightarrow> mem \<Rightarrow> nat \<Rightarrow> (int \<times> nat option list) result" where
  "nfnl_check_attributes h buf nlh =
     bind (nlmsg_type nlh buf) (\<lambda>t. bind (nlmsg_len nlh buf) (\<lambda>l.
       let ty = NFNL_MSG_TYPE t; sid = NFNL_SUBSYS_ID t
       in if sid > NFNL_MAX_SUBSYS then Inr (-22, [])
          else if ty \<ge> cb_count (subsys h ! sid) then Inr (-22, [])
          else if l < 20 then Inr (-22, [])
          else case ssh_cb (subsys h ! sid) of
              None \<Rightarrow> Inl Null_Deref
            | Some cbs \<Rightarrow>
                let count = attr_count (cbs ! ty); nfa = replicate count None
                in if l > 20 then
                     bind (nfa_loop (check_entry count) buf (NFM_NFA (NLMSG_DATA nlh)) (to_int (uint l - 20)) nfa) (\<lambda>(_, nfa). Inr (0, nfa))
                   else Inr (0, nfa)))"

text \<open>The header of the subsystem, when the caller wants it, and the first attribute.\<close>

definition nfnl_parse_hdr :: "nat \<Rightarrow> mem \<Rightarrow> (nat option \<times> nat option) result" where
  "nfnl_parse_hdr nlh buf =
     bind (nlmsg_len nlh buf) (\<lambda>l.
       if l < 20 then Inr (None, None)
       else if l = 20 then Inr (Some (nlh + 8), None)
       else Inr (Some (nlh + 8), Some (nlh + 20)))"

section \<open>Received buffers\<close>

text \<open>Handling a message: a negative value is an error.\<close>

definition nfnl_handle_msg :: "'s nfnl_handle \<Rightarrow> mem \<Rightarrow> nat \<Rightarrow> 's \<Rightarrow> (int \<times> 's) result" where
  "nfnl_handle_msg h buf nlh s =
     bind (nlmsg_type nlh buf) (\<lambda>t. bind (nlmsg_len nlh buf) (\<lambda>l.
       let ty = NFNL_MSG_TYPE t; sid = NFNL_SUBSYS_ID t
       in if sid > NFNL_MAX_SUBSYS then Inr (-1, s)
          else if l < 20 then Inr (-1, s)
          else if ty \<ge> cb_count (subsys h ! sid) then Inr (-1, s)
          else case ssh_cb (subsys h ! sid) of
              None \<Rightarrow> Inl Null_Deref
            | Some cbs \<Rightarrow>
                if attr_count (cbs ! ty) \<noteq> 0 then
                  bind (nfnl_check_attributes h buf nlh) (\<lambda>(err, nfa).
                    if err < 0 then Inr (err, s)
                    else case cb_call (cbs ! ty) of None \<Rightarrow> Inr (0, s) | Some f \<Rightarrow> f buf nlh nfa s)
                else Inr (0, s)))"

text \<open>The length is an \<open>int\<close>, but every comparison is one of unsigned numbers.\<close>

partial_function (option) handle_loop :: "(nat \<Rightarrow> 's \<Rightarrow> (int \<times> 's) result) \<Rightarrow> mem \<Rightarrow> nat \<Rightarrow> 32 word \<Rightarrow> 's \<Rightarrow> (int \<times> 's) result option" where
  "handle_loop msg buf pos len s =
     (if len \<ge> 16 then
        case nlmsg_len pos buf of
          Inl e \<Rightarrow> Some (Inl e)
        | Inr l \<Rightarrow>
            if l < 16 \<or> len < l then Some (Inr (-1, s))
            else case msg pos s of
              Inl e \<Rightarrow> Some (Inl e)
            | Inr r \<Rightarrow>
                if fst r < 0 then Some (Inr (-1, snd r))
                else if NLMSG_ALIGN l > len then handle_loop msg buf (pos + unat len) 0 (snd r)
                else handle_loop msg buf (pos + unat (NLMSG_ALIGN l)) (len - NLMSG_ALIGN l) (snd r)
      else Some (Inr (0, s)))"

definition nfnl_handle_packet :: "'s nfnl_handle \<Rightarrow> mem \<Rightarrow> 32 word \<Rightarrow> 's \<Rightarrow> (int \<times> 's) result option" where
  "nfnl_handle_packet h buf len s = handle_loop (nfnl_handle_msg h buf) buf 0 len s"

text \<open>The value of \<open>errno\<close> when the message is an error or an acknowledgement; \<open>EBADMSG\<close> is 74.\<close>

definition nfnl_is_error :: "mem \<Rightarrow> nat \<Rightarrow> int option result" where
  "nfnl_is_error buf nlh =
     bind (nlmsg_type nlh buf) (\<lambda>t. bind (nlmsg_flags nlh buf) (\<lambda>f. bind (nlmsg_len nlh buf) (\<lambda>l.
       if unat t = NLMSG_ERROR \<or> (unat t = NLMSG_DONE \<and> f AND NLM_F_MULTI \<noteq> 0) then
         if l < 20 then Inr (Some 74) else bind (read32 (NLMSG_DATA nlh) buf) (\<lambda>e. Inr (Some (to_int (- sint e))))
       else Inr None)))"

definition nfnl_step :: "'s nfnl_handle \<Rightarrow> mem \<Rightarrow> nat \<Rightarrow> 's \<Rightarrow> (int \<times> 's) result" where
  "nfnl_step h buf nlh s =
     bind (nlmsg_type nlh buf) (\<lambda>t. bind (nfnl_is_error buf nlh) (\<lambda>err.
       case err of
         Some e \<Rightarrow> Inr (if e = 0 then 0 else -1, s)
       | None \<Rightarrow>
           bind (nlmsg_len nlh buf) (\<lambda>l.
             let ty = NFNL_MSG_TYPE t; sid = NFNL_SUBSYS_ID t
             in if l < 20 then Inr (-1, s)
                else if sid > NFNL_MAX_SUBSYS then Inr (-1, s)
                else if ty \<ge> cb_count (subsys h ! sid) then Inr (-1, s)
                else case ssh_cb (subsys h ! sid) of
                    None \<Rightarrow> Inl Null_Deref
                  | Some cbs \<Rightarrow>
                      if attr_count (cbs ! ty) \<noteq> 0 then
                        bind (nfnl_parse_attr (attr_count (cbs ! ty)) buf (NFM_NFA (NLMSG_DATA nlh)) (to_int (uint l - 20))) (\<lambda>(err, tb).
                          if err = -1 then Inr (-1, s)
                          else case cb_call (cbs ! ty) of None \<Rightarrow> Inr (1, s) | Some f \<Rightarrow> f buf nlh tb s)
                      else Inr (1, s))))"

text \<open>The length has 64 bits; that of the last message, aligned, may be larger than what is left.\<close>

partial_function (option) process_loop :: "(nat \<Rightarrow> 's \<Rightarrow> (int \<times> 's) result) \<Rightarrow> mem \<Rightarrow> nat \<Rightarrow> 64 word \<Rightarrow> int \<Rightarrow> 's \<Rightarrow>
    (int \<times> 's) result option" where
  "process_loop step buf nlh len ret s =
     (case NLMSG_OK nlh buf len of
        Inl e \<Rightarrow> Some (Inl e)
      | Inr ok \<Rightarrow>
          if \<not> ok then Some (Inr (ret, s))
          else case step nlh s of
            Inl e \<Rightarrow> Some (Inl e)
          | Inr r \<Rightarrow>
              if fst r \<le> NFNL_CB_STOP then Some (Inr r)
              else case NLMSG_NEXT nlh buf len of
                Inl e \<Rightarrow> Some (Inl e)
              | Inr nx \<Rightarrow> process_loop step buf (fst nx) (snd nx) (fst r) (snd r))"

definition nfnl_process :: "'s nfnl_handle \<Rightarrow> mem \<Rightarrow> 64 word \<Rightarrow> 's \<Rightarrow> (int \<times> 's) result option" where
  "nfnl_process h buf len s =
     (if len = 0 then Some (Inl Assertion_Failed)
      else case nlmsg_seq 0 buf of
          Inl e \<Rightarrow> Some (Inl e)
        | Inr sq \<Rightarrow>
            if sq \<noteq> 0 \<and> sq \<noteq> nfh_seq h then Some (Inr (-1, s)) else process_loop (nfnl_step h buf) buf 0 len 0 s)"

section \<open>Message by message\<close>

definition nfnl_get_msg_first :: "mem \<Rightarrow> nat \<Rightarrow> 's nfnl_handle \<Rightarrow> (nat option \<times> 's nfnl_handle) result" where
  "nfnl_get_msg_first buf len h =
     (if len = 0 then Inl Assertion_Failed
      else bind (NLMSG_OK 0 buf (word_of_nat len)) (\<lambda>ok. if ok then Inr (Some 0, h\<lparr>last_nlhdr := Some 0\<rparr>) else Inr (None, h)))"

definition nfnl_get_msg_next :: "mem \<Rightarrow> nat \<Rightarrow> 's nfnl_handle \<Rightarrow> (nat option \<times> 's nfnl_handle) result" where
  "nfnl_get_msg_next buf len h =
     (if len = 0 then Inl Assertion_Failed
      else case last_nlhdr h of
          None \<Rightarrow> Inr (None, h)
        | Some l \<Rightarrow>
            if l \<ge> len then Inr (None, h\<lparr>last_nlhdr := None\<rparr>)
            else
              bind (nlmsg_type l buf) (\<lambda>t. bind (nlmsg_flags l buf) (\<lambda>f.
                if unat t = NLMSG_DONE \<or> f AND NLM_F_MULTI \<noteq> 0 then Inr (None, h\<lparr>last_nlhdr := None\<rparr>)
                else
                  bind (NLMSG_NEXT l buf (word_of_nat (len - l))) (\<lambda>(nlh, remain_len).
                  bind (NLMSG_OK nlh buf remain_len) (\<lambda>ok.
                    if ok then Inr (Some nlh, h\<lparr>last_nlhdr := Some nlh\<rparr>) else Inr (None, h\<lparr>last_nlhdr := None\<rparr>))))))"

text \<open>The length of an iterator has 32 bits.\<close>

record nfnl_iterator =
  it_nlh :: nat
  it_len :: "32 word"

definition nfnl_iterator_create :: "mem \<Rightarrow> nat \<Rightarrow> nfnl_iterator option result" where
  "nfnl_iterator_create buf len =
     (if len = 0 then Inl Assertion_Failed
      else bind (NLMSG_OK 0 buf (word_of_nat len)) (\<lambda>ok. Inr (if ok then Some \<lparr>it_nlh = 0, it_len = word_of_nat len\<rparr> else None)))"

definition nfnl_iterator_process :: "'s nfnl_handle \<Rightarrow> mem \<Rightarrow> nfnl_iterator \<Rightarrow> 's \<Rightarrow> (int \<times> 's) result" where
  "nfnl_iterator_process h buf it s =
     bind (nlmsg_seq (it_nlh it) buf) (\<lambda>sq.
       if sq \<noteq> 0 \<and> sq \<noteq> nfh_seq h then Inr (-1, s)
       else bind (NLMSG_OK (it_nlh it) buf (ucast (it_len it))) (\<lambda>ok. if ok then nfnl_step h buf (it_nlh it) s else Inr (-1, s)))"

definition nfnl_iterator_next :: "mem \<Rightarrow> nfnl_iterator \<Rightarrow> (int \<times> nfnl_iterator) result" where
  "nfnl_iterator_next buf it =
     bind (nlmsg_len (it_nlh it) buf) (\<lambda>l.
       Inr (1, \<lparr>it_nlh = it_nlh it + unat (NLMSG_ALIGN l), it_len = it_len it - NLMSG_ALIGN l\<rparr>))"

section \<open>Requests and answers\<close>

text \<open>What \<open>recvfrom\<close> does: a datagram and the port of its sender, a signal, another error.\<close>

datatype nf_recv = Datagram mem "32 word" | Signal | Failure

text \<open>The value, whether a signal was the reason, and the buffer; \<open>stack\<close> is what it held before.\<close>

definition nfnl_recv :: "nf_recv \<Rightarrow> mem \<Rightarrow> (int \<times> bool \<times> mem) result" where
  "nfnl_recv ev stack =
     (let len = length stack
      in if len = 0 then Inl Assertion_Failed
         else if len < 20 then Inr (-1, False, stack)
         else case ev of
             Datagram d peer \<Rightarrow>
               let status = min (length d) len; buf = take len d @ drop status stack
               in if status = 0 then Inr (0, False, buf) else Inr (if peer \<noteq> 0 then -1 else int status, False, buf)
           | Signal \<Rightarrow> Inr (-1, True, stack)
           | Failure \<Rightarrow> Inr (-1, False, stack))"

text \<open>The events that are left come with the result; no result means that the loop still waits, or does not end.\<close>

fun nfnl_catch :: "'s nfnl_handle \<Rightarrow> mem \<Rightarrow> nf_recv list \<Rightarrow> 's \<Rightarrow> ((int \<times> 's) \<times> nf_recv list) result option" where
  "nfnl_catch h stack [] s = None"
| "nfnl_catch h stack (ev # evs) s =
     (case nfnl_recv ev (take (rcv_buffer_size h) stack) of
        Inl e \<Rightarrow> Some (Inl e)
      | Inr (ret, intr, buf) \<Rightarrow>
          if ret = -1 then (if intr then nfnl_catch h stack evs s else Some (Inr ((-1, s), evs)))
          else case nfnl_process h buf (word_of_int ret) s of
              None \<Rightarrow> None
            | Some (Inl e) \<Rightarrow> Some (Inl e)
            | Some (Inr (ret, s)) \<Rightarrow> if ret \<le> NFNL_CB_STOP then Some (Inr ((ret, s), evs)) else nfnl_catch h stack evs s)"

text \<open>Sending: the bytes that go out, and whether the kernel took them.\<close>

definition nfnl_send :: "mem \<Rightarrow> nat \<Rightarrow> mem result" where
  "nfnl_send buf n = bind (nlmsg_len n buf) (\<lambda>l. read_bytes n (unat l) buf)"

definition nfnl_query :: "bool \<Rightarrow> 's nfnl_handle \<Rightarrow> mem \<Rightarrow> nat \<Rightarrow> mem \<Rightarrow> nf_recv list \<Rightarrow> 's \<Rightarrow> (mem \<times> (int \<times> 's) \<times> nf_recv list) result option" where
  "nfnl_query taken h buf nlh stack evs s =
     (case nfnl_send buf nlh of
        Inl e \<Rightarrow> Some (Inl e)
      | Inr m \<Rightarrow>
          if \<not> taken then Some (Inr (m, (-1, s), evs))
          else case nfnl_catch h stack evs s of
              None \<Rightarrow> None
            | Some (Inl e) \<Rightarrow> Some (Inl e)
            | Some (Inr r) \<Rightarrow> Some (Inr (m, r)))"

end
