(* ===== verification/Nf_Listen.thy ===== *)
theory Nf_Listen
  imports Netfilter Netlink_Walk
begin

text \<open>
  The older ways of \<open>libnfnetlink.c\<close> to talk to the kernel, \<open>nfnl_listen\<close> and \<open>nfnl_talk\<close>, and its small wrappers around
  the socket. The lengths are \<open>int\<close>s that are compared with \<open>sizeof\<close>, an unsigned number of 64 bits: a negative remainder passes
  for a large one.
\<close>

section \<open>Receiving\<close>

text \<open>
  What \<open>recvmsg\<close> does: a datagram, whether the sender has an address of the right size, whether it was cut; or an error
  with its number.
\<close>

datatype recv_event = Received mem bool bool | Eintr | Ebadf | Eagain | Other_Errno

text \<open>The test of both loops: \<open>remain\<close> is sign-extended and compared without sign.\<close>

definition room_for_header :: "32 word \<Rightarrow> bool" where
  "room_for_header remain \<longleftrightarrow> sint remain < 0 \<or> 16 \<le> sint remain"

text \<open>\<open>l < 0 || len > remain\<close>, where \<open>l\<close> is \<open>len\<close> less the header, as an \<open>int\<close>.\<close>

definition malformed :: "32 word \<Rightarrow> 32 word \<Rightarrow> bool" where
  "malformed len remain \<longleftrightarrow> sint (len - 16) < 0 \<or> sint remain < sint len"

lemma sint_nonneg: "0 \<le> sint w \<Longrightarrow> sint w = uint w" for w :: "32 word"
  using sint_less [of w] by (simp add: uint_sint take_bit_int_eq_self)

lemma malformed_advance:
  assumes "\<not> malformed len remain"
  shows "16 \<le> unat (NLMSG_ALIGN len)"
proof -
  define w where "w = len - 16"
  have len: "len = w + 16" by (simp add: w_def)
  have "0 \<le> sint w" using assms by (simp add: malformed_def w_def)
  then have "sint w = uint w" by (rule sint_nonneg)
  moreover have "sint w < 2147483648" using sint_less [of w] by simp
  ultimately have "uint w < 2147483648" by linarith
  then have "unat w < 2147483648" unfolding unat_eq_nat_uint by linarith
  moreover from this have "unat len = unat w + 16" unfolding len using unat_add_lem [of w 16] by simp
  ultimately have "16 \<le> unat len" "unat len < 2147483664" by linarith+
  then have "16 \<le> len" "len \<le> 0xFFFFFFFC" by (simp_all add: word_le_nat_alt)
  then show ?thesis by (rule MNL_ALIGN32_grows)
qed

section \<open>Listening\<close>

lemma header_inside: "nlmsg_len h buf = Inr len \<Longrightarrow> h < length buf"
  by (auto simp add: nlmsg_len_def read32_def split: if_splits)

text \<open>
  The messages of a buffer. The first component is the value with which the function returns, if it does; then what
  remains, the value of \<open>quit\<close> and the state of the handler.
\<close>

function listen_loop :: "(nat \<Rightarrow> 's \<Rightarrow> (int \<times> 's) result) \<Rightarrow> mem \<Rightarrow> nat \<Rightarrow> 32 word \<Rightarrow> int \<Rightarrow> 's \<Rightarrow>
    (int option \<times> 32 word \<times> int \<times> 's) result" where
  "listen_loop handler buf h remain quit s =
     (if \<not> room_for_header remain then Inr (None, remain, quit, s)
      else
        bind (nlmsg_len h buf) (\<lambda>len.
          if malformed len remain then Inr (Some (-1), remain, quit, s)
          else
            bind (nlmsg_type h buf) (\<lambda>t.
              if unat t = NLMSG_DONE then Inr (Some 0, remain, quit, s)
              else if unat t = NLMSG_ERROR then bind (read32 (NLMSG_DATA h) buf) (\<lambda>e. Inr (Some (sint e), remain, quit, s))
              else
                bind (handler h s) (\<lambda>(err, s).
                  if err < 0 then Inr (Some err, remain, quit, s)
                  else listen_loop handler buf (h + unat (NLMSG_ALIGN len)) (remain - NLMSG_ALIGN len) (quit OR err) s))))"
  by pat_completeness auto

termination
proof (relation "measure (\<lambda>(handler, buf, h, remain, quit, s). length buf - h)", goal_cases)
  case (2 handler buf h remain quit s len)
  then have "h < length buf" "16 \<le> unat (NLMSG_ALIGN len)" using header_inside malformed_advance by metis+
  then show ?case by simp
qed simp

declare listen_loop.simps [simp del]

text \<open>
  A loop over the events: no value when it still waits for one. The buffer keeps what it held behind a datagram.
  \<open>handler\<close> gets the buffer and the offset of the message.
\<close>

fun nfnl_listen :: "(mem \<Rightarrow> nat \<Rightarrow> 's \<Rightarrow> (int \<times> 's) result) \<Rightarrow> recv_event list \<Rightarrow> mem \<Rightarrow> int \<Rightarrow> 's \<Rightarrow> (int \<times> 's) result option" where
  "nfnl_listen handler [] stack quit s = (if quit \<noteq> 0 then Some (Inr (quit, s)) else None)"
| "nfnl_listen handler (ev # evs) stack quit s =
     (if quit \<noteq> 0 then Some (Inr (quit, s))
      else case ev of
          Eintr \<Rightarrow> nfnl_listen handler evs stack quit s
        | Ebadf \<Rightarrow> Some (Inr (quit, s))
        | Eagain \<Rightarrow> Some (Inr (quit, s))
        | Other_Errno \<Rightarrow> nfnl_listen handler evs stack quit s
        | Received d named trunc \<Rightarrow>
            let remain = min (length d) (length stack); buf = take (length stack) d @ drop remain stack
            in if remain = 0 then Some (Inr (-1, s))
               else if \<not> named then Some (Inr (-1, s))
               else case listen_loop (handler buf) buf 0 (word_of_nat remain) quit s of
                   Inl e \<Rightarrow> Some (Inl e)
                 | Inr (Some r, _, _, s) \<Rightarrow> Some (Inr (r, s))
                 | Inr (None, remain, quit, s) \<Rightarrow>
                     if trunc then nfnl_listen handler evs buf quit s
                     else if remain \<noteq> 0 then Some (Inr (-1, s))
                     else nfnl_listen handler evs buf quit s)"

section \<open>Talking\<close>

text \<open>The end of \<open>nfnl_talk\<close>: a value and the answer that was copied, or the end of the process.\<close>

datatype talk_end = Talk_Value int "mem option" | Talk_Exit

text \<open>
  \<open>answer\<close> is the memory the caller provides; as many bytes are copied as the message claims to have. \<open>junk\<close> is the
  callback for messages out of sequence. An error message that is too short is reported and read all the same.
\<close>

definition copy_answer :: "mem \<Rightarrow> nat \<Rightarrow> 32 word \<Rightarrow> mem \<Rightarrow> mem result" where
  "copy_answer buf h len answer = bind (read_bytes h (unat len) buf) (\<lambda>m. write_at 0 m answer)"

function talk_loop :: "(nat \<Rightarrow> 's \<Rightarrow> (int \<times> 's) result) option \<Rightarrow> 32 word \<Rightarrow> 32 word \<Rightarrow> mem option \<Rightarrow> mem \<Rightarrow> nat \<Rightarrow> 32 word \<Rightarrow> 's \<Rightarrow>
    (talk_end option \<times> 32 word \<times> 's) result" where
  "talk_loop junk pid sq answer buf h status s =
     (if \<not> room_for_header status then Inr (None, status, s)
      else
        bind (nlmsg_len h buf) (\<lambda>len.
          if malformed len status then Inr (Some (Talk_Value (-1) answer), status, s)
          else
            bind (nlmsg_seq h buf) (\<lambda>q. bind (read32 (h + 12) buf) (\<lambda>p. bind (nlmsg_type h buf) (\<lambda>t.
              if p \<noteq> pid \<or> q \<noteq> sq then
                (case junk of
                   None \<Rightarrow> talk_loop junk pid sq answer buf (h + unat (NLMSG_ALIGN len)) (status - NLMSG_ALIGN len) s
                 | Some f \<Rightarrow> bind (f h s) (\<lambda>(err, s).
                     if err < 0 then Inr (Some (Talk_Value err answer), status, s)
                     else talk_loop junk pid sq answer buf (h + unat (NLMSG_ALIGN len)) (status - NLMSG_ALIGN len) s))
              else if unat t = NLMSG_ERROR then
                bind (read32 (NLMSG_DATA h) buf) (\<lambda>e.
                  if 20 \<le> len - 16 \<and> e = 0 then
                    (case answer of
                       None \<Rightarrow> Inr (Some (Talk_Value 0 None), status, s)
                     | Some a \<Rightarrow> bind (copy_answer buf h len a) (\<lambda>a. Inr (Some (Talk_Value 0 (Some a)), status, s)))
                  else Inr (Some (Talk_Value (sint e) answer), status, s))
              else case answer of
                  Some a \<Rightarrow> bind (copy_answer buf h len a) (\<lambda>a. Inr (Some (Talk_Value 0 (Some a)), status, s))
                | None \<Rightarrow> talk_loop junk pid sq answer buf (h + unat (NLMSG_ALIGN len)) (status - NLMSG_ALIGN len) s)))))"
  by pat_completeness auto

termination
proof (relation "measure (\<lambda>(junk, pid, sq, answer, buf, h, status, s). length buf - h)", goal_cases)
  case (2 junk pid sq answer buf h status s len)
  then have "h < length buf" "16 \<le> unat (NLMSG_ALIGN len)" using header_inside malformed_advance by metis+
  then show ?case by simp
next
  case (3 junk pid sq answer buf h status s len)
  then have "h < length buf" "16 \<le> unat (NLMSG_ALIGN len)" using header_inside malformed_advance by metis+
  then show ?case by simp
next
  case (4 junk pid sq answer buf h status s len)
  then have "h < length buf" "16 \<le> unat (NLMSG_ALIGN len)" using header_inside malformed_advance by metis+
  then show ?case by simp
qed simp

declare talk_loop.simps [simp del]

fun talk_events :: "(mem \<Rightarrow> nat \<Rightarrow> 's \<Rightarrow> (int \<times> 's) result) option \<Rightarrow> 32 word \<Rightarrow> 32 word \<Rightarrow> mem option \<Rightarrow> recv_event list \<Rightarrow> mem \<Rightarrow> 's \<Rightarrow>
    (talk_end \<times> 's) result option" where
  "talk_events junk pid sq answer [] stack s = None"
| "talk_events junk pid sq answer (ev # evs) stack s =
     (case ev of
        Received d named trunc \<Rightarrow>
          let status = min (length d) (length stack); buf = take (length stack) d @ drop status stack
          in if status = 0 then Some (Inr (Talk_Value (-1) answer, s))
             else if \<not> named then Some (Inr (Talk_Value (-1) answer, s))
             else case talk_loop (map_option (\<lambda>f. f buf) junk) pid sq answer buf 0 (word_of_nat status) s of
                 Inl e \<Rightarrow> Some (Inl e)
               | Inr (Some r, _, s) \<Rightarrow> Some (Inr (r, s))
               | Inr (None, status, s) \<Rightarrow>
                   if trunc then talk_events junk pid sq answer evs buf s
                   else if status \<noteq> 0 then Some (Inr (Talk_Exit, s))
                   else talk_events junk pid sq answer evs buf s
      | _ \<Rightarrow> talk_events junk pid sq answer evs stack s)"

text \<open>The request gets a new sequence number and, without an answer to copy, asks for an acknowledgement; then it is sent.\<close>

definition nfnl_talk :: "bool \<Rightarrow> 's nfnl_handle \<Rightarrow> mem \<Rightarrow> nat \<Rightarrow> mem option \<Rightarrow> (mem \<Rightarrow> nat \<Rightarrow> 's \<Rightarrow> (int \<times> 's) result) option \<Rightarrow> recv_event list \<Rightarrow>
    mem \<Rightarrow> 's \<Rightarrow> (mem \<times> 's nfnl_handle \<times> talk_end \<times> 's) result option" where
  "nfnl_talk taken nh buf n answer junk evs stack s =
     (let nh = nh\<lparr>nfh_seq := nfh_seq nh + 1\<rparr>
      in case bind (nlmsg_len n buf) (\<lambda>len. bind (write_at (n + 8) (store32 (nfh_seq nh)) buf) (\<lambda>buf.
           bind (nlmsg_flags n buf) (\<lambda>f.
           bind (if answer = None then write_at (n + 6) (store16 (f OR 4)) buf else Inr buf) (\<lambda>buf. read_bytes n (unat len) buf)))) of
         Inl e \<Rightarrow> Some (Inl e)
       | Inr m \<Rightarrow>
           if \<not> taken then Some (Inr (m, nh, Talk_Value (-1) answer, s))
           else case talk_events junk (nl_pid nh) (nfh_seq nh) answer evs stack s of
               None \<Rightarrow> None
             | Some (Inl e) \<Rightarrow> Some (Inl e)
             | Some (Inr (r, s)) \<Rightarrow> Some (Inr (m, nh, r, s)))"

section \<open>Wrappers\<close>

text \<open>The kernel gathers the regions of a vector one after the other.\<close>

definition nfnl_sendiov :: "mem list \<Rightarrow> mem" where
  "nfnl_sendiov iov = concat iov"

text \<open>The options that are set to change the size of the buffer; the value is the size the kernel then reports.\<close>

datatype buf_option = So_Rcvbufforce nat | So_Rcvbuf nat

definition nfnl_rcvbufsiz :: "(buf_option \<Rightarrow> bool) \<Rightarrow> (buf_option list \<Rightarrow> nat) \<Rightarrow> nat \<Rightarrow> buf_option list \<times> nat" where
  "nfnl_rcvbufsiz accepted reported sz =
     (let opts = [So_Rcvbufforce sz] @ (if accepted (So_Rcvbufforce sz) then [] else [So_Rcvbuf sz])
      in (opts, reported (filter accepted opts)))"

section \<open>An end without padding\<close>

lemma sint_of_nat32: "n < 2 ^ 31 \<Longrightarrow> sint (word_of_nat n :: 32 word) = int n"
  by (simp add: sint_uint uint_nat unsigned_of_nat take_bit_nat_eq_self signed_take_bit_int_eq_self_iff)

text \<open>
  A message whose length is not a multiple of four and that ends the datagram, as the kernel may leave the last one, is handled
  and then the remainder is negative: the loop looks for another message behind the datagram and, where it finds the length 0, reports
  an error.
\<close>

lemma unaligned_end_refused:
  assumes "nlmsg_len 0 buf = Inr (word_of_nat n)" and "16 \<le> n" and "n < 2 ^ 31 - 4" and "n mod 4 \<noteq> 0"
    and "nlmsg_type 0 buf = Inr t" and "unat t \<noteq> NLMSG_DONE" and "unat t \<noteq> NLMSG_ERROR" and "handler 0 s = Inr (0, s')"
    and "nlmsg_len (MNL_ALIGN n) buf = Inr 0"
  shows "\<exists>r. listen_loop handler buf 0 (word_of_nat n) 0 s = Inr (Some (-1), r, 0, s')"
proof -
  let ?n = "word_of_nat n :: 32 word"
  let ?r = "?n - NLMSG_ALIGN ?n"
  have un: "unat ?n = n" using assms(3) by (simp add: unsigned_of_nat take_bit_nat_eq_self)
  have ua: "unat (NLMSG_ALIGN ?n) = MNL_ALIGN n" using un assms(3) unat_MNL_ALIGN32 [of ?n] by simp
  have "?n - 16 = word_of_nat (n - 16)" using assms(2) by (simp add: of_nat_diff)
  then have ok: "\<not> malformed ?n ?n" "room_for_header ?n"
    using assms(2,3) sint_of_nat32 [of "n - 16"] sint_of_nat32 [of n] by (simp_all add: malformed_def room_for_header_def)
  have a: "MNL_ALIGN n = n + (4 - n mod 4)" using assms(4) by (simp add: MNL_ALIGN_def) presburger
  have "NLMSG_ALIGN ?n = word_of_nat (MNL_ALIGN n)" using ua by (metis of_nat_unat ucast_id)
  then have r: "?r = - word_of_nat (4 - n mod 4)" using a by simp
  have "n mod 4 = 1 \<or> n mod 4 = 2 \<or> n mod 4 = 3" using assms(4) by arith
  then have "sint ?r < 0" unfolding r by auto
  then have "room_for_header ?r" "malformed 0 ?r" by (simp_all add: room_for_header_def malformed_def)
  then show ?thesis
    using assms ok ua by (subst listen_loop.simps, simp) (subst listen_loop.simps, simp)
qed

end
