(* ===== verification/Nf_Queue.thy ===== *)
theory Nf_Queue
  imports Netfilter
begin

text \<open>
  The packet queue of the kernel as the daemon sees it (\<open>libnetfilter_queue.c\<close>): the queues with their callbacks, the
  requests that bind and configure them, the attributes of a queued packet and the message that carries its verdict.
  The state holds the handle, the queues, the state of the client and the two directions of the socket. An operation
  without a value waits for an answer. The numbers of messages and attributes are those of the kernel's headers.
\<close>

section \<open>Constants and byte order\<close>

definition NFNL_SUBSYS_QUEUE :: nat where "NFNL_SUBSYS_QUEUE = 3"
definition NFQNL_MSG_PACKET :: nat where "NFQNL_MSG_PACKET = 0"
definition NFQNL_MSG_VERDICT :: "16 word" where "NFQNL_MSG_VERDICT = 1"
definition NFQNL_MSG_CONFIG :: "16 word" where "NFQNL_MSG_CONFIG = 2"
definition NLM_REQUEST :: "16 word" where "NLM_REQUEST = 1"
definition NLM_ACK :: "16 word" where "NLM_ACK = 4"

definition NFQA_PACKET_HDR :: nat where "NFQA_PACKET_HDR = 1"
definition NFQA_VERDICT_HDR :: nat where "NFQA_VERDICT_HDR = 2"
definition NFQA_MARK :: nat where "NFQA_MARK = 3"
definition NFQA_TIMESTAMP :: nat where "NFQA_TIMESTAMP = 4"
definition NFQA_IFINDEX_INDEV :: nat where "NFQA_IFINDEX_INDEV = 5"
definition NFQA_IFINDEX_OUTDEV :: nat where "NFQA_IFINDEX_OUTDEV = 6"
definition NFQA_IFINDEX_PHYSINDEV :: nat where "NFQA_IFINDEX_PHYSINDEV = 7"
definition NFQA_IFINDEX_PHYSOUTDEV :: nat where "NFQA_IFINDEX_PHYSOUTDEV = 8"
definition NFQA_HWADDR :: nat where "NFQA_HWADDR = 9"
definition NFQA_PAYLOAD :: nat where "NFQA_PAYLOAD = 10"

definition NFQA_CFG_CMD :: "16 word" where "NFQA_CFG_CMD = 1"
definition NFQA_CFG_PARAMS :: "16 word" where "NFQA_CFG_PARAMS = 2"
definition NFQA_CFG_QUEUE_MAXLEN :: "16 word" where "NFQA_CFG_QUEUE_MAXLEN = 3"

definition NFQNL_CFG_CMD_BIND :: "8 word" where "NFQNL_CFG_CMD_BIND = 1"
definition NFQNL_CFG_CMD_UNBIND :: "8 word" where "NFQNL_CFG_CMD_UNBIND = 2"
definition NFQNL_CFG_CMD_PF_BIND :: "8 word" where "NFQNL_CFG_CMD_PF_BIND = 3"
definition NFQNL_CFG_CMD_PF_UNBIND :: "8 word" where "NFQNL_CFG_CMD_PF_UNBIND = 4"

definition htonl :: "32 word \<Rightarrow> 32 word" where
  "htonl w = push_bit 16 (ucast (htons (ucast w))) OR ucast (htons (ucast (drop_bit 16 w)))"

text \<open>A number of 64 bits in network order.\<close>

definition read_be64 :: "nat \<Rightarrow> mem \<Rightarrow> 64 word result" where
  "read_be64 off buf =
     bind (read32 off buf) (\<lambda>hi. bind (read32 (off + 4) buf) (\<lambda>lo. Inr (push_bit 32 (ucast (htonl hi)) OR ucast (htonl lo))))"

section \<open>The state\<close>

text \<open>A callback gets the number of its queue, the buffer, the offset of the header and the attributes.\<close>

type_synonym 's nfq_callback = "16 word \<Rightarrow> mem \<Rightarrow> nat \<Rightarrow> nat option list \<Rightarrow> 's \<Rightarrow> (int \<times> 's) result"

record 's nfq_q_handle =
  qh_id :: "16 word"
  qh_cb :: "'s nfq_callback option"

type_synonym 's queues = "'s nfq_q_handle list \<times> 's"

record 's nfq_handle =
  nfnlh :: "'s queues nfnl_handle"
  qh_list :: "'s nfq_q_handle list"
  client :: 's
  received :: "nf_recv list"
  sent :: "mem list"

text \<open>
  What is not determined by the state: the time, the bytes of the stack under the message that is built, under the
  padding of the structures in it and under the receive buffer, and whether \<open>bind\<close> and \<open>sendto\<close> succeed.
\<close>

record nf_env =
  ne_now :: "32 word"
  ne_pad :: "8 word"
  ne_msg :: mem
  ne_stack :: mem
  ne_bound :: bool
  ne_taken :: bool

type_synonym 's nfq_op = "'s nfq_handle \<Rightarrow> (int \<times> 's nfq_handle) result option"

section \<open>The queues\<close>

fun del_qh :: "16 word \<Rightarrow> 's nfq_q_handle list \<Rightarrow> 's nfq_q_handle list" where
  "del_qh i [] = []"
| "del_qh i (q # qs) = (if qh_id q = i then qs else q # del_qh i qs)"

definition add_qh :: "'s nfq_q_handle \<Rightarrow> 's nfq_q_handle list \<Rightarrow> 's nfq_q_handle list" where
  "add_qh q qs = q # qs"

fun find_qh :: "'s nfq_q_handle list \<Rightarrow> 16 word \<Rightarrow> 's nfq_q_handle option" where
  "find_qh [] i = None"
| "find_qh (q # qs) i = (if qh_id q = i then Some q else find_qh qs i)"

text \<open>\<open>ENODEV\<close> is 19.\<close>

definition nfq_rcv_pkt :: "'s queues nf_call" where
  "nfq_rcv_pkt buf nlh nfa st =
     (let nfmsg = NLMSG_DATA nlh
      in bind (read16 (nfmsg + 2) buf) (\<lambda>r.
         case find_qh (fst st) (htons r) of
           None \<Rightarrow> Inr (-19, st)
         | Some q \<Rightarrow>
             case qh_cb q of
               None \<Rightarrow> Inr (-19, st)
             | Some f \<Rightarrow> bind (f (qh_id q) buf nfmsg nfa (snd st)) (\<lambda>(ret, s). Inr (ret, fst st, s))))"

definition pkt_cb :: "nat \<Rightarrow> 's queues nfnl_callback" where
  "pkt_cb nfqa_max = \<lparr>cb_call = Some nfq_rcv_pkt, attr_count = nfqa_max\<rparr>"

section \<open>Opening\<close>

text \<open>The numbers of messages and of attributes depend on the headers of the kernel.\<close>

definition nfq_open_nfnl :: "bool \<Rightarrow> nat \<Rightarrow> nat \<Rightarrow> 's queues nfnl_handle \<Rightarrow> 's \<Rightarrow> 's nfq_handle option result" where
  "nfq_open_nfnl bound msg_max nfqa_max nh s =
     (case nfnl_subsys_open bound NFNL_SUBSYS_QUEUE msg_max 0 nh of
        (None, nh) \<Rightarrow> Inr None
      | (Some sid, nh) \<Rightarrow>
          bind (nfnl_callback_register sid NFQNL_MSG_PACKET (pkt_cb nfqa_max) nh) (\<lambda>(err, nh).
            Inr (if err < 0 then None else Some \<lparr>nfnlh = nh, qh_list = [], client = s, received = [], sent = []\<rparr>)))"

definition nfq_open :: "bool \<Rightarrow> 32 word \<Rightarrow> 32 word \<Rightarrow> nat \<Rightarrow> nat \<Rightarrow> nat \<Rightarrow> 's \<Rightarrow> 's nfq_handle option result" where
  "nfq_open bound pid now bufsize msg_max nfqa_max s =
     (case nfnl_open bound pid now bufsize of
        None \<Rightarrow> Inr None
      | Some nh \<Rightarrow> nfq_open_nfnl bound msg_max nfqa_max (nfnl_unset_sequence_tracking nh) s)"

section \<open>Requests\<close>

text \<open>Sending a request and waiting for what the kernel answers.\<close>

definition send_query :: "nf_env \<Rightarrow> mem \<Rightarrow> 's nfq_op" where
  "send_query E u Q =
     (case nfnl_query (ne_taken E) (nfnlh Q) u 0 (ne_stack E) (received Q) (qh_list Q, client Q) of
        None \<Rightarrow> None
      | Some (Inl e) \<Rightarrow> Some (Inl e)
      | Some (Inr (m, (ret, st), evs)) \<Rightarrow>
          Some (Inr (ret, Q\<lparr>client := snd st, received := evs, sent := (if ne_taken E then sent Q @ [m] else sent Q)\<rparr>)))"

text \<open>A configuration message with one attribute, in a union of \<open>usize\<close> bytes.\<close>

definition cfg_msg :: "nf_env \<Rightarrow> nat \<Rightarrow> 16 word \<Rightarrow> 16 word \<Rightarrow> mem \<Rightarrow> 's queues nfnl_handle \<Rightarrow> (mem \<times> 's queues nfnl_handle) result" where
  "cfg_msg E usize queuenum ty data nh =
     bind (nfnl_fill_hdr (ne_now E) NFNL_SUBSYS_QUEUE 0 0 0 queuenum NFQNL_MSG_CONFIG (NLM_REQUEST OR NLM_ACK) (take usize (ne_msg E)) nh) (\<lambda>(u, nh).
     bind (nfnl_addattr_l 0 (word_of_nat usize) ty data u) (\<lambda>(_, u). Inr (u, nh)))"

definition send_cfg :: "nf_env \<Rightarrow> nat \<Rightarrow> 16 word \<Rightarrow> 16 word \<Rightarrow> mem \<Rightarrow> 's nfq_op" where
  "send_cfg E usize queuenum ty data Q =
     (case cfg_msg E usize queuenum ty data (nfnlh Q) of
        Inl e \<Rightarrow> Some (Inl e)
      | Inr (u, nh) \<Rightarrow> send_query E u (Q\<lparr>nfnlh := nh\<rparr>))"

definition build_send_cfg_msg :: "nf_env \<Rightarrow> 8 word \<Rightarrow> 16 word \<Rightarrow> 16 word \<Rightarrow> 's nfq_op" where
  "build_send_cfg_msg E command queuenum pf = send_cfg E 28 queuenum NFQA_CFG_CMD ([command, ne_pad E] @ store16 (htons pf))"

definition nfq_bind_pf :: "nf_env \<Rightarrow> 16 word \<Rightarrow> 's nfq_op" where
  "nfq_bind_pf E pf = build_send_cfg_msg E NFQNL_CFG_CMD_PF_BIND 0 pf"

definition nfq_unbind_pf :: "nf_env \<Rightarrow> 16 word \<Rightarrow> 's nfq_op" where
  "nfq_unbind_pf E pf = build_send_cfg_msg E NFQNL_CFG_CMD_PF_UNBIND 0 pf"

text \<open>The value tells whether a queue has been created.\<close>

definition nfq_create_queue :: "nf_env \<Rightarrow> 16 word \<Rightarrow> 's nfq_callback option \<Rightarrow> 's nfq_handle \<Rightarrow> (bool \<times> 's nfq_handle) result option" where
  "nfq_create_queue E num f Q =
     (if find_qh (qh_list Q) num \<noteq> None then Some (Inr (False, Q))
      else case build_send_cfg_msg E NFQNL_CFG_CMD_BIND num 0 Q of
          None \<Rightarrow> None
        | Some (Inl e) \<Rightarrow> Some (Inl e)
        | Some (Inr (ret, Q)) \<Rightarrow>
            if ret < 0 then Some (Inr (False, Q))
            else Some (Inr (True, Q\<lparr>qh_list := add_qh \<lparr>qh_id = num, qh_cb = f\<rparr> (qh_list Q)\<rparr>)))"

definition nfq_destroy_queue :: "nf_env \<Rightarrow> 16 word \<Rightarrow> 's nfq_op" where
  "nfq_destroy_queue E num Q =
     (case build_send_cfg_msg E NFQNL_CFG_CMD_UNBIND num 0 Q of
        Some (Inr (ret, Q)) \<Rightarrow> Some (Inr (ret, if ret = 0 then Q\<lparr>qh_list := del_qh num (qh_list Q)\<rparr> else Q))
      | r \<Rightarrow> r)"

definition nfq_set_mode :: "nf_env \<Rightarrow> 16 word \<Rightarrow> 8 word \<Rightarrow> 32 word \<Rightarrow> 's nfq_op" where
  "nfq_set_mode E num mode rng = send_cfg E 32 num NFQA_CFG_PARAMS (store32 (htonl rng) @ [mode])"

definition nfq_set_queue_maxlen :: "nf_env \<Rightarrow> 16 word \<Rightarrow> 32 word \<Rightarrow> 's nfq_op" where
  "nfq_set_queue_maxlen E num queuelen = send_cfg E 32 num NFQA_CFG_QUEUE_MAXLEN (store32 (htonl queuelen))"

definition nfq_handle_packet :: "mem \<Rightarrow> 32 word \<Rightarrow> 's nfq_op" where
  "nfq_handle_packet buf len Q =
     (case nfnl_handle_packet (nfnlh Q) buf len (qh_list Q, client Q) of
        None \<Rightarrow> None
      | Some (Inl e) \<Rightarrow> Some (Inl e)
      | Some (Inr (ret, st)) \<Rightarrow> Some (Inr (ret, Q\<lparr>client := snd st\<rparr>)))"

text \<open>\<open>closed\<close> is the value of \<open>close\<close>. The handle is freed when that succeeds; else it stays, without its subsystems.\<close>

definition nfq_close :: "int \<Rightarrow> 's nfq_handle \<Rightarrow> int \<times> 's nfq_handle option" where
  "nfq_close closed Q =
     (let nh = nfnl_close (nfnlh Q) in if closed < 0 then (closed, Some (Q\<lparr>nfnlh := nh\<rparr>)) else (0, None))"

section \<open>Verdicts\<close>

text \<open>
  The message that is sent for a verdict, from three regions: the message that has been built, the header of the
  attribute with the packet, and the packet, of which as many bytes are taken as its length gives when it is
  aligned. \<open>data\<close> is the memory from the packet on.
\<close>

definition set_verdict :: "nf_env \<Rightarrow> 's nfnl_handle \<Rightarrow> 16 word \<Rightarrow> 32 word \<Rightarrow> 32 word \<Rightarrow> 32 word \<Rightarrow> bool \<Rightarrow> 32 word \<Rightarrow> mem \<Rightarrow>
    (mem \<times> 's nfnl_handle) result" where
  "set_verdict E nh num pid v mark set_mark data_len data =
     bind (nfnl_fill_hdr (ne_now E) NFNL_SUBSYS_QUEUE 0 0 0 num NFQNL_MSG_VERDICT NLM_REQUEST (take 40 (ne_msg E)) nh) (\<lambda>(u, nh).
     bind (nfnl_addattr_l 0 40 (word_of_nat NFQA_VERDICT_HDR) (store32 (htonl v) @ store32 (htonl pid)) u) (\<lambda>(_, u).
     bind (if set_mark then nfnl_addattr32 0 40 (word_of_nat NFQA_MARK) mark u else Inr (0, u)) (\<lambda>(_, u).
     bind (nlmsg_len 0 u) (\<lambda>l.
       let iov0 = unat (NLMSG_ALIGN l)
       in if data_len = 0 then bind (read_bytes 0 iov0 u) (\<lambda>m. Inr (m, nh))
          else
            let (nfa, n) = nfnl_build_nfa_iovec (word_of_nat NFQA_PAYLOAD) data_len
            in bind (write_at 0 (store32 (l + ucast (load16 nfa 0))) u) (\<lambda>u.
               bind (read_bytes 0 iov0 u) (\<lambda>m. bind (read_bytes 0 n data) (\<lambda>d. Inr (m @ nfa @ d, nh))))))))"

definition nfq_set_verdict :: "nf_env \<Rightarrow> 's nfnl_handle \<Rightarrow> 16 word \<Rightarrow> 32 word \<Rightarrow> 32 word \<Rightarrow> 32 word \<Rightarrow> mem \<Rightarrow> (mem \<times> 's nfnl_handle) result" where
  "nfq_set_verdict E nh num pid v data_len data = set_verdict E nh num pid v 0 False data_len data"

definition nfq_set_verdict2 :: "nf_env \<Rightarrow> 's nfnl_handle \<Rightarrow> 16 word \<Rightarrow> 32 word \<Rightarrow> 32 word \<Rightarrow> 32 word \<Rightarrow> 32 word \<Rightarrow> mem \<Rightarrow>
    (mem \<times> 's nfnl_handle) result" where
  "nfq_set_verdict2 E nh num pid v mark data_len data = set_verdict E nh num pid v (htonl mark) True data_len data"

definition nfq_set_verdict_mark :: "nf_env \<Rightarrow> 's nfnl_handle \<Rightarrow> 16 word \<Rightarrow> 32 word \<Rightarrow> 32 word \<Rightarrow> 32 word \<Rightarrow> 32 word \<Rightarrow> mem \<Rightarrow>
    (mem \<times> 's nfnl_handle) result" where
  "nfq_set_verdict_mark E nh num pid v mark data_len data = set_verdict E nh num pid v mark True data_len data"

section \<open>Queued packets\<close>

definition nfnl_get_pointer_to_data :: "nat option list \<Rightarrow> nat \<Rightarrow> nat option" where
  "nfnl_get_pointer_to_data tb attr = map_option NFA_DATA (tb ! (attr - 1))"

definition nfnl_get_data32 :: "nat option list \<Rightarrow> nat \<Rightarrow> mem \<Rightarrow> 32 word result" where
  "nfnl_get_data32 tb attr buf = (case tb ! (attr - 1) of None \<Rightarrow> Inr 0 | Some nfa \<Rightarrow> read32 (NFA_DATA nfa) buf)"

definition nfq_get_msg_packet_hdr :: "nat option list \<Rightarrow> nat option" where
  "nfq_get_msg_packet_hdr nfad = nfnl_get_pointer_to_data nfad NFQA_PACKET_HDR"

definition nfq_get_nfmark :: "nat option list \<Rightarrow> mem \<Rightarrow> 32 word result" where
  "nfq_get_nfmark nfad buf = bind (nfnl_get_data32 nfad NFQA_MARK buf) (\<lambda>w. Inr (htonl w))"

definition nfq_get_timestamp :: "nat option list \<Rightarrow> mem \<Rightarrow> (64 word \<times> 64 word) option result" where
  "nfq_get_timestamp nfad buf =
     (case nfnl_get_pointer_to_data nfad NFQA_TIMESTAMP of
        None \<Rightarrow> Inr None
      | Some qpt \<Rightarrow> bind (read_be64 qpt buf) (\<lambda>sec. bind (read_be64 (qpt + 8) buf) (\<lambda>usec. Inr (Some (sec, usec)))))"

definition nfq_get_indev :: "nat option list \<Rightarrow> mem \<Rightarrow> 32 word result" where
  "nfq_get_indev nfad buf = bind (nfnl_get_data32 nfad NFQA_IFINDEX_INDEV buf) (\<lambda>w. Inr (htonl w))"

definition nfq_get_physindev :: "nat option list \<Rightarrow> mem \<Rightarrow> 32 word result" where
  "nfq_get_physindev nfad buf = bind (nfnl_get_data32 nfad NFQA_IFINDEX_PHYSINDEV buf) (\<lambda>w. Inr (htonl w))"

definition nfq_get_outdev :: "nat option list \<Rightarrow> mem \<Rightarrow> 32 word result" where
  "nfq_get_outdev nfad buf = bind (nfnl_get_data32 nfad NFQA_IFINDEX_OUTDEV buf) (\<lambda>w. Inr (htonl w))"

definition nfq_get_physoutdev :: "nat option list \<Rightarrow> mem \<Rightarrow> 32 word result" where
  "nfq_get_physoutdev nfad buf = bind (nfnl_get_data32 nfad NFQA_IFINDEX_PHYSOUTDEV buf) (\<lambda>w. Inr (htonl w))"

definition nfq_get_packet_hw :: "nat option list \<Rightarrow> nat option" where
  "nfq_get_packet_hw nfad = nfnl_get_pointer_to_data nfad NFQA_HWADDR"

text \<open>The length and the place of the packet.\<close>

definition nfq_get_payload :: "nat option list \<Rightarrow> mem \<Rightarrow> (int \<times> nat option) result" where
  "nfq_get_payload nfad buf =
     (case nfad ! (NFQA_PAYLOAD - 1) of
        None \<Rightarrow> Inr (-1, None)
      | Some nfa \<Rightarrow> bind (nla_len nfa buf) (\<lambda>l. Inr (uint l - 4, Some (NFA_DATA nfa))))"

end
