(* ===== verification/Nf_Xml.thy ===== *)
theory Nf_Xml
  imports Nf_Queue
begin

text \<open>
  The description of a queued packet that \<open>nfq_snprintf_xml\<close> of \<open>libnetfilter_queue.c\<close> prints into a buffer. Texts are strings,
  the buffer holds bytes. The flags are one \<open>bool\<close> each and the time of day, split up, is an argument, with no value where
  \<open>localtime_r\<close> fails. The lengths stay below \<open>2 ^ 31\<close>: a packet has less than \<open>2 ^ 16\<close> bytes.
\<close>

section \<open>Formats\<close>

definition digit :: "nat \<Rightarrow> char" where "digit n = ''0123456789abcdef'' ! n"

text \<open>\<open>%u\<close> and \<open>%d\<close> of a number that is not negative; \<open>%02d\<close>; \<open>%02x\<close> of a byte and \<open>%04x\<close> of a half word.\<close>

fun dec :: "nat \<Rightarrow> string" where
  "dec n = (if n < 10 then [digit n] else dec (n div 10) @ [digit (n mod 10)])"

declare dec.simps [simp del]

definition dec2 :: "nat \<Rightarrow> string" where "dec2 n = (if n < 10 then ''0'' @ dec n else dec n)"

definition hex2 :: "8 word \<Rightarrow> string" where "hex2 b = [digit (unat b div 16), digit (unat b mod 16)]"

definition hex4 :: "16 word \<Rightarrow> string" where
  "hex4 w = map (\<lambda>i. digit (unat w div 16 ^ i mod 16)) [3, 2, 1, 0]"

text \<open>An element with a text.\<close>

definition element :: "string \<Rightarrow> string \<Rightarrow> string" where
  "element tag txt = ''<'' @ tag @ ''>'' @ txt @ ''</'' @ tag @ ''>''"

section \<open>Printing into the buffer\<close>

text \<open>
  \<open>snprintf\<close> writes what fits with its terminator and returns the whole length. The state of the function: buffer, \<open>rem\<close>, \<open>offset\<close> and
  \<open>len\<close>, which the macro \<open>SNPRINTF_FAILURE\<close> brings up to date.
\<close>

type_synonym xst = "mem \<times> nat \<times> nat \<times> nat"

definition ascii :: "string \<Rightarrow> mem" where "ascii = map of_char"

definition snprintf :: "nat \<Rightarrow> nat \<Rightarrow> string \<Rightarrow> mem \<Rightarrow> mem result" where
  "snprintf offset rem txt buf = (if rem = 0 then Inr buf else write_at offset (take (rem - 1) (ascii txt) @ [0]) buf)"

definition put :: "string \<Rightarrow> xst \<Rightarrow> xst result" where
  "put txt = (\<lambda>(buf, rem, offset, len). bind (snprintf offset rem txt buf) (\<lambda>buf.
     let ret = length txt; len = len + ret; ret = (if ret > rem then rem else ret)
     in Inr (buf, rem - ret, offset + ret, len)))"

fun puts :: "string list \<Rightarrow> xst \<Rightarrow> xst result" where
  "puts [] st = Inr st"
| "puts (txt # txts) st = bind (put txt st) (puts txts)"

fun put_bytes :: "(nat \<Rightarrow> 8 word result) \<Rightarrow> nat list \<Rightarrow> xst \<Rightarrow> xst result" where
  "put_bytes data [] st = Inr st"
| "put_bytes data (i # is) st = bind (data i) (\<lambda>b. bind (put (hex2 b) st) (put_bytes data is))"

section \<open>The function\<close>

record xml_flags =
  xml_hw :: bool
  xml_mark :: bool
  xml_dev :: bool
  xml_physdev :: bool
  xml_payload :: bool
  xml_time :: bool

text \<open>\<open>struct tm\<close>: the month counts from 0, the year from 1900, the day of the week from Sunday.\<close>

record tm =
  tm_hour :: nat
  tm_min :: nat
  tm_sec :: nat
  tm_wday :: nat
  tm_mday :: nat
  tm_mon :: nat
  tm_year :: nat

definition put_when :: "tm \<Rightarrow> xst \<Rightarrow> xst result" where
  "put_when t = puts [''<when>'', element ''hour'' (dec (tm_hour t)), element ''min'' (dec2 (tm_min t)), element ''sec'' (dec2 (tm_sec t)),
     element ''wday'' (dec (tm_wday t + 1)), element ''day'' (dec (tm_mday t)), element ''month'' (dec (tm_mon t + 1)),
     element ''year'' (dec (1900 + tm_year t)), ''</when>'']"

text \<open>The hardware address has room for eight bytes, whatever its length says.\<close>

definition hw_byte :: "nat \<Rightarrow> mem \<Rightarrow> nat \<Rightarrow> 8 word result" where
  "hw_byte hwph nb i = (if i < 8 then read8 (hwph + 4 + i) nb else Inl Out_Of_Bounds)"

definition put_header :: "mem \<Rightarrow> nat option list \<Rightarrow> xml_flags \<Rightarrow> xst \<Rightarrow> xst result" where
  "put_header nb tb fl st =
     (case nfq_get_msg_packet_hdr tb of
        None \<Rightarrow> Inr st
      | Some ph \<Rightarrow>
          bind (read8 (ph + 6) nb) (\<lambda>hook. bind (read32 ph nb) (\<lambda>pid.
          bind (put (element ''hook'' (dec (unat hook)) @ element ''id'' (dec (unat (htonl pid)))) st) (\<lambda>st.
            if \<not> xml_hw fl then Inr st
            else
              bind (read16 (ph + 4) nb) (\<lambda>proto.
                case nfq_get_packet_hw tb of
                  Some hwph \<Rightarrow>
                    bind (read16 hwph nb) (\<lambda>hlen.
                    bind (puts [''<hw>'' @ element ''proto'' (hex4 (htons proto)), ''<src>''] st) (\<lambda>st.
                    bind (put_bytes (hw_byte hwph nb) [0..<unat (htons hlen)] st) (\<lambda>st. put ''</src></hw>'' st)))
                | None \<Rightarrow> put (''<hw>'' @ element ''proto'' (hex4 (htons proto)) @ ''</hw>'') st)))))"

definition put_number :: "string \<Rightarrow> bool \<Rightarrow> 32 word result \<Rightarrow> xst \<Rightarrow> xst result" where
  "put_number tag wanted r st = bind r (\<lambda>v. if v \<noteq> 0 \<and> wanted then put (element tag (dec (unat v))) st else Inr st)"

definition put_payload :: "mem \<Rightarrow> nat option list \<Rightarrow> xml_flags \<Rightarrow> xst \<Rightarrow> xst result" where
  "put_payload nb tb fl st =
     bind (nfq_get_payload tb nb) (\<lambda>(ret, data).
       case data of
         Some d \<Rightarrow>
           if ret \<ge> 0 \<and> xml_payload fl then
             bind (put ''<payload>'' st) (\<lambda>st. bind (put_bytes (\<lambda>i. read8 (d + i) nb) [0..<nat ret] st) (\<lambda>st. put ''</payload>'' st))
           else Inr st
       | None \<Rightarrow> Inr st)"

definition nfq_snprintf_xml :: "mem \<Rightarrow> nat \<Rightarrow> mem \<Rightarrow> nat option list \<Rightarrow> xml_flags \<Rightarrow> tm option \<Rightarrow> (int \<times> mem) result" where
  "nfq_snprintf_xml buf rem nb tb fl now =
     bind (put ''<pkt>'' (buf, rem, 0, 0)) (\<lambda>st.
       if xml_time fl \<and> now = None then Inr (-1, fst st)
       else
         bind (if xml_time fl then put_when (the now) st else Inr st) (\<lambda>st.
         bind (put_header nb tb fl st) (\<lambda>st.
         bind (put_number ''mark'' (xml_mark fl) (nfq_get_nfmark tb nb) st) (\<lambda>st.
         bind (put_number ''indev'' (xml_dev fl) (nfq_get_indev tb nb) st) (\<lambda>st.
         bind (put_number ''outdev'' (xml_dev fl) (nfq_get_outdev tb nb) st) (\<lambda>st.
         bind (put_number ''physindev'' (xml_physdev fl) (nfq_get_physindev tb nb) st) (\<lambda>st.
         bind (put_number ''physoutdev'' (xml_physdev fl) (nfq_get_physoutdev tb nb) st) (\<lambda>st.
         bind (put_payload nb tb fl st) (\<lambda>st.
         bind (put ''</pkt>'' st) (\<lambda>(buf, rem, offset, len). Inr (int len, buf)))))))))))"

section \<open>The text\<close>

text \<open>What is to be printed, without a buffer.\<close>

fun hex_text :: "(nat \<Rightarrow> 8 word result) \<Rightarrow> nat list \<Rightarrow> string result" where
  "hex_text data [] = Inr []"
| "hex_text data (i # is) = bind (data i) (\<lambda>b. bind (hex_text data is) (\<lambda>txt. Inr (hex2 b @ txt)))"

definition when_text :: "tm \<Rightarrow> string" where
  "when_text t = element ''when'' (element ''hour'' (dec (tm_hour t)) @ element ''min'' (dec2 (tm_min t)) @ element ''sec'' (dec2 (tm_sec t)) @
     element ''wday'' (dec (tm_wday t + 1)) @ element ''day'' (dec (tm_mday t)) @ element ''month'' (dec (tm_mon t + 1)) @
     element ''year'' (dec (1900 + tm_year t)))"

definition header_text :: "mem \<Rightarrow> nat option list \<Rightarrow> xml_flags \<Rightarrow> string result" where
  "header_text nb tb fl =
     (case nfq_get_msg_packet_hdr tb of
        None \<Rightarrow> Inr []
      | Some ph \<Rightarrow>
          bind (read8 (ph + 6) nb) (\<lambda>hook. bind (read32 ph nb) (\<lambda>pid.
          bind (if \<not> xml_hw fl then Inr []
                else bind (read16 (ph + 4) nb) (\<lambda>proto.
                  bind (case nfq_get_packet_hw tb of
                      None \<Rightarrow> Inr []
                    | Some hwph \<Rightarrow> bind (read16 hwph nb) (\<lambda>hlen. bind (hex_text (hw_byte hwph nb) [0..<unat (htons hlen)]) (\<lambda>txt.
                        Inr (element ''src'' txt)))) (\<lambda>src.
                  Inr (element ''hw'' (element ''proto'' (hex4 (htons proto)) @ src))))) (\<lambda>hw.
            Inr (element ''hook'' (dec (unat hook)) @ element ''id'' (dec (unat (htonl pid))) @ hw)))))"

definition number_text :: "string \<Rightarrow> bool \<Rightarrow> 32 word result \<Rightarrow> string result" where
  "number_text tag wanted r = bind r (\<lambda>v. Inr (if v \<noteq> 0 \<and> wanted then element tag (dec (unat v)) else []))"

definition payload_text :: "mem \<Rightarrow> nat option list \<Rightarrow> xml_flags \<Rightarrow> string result" where
  "payload_text nb tb fl =
     bind (nfq_get_payload tb nb) (\<lambda>(ret, data).
       case data of
         Some d \<Rightarrow> if ret \<ge> 0 \<and> xml_payload fl then bind (hex_text (\<lambda>i. read8 (d + i) nb) [0..<nat ret]) (\<lambda>txt. Inr (element ''payload'' txt)) else Inr []
       | None \<Rightarrow> Inr [])"

fun concat_texts :: "string result list \<Rightarrow> string result" where
  "concat_texts [] = Inr []"
| "concat_texts (r # rs) = bind r (\<lambda>txt. bind (concat_texts rs) (\<lambda>txt'. Inr (txt @ txt')))"

definition xml_text :: "mem \<Rightarrow> nat option list \<Rightarrow> xml_flags \<Rightarrow> tm option \<Rightarrow> string result" where
  "xml_text nb tb fl now =
     concat_texts [Inr ''<pkt>'', Inr (case now of Some t \<Rightarrow> if xml_time fl then when_text t else [] | None \<Rightarrow> []), header_text nb tb fl,
       number_text ''mark'' (xml_mark fl) (nfq_get_nfmark tb nb),
       number_text ''indev'' (xml_dev fl) (nfq_get_indev tb nb), number_text ''outdev'' (xml_dev fl) (nfq_get_outdev tb nb),
       number_text ''physindev'' (xml_physdev fl) (nfq_get_physindev tb nb), number_text ''physoutdev'' (xml_physdev fl) (nfq_get_physoutdev tb nb),
       payload_text nb tb fl, Inr ''</pkt>'']"

section \<open>What the buffer holds\<close>

text \<open>The state after a text has been printed into a buffer of which \<open>n\<close> bytes may be used: as much of it as fits, its end marked.\<close>

definition printed :: "nat \<Rightarrow> mem \<Rightarrow> string \<Rightarrow> mem" where
  "printed n buf txt =
     (if n = 0 \<or> txt = [] then buf else take (n - 1) (ascii txt) @ [0] @ drop (min (length txt) (n - 1) + 1) buf)"

definition at_text :: "nat \<Rightarrow> mem \<Rightarrow> string \<Rightarrow> xst" where
  "at_text n buf txt = (printed n buf txt, n - min (length txt) n, min (length txt) n, length txt)"

lemma length_ascii [simp]: "length (ascii txt) = length txt"
  by (simp add: ascii_def)

lemma ascii_append: "ascii (s @ t) = ascii s @ ascii t"
  by (simp add: ascii_def)

lemma put_at_text:
  assumes "n \<le> length buf" and "s \<noteq> []"
  shows "put s (at_text n buf t) = Inr (at_text n buf (t @ s))"
proof (cases "length t < n")
  case False
  then have "printed n buf (t @ s) = printed n buf t" by (auto simp add: printed_def ascii_append)
  with False assms(2) show ?thesis by (simp add: put_def at_text_def snprintf_def Let_def)
next
  case True
  let ?w = "take (n - length t - 1) (ascii s) @ [0]"
  have pre: "take (length t) (printed n buf t) = ascii t" using True by (simp add: printed_def ascii_def)
  have len: "length (printed n buf t) = length buf" using True assms(1) by (simp add: printed_def) linarith
  have w: "length ?w = min (length s) (n - length t - 1) + 1" by simp
  have "take (n - Suc 0) (ascii t) = ascii t" "min (length t) (n - Suc 0) = length t" using True by simp_all
  then have "drop (length t + Suc j) (printed n buf t) = drop (length t + Suc j) buf" for j by (simp add: printed_def add.commute)
  then have post: "drop (length t + length ?w) (printed n buf t) = drop (length t + length ?w) buf" by simp
  have fits: "length t + length ?w \<le> length buf" using True assms(1) w by linarith
  have "take (n - 1) (ascii (t @ s)) = ascii t @ take (n - length t - 1) (ascii s)" using True by (simp add: ascii_append)
  moreover have "min (length (t @ s)) (n - 1) + 1 = length t + length ?w" using True by auto
  ultimately have "printed n buf (t @ s) = ascii t @ ?w @ drop (length t + length ?w) buf" using True assms(2) by (simp add: printed_def)
  then have "snprintf (length t) (n - length t) s (printed n buf t) = Inr (printed n buf (t @ s))"
    using True pre post fits len by (simp add: snprintf_def write_at_def)
  then show ?thesis using True by (auto simp add: put_def at_text_def Let_def)
qed

text \<open>A step prints a text when it appends that text, whatever has been printed before.\<close>

definition prints :: "nat \<Rightarrow> mem \<Rightarrow> (xst \<Rightarrow> xst result) \<Rightarrow> string result \<Rightarrow> bool" where
  "prints n buf p r \<longleftrightarrow> (\<forall>t. p (at_text n buf t) = bind r (\<lambda>s. Inr (at_text n buf (t @ s))))"

lemma prints_none: "prints n buf Inr (Inr [])"
  by (simp add: prints_def)

lemma prints_put: "n \<le> length buf \<Longrightarrow> s \<noteq> [] \<Longrightarrow> prints n buf (put s) (Inr s)"
  by (simp add: prints_def put_at_text)

lemma prints_bind:
  assumes "prints n buf p r" and "prints n buf q r'"
  shows "prints n buf (\<lambda>st. bind (p st) q) (bind r (\<lambda>s. bind r' (\<lambda>s'. Inr (s @ s'))))"
  using assms by (simp add: prints_def bind_assoc)

lemma prints_read:
  assumes "\<And>x. prints n buf (p x) (f x)"
  shows "prints n buf (\<lambda>st. bind r (\<lambda>x. p x st)) (bind r f)"
  using assms by (cases r) (simp_all add: prints_def)

lemma prints_cong: "prints n buf p r \<Longrightarrow> (\<And>st. p st = q st) \<Longrightarrow> r = r' \<Longrightarrow> prints n buf q r'"
  by (simp add: prints_def)

lemma element_neq [simp]: "element tag txt \<noteq> []"
  by (simp add: element_def)

lemma prints_puts:
  assumes "n \<le> length buf" and "\<forall>s\<in>set ss. s \<noteq> []"
  shows "prints n buf (puts ss) (Inr (concat ss))"
  using assms(2)
proof (induction ss)
  case (Cons s ss)
  then show ?case using prints_bind [OF prints_put [OF assms(1), of s], of "puts ss" "Inr (concat ss)"] by (auto intro: prints_cong)
qed (simp add: prints_def)

lemma prints_bytes:
  assumes "n \<le> length buf"
  shows "prints n buf (put_bytes data is) (hex_text data is)"
proof (induction "is")
  case (Cons i "is")
  have "prints n buf (\<lambda>st. bind (put (hex2 b) st) (put_bytes data is)) (bind (Inr (hex2 b)) (\<lambda>s. bind (hex_text data is) (\<lambda>s'. Inr (s @ s'))))" for b
    using assms Cons by (intro prints_bind prints_put) (simp_all add: hex2_def)
  then show ?case by (auto simp add: bind_def prints_def split: sum.splits)
qed (simp add: prints_def)

lemma prints_number: "n \<le> length buf \<Longrightarrow> prints n buf (put_number tag wanted r) (number_text tag wanted r)"
  unfolding prints_def put_number_def number_text_def by (auto simp add: bind_def put_at_text split: sum.splits)

lemma prints_when: "n \<le> length buf \<Longrightarrow> prints n buf (put_when t) (Inr (when_text t))"
  unfolding put_when_def by (rule prints_cong [OF prints_puts refl]) (simp_all add: when_text_def element_def)

lemma prints_header:
  assumes "n \<le> length buf"
  shows "prints n buf (put_header nb tb fl) (header_text nb tb fl)"
proof (cases "nfq_get_msg_packet_hdr tb")
  case None
  then show ?thesis by (simp add: prints_def put_header_def header_text_def)
next
  case (Some ph)
  let ?hw = "\<lambda>proto st. case nfq_get_packet_hw tb of
      Some hwph \<Rightarrow> bind (read16 hwph nb) (\<lambda>hlen. bind (puts [''<hw>'' @ element ''proto'' (hex4 (htons proto)), ''<src>''] st) (\<lambda>st.
        bind (put_bytes (hw_byte hwph nb) [0..<unat (htons hlen)] st) (\<lambda>st. put ''</src></hw>'' st)))
    | None \<Rightarrow> put (''<hw>'' @ element ''proto'' (hex4 (htons proto)) @ ''</hw>'') st"
  let ?tx = "\<lambda>proto. bind (case nfq_get_packet_hw tb of
      None \<Rightarrow> Inr []
    | Some hwph \<Rightarrow> bind (read16 hwph nb) (\<lambda>hlen. bind (hex_text (hw_byte hwph nb) [0..<unat (htons hlen)]) (\<lambda>txt. Inr (element ''src'' txt))))
      (\<lambda>src. Inr (element ''hw'' (element ''proto'' (hex4 (htons proto)) @ src)))"
  have hw: "prints n buf (?hw proto) (?tx proto)" for proto
  proof (cases "nfq_get_packet_hw tb")
    case None
    then show ?thesis using prints_put [OF assms, of "''<hw>'' @ element ''proto'' (hex4 (htons proto)) @ ''</hw>''"] by (simp add: element_def)
  next
    case (Some hwph)
    have "prints n buf (\<lambda>st. bind (puts [''<hw>'' @ element ''proto'' (hex4 (htons proto)), ''<src>''] st) (\<lambda>st.
          bind (put_bytes (hw_byte hwph nb) [0..<unat (htons hlen)] st) (\<lambda>st. put ''</src></hw>'' st)))
        (bind (hex_text (hw_byte hwph nb) [0..<unat (htons hlen)]) (\<lambda>txt.
          Inr (element ''hw'' (element ''proto'' (hex4 (htons proto)) @ element ''src'' txt))))" for hlen
      by (rule prints_cong [OF prints_bind [OF prints_puts prints_bind [OF prints_bytes prints_put]] refl])
        (use assms in \<open>auto simp add: element_def bind_def split: sum.splits\<close>)
    then have "prints n buf (\<lambda>st. bind (read16 hwph nb) (\<lambda>hlen. bind (puts [''<hw>'' @ element ''proto'' (hex4 (htons proto)), ''<src>''] st) (\<lambda>st.
          bind (put_bytes (hw_byte hwph nb) [0..<unat (htons hlen)] st) (\<lambda>st. put ''</src></hw>'' st))))
        (bind (read16 hwph nb) (\<lambda>hlen. bind (hex_text (hw_byte hwph nb) [0..<unat (htons hlen)]) (\<lambda>txt.
          Inr (element ''hw'' (element ''proto'' (hex4 (htons proto)) @ element ''src'' txt)))))"
      by (rule prints_read)
    then show ?thesis using Some by (simp add: bind_assoc)
  qed
  have c: "prints n buf (\<lambda>st. if \<not> xml_hw fl then Inr st else bind (read16 (ph + 4) nb) (\<lambda>proto. ?hw proto st))
      (if \<not> xml_hw fl then Inr [] else bind (read16 (ph + 4) nb) ?tx)"
    using prints_none prints_read [OF hw] by (cases "xml_hw fl") simp_all
  have "prints n buf (\<lambda>st. bind (put (element ''hook'' (dec (unat hook)) @ element ''id'' (dec (unat (htonl pid)))) st) (\<lambda>st.
        if \<not> xml_hw fl then Inr st else bind (read16 (ph + 4) nb) (\<lambda>proto. ?hw proto st)))
      (bind (if \<not> xml_hw fl then Inr [] else bind (read16 (ph + 4) nb) ?tx) (\<lambda>hw.
        Inr (element ''hook'' (dec (unat hook)) @ element ''id'' (dec (unat (htonl pid))) @ hw)))" for hook pid
    by (rule prints_cong [OF prints_bind [OF prints_put c] refl]) (use assms in simp_all)
  then have "prints n buf (\<lambda>st. bind (read8 (ph + 6) nb) (\<lambda>hook. bind (read32 ph nb) (\<lambda>pid.
        bind (put (element ''hook'' (dec (unat hook)) @ element ''id'' (dec (unat (htonl pid)))) st) (\<lambda>st.
        if \<not> xml_hw fl then Inr st else bind (read16 (ph + 4) nb) (\<lambda>proto. ?hw proto st)))))
      (bind (read8 (ph + 6) nb) (\<lambda>hook. bind (read32 ph nb) (\<lambda>pid.
        bind (if \<not> xml_hw fl then Inr [] else bind (read16 (ph + 4) nb) ?tx) (\<lambda>hw.
        Inr (element ''hook'' (dec (unat hook)) @ element ''id'' (dec (unat (htonl pid))) @ hw)))))"
    by (intro prints_read)
  then show ?thesis using Some by (simp add: put_header_def [abs_def] header_text_def)
qed

lemma prints_payload:
  assumes "n \<le> length buf"
  shows "prints n buf (put_payload nb tb fl) (payload_text nb tb fl)"
proof -
  have "prints n buf (\<lambda>st. bind (put ''<payload>'' st) (\<lambda>st. bind (put_bytes data is st) (\<lambda>st. put ''</payload>'' st)))
      (bind (hex_text data is) (\<lambda>txt. Inr (element ''payload'' txt)))" for data "is"
    by (rule prints_cong [OF prints_bind [OF prints_put prints_bind [OF prints_bytes prints_put]] refl])
      (use assms in \<open>auto simp add: element_def bind_def split: sum.splits\<close>)
  then show ?thesis
    unfolding put_payload_def [abs_def] payload_text_def
    by (intro prints_read) (auto simp add: prints_def split: option.splits)
qed

section \<open>The function prints the text\<close>

text \<open>C30: Whatever the size of the buffer, the function writes nothing behind the bytes it may use and leaves in them as much
  of the description as fits, with its end marked; its value is the length of the whole description. It fails only where reading the
  packet fails.\<close>

theorem xml_fits_buffer:
  assumes "n \<le> length buf" and "xml_time fl \<longrightarrow> now \<noteq> None"
  shows "nfq_snprintf_xml buf n nb tb fl now = bind (xml_text nb tb fl now) (\<lambda>txt. Inr (int (length txt), printed n buf txt))"
proof -
  have s: "(buf, n, 0, 0) = at_text n buf []" by (simp add: at_text_def printed_def)
  have w: "prints n buf (\<lambda>st. if xml_time fl then put_when (the now) st else Inr st)
      (Inr (case now of Some t \<Rightarrow> if xml_time fl then when_text t else [] | None \<Rightarrow> []))"
    using assms(2) prints_when [OF assms(1)] prints_none by (auto split: option.split)
  let ?p = "\<lambda>st. bind (put ''<pkt>'' st) (\<lambda>st. bind (if xml_time fl then put_when (the now) st else Inr st) (\<lambda>st.
      bind (put_header nb tb fl st) (\<lambda>st. bind (put_number ''mark'' (xml_mark fl) (nfq_get_nfmark tb nb) st) (\<lambda>st.
      bind (put_number ''indev'' (xml_dev fl) (nfq_get_indev tb nb) st) (\<lambda>st. bind (put_number ''outdev'' (xml_dev fl) (nfq_get_outdev tb nb) st) (\<lambda>st.
      bind (put_number ''physindev'' (xml_physdev fl) (nfq_get_physindev tb nb) st) (\<lambda>st.
      bind (put_number ''physoutdev'' (xml_physdev fl) (nfq_get_physoutdev tb nb) st) (\<lambda>st.
      bind (put_payload nb tb fl st) (\<lambda>st. put ''</pkt>'' st)))))))))"
  note prints = prints_bind [OF prints_put prints_bind [OF w prints_bind [OF prints_header prints_bind [OF prints_number prints_bind [OF prints_number
    prints_bind [OF prints_number prints_bind [OF prints_number prints_bind [OF prints_number prints_bind [OF prints_payload prints_put]]]]]]]]]
  have "prints n buf ?p (xml_text nb tb fl now)"
    by (rule prints_cong [OF prints refl]) (use assms(1) in \<open>simp_all add: xml_text_def\<close>)
  then have "?p (at_text n buf []) = bind (xml_text nb tb fl now) (\<lambda>txt. Inr (at_text n buf txt))" by (simp add: prints_def)
  moreover have f: "(xml_time fl \<and> now = None) = False" using assms(2) by auto
  have "nfq_snprintf_xml buf n nb tb fl now = bind (?p (at_text n buf [])) (\<lambda>(buf, rem, offset, len). Inr (int len, buf))"
    unfolding nfq_snprintf_xml_def s f by (simp add: bind_assoc)
  ultimately show ?thesis by (simp add: bind_assoc) (simp add: at_text_def)
qed

theorem xml_fits_buffer_witness:
  "nfq_snprintf_xml (replicate 16 7) 8 [] (replicate 10 None) \<lparr>xml_hw = True, xml_mark = True, xml_dev = True, xml_physdev = True,
       xml_payload = True, xml_time = False\<rparr> None = Inr (11, ascii ''<pkt></'' @ [0] @ replicate 8 7)"
proof -
  let ?fl = "\<lparr>xml_hw = True, xml_mark = True, xml_dev = True, xml_physdev = True, xml_payload = True, xml_time = False\<rparr>"
  have "xml_text [] (replicate 10 None) ?fl None = Inr ''<pkt></pkt>''" by code_simp
  with xml_fits_buffer [of 8 "replicate 16 7" ?fl None "[]" "replicate 10 None"] show ?thesis
    by (simp add: printed_def ascii_def)
qed

end
