(* ===== verification/Startup.thy ===== *)
theory Startup
  imports Antop_Prelude
begin

text \<open>
  What \<open>main.c\<close> does with its arguments and with its table of callbacks: three arguments are checked before anything else
  happens, each socket of the daemon attaches a callback, and the main loop calls those whose socket is ready.
\<close>

section \<open>Arguments\<close>

text \<open>\<open>strncmp\<close> with the length of a literal tells whether the text starts with it.\<close>

definition starts_with :: "string \<Rightarrow> string \<Rightarrow> bool" where
  "starts_with p str \<longleftrightarrow> take (length p) str = p"

text \<open>\<open>atoi\<close>: white space, a sign, digits up to the first other character. Values that do not fit an \<open>int\<close> are undefined.\<close>

definition digit_value :: "char \<Rightarrow> int option" where
  "digit_value c = map_of (zip ''0123456789'' [0..9]) c"

fun digits_value :: "int \<Rightarrow> string \<Rightarrow> int" where
  "digits_value acc [] = acc"
| "digits_value acc (c # cs) = (case digit_value c of None \<Rightarrow> acc | Some d \<Rightarrow> digits_value (10 * acc + d) cs)"

definition atoi :: "string \<Rightarrow> int" where
  "atoi str =
     (let cs = dropWhile (\<lambda>c. c \<in> set [CHR '' '', CHR 0x09, CHR 0x0A, CHR 0x0B, CHR 0x0C, CHR 0x0D]) str
      in case cs of
           [] \<Rightarrow> 0
         | c # ds \<Rightarrow> if c = CHR ''-'' then - digits_value 0 ds else if c = CHR ''+'' then digits_value 0 ds else digits_value 0 cs)"

record settings =
  st_ifindex :: nat
  st_univ_addr :: string
  st_hc_dim :: int

text \<open>The arguments include the name of the program; \<open>index_of\<close> is \<open>if_nametoindex\<close>. No settings: the program ends.\<close>

definition check_args :: "(string \<Rightarrow> nat) \<Rightarrow> string list \<Rightarrow> settings option result" where
  "check_args index_of argv =
     (if length argv \<noteq> 4 then Inr None
      else
        let ifname = argv ! 1
        in if \<not> starts_with ''eth'' ifname \<and> \<not> starts_with ''wlan'' ifname then Inr None
           else if index_of ifname = 0 then Inr None
           else
             let dim = atoi (argv ! 3)
             in if dim < - (2 ^ 31) \<or> 2 ^ 31 \<le> dim then Inl Out_Of_Bounds
                else if dim = 0 \<or> dim < 0 then Inr None
                else Inr (Some \<lparr>st_ifindex = index_of ifname, st_univ_addr = argv ! 2, st_hc_dim = dim\<rparr>))"

section \<open>Callbacks\<close>

definition CALLBACK_FUNCS :: nat where "CALLBACK_FUNCS = 4"

type_synonym 's callback = "int \<times> (int \<Rightarrow> 's \<Rightarrow> 's result)"

text \<open>No table: the program ends.\<close>

definition attach_callback_func :: "int \<Rightarrow> (int \<Rightarrow> 's \<Rightarrow> 's result) \<Rightarrow> 's callback list \<Rightarrow> 's callback list option" where
  "attach_callback_func fd func callbacks = (if length callbacks \<ge> CALLBACK_FUNCS then None else Some (callbacks @ [(fd, func)]))"

text \<open>One turn of the main loop after \<open>select\<close>, which gives the number of sockets that are ready, and which they are.\<close>

fun call_ready :: "(int \<Rightarrow> bool) \<Rightarrow> 's callback list \<Rightarrow> 's \<Rightarrow> 's result" where
  "call_ready rfds [] s = Inr s"
| "call_ready rfds ((fd, func) # cs) s = bind (if rfds fd then func fd s else Inr s) (call_ready rfds cs)"

definition loop_turn :: "int \<Rightarrow> (int \<Rightarrow> bool) \<Rightarrow> 's callback list \<Rightarrow> 's \<Rightarrow> 's result" where
  "loop_turn n rfds callbacks s = (if n > 0 then call_ready rfds callbacks s else Inr s)"

lemma attach_all: "(\<exists>t. fold (\<lambda>(fd, f) t. Option.bind t (attach_callback_func fd f)) cs (Some []) = Some t) \<longleftrightarrow> length cs \<le> CALLBACK_FUNCS"
proof -
  have n: "fold (\<lambda>(fd, f) t. Option.bind t (attach_callback_func fd f)) cs None = None" for cs :: "'a callback list"
    by (induction cs) auto
  have "fold (\<lambda>(fd, f) t. Option.bind t (attach_callback_func fd f)) cs (Some t) =
      (if length t + length cs \<le> CALLBACK_FUNCS \<or> cs = [] then Some (t @ cs) else None)" for cs t :: "'a callback list"
    by (induction cs arbitrary: t) (auto simp add: attach_callback_func_def n)
  then show ?thesis by auto
qed

end
