(* ===== verification/Nf_Daemon.thy ===== *)
theory Nf_Daemon
  imports Pkt_Hooks Nf_Queue Startup
begin

text \<open>
  The daemon on its packet queue (\<open>handle_packet\<close>, \<open>cb\<close> and \<open>pkt_hdlr_init\<close> of \<open>pkt_handle.c\<close>): a datagram of the queue is read
  into a buffer and handed to the library, which calls \<open>cb\<close>; what that does with the packet is in \<open>Pkt_Hooks\<close>, here are
  the way to the packet and the way of the verdict back to the kernel.
\<close>

section \<open>The callback\<close>

definition NF_DROP :: "32 word" where "NF_DROP = 0"
definition NF_ACCEPT :: "32 word" where "NF_ACCEPT = 1"
definition AF_INET6 :: "16 word" where "AF_INET6 = 10"
definition NFQNL_COPY_PACKET :: "8 word" where "NFQNL_COPY_PACKET = 2"

definition hook_of :: "8 word \<Rightarrow> hook option" where
  "hook_of n =
     (if n = 0 then Some PRE_ROUTING else if n = 1 then Some LOCAL_IN else if n = 2 then Some FORWARD
      else if n = 3 then Some LOCAL_OUT else if n = 4 then Some POST_ROUTING else None)"

text \<open>
  What the state does not determine: the environment of the message, the memory behind the packet, and the value of a
  function that falls off its end. The callback works on the state of the forwarding and the verdicts sent so far.
  Sequence numbers being off, building a message leaves the handle as it is.
\<close>

record q_env =
  qe_msg :: nf_env
  qe_behind :: mem
  qe_ret :: int

type_synonym 'k q_state = "'k fwd \<times> mem list"

text \<open>The three arguments of \<open>nfq_set_verdict\<close>: the verdict, and the length and the bytes of the packet.\<close>

fun verdict_args :: "verdict \<Rightarrow> 32 word \<times> byte list" where
  "verdict_args (Accept None) = (NF_ACCEPT, [])"
| "verdict_args (Accept (Some data)) = (NF_ACCEPT, data)"
| "verdict_args (Drop data) = (NF_DROP, data)"

text \<open>The value is that of \<open>sendmsg\<close>.\<close>

definition send_verdict :: "q_env \<Rightarrow> 'k q_state queues nfnl_handle \<Rightarrow> 16 word \<Rightarrow> 32 word \<Rightarrow> verdict \<Rightarrow> 'k q_state \<Rightarrow> (int \<times> 'k q_state) result" where
  "send_verdict E nh num pid v st =
     (let (code, data) = verdict_args v
      in bind (nfq_set_verdict (qe_msg E) nh num pid code (word_of_nat (length data)) (data @ qe_behind E)) (\<lambda>(m, _).
         if ne_taken (qe_msg E) then Inr (int (length m), fst st, snd st @ [m]) else Inr (-1, st)))"

text \<open>The callback returns a value only for packets of the node and for hooks it does not know.\<close>

definition queue_cb :: "fenv \<Rightarrow> 'k kernel_ops \<Rightarrow> q_env \<Rightarrow> 'k q_state queues nfnl_handle \<Rightarrow> 'k q_state nfq_callback" where
  "queue_cb F K E nh num buf nfmsg nfa st =
     bind (nfq_get_payload nfa buf) (\<lambda>(ret, data).
       case nfq_get_msg_packet_hdr nfa of
         None \<Rightarrow> Inl Null_Deref
       | Some ph \<Rightarrow>
           bind (read32 ph buf) (\<lambda>pid. bind (read8 (ph + 6) buf) (\<lambda>hk.
             case hook_of hk of
               None \<Rightarrow> send_verdict E nh num (htonl pid) (Accept None) st
             | Some h \<Rightarrow>
                 case data of
                   None \<Rightarrow> if h = LOCAL_OUT then send_verdict E nh num (htonl pid) (Accept None) st else Inl Wild_Pointer
                 | Some d \<Rightarrow>
                     bind (read_bytes d (nat ret) buf) (\<lambda>pkt.
                     bind (cb F K h pkt (fst st)) (\<lambda>(v, s).
                     bind (send_verdict E nh num (htonl pid) v (s, snd st)) (\<lambda>(r, st).
                       Inr (if h = LOCAL_OUT then r else qe_ret E, st)))))))"

section \<open>Packets from the queue\<close>

text \<open>The buffer has 4096 bytes; \<open>stack\<close> is what it held before.\<close>

definition handle_packet :: "nf_recv \<Rightarrow> mem \<Rightarrow> 'k q_state nfq_op" where
  "handle_packet ev stack Q =
     (let (rv, buf) = (case ev of
            Datagram d _ \<Rightarrow> (int (min (length d) 4096), take 4096 d @ drop (length d) stack)
          | _ \<Rightarrow> (-1, stack))
      in case nfq_handle_packet buf (word_of_int rv) Q of
          Some (Inr (_, Q)) \<Rightarrow> Some (Inr (0, Q))
        | r \<Rightarrow> r)"

section \<open>Setting up\<close>

text \<open>
  Requests to the kernel one after the other; the first that fails ends the function with -1. The environments are those of
  the four requests. The callback is attached to the socket in the end.
\<close>

definition request :: "(int \<times> 's nfq_handle) result option \<Rightarrow> ('s nfq_handle \<Rightarrow> (int \<times> 's nfq_handle) result option) \<Rightarrow>
    (int \<times> 's nfq_handle) result option" where
  "request r f =
     (case r of
        Some (Inr (err, Q)) \<Rightarrow> if err < 0 then Some (Inr (-1, Q)) else f Q
      | _ \<Rightarrow> r)"

definition pkt_hdlr_init :: "(nat \<Rightarrow> nf_env) \<Rightarrow> int \<Rightarrow> (16 word \<Rightarrow> mem \<Rightarrow> nat \<Rightarrow> nat option list \<Rightarrow> 's \<Rightarrow> (int \<times> 's) result) \<Rightarrow>
    's nfq_handle option \<Rightarrow> (int \<times> 's nfq_handle option) result option" where
  "pkt_hdlr_init N sock f h =
     (case h of
        None \<Rightarrow> Some (Inr (-1, None))
      | Some Q \<Rightarrow>
          (case request (nfq_unbind_pf (N 0) AF_INET6 Q) (\<lambda>Q.
                request (nfq_bind_pf (N 1) AF_INET6 Q) (\<lambda>Q.
                request (case nfq_create_queue (N 2) 0 (Some f) Q of
                    None \<Rightarrow> None
                  | Some (Inl e) \<Rightarrow> Some (Inl e)
                  | Some (Inr (made, Q)) \<Rightarrow> Some (Inr (if made then 0 else -1, Q))) (\<lambda>Q.
                request (nfq_set_mode (N 3) 0 NFQNL_COPY_PACKET 0xffff Q) (\<lambda>Q. Some (Inr (sock, Q)))))) of
             None \<Rightarrow> None
           | Some (Inl e) \<Rightarrow> Some (Inl e)
           | Some (Inr (r, Q)) \<Rightarrow> Some (Inr (r, Some Q))))"

end
