(* ===== verification/Nf_Correct.thy ===== *)
theory Nf_Correct
  imports Nf_Daemon Netlink_Correct
begin

text \<open>
  Properties of the packet queue: the loop over received messages returns, a verdict is read as it was written, a packet
  of the kernel gets the verdict the hooks give it, and what happens to packets that are too long and to calls that fail.
\<close>

section \<open>Attributes\<close>

lemma nfa_at:
  assumes "length xs = off" and "length d \<le> 65531" and "buf = xs @ attr_bytes ty d p @ zs"
  shows "nla_len off buf = Inr (alen d)" and "NFA_TYPE off buf = Inr (unat (ty AND 0x7fff))"
    and "NFA_NEXT off buf len = Inr (off + (4 + MNL_ALIGN (length d)), len - int (4 + MNL_ALIGN (length d)))"
    and "4 + int (length d) \<le> len \<Longrightarrow> NFA_OK off buf len = Inr True"
proof -
  show l: "nla_len off buf = Inr (alen d)"
    using read_stored(1) [OF assms(1), of "alen d"] assms(3) by (simp add: nla_len_def attr_bytes_def)
  show "NFA_TYPE off buf = Inr (unat (ty AND 0x7fff))"
    using read_stored(1) [of "xs @ store16 (alen d)" "off + 2" ty] assms(1,3) by (simp add: NFA_TYPE_def nla_type_def attr_bytes_def)
  have u: "unat (alen d) = 4 + length d" using assms(2) by (rule alen_unat)
  then show "NFA_NEXT off buf len = Inr (off + (4 + MNL_ALIGN (length d)), len - int (4 + MNL_ALIGN (length d)))"
    using l by (simp add: NFA_NEXT_def)
  have "uint (alen d) = 4 + int (length d)" "4 \<le> alen d" using u by (simp_all add: uint_nat word_le_nat_alt)
  then show "4 + int (length d) \<le> len \<Longrightarrow> NFA_OK off buf len = Inr True" using l by (simp add: NFA_OK_def)
qed

text \<open>Attributes at their offsets, and the table \<open>nfnl_check_attributes\<close> makes of them.\<close>

definition nf_type :: "16 word \<Rightarrow> nat" where
  "nf_type ty = unat (ty AND 0x7fff)"

fun table_of :: "nat \<Rightarrow> (nat \<times> 16 word \<times> mem) list \<Rightarrow> nat option list \<Rightarrow> nat option list" where
  "table_of count [] tb = tb"
| "table_of count ((off, ty, d) # as) tb =
     table_of count as (if nf_type ty = 0 \<or> count < nf_type ty then tb else tb[nf_type ty - 1 := Some off])"

lemma length_table_of [simp]: "length (table_of count as tb) = length tb"
  by (induction count as tb rule: table_of.induct) simp_all

lemma table_of_append: "table_of count (as @ bs) tb = table_of count bs (table_of count as tb)"
  by (induction count as tb rule: table_of.induct) simp_all

lemma table_of_other:
  "\<forall>(off, ty, d)\<in>set as. nf_type ty \<noteq> k \<Longrightarrow> 0 < k \<Longrightarrow> table_of count as tb ! (k - 1) = tb ! (k - 1)"
proof (induction count as tb rule: table_of.induct)
  case (2 count off ty d as tb)
  show ?case
  proof (cases "nf_type ty = 0")
    case True
    then show ?thesis using 2 by simp
  next
    case False
    then have "nf_type ty - 1 \<noteq> k - 1" using 2(2,3) by auto
    then show ?thesis using 2 by simp
  qed
qed simp

lemma check_entry_step: "check_entry count (nf_type ty) off tb = Inr (table_of count [(off, ty, d)] tb)"
  by (simp add: check_entry_def)

text \<open>One turn of the loop.\<close>

lemma nfa_loop_attr:
  assumes "length xs = off" and "length d \<le> 65531" and "buf = xs @ attr_bytes ty d p @ zs" and "4 + int (length d) \<le> len"
  shows "nfa_loop (check_entry count) buf off len tb =
    nfa_loop (check_entry count) buf (off + (4 + MNL_ALIGN (length d))) (len - int (4 + MNL_ALIGN (length d))) (table_of count [(off, ty, d)] tb)"
  using nfa_at [OF assms(1-3)] assms(4)
  by (subst nfa_loop.simps) (simp add: check_entry_step [where d = d] nf_type_def [symmetric] del: table_of.simps)

lemma nfa_loop_ends: "len \<le> 0 \<Longrightarrow> nfa_loop entry buf off len tb = Inr (len, tb)"
  by (subst nfa_loop.simps) (simp add: NFA_OK_def)

lemma nfa_loop_attrs:
  assumes "padded_wf as" and "buf = xs @ enc as @ zs" and "int (length (enc as)) \<le> len"
  shows "nfa_loop (check_entry count) buf (length xs) len tb =
    nfa_loop (check_entry count) buf (length xs + length (enc as)) (len - int (length (enc as))) (table_of count (placed (length xs) as) tb)"
  using assms
proof (induction as arbitrary: xs len tb)
  case (Cons a as)
  obtain ty d p where a: "a = (ty, d, p)" by (cases a)
  have wf: "attr_wf d p" "padded_wf as" using Cons.prems(1) a by simp_all
  let ?n = "4 + MNL_ALIGN (length d)" and ?xs = "xs @ attr_bytes ty d p"
  have n: "length (attr_bytes ty d p) = ?n" using wf(1) by (rule length_attr_bytes)
  have d: "length d \<le> 65531" using wf(1) by (simp add: attr_wf_def)
  have len: "int ?n + int (length (enc as)) \<le> len" using Cons.prems(3) a n by simp
  have buf: "buf = xs @ attr_bytes ty d p @ (enc as @ zs)" "buf = ?xs @ enc as @ zs" using Cons.prems(2) a by simp_all
  have "4 + int (length d) \<le> len" using len MNL_ALIGN_bounds(1) [of "length d"] by linarith
  from nfa_loop_attr [OF refl d buf(1) this]
  have "nfa_loop (check_entry count) buf (length xs) len tb =
      nfa_loop (check_entry count) buf (length ?xs) (len - int ?n) (table_of count [(length xs, ty, d)] tb)"
    using n by simp
  also have "\<dots> = nfa_loop (check_entry count) buf (length ?xs + length (enc as)) (len - int ?n - int (length (enc as)))
      (table_of count (placed (length ?xs) as) (table_of count [(length xs, ty, d)] tb))"
    using len by (intro Cons.IH wf(2) buf(2)) linarith
  also have "length ?xs + length (enc as) = length xs + length (enc (a # as))" using a by simp
  also have "len - int ?n - int (length (enc as)) = len - int (length (enc (a # as)))" using a n by simp
  also have "table_of count (placed (length ?xs) as) (table_of count [(length xs, ty, d)] tb) = table_of count (placed (length xs) (a # as)) tb"
    using a n by (simp add: add.assoc)
  finally show ?case .
qed simp

text \<open>The last attribute may lack some of its padding.\<close>

lemma nfa_loop_all:
  assumes "padded_wf as" and "buf = xs @ enc as @ attr_bytes ty d p @ zs" and "length d \<le> 65531" and "length p \<le> MNL_ALIGN (length d) - length d"
  shows "\<exists>r. nfa_loop (check_entry count) buf (length xs) (int (length (enc as @ attr_bytes ty d p))) tb =
    Inr (r, table_of count (placed (length xs) as @ [(length xs + length (enc as), ty, d)]) tb)"
proof -
  let ?l = "int (length (attr_bytes ty d p))" and ?t = "table_of count (placed (length xs) as) tb"
  have l: "4 + int (length d) \<le> ?l" "?l \<le> int (4 + MNL_ALIGN (length d))"
    using assms(4) MNL_ALIGN_bounds(1) [of "length d"] by (simp_all add: attr_bytes_def)
  have buf: "buf = (xs @ enc as) @ attr_bytes ty d p @ zs" using assms(2) by simp
  have off: "length (xs @ enc as) = length xs + length (enc as)" by simp
  have "nfa_loop (check_entry count) buf (length xs) (int (length (enc as @ attr_bytes ty d p))) tb =
      nfa_loop (check_entry count) buf (length xs + length (enc as)) ?l ?t"
    using nfa_loop_attrs [OF assms(1,2), of "int (length (enc as @ attr_bytes ty d p))" count tb] by simp
  also have "\<dots> = Inr (?l - int (4 + MNL_ALIGN (length d)), table_of count [(length xs + length (enc as), ty, d)] ?t)"
    unfolding nfa_loop_attr [OF off assms(3) buf l(1)] using l(2) by (intro nfa_loop_ends) simp
  finally show ?thesis by (simp add: table_of_append)
qed

section \<open>Messages of the library\<close>

lemma align_len_field: "nl_wf h body \<Longrightarrow> MNL_ALIGN32 (len_field body) = len_field body"
proof -
  assume wf: "nl_wf h body"
  have "unat (MNL_ALIGN32 (len_field body)) = 16 + length body"
    using wf nl_wf_unat [OF wf] unat_MNL_ALIGN32 [of "len_field body"] by (simp add: nl_wf_def MNL_ALIGN_id)
  then show ?thesis using nl_wf_unat [OF wf] by (simp only: word_unat_eq_iff)
qed

lemma unat_of_nat32: "n < 2 ^ 32 \<Longrightarrow> unat (word_of_nat n :: 32 word) = n"
  by (simp add: unsigned_of_nat take_bit_nat_eq_self)

lemma ucast_known: "unat w = n \<Longrightarrow> ucast w = word_of_nat n"
  using of_nat_unat [of w] by metis

lemma unat_plus_of_nat: "unat w = m \<Longrightarrow> m + n < 2 ^ 32 \<Longrightarrow> unat (w + word_of_nat n :: 32 word) = m + n"
  using unat_of_nat32 [of n] by (simp add: unat_word_ariths(1))

text \<open>The header behind the length, for a handle without sequence numbers, and the header of the subsystem.\<close>

definition nf_head :: "16 word \<Rightarrow> 16 word \<Rightarrow> mem" where
  "nf_head ty fl = store16 ty @ store16 fl @ store32 0 @ store32 0"

definition nf_gen :: "8 word \<Rightarrow> 16 word \<Rightarrow> mem" where
  "nf_gen family res_id = [family, 0] @ store16 (htons res_id)"

lemma length_nf [simp]: "length (nf_head ty fl) = 12" "length (nf_gen fam r) = 4"
  by (simp_all add: nf_head_def nf_gen_def)

lemma fill_hdr_message:
  assumes "nfh_flags nh AND NFNL_F_SEQTRACK_ENABLED = 0" and "20 \<le> length u"
  shows "nfnl_fill_hdr now sid 0 0 fam r ty fl u nh =
    Inr (message [] (nf_head (push_bit 8 (word_of_nat (subsys_id (subsys nh ! sid))) OR ty) fl) (nf_gen fam r) (drop 20 u), nh)"
proof -
  let ?H = "nf_head (push_bit 8 (word_of_nat (subsys_id (subsys nh ! sid))) OR ty) fl"
  have 1: "write_at 0 (store32 20 @ ?H) u = Inr (store32 20 @ ?H @ drop 16 u)"
    using assms(2) by (simp add: write_at_def)
  have 2: "write_at 16 (nf_gen fam r) (store32 20 @ ?H @ drop 16 u) = Inr (store32 20 @ ?H @ nf_gen fam r @ drop 20 u)"
    using write_at_append [of "store32 20 @ ?H" 16 "nf_gen fam r" "drop 16 u"] assms(2) by simp
  have "len_field (nf_gen fam r) = 20" by (simp add: len_field_def)
  then show ?thesis
    using 1 2 assms(1) by (simp add: nfnl_fill_hdr_def Let_def message_def nf_head_def nf_gen_def)
qed

lemma addattr_message:
  assumes "nl_wf h body" and "length data \<le> 65531" and "4 + MNL_ALIGN (length data) \<le> length rest"
    and "20 + length body + length data \<le> unat maxlen"
  defines "pad \<equiv> take (MNL_ALIGN (length data) - length data) (drop (4 + length data) rest)"
  shows "nfnl_addattr_l (length pre) maxlen ty data (message pre h body rest) =
      Inr (0, message pre h (body @ attr_bytes ty data pad) (drop (4 + MNL_ALIGN (length data)) rest))"
    and "attr_wf data pad"
proof -
  let ?n = "length data" and ?off = "length pre + 16 + length body"
  have n: "?n \<le> MNL_ALIGN ?n" by (rule MNL_ALIGN_bounds)
  show pad: "attr_wf data pad" using assms(2,3) n by (simp add: attr_wf_def pad_def)
  let ?l = "store16 (alen data)" and ?t = "store16 ty" and ?r = "drop (4 + MNL_ALIGN ?n) rest"
  have "MNL_ALIGN ?n - ?n + (4 + ?n) = 4 + MNL_ALIGN ?n" using n by simp
  then have r: "drop (4 + ?n) rest = pad @ ?r" unfolding pad_def by (metis append_take_drop_id drop_drop)
  have w1: "write_at ?off (?l @ ?t) (message pre h body rest) = Inr (message pre h body (?l @ ?t @ drop 4 rest))"
    using write_rest [OF assms(1), of 0 "?l @ ?t" rest ?off pre] assms(3) by simp
  have w2: "write_at (?off + 4) data (message pre h body (?l @ ?t @ drop 4 rest)) = Inr (message pre h body (attr_bytes ty data pad @ ?r))"
    using write_rest [OF assms(1), of 4 data "?l @ ?t @ drop 4 rest" "?off + 4" pre] assms(3) n r
    by (simp add: attr_bytes_def add.commute)
  have g: "write_at (length pre) (store32 (len_field body + word_of_nat (4 + MNL_ALIGN ?n))) (message pre h body (attr_bytes ty data pad @ ?r)) =
      Inr (message pre h (body @ attr_bytes ty data pad) ?r)"
    using pad by (intro grow_message) (simp add: length_attr_bytes)
  have u: "unat (len_field body) = 16 + length body" by (rule nl_wf_unat [OF assms(1)])
  have "unat maxlen < 2 ^ 32" by (rule order_less_le_trans [OF unsigned_less]) simp
  then have "16 + length body + (4 + ?n) < 2 ^ 32" using assms(4) by simp
  then have "unat (len_field body + word_of_nat (4 + ?n)) = 16 + length body + (4 + ?n)" by (intro unat_plus_of_nat u)
  then have fits: "\<not> len_field body + word_of_nat (4 + ?n) > maxlen" using assms(4) by (simp add: word_less_nat_alt)
  have al: "word_of_nat (4 + ?n) = alen data" by (simp add: alen_def)
  show "nfnl_addattr_l (length pre) maxlen ty data (message pre h body rest) = Inr (0, message pre h (body @ attr_bytes ty data pad) ?r)"
    unfolding nfnl_addattr_l_def message_len bind_simps Let_def align_len_field [OF assms(1)] if_not_P [OF fits] al u add.assoc [symmetric]
      w1 NFA_DATA_def w2
    using g by simp
qed

section \<open>Byte order\<close>

lemma htonl_htonl [simp]: "htonl (htonl w) = w"
proof -
  have 1: "ucast (htonl v) = htons (ucast (drop_bit 16 v))" "ucast (drop_bit 16 (htonl v)) = htons (ucast v)" for v :: "32 word"
    by (rule bit_word_eqI; auto simp add: htonl_def bit_or_iff bit_push_bit_iff bit_drop_bit_eq bit_ucast_iff bit_htons dest: bit_imp_le_length)+
  have "htonl (htonl w) = push_bit 16 (ucast (ucast (drop_bit 16 w) :: 16 word)) OR ucast (ucast w :: 16 word)"
    unfolding htonl_def [of "htonl w"] 1 htons_htons ..
  also have "\<dots> = w"
    by (rule bit_word_eqI) (auto simp add: bit_or_iff bit_push_bit_iff bit_drop_bit_eq bit_ucast_iff dest: bit_imp_le_length)
  finally show ?thesis .
qed

section \<open>Verdicts\<close>

text \<open>The packet behind the last attribute of a message, with as many bytes behind it as its length lacks to a multiple of four.\<close>

definition payload_attr :: "mem \<Rightarrow> mem \<Rightarrow> mem" where
  "payload_attr data behind =
     (if data = [] then [] else attr_bytes (word_of_nat NFQA_PAYLOAD) data (take (MNL_ALIGN (length data) - length data) behind))"

lemma set_verdict_steps:
  assumes "nfnl_fill_hdr (ne_now E) NFNL_SUBSYS_QUEUE 0 0 0 num NFQNL_MSG_VERDICT NLM_REQUEST (take 40 (ne_msg E)) nh = Inr (u1, nh')"
    and "nfnl_addattr_l 0 40 (word_of_nat NFQA_VERDICT_HDR) (store32 (htonl v) @ store32 (htonl pid)) u1 = Inr (r1, u2)"
    and "(if set_mark then nfnl_addattr32 0 40 (word_of_nat NFQA_MARK) mark u2 else Inr (0, u2)) = Inr (r2, u3)"
    and "nlmsg_len 0 u3 = Inr l" and "NLMSG_ALIGN l = l"
  shows "data_len = 0 \<Longrightarrow> read_bytes 0 (unat l) u3 = Inr m \<Longrightarrow> set_verdict E nh num pid v mark set_mark data_len data = Inr (m, nh')"
    and "data_len \<noteq> 0 \<Longrightarrow> nfnl_build_nfa_iovec (word_of_nat NFQA_PAYLOAD) data_len = (nfa, n) \<Longrightarrow>
      write_at 0 (store32 (l + ucast (load16 nfa 0))) u3 = Inr u4 \<Longrightarrow> read_bytes 0 (unat l) u4 = Inr m \<Longrightarrow> read_bytes 0 n data = Inr d \<Longrightarrow>
      set_verdict E nh num pid v mark set_mark data_len data = Inr (m @ nfa @ d, nh')"
  using assms(4,5) by (simp_all add: set_verdict_def assms(1-3) Let_def del: if_split)

lemma set_verdict_message:
  assumes "nfh_flags nh AND NFNL_F_SEQTRACK_ENABLED = 0" and "subsys_id (subsys nh ! 3) = 3" and "40 \<le> length (ne_msg E)"
    and "length data \<le> 65531" and "3 \<le> length behind"
  shows "\<exists>p ms. set_verdict E nh num pid v mark set_mark (word_of_nat (length data)) (data @ behind) =
      Inr (store32 (word_of_nat (20 + length (enc ((2, store32 (htonl v) @ store32 (htonl pid), p) # ms)) + (if data = [] then 0 else 4 + length data))) @
        nf_head 0x301 1 @ nf_gen 0 num @ enc ((2, store32 (htonl v) @ store32 (htonl pid), p) # ms) @ payload_attr data behind, nh) \<and>
    padded_wf ((2, store32 (htonl v) @ store32 (htonl pid), p) # ms) \<and> plain ms = (if set_mark then [(3, store32 mark)] else [])"
proof -
  define u where "u = take 40 (ne_msg E)"
  let ?H = "nf_head 0x301 1" and ?G = "nf_gen 0 num" and ?vh = "store32 (htonl v) @ store32 (htonl pid)"
  have u: "length u = 40" using assms(3) by (simp add: u_def)
  have H: "push_bit 8 (word_of_nat (subsys_id (subsys nh ! NFNL_SUBSYS_QUEUE))) OR NFQNL_MSG_VERDICT = 0x301"
    unfolding NFNL_SUBSYS_QUEUE_def assms(2) NFQNL_MSG_VERDICT_def by code_simp
  have 1: "nfnl_fill_hdr now NFNL_SUBSYS_QUEUE 0 0 0 num NFQNL_MSG_VERDICT NLM_REQUEST u nh = Inr (message [] ?H ?G (drop 20 u), nh)" for now
    using fill_hdr_message [OF assms(1), where u = u and sid = NFNL_SUBSYS_QUEUE and ty = NFQNL_MSG_VERDICT] u by (simp add: H NLM_REQUEST_def)
  have wf: "nl_wf ?H ?G" by (simp add: nl_wf_def)
  obtain p where p: "attr_wf ?vh p" "nfnl_addattr_l 0 40 (word_of_nat NFQA_VERDICT_HDR) ?vh (message [] ?H ?G (drop 20 (take 40 (ne_msg E)))) =
      Inr (0, message [] ?H (?G @ attr_bytes 2 ?vh p) (drop 12 (drop 20 (take 40 (ne_msg E)))))"
    unfolding u_def [symmetric] using addattr_message(1) [OF wf, where data = ?vh and rest = "drop 20 u" and maxlen = 40 and pre = "[]" and ty = 2] addattr_message(2) [OF wf, where data = ?vh and rest = "drop 20 u" and maxlen = 40] u by (simp add: NFQA_VERDICT_HDR_def MNL_ALIGN_def)
  let ?B = "?G @ attr_bytes 2 ?vh p"
  have lB: "length ?B = 16" using length_attr_bytes [OF p(1), of 2] by (simp add: MNL_ALIGN_def)
  then have wfB: "nl_wf ?H ?B" by (simp add: nl_wf_def)
  have "\<exists>ms rest. (if set_mark then nfnl_addattr32 0 40 (word_of_nat NFQA_MARK) mark (message [] ?H ?B (drop 32 u)) else Inr (0, message [] ?H ?B (drop 32 u))) =
      Inr (0, message [] ?H (?B @ enc ms) rest) \<and> padded_wf ms \<and> plain ms = (if set_mark then [(3, store32 mark)] else []) \<and> length (enc ms) \<le> 8"
  proof (cases set_mark)
    case True
    obtain p' where p': "attr_wf (store32 mark) p'" "nfnl_addattr_l 0 40 3 (store32 mark) (message [] ?H ?B (drop 32 u)) =
        Inr (0, message [] ?H (?B @ attr_bytes 3 (store32 mark) p') (drop 8 (drop 32 u)))"
      using addattr_message(1) [OF wfB, where data = "store32 mark" and rest = "drop 32 u" and maxlen = 40 and pre = "[]" and ty = 3] addattr_message(2) [OF wfB, where data = "store32 mark" and rest = "drop 32 u" and maxlen = 40] u lB by simp
    then show ?thesis using True length_attr_bytes [OF p'(1), of 3]
      by (intro exI [of _ "[(3, store32 mark, p')]"] exI [of _ "drop 8 (drop 32 u)"]) (simp add: nfnl_addattr32_def NFQA_MARK_def)
  next
    case False
    then show ?thesis by (intro exI [of _ "[]"] exI [of _ "drop 32 u"]) simp
  qed
  then obtain ms rest where ms: "(if set_mark then nfnl_addattr32 0 40 (word_of_nat NFQA_MARK) mark (message [] ?H ?B (drop 32 u)) else Inr (0, message [] ?H ?B (drop 32 u))) =
      Inr (0, message [] ?H (?B @ enc ms) rest)" "padded_wf ms" "plain ms = (if set_mark then [(3, store32 mark)] else [])" "length (enc ms) \<le> 8" by blast
  let ?C = "?B @ enc ms"
  have wfC: "nl_wf ?H ?C" using lB ms(4) dvd_length_enc [OF ms(2)] by (simp add: nl_wf_def)
  have lC: "unat (len_field ?C) = 16 + length ?C" by (rule nl_wf_unat [OF wfC])
  have rd: "read_bytes 0 (16 + length ?C) (message [] ?H ?C rest) = Inr (store32 (len_field ?C) @ ?H @ ?C)"
    by (simp add: read_bytes_def message_def)
  have len: "nlmsg_len 0 (message [] ?H ?C rest) = Inr (len_field ?C)" using message_len [of "[]"] by simp
  have body: "?C = ?G @ enc ((2, ?vh, p) # ms)" by simp
  have lf: "16 + length ?C = 20 + length (enc ((2, ?vh, p) # ms))" by simp
  note fill1 = 1 [of "ne_now E", unfolded u_def] and al0 = align_len_field [OF wfC]
  have d: "drop 12 (drop 20 (take 40 (ne_msg E))) = drop 32 u" by (simp add: u_def)
  have ms': "(if set_mark then nfnl_addattr32 0 40 (word_of_nat NFQA_MARK) mark (message [] ?H ?B (drop 12 (drop 20 (take 40 (ne_msg E)))))
      else Inr (0, message [] ?H ?B (drop 12 (drop 20 (take 40 (ne_msg E)))))) = Inr (0, message [] ?H ?C rest)"
    unfolding d by (rule ms(1))
  show ?thesis
  proof (cases "data = []")
    case True
    have "set_verdict E nh num pid v mark set_mark (word_of_nat (length data)) (data @ behind) = Inr (store32 (len_field ?C) @ ?H @ ?C, nh)"
      by (rule set_verdict_steps(1) [OF fill1 p(2) ms' len al0]) (simp add: True, unfold lC, rule rd)
    then show ?thesis using True p(1) ms(2,3) lf unfolding len_field_def body
      by (intro exI [of _ p] exI [of _ ms]) (simp add: payload_attr_def)
  next
    case False
    let ?n = "length data" and ?L = "len_field ?C + ucast (alen data)"
    have n: "word_of_nat ?n \<noteq> (0 :: 32 word)" "unat (word_of_nat ?n :: 32 word) = ?n"
    proof -
      show u: "unat (word_of_nat ?n :: 32 word) = ?n" using assms(4) by (simp add: unsigned_of_nat take_bit_nat_eq_self)
      show "word_of_nat ?n \<noteq> (0 :: 32 word)" using u False by (metis length_0_conv unat_0)
    qed
    have al: "unat (MNL_ALIGN32 (word_of_nat ?n)) = MNL_ALIGN ?n" using unat_MNL_ALIGN32 [of "word_of_nat ?n"] n(2) assms(4) by simp
    have nfa: "4 + ucast (word_of_nat ?n :: 32 word) = alen data"
      unfolding ucast_known [OF n(2)] by (simp add: alen_def)
    have ld: "load16 (store16 (alen data) @ store16 10) 0 = alen data" by (rule load16_store16)
    have iov: "nfnl_build_nfa_iovec (word_of_nat NFQA_PAYLOAD) (word_of_nat ?n) = (store16 (alen data) @ store16 10, MNL_ALIGN ?n)"
      by (simp add: nfnl_build_nfa_iovec_def nfa al NFQA_PAYLOAD_def)
    have w: "write_at 0 (store32 ?L) (message [] ?H ?C rest) = Inr (store32 ?L @ ?H @ ?C @ rest)"
      using write_at_same [of "[]" 0 "store32 (len_field ?C)" "store32 ?L" "?H @ ?C @ rest"] by (simp add: message_def)
    have rd2: "read_bytes 0 (16 + length ?C) (store32 ?L @ ?H @ ?C @ rest) = Inr (store32 ?L @ ?H @ ?C)" by (simp add: read_bytes_def)
    have pad: "MNL_ALIGN ?n - ?n \<le> length behind" using MNL_ALIGN_bounds(2) [of ?n] assms(5) by linarith
    have rd3: "read_bytes 0 (MNL_ALIGN ?n) (data @ behind) = Inr (data @ take (MNL_ALIGN ?n - ?n) behind)"
      using pad MNL_ALIGN_bounds(1) [of ?n] by (simp add: read_bytes_def)
    have L: "?L = word_of_nat (20 + length (enc ((2, ?vh, p) # ms)) + (4 + ?n))"
    proof -
      have "(ucast (alen data) :: 32 word) = word_of_nat (4 + ?n)"
        by (rule ucast_known [OF alen_unat [OF assms(4)]])
      then show ?thesis unfolding len_field_def lf by simp
    qed
    have "set_verdict E nh num pid v mark set_mark (word_of_nat ?n) (data @ behind) =
        Inr ((store32 ?L @ ?H @ ?C) @ (store16 (alen data) @ store16 10) @ data @ take (MNL_ALIGN ?n - ?n) behind, nh)"
      by (rule set_verdict_steps(2) [OF fill1 p(2) ms' len al0 n(1) iov]) (unfold ld lC, rule w, rule rd2, rule rd3)
    from this [unfolded L] show ?thesis using False p(1) ms(2,3)
      by (intro exI [of _ p] exI [of _ ms]) (simp add: payload_attr_def attr_bytes_def [of _ data] NFQA_PAYLOAD_def)
  qed
qed

text \<open>
  How the kernel reads a verdict: the queue, the packet, the verdict, the mark when there is one, and the new bytes of the
  packet when there are some.
\<close>

definition read_verdict :: "mem \<Rightarrow> (16 word \<times> 32 word \<times> 32 word \<times> 32 word option \<times> mem option) result" where
  "read_verdict m =
     bind (nlmsg_len 0 m) (\<lambda>l. bind (nlmsg_type 0 m) (\<lambda>t. bind (read16 18 m) (\<lambda>r.
       if t \<noteq> 0x301 then Inl Wild_Pointer
       else bind (nfa_loop (check_entry 10) m 20 (uint l - 20) (replicate 10 None)) (\<lambda>(_, tb).
         case nfnl_get_pointer_to_data tb NFQA_VERDICT_HDR of
           None \<Rightarrow> Inl Null_Deref
         | Some vh \<Rightarrow>
             bind (read32 vh m) (\<lambda>v. bind (read32 (vh + 4) m) (\<lambda>pid.
             bind (case nfnl_get_pointer_to_data tb NFQA_MARK of
                 None \<Rightarrow> Inr None
               | Some p \<Rightarrow> bind (read32 p m) (\<lambda>k. Inr (Some k))) (\<lambda>mark.
             bind (nfq_get_payload tb m) (\<lambda>(n, d).
             bind (case d of None \<Rightarrow> Inr None | Some p \<Rightarrow> bind (read_bytes p (nat n) m) (\<lambda>b. Inr (Some b))) (\<lambda>data.
               Inr (htons r, htonl pid, htonl v, mark, data))))))))))"

lemma read_at:
  "length xs + 4 = off \<Longrightarrow> read32 off (xs @ attr_bytes ty (store32 a @ d) p @ zs) = Inr a"
  "length xs + 8 = off \<Longrightarrow> read32 off (xs @ attr_bytes ty (store32 a @ store32 b) p @ zs) = Inr b"
  "length xs + 4 = off \<Longrightarrow> length d = n \<Longrightarrow> read_bytes off n (xs @ attr_bytes ty d p @ zs) = Inr d"
  using read_stored(2) [of "xs @ store16 (alen (store32 a @ d)) @ store16 ty" off a "d @ p @ zs"]
    read_stored(2) [of "xs @ store16 (alen (store32 a @ store32 b)) @ store16 ty @ store32 a" off b "p @ zs"]
    read_stored(3) [of "xs @ store16 (alen d) @ store16 ty" off d n "p @ zs"]
  by (simp_all add: attr_bytes_def)

text \<open>The fields of the headers, whatever the length says.\<close>

lemma nf_fields:
  assumes "m = store32 w @ nf_head ty fl @ nf_gen fam r @ zs"
  shows "nlmsg_len 0 m = Inr w" and "nlmsg_type 0 m = Inr ty" and "nlmsg_flags 0 m = Inr fl" and "nlmsg_seq 0 m = Inr 0"
    and "read16 18 m = Inr (htons r)"
proof -
  show "nlmsg_len 0 m = Inr w" using read_stored(2) [of "[]" 0 w] assms by (simp add: nlmsg_len_def)
  show "nlmsg_type 0 m = Inr ty" using read_stored(1) [of "store32 w" 4 ty] assms by (simp add: nlmsg_type_def nf_head_def)
  show "nlmsg_flags 0 m = Inr fl" using read_stored(1) [of "store32 w @ store16 ty" 6 fl] assms by (simp add: nlmsg_flags_def nf_head_def)
  show "nlmsg_seq 0 m = Inr 0"
    using read_stored(2) [of "store32 w @ store16 ty @ store16 fl" 8 0] assms by (simp add: nlmsg_seq_def nf_head_def)
  show "read16 18 m = Inr (htons r)"
    using read_stored(1) [of "store32 w @ nf_head ty fl @ [fam, 0]" 18 "htons r"] assms by (simp add: nf_gen_def)
qed

lemma table_3:
  assumes "plain ms = (if set_mark then [(3, d)] else [])"
  shows "\<exists>k. table_of 10 (placed off ((2, x, p) # ms) @ (if b then [(off', 10, y)] else [])) (replicate 10 None) =
    [None, Some off, k, None, None, None, None, None, None, if b then Some off' else None] \<and>
    k = (if set_mark then Some (off + (4 + MNL_ALIGN (length x))) else None)"
proof -
  have "nf_type 2 = 2" "nf_type 3 = 3" "nf_type 10 = 10" by code_simp+
  moreover have "ms = [] \<or> (\<exists>q. ms = [(3, d, q)] \<and> set_mark)" and "ms = [] \<longrightarrow> \<not> set_mark"
    using assms by (auto simp add: plain_def split: if_splits)
  ultimately show ?thesis using assms by (auto simp add: numeral_eq_Suc)
qed

lemma attr_bytes_pad: "attr_bytes ty d p = attr_bytes ty d [] @ p"
  by (simp add: attr_bytes_def)

text \<open>The loop over the attributes of a verdict.\<close>

lemma verdict_table:
  assumes "padded_wf ((2, x, p) # ms)" and "length data \<le> 65531"
    and "m = xs @ enc ((2, x, p) # ms) @ payload_attr data behind"
  shows "\<exists>r. nfa_loop (check_entry 10) m (length xs) (int (length (enc ((2, x, p) # ms)) + (if data = [] then 0 else 4 + length data))) tb =
    Inr (r, table_of 10 (placed (length xs) ((2, x, p) # ms) @
      (if data \<noteq> [] then [(length xs + length (enc ((2, x, p) # ms)), 10, data)] else [])) tb)"
proof (cases "data = []")
  case True
  let ?as = "(2, x, p) # ms"
  have "nfa_loop (check_entry 10) m (length xs) (int (length (enc ?as))) tb =
      nfa_loop (check_entry 10) m (length xs + length (enc ?as)) (int (length (enc ?as)) - int (length (enc ?as))) (table_of 10 (placed (length xs) ?as) tb)"
    using assms(3) True by (intro nfa_loop_attrs [OF assms(1), where zs = "[]"]) (simp_all add: payload_attr_def)
  then show ?thesis using True by (simp add: nfa_loop_ends del: table_of.simps placed.simps enc_simps)
next
  case False
  have "m = xs @ enc ((2, x, p) # ms) @ attr_bytes 10 data [] @ take (MNL_ALIGN (length data) - length data) behind"
    using assms(3) False attr_bytes_pad [of 10 data "take (MNL_ALIGN (length data) - length data) behind"]
    by (simp add: payload_attr_def NFQA_PAYLOAD_def del: enc_simps)
  from nfa_loop_all [OF assms(1) this assms(2), of 10 tb] show ?thesis
    using False by (simp add: attr_bytes_def [of 10] ac_simps del: table_of.simps placed.simps enc_simps)
qed

text \<open>What is read at the three offsets.\<close>

lemma verdict_reads:
  assumes "m = xs @ enc ((2, store32 a @ store32 b, p) # ms) @ payload_attr data behind" and "length xs = 20"
    and "padded_wf ((2, store32 a @ store32 b, p) # ms)" and "plain ms = (if set_mark then [(3, store32 mark)] else [])" and "length data \<le> 65531"
  shows "read32 24 m = Inr a" and "read32 28 m = Inr b" and "set_mark \<Longrightarrow> read32 36 m = Inr mark"
    and "data \<noteq> [] \<Longrightarrow> nla_len (20 + length (enc ((2, store32 a @ store32 b, p) # ms))) m = Inr (alen data)"
    and "data \<noteq> [] \<Longrightarrow> read_bytes (20 + length (enc ((2, store32 a @ store32 b, p) # ms)) + 4) (length data) m = Inr data"
proof -
  let ?A = "attr_bytes 2 (store32 a @ store32 b) p"
  have A: "length ?A = 12" using assms(3) by (simp add: length_attr_bytes MNL_ALIGN_def)
  have m: "m = xs @ ?A @ (enc ms @ payload_attr data behind)" using assms(1) by simp
  show "read32 24 m = Inr a" "read32 28 m = Inr b"
    unfolding m using assms(2) read_at(1) [of xs 24 2 a "store32 b" p] read_at(2) [of xs 28 2 a b p] by simp_all
  show "read32 36 m = Inr mark" if set_mark
  proof -
    have "plain ms = [(3, store32 mark)]" using that assms(4) by simp
    then obtain q where "ms = [(3, store32 mark, q)]" by (auto simp add: plain_def)
    then have "m = (xs @ ?A) @ attr_bytes 3 (store32 mark @ []) q @ payload_attr data behind" using m by simp
    then show ?thesis using A assms(2) read_at(1) [of "xs @ ?A" 36 3 mark "[]" q] by simp
  qed
  let ?B = "xs @ enc ((2, store32 a @ store32 b, p) # ms)" and ?o = "20 + length (enc ((2, store32 a @ store32 b, p) # ms))"
  have B: "length ?B = ?o" using assms(2) by simp
  have p: "data \<noteq> [] \<Longrightarrow> m = ?B @ attr_bytes 10 data (take (MNL_ALIGN (length data) - length data) behind) @ []"
    using assms(1) by (simp add: payload_attr_def NFQA_PAYLOAD_def)
  show "nla_len ?o m = Inr (alen data)" if "data \<noteq> []" using nfa_at(1) [OF B assms(5) p [OF that]] .
  show "read_bytes (?o + 4) (length data) m = Inr data" if "data \<noteq> []"
    using read_at(3) [of ?B "?o + 4" data "length data" 10 _ "[]"] B p [OF that] by (simp del: enc_simps)
qed

text \<open>What the message is and how it is read.\<close>

lemma verdict_exists:
  assumes "nfh_flags nh AND NFNL_F_SEQTRACK_ENABLED = 0" and "subsys_id (subsys nh ! 3) = 3" and "40 \<le> length (ne_msg E)"
    and "length data \<le> 65531" and "3 \<le> length behind"
  shows "\<exists>m. set_verdict E nh num pid v mark set_mark (word_of_nat (length data)) (data @ behind) = Inr (m, nh) \<and> 4 dvd length m \<and>
    read_verdict m = Inr (num, pid, v, if set_mark then Some mark else None, if data = [] then None else Some data)"
proof -
  let ?x = "store32 (htonl v) @ store32 (htonl pid)" and ?H = "nf_head 0x301 1" and ?G = "nf_gen 0 num"
  obtain p ms where m: "set_verdict E nh num pid v mark set_mark (word_of_nat (length data)) (data @ behind) =
      Inr (store32 (word_of_nat (20 + length (enc ((2, ?x, p) # ms)) + (if data = [] then 0 else 4 + length data))) @
        ?H @ ?G @ enc ((2, ?x, p) # ms) @ payload_attr data behind, nh)"
    and wf: "padded_wf ((2, ?x, p) # ms)" and ms: "plain ms = (if set_mark then [(3, store32 mark)] else [])"
    using set_verdict_message [OF assms] by blast
  define as where "as = (2 :: 16 word, ?x, p) # ms"
  define w :: "32 word" where "w = word_of_nat (20 + length (enc as) + (if data = [] then 0 else 4 + length data))"
  define xs where "xs = store32 w @ ?H @ ?G"
  define m where "m = xs @ enc as @ payload_attr data behind"
  have mm: "m = store32 w @ ?H @ ?G @ (enc as @ payload_attr data behind)" by (simp add: m_def xs_def)
  have res: "set_verdict E nh num pid v mark set_mark (word_of_nat (length data)) (data @ behind) = Inr (m, nh)"
    using m by (simp add: mm w_def as_def)
  have lx: "length xs = 20" by (simp add: xs_def)
  have wf': "padded_wf as" using wf by (simp add: as_def)
  have le: "length (enc as) \<le> 20"
    using length_enc [OF wf'] ms by (simp add: as_def room_def MNL_ALIGN_def del: enc_simps split: if_splits)
  let ?n = "length (enc as) + (if data = [] then 0 else 4 + length data)"
  have "unat w = 20 + ?n" unfolding w_def add.assoc using le assms(4) by (intro unat_of_nat32) simp
  then have w: "uint w - 20 = int ?n" by (simp add: uint_nat)
  obtain r where r: "nfa_loop (check_entry 10) m 20 (int ?n) (replicate 10 None) =
      Inr (r, table_of 10 (placed 20 as @ (if data \<noteq> [] then [(20 + length (enc as), 10, data)] else [])) (replicate 10 None))"
    using verdict_table [OF wf assms(4), of m xs behind "replicate 10 None"] lx unfolding as_def [symmetric] m_def by auto
  have tb: "table_of 10 (placed 20 as @ (if data \<noteq> [] then [(20 + length (enc as), 10, data)] else [])) (replicate 10 None) =
      [None, Some 20, if set_mark then Some 32 else None, None, None, None, None, None, None, if data \<noteq> [] then Some (20 + length (enc as)) else None]"
    using table_3 [OF ms, of 20 ?x p "data \<noteq> []" "20 + length (enc as)" data] unfolding as_def [symmetric] by (auto simp add: MNL_ALIGN_def)
  obtain T where T: "nfa_loop (check_entry 10) m 20 (uint w - 20) (replicate 10 None) = Inr (r, T)"
    "nfnl_get_pointer_to_data T NFQA_VERDICT_HDR = Some 24" "nfnl_get_pointer_to_data T NFQA_MARK = (if set_mark then Some 36 else None)"
    "T ! (NFQA_PAYLOAD - 1) = (if data = [] then None else Some (20 + length (enc as)))"
    unfolding w r tb by (simp add: nfnl_get_pointer_to_data_def NFQA_VERDICT_HDR_def NFQA_MARK_def NFA_DATA_def NFQA_PAYLOAD_def)
  note rd = verdict_reads [OF m_def [unfolded as_def] lx wf ms assms(4), folded as_def]
  have "uint (alen data) - 4 = int (length data)" using alen_unat [OF assms(4)] by (simp add: uint_nat)
  then have pl: "nfq_get_payload T m = Inr (if data = [] then (-1, None) else (int (length data), Some (20 + length (enc as) + 4)))"
    using rd(4) T(4) by (simp add: nfq_get_payload_def NFA_DATA_def)
  have "read_verdict m = Inr (num, pid, v, if set_mark then Some mark else None, if data = [] then None else Some data)"
    unfolding read_verdict_def nf_fields [OF mm] bind_simps T prod.case option.case pl using rd(1-3,5) by (cases "data = []") simp_all
  moreover have "4 dvd length m"
    using dvd_length_enc [OF wf'] lx assms(5) MNL_ALIGN_bounds [of "length data"]
    by (auto simp add: m_def payload_attr_def attr_bytes_def)
  ultimately show ?thesis using res by blast
qed

text \<open>C21: The message of a verdict has a length that is a multiple of four and carries, for the kernel that reads its
  attributes, the queue, the packet, the verdict, the mark when one is set, and the new packet byte by byte.\<close>

theorem verdict_read_back:
  assumes "nfh_flags nh AND NFNL_F_SEQTRACK_ENABLED = 0" and "subsys_id (subsys nh ! 3) = 3" and "40 \<le> length (ne_msg E)"
    and "length data \<le> 65531" and "3 \<le> length behind"
  shows "\<exists>m. set_verdict E nh num pid v mark set_mark (word_of_nat (length data)) (data @ behind) = Inr (m, nh) \<and> 4 dvd length m \<and>
    read_verdict m = Inr (num, pid, v, if set_mark then Some mark else None, if data = [] then None else Some data)"
  by (rule verdict_exists [OF assms])

definition sample_nf_env :: nf_env where
  "sample_nf_env = \<lparr>ne_now = 9, ne_pad = 0, ne_msg = replicate 40 7, ne_stack = replicate 8192 0, ne_bound = True, ne_taken = True\<rparr>"

definition sample_handle :: "'s queues nfnl_handle" where
  "sample_handle = \<lparr>nl_pid = 5, nl_groups = 0, nfh_subscriptions = 0, nfh_seq = 9, rcv_buffer_size = 8192, nfh_flags = 0, last_nlhdr = None,
     subsys = replicate 3 no_subsys @ [\<lparr>ssh_subscriptions = 0, subsys_id = 3, cb_count = 1, ssh_cb = Some [pkt_cb 10]\<rparr>] @ replicate 13 no_subsys\<rparr>"

lemma sample_handle_facts: "nfh_flags sample_handle AND NFNL_F_SEQTRACK_ENABLED = 0"
  "subsys sample_handle ! 3 = \<lparr>ssh_subscriptions = 0, subsys_id = 3, cb_count = 1, ssh_cb = Some [pkt_cb 10]\<rparr>"
  by (simp_all add: sample_handle_def nth_append)

theorem verdict_read_back_witness:
  "\<exists>m. set_verdict sample_nf_env (sample_handle :: nat queues nfnl_handle) 0 7 1 5 True 3 [1, 2, 3, 9, 9, 9] = Inr (m, sample_handle) \<and>
     read_verdict m = Inr (0, 7, 1, Some 5, Some [1, 2, 3])"
proof -
  have 1: "subsys_id (subsys (sample_handle :: nat queues nfnl_handle) ! 3) = 3" "40 \<le> length (ne_msg sample_nf_env)" "3 \<le> length [9, 9, 9 :: 8 word]"
    "length [1, 2, 3 :: 8 word] \<le> 65531"
    by (simp_all add: sample_handle_facts sample_nf_env_def)
  from verdict_read_back [OF sample_handle_facts(1) 1(1,2,4,3), of 0 7 1 5 True] show ?thesis by auto
qed

end
