(* ===== verification/Nf_Deliver.thy ===== *)
theory Nf_Deliver
  imports Nf_Correct Hooks_Correct
begin

text \<open>
  From the kernel's queue to its verdict: how a queued packet reaches the callback of the daemon, and that the bytes that go
  back carry what the hooks decide for that packet.
\<close>

section \<open>A queued packet\<close>

text \<open>
  What the kernel sends: a header with the length of the datagram and the type of a packet of the queue subsystem, the number of
  the queue, attributes in any order among which one has the number and the hook of the packet, and the packet as the last.
\<close>

definition queued_packet :: "mem \<Rightarrow> 16 word \<Rightarrow> 32 word \<Rightarrow> 8 word \<Rightarrow> mem \<Rightarrow> bool" where
  "queued_packet d q pid hk pkt \<longleftrightarrow>
     (\<exists>h gen as bs proto p pad.
        d = store32 (word_of_nat (length d)) @ store16 0x300 @ h @ gen @ store16 (htons q) @
          enc (as @ (1, store32 (htonl pid) @ proto @ [hk], p) # bs) @ attr_bytes 10 pkt pad \<and>
        length h = 10 \<and> length gen = 2 \<and> length proto = 2 \<and> padded_wf (as @ (1, store32 (htonl pid) @ proto @ [hk], p) # bs) \<and>
        (\<forall>(t, x, y)\<in>set bs. nf_type t \<noteq> 1) \<and> length pkt \<le> 65531 \<and> length pad \<le> MNL_ALIGN (length pkt) - length pkt)"

text \<open>A handle as \<open>nfq_open\<close> leaves it.\<close>

definition queue_ready :: "nat \<Rightarrow> 's queues nfnl_handle \<Rightarrow> bool" where
  "queue_ready amax nh \<longleftrightarrow> nfh_flags nh AND NFNL_F_SEQTRACK_ENABLED = 0 \<and> subsys_id (subsys nh ! 3) = 3 \<and>
     0 < cb_count (subsys nh ! 3) \<and> (\<exists>cbs. ssh_cb (subsys nh ! 3) = Some cbs \<and> cbs ! 0 = pkt_cb amax)"

lemma received_append: "padded_wf as \<Longrightarrow> placed off (as @ bs) = placed off as @ placed (off + length (enc as)) bs"
  by (induction off as rule: placed.induct) (auto simp add: length_attr_bytes add.assoc)

lemma placed_types: "(o', t, x) \<in> set (placed off as) \<Longrightarrow> \<exists>p. (t, x, p) \<in> set as"
  by (induction off as rule: placed.induct) auto

lemma nf_type_numbers: "nf_type 1 = 1" "nf_type 10 = 10"
  by code_simp+

text \<open>The entries of the two attributes the daemon uses.\<close>

lemma packet_table:
  assumes "padded_wf (as @ (1, x, p) # bs)" and "\<forall>(t, x, y)\<in>set bs. nf_type t \<noteq> 1" and "10 \<le> amax"
  shows "table_of amax (placed off (as @ (1, x, p) # bs) @ [(off', 10, pkt)]) (replicate amax None) ! 0 = Some (off + length (enc as))"
    and "table_of amax (placed off (as @ (1, x, p) # bs) @ [(off', 10, pkt)]) (replicate amax None) ! 9 = Some off'"
proof -
  define T where "T = table_of amax (placed off as) (replicate amax None)"
  have lT: "length T = amax" by (simp add: T_def)
  let ?o = "off + length (enc as)" and ?bs = "placed (off + length (enc as) + (4 + MNL_ALIGN (length x))) bs"
  have wf: "padded_wf as" using assms(1) by simp
  have t: "table_of amax (placed off (as @ (1, x, p) # bs) @ [(off', 10, pkt)]) (replicate amax None) =
      table_of amax (?bs @ [(off', 10, pkt)]) (T[0 := Some ?o])"
    using assms(3) by (simp add: received_append [OF wf] table_of_append T_def nf_type_numbers)
  have "\<forall>(o', ty, d)\<in>set (?bs @ [(off', 10, pkt)]). nf_type ty \<noteq> 1" using assms(2) by (auto simp add: nf_type_numbers dest!: placed_types)
  from table_of_other [OF this, of amax "T[0 := Some ?o]"]
  show "table_of amax (placed off (as @ (1, x, p) # bs) @ [(off', 10, pkt)]) (replicate amax None) ! 0 = Some ?o"
    unfolding t using lT assms(3) by simp
  show "table_of amax (placed off (as @ (1, x, p) # bs) @ [(off', 10, pkt)]) (replicate amax None) ! 9 = Some off'"
    unfolding t using lT assms(3) by (simp add: table_of_append nf_type_numbers)
qed

text \<open>The callback of the queue gets tables and bytes in which it finds the packet.\<close>

definition finds_packet :: "mem \<Rightarrow> nat option list \<Rightarrow> 32 word \<Rightarrow> 8 word \<Rightarrow> mem \<Rightarrow> bool" where
  "finds_packet buf tb pid hk pkt \<longleftrightarrow>
     (\<exists>ph dp. nfq_get_msg_packet_hdr tb = Some ph \<and> read32 ph buf = Inr (htonl pid) \<and> read8 (ph + 6) buf = Inr hk \<and>
        nfq_get_payload tb buf = Inr (int (length pkt), Some dp) \<and> read_bytes dp (length pkt) buf = Inr pkt)"

lemma read8_at: "length ys = off \<Longrightarrow> read8 off (ys @ b # zs) = Inr b"
  by (auto simp add: read8_def)

lemma packet_found:
  assumes "buf = xs @ enc (as @ (1, store32 (htonl pid) @ proto @ [hk], p) # bs) @ attr_bytes 10 pkt pad @ rest" and "length xs = 20"
    and "padded_wf (as @ (1, store32 (htonl pid) @ proto @ [hk], p) # bs)" and "\<forall>(t, x, y)\<in>set bs. nf_type t \<noteq> 1" and "10 \<le> amax"
    and "length proto = 2" and "length pkt \<le> 65531"
  shows "finds_packet buf (table_of amax (placed 20 (as @ (1, store32 (htonl pid) @ proto @ [hk], p) # bs) @
      [(20 + length (enc (as @ (1, store32 (htonl pid) @ proto @ [hk], p) # bs)), 10, pkt)]) (replicate amax None)) pid hk pkt"
proof -
  let ?x = "store32 (htonl pid) @ proto @ [hk]" and ?as = "as @ (1, store32 (htonl pid) @ proto @ [hk], p) # bs"
  let ?ys = "xs @ enc as" and ?zs = "xs @ enc ?as" and ?o = "20 + length (enc ?as)"
  let ?T = "table_of amax (placed 20 ?as @ [(?o, 10, pkt)]) (replicate amax None)"
  note T = packet_table [OF assms(3-5), of 20 ?o pkt]
  have b1: "buf = ?ys @ attr_bytes 1 ?x p @ (enc bs @ attr_bytes 10 pkt pad @ rest)" and b2: "buf = ?zs @ attr_bytes 10 pkt pad @ rest"
    using assms(1) by simp_all
  have ly: "length ?ys + 4 = 24 + length (enc as)" and lz: "length ?zs = ?o" using assms(2) by simp_all
  have 1: "read32 (24 + length (enc as)) buf = Inr (htonl pid)" unfolding b1 by (rule read_at(1) [OF ly])
  have b3: "buf = (?ys @ store16 (alen ?x) @ store16 1 @ store32 (htonl pid) @ proto) @ hk # (p @ enc bs @ attr_bytes 10 pkt pad @ rest)"
    using b1 by (simp add: attr_bytes_def [of 1])
  have "length (?ys @ store16 (alen ?x) @ store16 1 @ store32 (htonl pid) @ proto) = 30 + length (enc as)" using assms(2,6) by simp
  then have 2: "read8 (30 + length (enc as)) buf = Inr hk" unfolding b3 by (rule read8_at)
  have "uint (alen pkt) - 4 = int (length pkt)" using alen_unat [OF assms(7)] by (simp add: uint_nat)
  then have 3: "nfq_get_payload ?T buf = Inr (int (length pkt), Some (?o + 4))"
    using T(2) nfa_at(1) [OF lz assms(7) b2] by (simp add: nfq_get_payload_def NFQA_PAYLOAD_def NFA_DATA_def)
  have 4: "read_bytes (?o + 4) (length pkt) buf = Inr pkt"
    by (subst b2, rule read_at(3)) (simp_all only: lz)
  have 5: "nfq_get_msg_packet_hdr ?T = Some (24 + length (enc as))"
    using T(1) by (simp add: nfq_get_msg_packet_hdr_def nfnl_get_pointer_to_data_def NFQA_PACKET_HDR_def NFA_DATA_def)
  show ?thesis unfolding finds_packet_def using 1 2 3 4 5 by (intro exI [of _ "24 + length (enc as)"] exI [of _ "?o + 4"]) simp
qed

section \<open>Through the library\<close>

lemma handle_single:
  assumes "nlmsg_len 0 buf = Inr w" and "16 \<le> w" and "unat w + 3 < 2 ^ 32"
  shows "handle_loop msg buf 0 w s =
    (case msg 0 s of Inl e \<Rightarrow> Some (Inl e) | Inr (r, s) \<Rightarrow> Some (Inr (if r < 0 then -1 else 0, s)))"
proof -
  have al: "w \<le> NLMSG_ALIGN w" using unat_MNL_ALIGN32 [OF assms(3)] MNL_ALIGN_bounds(1) [of "unat w"] by (simp add: word_le_nat_alt)
  have stop: "handle_loop msg buf pos 0 s = Some (Inr (0, s))" for pos s by (subst handle_loop.simps) simp
  have "NLMSG_ALIGN w > w \<or> NLMSG_ALIGN w = w" using al by auto
  then show ?thesis using assms(1,2) stop by (subst handle_loop.simps) (auto split: sum.split)
qed

text \<open>The fields of its header.\<close>

lemma queued_packet_fields:
  assumes "queued_packet d q pid hk pkt" and "length d < 2 ^ 31"
  shows "nlmsg_len 0 (d @ rest) = Inr (word_of_nat (length d))" and "nlmsg_type 0 (d @ rest) = Inr 0x300" and "read16 18 (d @ rest) = Inr (htons q)"
    and "unat (word_of_nat (length d) :: 32 word) = length d" and "24 \<le> length d"
proof -
  obtain h gen as bs proto p pad where
    d: "d = store32 (word_of_nat (length d)) @ store16 0x300 @ h @ gen @ store16 (htons q) @
          enc (as @ (1, store32 (htonl pid) @ proto @ [hk], p) # bs) @ attr_bytes 10 pkt pad"
    and l: "length h = 10" "length gen = 2"
    using assms(1) unfolding queued_packet_def by blast
  define w :: "32 word" where "w = word_of_nat (length d)"
  define body where "body = enc (as @ (1, store32 (htonl pid) @ proto @ [hk], p) # bs) @ attr_bytes 10 pkt pad"
  have d': "d = store32 w @ store16 0x300 @ h @ gen @ store16 (htons q) @ body" using d by (simp add: w_def body_def)
  show "nlmsg_len 0 (d @ rest) = Inr (word_of_nat (length d))"
    unfolding w_def [symmetric] using d' read_stored(2) [of "[]" 0 w] by (simp add: nlmsg_len_def)
  show "nlmsg_type 0 (d @ rest) = Inr 0x300" using d' read_stored(1) [of "store32 w" 4] by (simp add: nlmsg_type_def)
  show "read16 18 (d @ rest) = Inr (htons q)" using d' l read_stored(1) [of "store32 w @ store16 0x300 @ h @ gen" 18] by simp
  show "unat (word_of_nat (length d) :: 32 word) = length d" using assms(2) by (intro unat_of_nat32) simp
  have "length d = 20 + length body" by (subst d') (simp add: l)
  moreover have "4 \<le> length body" by (simp add: body_def attr_bytes_def)
  ultimately show "24 \<le> length d" by simp
qed

lemma handle_queued_packet:
  assumes "queue_ready amax nh" and "10 \<le> amax" and "queued_packet d q pid hk pkt" and "length d < 2 ^ 31"
    and "find_qh qs q = Some \<lparr>qh_id = q, qh_cb = Some f\<rparr>"
  shows "\<exists>tb. finds_packet (d @ rest) tb pid hk pkt \<and>
    nfnl_handle_msg nh (d @ rest) 0 (qs, s) = bind (f q (d @ rest) 16 tb s) (\<lambda>(r, s). Inr (r, qs, s))"
proof -
  note fields = queued_packet_fields(1-3) [OF assms(3,4), where rest = rest] queued_packet_fields(4,5) [OF assms(3,4)]
  obtain h gen as bs proto p pad where
    d: "d = store32 (word_of_nat (length d)) @ store16 0x300 @ h @ gen @ store16 (htons q) @
          enc (as @ (1, store32 (htonl pid) @ proto @ [hk], p) # bs) @ attr_bytes 10 pkt pad"
    and l: "length h = 10" "length gen = 2" "length proto = 2" and wf: "padded_wf (as @ (1, store32 (htonl pid) @ proto @ [hk], p) # bs)"
    and bs: "\<forall>(t, x, y)\<in>set bs. nf_type t \<noteq> 1" and pkt: "length pkt \<le> 65531" and pad: "length pad \<le> MNL_ALIGN (length pkt) - length pkt"
    using assms(3) unfolding queued_packet_def by blast
  define xs where "xs = store32 (word_of_nat (length d)) @ store16 0x300 @ h @ gen @ store16 (htons q)"
  define as' where "as' = as @ (1, store32 (htonl pid) @ proto @ [hk], p) # bs"
  have xs: "length xs = 20" using l by (simp add: xs_def)
  have buf: "d @ rest = xs @ enc as' @ attr_bytes 10 pkt pad @ rest" using d by (simp add: xs_def as'_def)
  have n: "int (length d) - 20 = int (length (enc as' @ attr_bytes 10 pkt pad))"
    using arg_cong [OF buf, of length] xs by simp
  define tb where "tb = table_of amax (placed 20 as' @ [(20 + length (enc as'), 10, pkt)]) (replicate amax None)"
  have found: "finds_packet (d @ rest) tb pid hk pkt"
    unfolding tb_def as'_def using buf xs wf bs assms(2) l(3) pkt by (intro packet_found [where xs = xs]) (simp_all add: as'_def)
  obtain r where "nfa_loop (check_entry amax) (d @ rest) 20 (int (length d) - 20) (replicate amax None) = Inr (r, tb)"
    using nfa_loop_all [OF wf [folded as'_def] buf pkt pad, of amax "replicate amax None"] unfolding n tb_def xs by blast
  moreover have "to_int (int (length d) - 20) = int (length d) - 20" using assms(4) by (intro to_int_id) auto
  moreover have "uint (word_of_nat (length d) :: 32 word) = int (length d)" using fields(4) by (simp add: uint_nat)
  moreover have big: "(word_of_nat (length d) :: 32 word) > 20" using fields(4,5) by (simp add: word_less_nat_alt)
  moreover have small: "\<not> word_of_nat (length d) < (20 :: 32 word)" using big by (simp add: not_less order_less_imp_le)
  moreover obtain cbs where ready: "0 < cb_count (subsys nh ! 3)" "ssh_cb (subsys nh ! 3) = Some cbs" "cbs ! 0 = pkt_cb amax"
    using assms(1) by (auto simp add: queue_ready_def)
  moreover have ty: "NFNL_MSG_TYPE 0x300 = 0" "NFNL_SUBSYS_ID 0x300 = 3" by code_simp+
  ultimately have chk: "nfnl_check_attributes nh (d @ rest) 0 = Inr (0, tb)"
    using fields(1,2) by (simp add: nfnl_check_attributes_def NFNL_MAX_SUBSYS_def pkt_cb_def NFM_NFA_def NLMSG_DATA_def not_less order_less_imp_le)
  have "nfnl_handle_msg nh (d @ rest) 0 (qs, s) = nfq_rcv_pkt (d @ rest) 0 tb (qs, s)"
    using fields(1,2) ready ty big small assms(2) chk by (simp add: nfnl_handle_msg_def NFNL_MAX_SUBSYS_def pkt_cb_def)
  also have "\<dots> = bind (f q (d @ rest) 16 tb s) (\<lambda>(r, s). Inr (r, qs, s))"
    using fields(3) assms(5) by (simp add: nfq_rcv_pkt_def NLMSG_DATA_def)
  finally show ?thesis using found by blast
qed

section \<open>Through the daemon\<close>

lemma cb_bytes: "cb F K h pkt s = Inr (v, s') \<Longrightarrow> length (snd (verdict_args v)) \<le> length pkt"
  by (cases h) (auto simp add: cb_def Let_def split: option.splits if_splits elim!: bind_InrE)

lemma queue_cb_verdict:
  assumes "queue_ready amax nh" and "finds_packet buf tb pid hk pkt" and "hook_of hk = Some h" and "cb F K h pkt (fst st) = Inr (v, s')"
    and "length pkt \<le> 65531" and "40 \<le> length (ne_msg (qe_msg E))" and "3 \<le> length (qe_behind E)" and "ne_taken (qe_msg E)"
  shows "\<exists>m. queue_cb F K E nh q buf nfmsg tb st = Inr (if h = LOCAL_OUT then int (length m) else qe_ret E, s', snd st @ [m]) \<and>
    read_verdict m = Inr (q, pid, fst (verdict_args v), None, if snd (verdict_args v) = [] then None else Some (snd (verdict_args v)))"
proof -
  obtain code data where cd: "verdict_args v = (code, data)" by (cases "verdict_args v")
  have "length data \<le> 65531" using cb_bytes [OF assms(4)] assms(5) cd by simp
  then obtain m where m: "set_verdict (qe_msg E) nh q pid code 0 False (word_of_nat (length data)) (data @ qe_behind E) = Inr (m, nh)"
    "read_verdict m = Inr (q, pid, code, None, if data = [] then None else Some data)"
    using verdict_exists [of nh "qe_msg E" data "qe_behind E" q pid code 0 False] assms(1,6,7)
    by (auto simp add: queue_ready_def)
  have "send_verdict E nh q pid v st' = Inr (int (length m), fst st', snd st' @ [m])" for st' :: "'a q_state"
    using m(1) assms(8) cd by (simp add: send_verdict_def nfq_set_verdict_def)
  moreover obtain ph dp where "nfq_get_msg_packet_hdr tb = Some ph" "read32 ph buf = Inr (htonl pid)" "read8 (ph + 6) buf = Inr hk"
    "nfq_get_payload tb buf = Inr (int (length pkt), Some dp)" "read_bytes dp (length pkt) buf = Inr pkt"
    using assms(2) by (auto simp add: finds_packet_def)
  ultimately show ?thesis using m(2) assms(3,4) cd by (intro exI [of _ m]) (simp add: queue_cb_def)
qed

text \<open>A buffer that starts with a queued packet and is handled with its length.\<close>

lemma nfq_handle_queued:
  assumes "queue_ready amax (nfnlh Q)" and "10 \<le> amax" and "queued_packet d q pid hk pkt" and "length d < 2 ^ 31"
    and "find_qh (qh_list Q) q = Some \<lparr>qh_id = q, qh_cb = Some (queue_cb F K E (nfnlh Q))\<rparr>"
    and "hook_of hk = Some h" and "cb F K h pkt (fst (client Q)) = Inr (v, s')"
    and "40 \<le> length (ne_msg (qe_msg E))" and "3 \<le> length (qe_behind E)" and "ne_taken (qe_msg E)"
  shows "\<exists>m r. nfq_handle_packet (d @ rest) (word_of_nat (length d)) Q = Some (Inr (r, Q\<lparr>client := (s', snd (client Q) @ [m])\<rparr>)) \<and>
    read_verdict m = Inr (q, pid, fst (verdict_args v), None, if snd (verdict_args v) = [] then None else Some (snd (verdict_args v)))"
proof -
  have pkt: "length pkt \<le> 65531" using assms(3) unfolding queued_packet_def by blast
  obtain tb where tb: "finds_packet (d @ rest) tb pid hk pkt"
    "nfnl_handle_msg (nfnlh Q) (d @ rest) 0 (qh_list Q, client Q) =
      bind (queue_cb F K E (nfnlh Q) q (d @ rest) 16 tb (client Q)) (\<lambda>(r, s). Inr (r, qh_list Q, s))"
    using handle_queued_packet [OF assms(1-5)] by blast
  obtain m where m: "queue_cb F K E (nfnlh Q) q (d @ rest) 16 tb (client Q) = Inr (if h = LOCAL_OUT then int (length m) else qe_ret E, s', snd (client Q) @ [m])"
    "read_verdict m = Inr (q, pid, fst (verdict_args v), None, if snd (verdict_args v) = [] then None else Some (snd (verdict_args v)))"
    using queue_cb_verdict [OF assms(1) tb(1) assms(6,7) pkt assms(8-10)] by blast
  note fields = queued_packet_fields [OF assms(3,4)]
  have "(16 :: 32 word) \<le> word_of_nat (length d)" "unat (word_of_nat (length d) :: 32 word) + 3 < 2 ^ 32"
    using fields(4,5) assms(4) by (simp_all add: word_le_nat_alt)
  from handle_single [OF fields(1) this, where msg = "nfnl_handle_msg (nfnlh Q) (d @ rest)" and s = "(qh_list Q, client Q)"]
  have "\<exists>r. nfnl_handle_packet (nfnlh Q) (d @ rest) (word_of_nat (length d)) (qh_list Q, client Q) =
      Some (Inr (r, qh_list Q, s', snd (client Q) @ [m]))"
    unfolding nfnl_handle_packet_def tb(2) m(1) by (simp split: if_split) 
  then show ?thesis using m(2) by (auto simp add: nfq_handle_packet_def)
qed

text \<open>C19: A packet that the kernel queues in a datagram of at most 4096 bytes, the size of the buffer, reaches the hooks of the
  daemon as it is, and one message goes back in which the kernel reads the number of the packet and the verdict and the bytes
  the hooks give it; the state of the forwarding is the one they leave. The handle is as \<open>nfq_open\<close> leaves it and serves the queue with
  \<open>queue_cb\<close>, the hook is one the daemon knows and handles without a fault, and the kernel takes the message. A longer datagram is never answered
  (\<open>long_packet_unanswered\<close>).\<close>

theorem packet_to_verdict:
  assumes "queue_ready amax (nfnlh Q)" and "10 \<le> amax" and "queued_packet d q pid hk pkt" and "length d \<le> 4096"
    and "find_qh (qh_list Q) q = Some \<lparr>qh_id = q, qh_cb = Some (queue_cb F K E (nfnlh Q))\<rparr>"
    and "hook_of hk = Some h" and "cb F K h pkt (fst (client Q)) = Inr (v, s')"
    and "40 \<le> length (ne_msg (qe_msg E))" and "3 \<le> length (qe_behind E)" and "ne_taken (qe_msg E)"
  shows "\<exists>m. handle_packet (Datagram d peer) stack Q = Some (Inr (0, Q\<lparr>client := (s', snd (client Q) @ [m])\<rparr>)) \<and>
    read_verdict m = Inr (q, pid, fst (verdict_args v), None, if snd (verdict_args v) = [] then None else Some (snd (verdict_args v)))"
proof -
  have "length d < 2 ^ 31" using assms(4) by simp
  from nfq_handle_queued [OF assms(1-3) this assms(5-10), of "drop (length d) stack"]
  show ?thesis using assms(4) by (auto simp add: handle_packet_def Let_def)
qed

text \<open>A packet that has left the node, and the daemon waiting for it.\<close>

definition sample_dgram :: "mem \<Rightarrow> mem" where
  "sample_dgram pkt = store32 (word_of_nat (36 + length pkt)) @ store16 0x300 @ replicate 10 0 @ [10, 0] @ store16 (htons 0) @
     enc [(1, store32 (htonl 7) @ [0x86, 0xdd] @ [4], [0])] @ attr_bytes 10 pkt []"

lemma length_sample_dgram: "length (sample_dgram pkt) = 36 + length pkt"
  by (simp add: sample_dgram_def attr_bytes_def)

lemma queued_sample:
  assumes "length pkt \<le> 65531"
  shows "queued_packet (sample_dgram pkt) 0 7 4 pkt"
proof -
  let ?x = "store32 (htonl 7) @ [0x86, 0xdd] @ [4]"
  have "attr_wf ?x [0]" by (simp add: attr_wf_def MNL_ALIGN_def)
  then show ?thesis
    using assms unfolding queued_packet_def length_sample_dgram
    by (intro exI [of _ "replicate 10 0"] exI [of _ "[10, 0]"] exI [of _ "[]"] exI [of _ "[]"] exI [of _ "[0x86, 0xdd]"] exI [of _ "[0]"] exI [of _ "[]"])
      (simp add: sample_dgram_def)
qed

definition sample_q_env :: q_env where
  "sample_q_env = \<lparr>qe_msg = sample_nf_env, qe_behind = [0, 0, 0], qe_ret = -1\<rparr>"

definition sample_daemon :: "rt_msg list q_state nfq_handle" where
  "sample_daemon = \<lparr>nfnlh = sample_handle, qh_list = [\<lparr>qh_id = 0, qh_cb = Some (queue_cb sample_fenv list_kernel sample_q_env sample_handle)\<rparr>],
     client = (sample_fwd, []), received = [], sent = []\<rparr>"

lemma sample_daemon_facts: "queue_ready 10 (nfnlh sample_daemon)"
  "find_qh (qh_list sample_daemon) 0 = Some \<lparr>qh_id = 0, qh_cb = Some (queue_cb sample_fenv list_kernel sample_q_env (nfnlh sample_daemon))\<rparr>"
  "hook_of 4 = Some POST_ROUTING" "cb sample_fenv list_kernel POST_ROUTING pkt (fst (client sample_daemon)) = Inr (Accept (Some pkt), sample_fwd)"
  "40 \<le> length (ne_msg (qe_msg sample_q_env))" "3 \<le> length (qe_behind sample_q_env)" "ne_taken (qe_msg sample_q_env)" "qe_ret sample_q_env < 0"
  by (simp_all add: sample_handle_facts sample_daemon_def queue_ready_def hook_of_def cb_def Let_def sample_q_env_def sample_nf_env_def)

theorem packet_to_verdict_witness:
  "\<exists>m. handle_packet (Datagram (sample_dgram [1, 2, 3]) 0) (replicate 4096 0) sample_daemon =
       Some (Inr (0, sample_daemon\<lparr>client := (sample_fwd, snd (client sample_daemon) @ [m])\<rparr>)) \<and>
     read_verdict m = Inr (0, 7, NF_ACCEPT, None, Some [1, 2, 3])"
  using packet_to_verdict [OF sample_daemon_facts(1) _ queued_sample _ sample_daemon_facts(2-7), of "[1, 2, 3]" 0 "replicate 4096 0"]
  by (simp add: length_sample_dgram)

text \<open>The loop behind a message, where the callback has not returned an error and the buffer goes on with zeros: it stops.\<close>

lemma zeros_behind:
  assumes "unat l = length d" and "length d \<le> 4096"
  shows "handle_loop msg (d @ replicate 8 0 @ z) (unat (NLMSG_ALIGN l)) (-1 - NLMSG_ALIGN l) s = Some (Inr (-1, s))"
    and "\<not> (-1 :: 32 word) < NLMSG_ALIGN l"
proof -
  show "\<not> (-1 :: 32 word) < NLMSG_ALIGN l" by simp
  have al: "unat (NLMSG_ALIGN l) = MNL_ALIGN (length d)" using unat_MNL_ALIGN32 [of l] assms by simp
  have b: "length d \<le> MNL_ALIGN (length d)" "MNL_ALIGN (length d) \<le> length d + 3"
    using MNL_ALIGN_bounds [of "length d"] by simp_all
  have z: "(d @ replicate 8 0 @ z) ! (MNL_ALIGN (length d) + k) = 0" if "k < 4" for k
  proof -
    have "MNL_ALIGN (length d) + k - length d < 8" "length d \<le> MNL_ALIGN (length d) + k" using b that by linarith+
    then show ?thesis by (simp add: nth_append)
  qed
  have len: "nlmsg_len (unat (NLMSG_ALIGN l)) (d @ replicate 8 0 @ z) = Inr 0"
    using b z [of 0] z [of 1] z [of 2] z [of 3]
    by (simp add: nlmsg_len_def read32_def al le32_def load16_def le16_def numeral_eq_Suc del: replicate_Suc)
  have "unat (-1 - NLMSG_ALIGN l) = 2 ^ 32 - 1 - MNL_ALIGN (length d)"
    using unat_sub [OF word_n1_ge, of "NLMSG_ALIGN l"] by (simp add: al unsigned_minus_1_eq_mask mask_eq_exp_minus_1)
  then have "(16 :: 32 word) \<le> -1 - NLMSG_ALIGN l" using b assms(2) by (simp add: word_le_nat_alt)
  then show "handle_loop msg (d @ replicate 8 0 @ z) (unat (NLMSG_ALIGN l)) (-1 - NLMSG_ALIGN l) s = Some (Inr (-1, s))"
    by (subst handle_loop.simps) (simp add: len)
qed

text \<open>C33: When nothing can be received the daemon does not notice: the length -1 passes every test, and what the
  buffer on the stack still holds, here a packet that came before, is handled, and given a verdict, once more. Whether the loop
  then goes on behind that packet depends on the value of the callback, which returns none for the hooks other than that of outgoing
  packets: it stops when this value happens to be negative, and it stops for any value when eight zero bytes follow the packet in the
  buffer; one of the two is assumed. The handle is as \<open>nfq_open\<close> leaves it, the packet is one of its queue for a hook the daemon knows and
  handles without a fault, and the kernel takes the verdict.\<close>

theorem failed_receive_replays:
  assumes "queue_ready amax (nfnlh Q)" and "10 \<le> amax" and "queued_packet d q pid hk pkt" and "length d \<le> 4096"
    and "find_qh (qh_list Q) q = Some \<lparr>qh_id = q, qh_cb = Some (queue_cb F K E (nfnlh Q))\<rparr>"
    and "hook_of hk = Some h" and "cb F K h pkt (fst (client Q)) = Inr (v, s')"
    and "40 \<le> length (ne_msg (qe_msg E))" and "3 \<le> length (qe_behind E)" and "ne_taken (qe_msg E)"
    and "h \<noteq> LOCAL_OUT \<and> qe_ret E < 0 \<or> (\<exists>z. rest = replicate 8 0 @ z)"
  shows "\<exists>m. handle_packet Failure (d @ rest) Q = Some (Inr (0, Q\<lparr>client := (s', snd (client Q) @ [m])\<rparr>)) \<and>
    read_verdict m = Inr (q, pid, fst (verdict_args v), None, if snd (verdict_args v) = [] then None else Some (snd (verdict_args v)))"
proof -
  have d: "length d < 2 ^ 31" using assms(4) by simp
  have pkt: "length pkt \<le> 65531" using assms(3) unfolding queued_packet_def by blast
  obtain tb where tb: "finds_packet (d @ rest) tb pid hk pkt"
    "nfnl_handle_msg (nfnlh Q) (d @ rest) 0 (qh_list Q, client Q) =
      bind (queue_cb F K E (nfnlh Q) q (d @ rest) 16 tb (client Q)) (\<lambda>(r, s). Inr (r, qh_list Q, s))"
    using handle_queued_packet [OF assms(1-3) d assms(5)] by blast
  obtain m where m: "queue_cb F K E (nfnlh Q) q (d @ rest) 16 tb (client Q) =
      Inr (if h = LOCAL_OUT then int (length m) else qe_ret E, s', snd (client Q) @ [m])"
    "read_verdict m = Inr (q, pid, fst (verdict_args v), None, if snd (verdict_args v) = [] then None else Some (snd (verdict_args v)))"
    using queue_cb_verdict [OF assms(1) tb(1) assms(6,7) pkt assms(8-10)] by blast
  define r where "r = (if h = LOCAL_OUT then int (length m) else qe_ret E)"
  note fields = queued_packet_fields [OF assms(3) d]
  let ?l = "word_of_nat (length d) :: 32 word" and ?msg = "nfnl_handle_msg (nfnlh Q) (d @ rest)" and ?s = "(qh_list Q, s', snd (client Q) @ [m])"
  have nl: "\<not> ?l < 16" "\<not> (-1 :: 32 word) < ?l" "\<not> (-1 :: 32 word) < 16"
    using fields(4,5) by (simp_all only: not_less word_n1_ge) (simp add: word_le_nat_alt)
  have step: "?msg 0 (qh_list Q, client Q) = Inr (r, ?s)" using tb(2) m(1) by (simp add: r_def)
  have "handle_loop ?msg (d @ rest) 0 (-1) (qh_list Q, client Q) = Some (Inr (-1, ?s))"
  proof (cases "r < 0")
    case True
    then show ?thesis using fields(1) step by (subst handle_loop.simps) (simp add: nl)
  next
    case False
    then obtain z where z: "rest = replicate 8 0 @ z" using assms(11) by (auto simp add: r_def)
    show ?thesis
      using False fields(1) step zeros_behind(1) [OF fields(4) assms(4), of ?msg z ?s, folded z] zeros_behind(2) [OF fields(4) assms(4)] by (subst handle_loop.simps) (simp add: nl)
  qed
  then show ?thesis using m(2) by (auto simp add: handle_packet_def nfq_handle_packet_def nfnl_handle_packet_def)
qed

theorem failed_receive_replays_witness:
  "\<exists>m. handle_packet Failure (sample_dgram [1, 2, 3] @ replicate 4057 0) sample_daemon =
       Some (Inr (0, sample_daemon\<lparr>client := (sample_fwd, snd (client sample_daemon) @ [m])\<rparr>)) \<and>
     read_verdict m = Inr (0, 7, NF_ACCEPT, None, Some [1, 2, 3])"
  using failed_receive_replays [OF sample_daemon_facts(1) _ queued_sample _ sample_daemon_facts(2-7), of "[1, 2, 3]" "replicate 4057 0"] sample_daemon_facts(8)
  by (simp add: length_sample_dgram)

text \<open>A packet whose datagram is longer than the buffer is cut off by it and then refused by the library: the daemon sends
  no verdict and the kernel keeps the packet, although the queue has been set up to copy packets of up to 65535 bytes.\<close>

theorem long_packet_unanswered:
  assumes "queued_packet d q pid hk pkt" and "4096 < length d" and "length d < 2 ^ 31"
  shows "handle_packet (Datagram d peer) stack Q = Some (Inr (0, Q))"
proof -
  note fields = queued_packet_fields [OF assms(1,3)]
  let ?b = "take 4096 d @ drop (length d) stack"
  have "nlmsg_len 0 ?b = nlmsg_len 0 (d @ [])"
    using assms(2) by (simp add: nlmsg_len_def read32_def le32_def load16_def nth_append)
  then have l: "nlmsg_len 0 ?b = Inr (word_of_nat (length d))" using fields(1) [of "[]"] by simp
  have "(4096 :: 32 word) < word_of_nat (length d)" using fields(4) assms(2) by (simp add: word_less_nat_alt)
  then have "handle_loop msg ?b 0 4096 s = Some (Inr (-1, s))" for msg and s :: "('a q_state) queues"
    using l by (subst handle_loop.simps) simp
  then show ?thesis using assms(2) by (simp add: handle_packet_def nfq_handle_packet_def nfnl_handle_packet_def Let_def)
qed

theorem long_packet_unanswered_witness:
  "handle_packet (Datagram (sample_dgram (replicate 5000 1)) 0) (replicate 4096 0) sample_daemon = Some (Inr (0, sample_daemon))"
  using long_packet_unanswered [OF queued_sample, of "replicate 5000 1"] by (simp add: length_sample_dgram)

section \<open>Does it return?\<close>

lemma handle_loop_returns: "unat len < 2 ^ 31 \<Longrightarrow> \<exists>r. handle_loop msg buf pos len s = Some r"
proof (induction "unat len" arbitrary: pos len s rule: less_induct)
  case less
  have stop: "handle_loop msg buf pos 0 s = Some (Inr (0, s))" for pos s by (subst handle_loop.simps) simp
  show ?case
  proof (cases "16 \<le> len \<and> (\<exists>l. nlmsg_len pos buf = Inr l \<and> 16 \<le> l \<and> l \<le> len)")
    case True
    then obtain l where l: "16 \<le> len" "nlmsg_len pos buf = Inr l" "16 \<le> l" "l \<le> len" by blast
    have "unat l \<le> unat len" "16 \<le> unat l" using l(3,4) by (simp_all add: word_le_nat_alt)
    then have al: "16 \<le> unat (NLMSG_ALIGN l)"
      using less.prems unat_MNL_ALIGN32 [of l] MNL_ALIGN_bounds(1) [of "unat l"] by simp
    have "\<exists>r. handle_loop msg buf p (len - NLMSG_ALIGN l) s' = Some r" if "\<not> NLMSG_ALIGN l > len" for p s'
    proof (rule less.hyps)
      have "unat (len - NLMSG_ALIGN l) = unat len - unat (NLMSG_ALIGN l)" using that by (intro unat_sub) simp
      then show "unat (len - NLMSG_ALIGN l) < unat len" "unat (len - NLMSG_ALIGN l) < 2 ^ 31"
        using al less.prems l(1) by (simp_all add: word_le_nat_alt)
    qed
    then show ?thesis using l stop by (subst handle_loop.simps) (auto simp add: not_less split: sum.split)
  next
    case False
    then show ?thesis by (subst handle_loop.simps) (auto simp add: not_less not_le split: sum.split)
  qed
qed

text \<open>C34: Whatever a buffer holds and whatever the callbacks do, the handling of a received length returns; a length that does not
  come from a datagram may keep it for ever at a message without length.\<close>

theorem received_packets_return:
  assumes "n < 2 ^ 31"
  shows "(\<exists>r. nfq_handle_packet buf (word_of_nat n) Q = Some r) \<and>
    (\<exists>r. handle_packet (Datagram d peer) stack Q = Some r)"
proof -
  have "\<exists>r. nfq_handle_packet buf (word_of_nat k) Q = Some r" if "k < 2 ^ 31" for k buf
  proof -
    have "unat (word_of_nat k :: 32 word) < 2 ^ 31" using that unat_of_nat32 [of k] by simp
    from handle_loop_returns [OF this, of "nfnl_handle_msg (nfnlh Q) buf" buf 0 "(qh_list Q, client Q)"]
    show ?thesis unfolding nfq_handle_packet_def nfnl_handle_packet_def by (auto split: sum.split)
  qed
  note r = this
  have "min (length d) 4096 < 2 ^ 31" by simp
  from r [OF this, of "take 4096 d @ drop (length d) stack"]
  have "\<exists>r. handle_packet (Datagram d peer) stack Q = Some r" by (auto simp add: handle_packet_def Let_def split: sum.splits)
  then show ?thesis using r [OF assms] by blast
qed

theorem received_packets_return_witness:
  "\<exists>r. nfq_handle_packet (replicate 16 0) (word_of_nat 16) sample_daemon = Some r"
  using received_packets_return [of 16 "replicate 16 0" sample_daemon] by simp

text \<open>
  The loop of \<open>nfnl_process\<close>, which waits for the answers to requests: when the last message is not aligned, what is left is
  counted below zero and the loop goes on behind the buffer.
\<close>

theorem process_leaves_buffer:
  assumes "nlmsg_len 0 buf = Inr (word_of_nat (length buf))" and "nlmsg_seq 0 buf = Inr 0" and "\<not> 4 dvd length buf" and "16 \<le> length buf"
    and "length buf < 2 ^ 31" and "nfnl_step h buf 0 s = Inr (r, s')" and "0 < r"
  shows "nfnl_process h buf (word_of_nat (length buf)) s = Some (Inl Out_Of_Bounds)"
proof -
  define n where "n = length buf"
  have n: "16 \<le> n" "n < 2 ^ 31" "\<not> 4 dvd n" using assms(3-5) by (simp_all add: n_def)
  let ?l = "word_of_nat n :: 32 word" and ?len = "word_of_nat n :: 64 word"
  have ul: "unat ?l = n" using n by (intro unat_of_nat32) simp
  have ulen: "unat ?len = n" using n(2) by (simp add: unsigned_of_nat take_bit_nat_eq_self)
  have al: "unat (NLMSG_ALIGN ?l) = MNL_ALIGN n" using unat_MNL_ALIGN32 [of ?l] ul n(2) by simp
  have more: "n < MNL_ALIGN n" "MNL_ALIGN n < n + 4" using n(3) unfolding MNL_ALIGN_def by presburger+
  have c: "16 \<le> ?l" "16 \<le> ?len" "ucast ?l \<le> ?len" "?len \<noteq> 0"
    using ul ulen n(1) by (simp_all add: word_le_nat_alt ucast_known [OF ul]) (metis not_numeral_le_zero unat_0)
  have ok: "NLMSG_OK 0 buf ?len = Inr True" using assms(1) c by (simp add: NLMSG_OK_def n_def [symmetric])
  let ?rest = "?len - ucast (NLMSG_ALIGN ?l)"
  have "unat ?rest = 2 ^ 64 + n - MNL_ALIGN n"
  proof -
    have "unat (ucast (NLMSG_ALIGN ?l) :: 64 word) = MNL_ALIGN n"
      unfolding ucast_known [OF al] using more n(2) by (simp add: unsigned_of_nat take_bit_nat_eq_self)
    moreover have "?len < ucast (NLMSG_ALIGN ?l)" using calculation ulen more(1) by (simp add: word_less_nat_alt)
    ultimately show ?thesis using ulen by (simp add: unat_sub_if_size word_size word_le_nat_alt word_less_nat_alt)
  qed
  then have "16 \<le> ?rest" using more by (simp add: word_le_nat_alt)
  moreover have "nlmsg_len (MNL_ALIGN n) buf = Inl Out_Of_Bounds" using more(1) by (simp add: nlmsg_len_def read32_def n_def)
  ultimately have out: "NLMSG_OK (MNL_ALIGN n) buf ?rest = Inl Out_Of_Bounds" by (simp add: NLMSG_OK_def)
  have nx: "NLMSG_NEXT 0 buf ?len = Inr (MNL_ALIGN n, ?rest)" using assms(1) al by (simp add: NLMSG_NEXT_def n_def [symmetric])
  have beyond: "process_loop (nfnl_step h buf) buf (MNL_ALIGN n) ?rest r s' = Some (Inl Out_Of_Bounds)"
    by (subst process_loop.simps) (simp add: out)
  have "process_loop (nfnl_step h buf) buf 0 ?len 0 s = Some (Inl Out_Of_Bounds)"
    using ok nx beyond assms(6,7) by (subst process_loop.simps) (simp add: NFNL_CB_STOP_def)
  then show ?thesis using assms(2) c(4) by (simp add: nfnl_process_def n_def)
qed

end
