(* ===== verification/Nf_Setup.thy ===== *)
theory Nf_Setup
  imports Nf_Deliver
begin

text \<open>
  Setting up the queue: what the handle is after it has been opened, what the requests do when the kernel acknowledges
  them, and that the daemon then serves its queue.
\<close>

section \<open>Opening\<close>

lemma nfq_open_ready:
  assumes "0 < msg_max"
  shows "\<exists>Q. nfq_open True pid now bufsize msg_max amax s = Inr (Some Q) \<and> queue_ready amax (nfnlh Q) \<and> qh_list Q = [] \<and> client Q = s \<and>
    rcv_buffer_size (nfnlh Q) = bufsize \<and> received Q = [] \<and> sent Q = []"
proof -
  obtain nh :: "'a queues nfnl_handle" where nh: "nfnl_open True pid now bufsize = Some nh" "subsys nh = replicate 17 no_subsys"
    "rcv_buffer_size nh = bufsize" "nfh_flags nh = NFNL_F_SEQTRACK_ENABLED"
    by (simp add: nfnl_open_def recalc_rebind_subscriptions_def Let_def NFNL_MAX_SUBSYS_def NFNL_F_SEQTRACK_ENABLED_def)
  define k :: "'a queues nfnl_handle" where "k = nfnl_unset_sequence_tracking nh"
  have fl: "NFNL_F_SEQTRACK_ENABLED AND NOT NFNL_F_SEQTRACK_ENABLED = 0" by (rule bit_word_eqI) (simp add: bit_and_iff bit_not_iff)
  have k: "subsys k = replicate 17 no_subsys" "rcv_buffer_size k = bufsize" "nfh_flags k AND NFNL_F_SEQTRACK_ENABLED = 0"
    using nh fl by (simp_all add: k_def nfnl_unset_sequence_tracking_def)
  obtain k' where k': "nfnl_subsys_open True 3 msg_max 0 k = (Some 3, k')" "rcv_buffer_size k' = bufsize" "nfh_flags k' = nfh_flags k"
    "subsys k' = (subsys k)[3 := \<lparr>ssh_subscriptions = 0, subsys_id = 3, cb_count = msg_max, ssh_cb = Some (replicate msg_max no_callback)\<rparr>]"
    using k(1,2) by (simp add: nfnl_subsys_open_def NFNL_MAX_SUBSYS_def set_subsys_def recalc_rebind_subscriptions_def Let_def no_subsys_def)
  have s3: "subsys k' ! 3 = \<lparr>ssh_subscriptions = 0, subsys_id = 3, cb_count = msg_max, ssh_cb = Some (replicate msg_max no_callback)\<rparr>"
    and l: "length (subsys k') = 17"
    using k(1) by (simp_all add: k'(4))
  have reg: "nfnl_callback_register 3 0 (pkt_cb amax) k' =
      Inr (0, set_subsys 3 (\<lambda>ssh. ssh\<lparr>ssh_cb := Some ((replicate msg_max no_callback)[0 := pkt_cb amax])\<rparr>) k')"
    using assms s3 by (simp add: nfnl_callback_register_def)
  show ?thesis
    using nh(1) k k'(1-3) reg s3 l assms
    by (simp add: nfq_open_def nfq_open_nfnl_def k_def [symmetric] NFNL_SUBSYS_QUEUE_def NFQNL_MSG_PACKET_def queue_ready_def set_subsys_def)
qed

section \<open>Requests that are acknowledged\<close>

text \<open>An acknowledgement: an error message with the number 0, without a sequence number since the requests have none.\<close>

definition acknowledgement :: "mem \<Rightarrow> bool" where
  "acknowledgement d \<longleftrightarrow> (\<exists>fl pid orig. length fl = 2 \<and> length pid = 4 \<and> length orig = 16 \<and>
     d = store32 36 @ store16 2 @ fl @ store32 0 @ pid @ store32 0 @ orig)"

lemma ack_fields:
  assumes "acknowledgement d"
  shows "length d = 36" and "nlmsg_len 0 (d @ z) = Inr 36" and "nlmsg_type 0 (d @ z) = Inr 2" and "nlmsg_seq 0 (d @ z) = Inr 0"
    and "read32 16 (d @ z) = Inr 0" and "\<exists>f. nlmsg_flags 0 (d @ z) = Inr f"
proof -
  obtain fl pid orig where l: "length fl = 2" "length pid = 4" "length orig = 16"
    and d: "d = store32 36 @ store16 2 @ fl @ store32 0 @ pid @ store32 0 @ orig"
    using assms by (auto simp add: acknowledgement_def)
  show len: "length d = 36" using l d by simp
  show "nlmsg_len 0 (d @ z) = Inr 36" using d read_stored(2) [of "[]" 0 36] by (simp add: nlmsg_len_def)
  show "nlmsg_type 0 (d @ z) = Inr 2" using d read_stored(1) [of "store32 36" 4 2] by (simp add: nlmsg_type_def)
  show "nlmsg_seq 0 (d @ z) = Inr 0" using d l read_stored(2) [of "store32 36 @ store16 2 @ fl" 8 0] by (simp add: nlmsg_seq_def)
  show "read32 16 (d @ z) = Inr 0" using d l read_stored(2) [of "store32 36 @ store16 2 @ fl @ store32 0 @ pid" 16 0] by simp
  show "\<exists>f. nlmsg_flags 0 (d @ z) = Inr f" using len by (simp add: nlmsg_flags_def read16_def)
qed

lemma process_ack: "acknowledgement d \<Longrightarrow> nfnl_process h (d @ z) 36 s = Some (Inr (0, s))"
proof -
  assume a: "acknowledgement d"
  note f = ack_fields(2-5) [OF a, of z]
  obtain fl where fl: "nlmsg_flags 0 (d @ z) = Inr fl" using ack_fields(6) [OF a, of z] by blast
  have "nfnl_step h (d @ z) 0 s = Inr (0, s)"
    using f fl by (simp add: nfnl_step_def nfnl_is_error_def NLMSG_ERROR_def NLMSG_DATA_def to_int_def)
  moreover have "NLMSG_OK 0 (d @ z) 36 = Inr True" using f by (simp add: NLMSG_OK_def)
  ultimately show ?thesis using f(3) by (simp add: nfnl_process_def) (subst process_loop.simps, simp add: NFNL_CB_STOP_def)
qed

lemma catch_ack:
  assumes "acknowledgement d" and "36 \<le> rcv_buffer_size h" and "36 \<le> length stack"
  shows "nfnl_catch h stack (Datagram d 0 # evs) s = Some (Inr ((0, s), evs))"
proof -
  let ?st = "take (rcv_buffer_size h) stack"
  have l: "length d = 36" by (rule ack_fields(1) [OF assms(1)])
  then have "nfnl_recv (Datagram d 0) ?st = Inr (36, False, d @ drop 36 ?st)" using assms(2,3) by (auto simp add: nfnl_recv_def Let_def)
  then show ?thesis using process_ack [OF assms(1), of h "drop 36 ?st" s] by (simp add: NFNL_CB_STOP_def)
qed

lemma send_cfg_acked:
  assumes "queue_ready amax (nfnlh Q)" and "received Q = Datagram d 0 # evs" and "acknowledgement d" and "ne_taken E"
    and "36 \<le> rcv_buffer_size (nfnlh Q)" and "36 \<le> length (ne_stack E)" and "usize \<le> length (ne_msg E)"
    and "24 + MNL_ALIGN (length data) \<le> usize" and "usize \<le> 32"
  shows "\<exists>m. send_cfg E usize num ty data Q = Some (Inr (0, Q\<lparr>received := evs, sent := sent Q @ [m]\<rparr>))"
proof -
  let ?H = "nf_head (push_bit 8 (word_of_nat (subsys_id (subsys (nfnlh Q) ! NFNL_SUBSYS_QUEUE))) OR NFQNL_MSG_CONFIG) (NLM_REQUEST OR NLM_ACK)"
    and ?G = "nf_gen 0 num"
  define u where "u = take usize (ne_msg E)"
  have u: "length u = usize" using assms(7) by (simp add: u_def)
  have 1: "nfnl_fill_hdr (ne_now E) NFNL_SUBSYS_QUEUE 0 0 0 num NFQNL_MSG_CONFIG (NLM_REQUEST OR NLM_ACK) u (nfnlh Q) =
      Inr (message [] ?H ?G (drop 20 u), nfnlh Q)"
    using assms(1,8) u by (intro fill_hdr_message) (simp_all add: queue_ready_def)
  have n: "length data \<le> MNL_ALIGN (length data)" by (rule MNL_ALIGN_bounds)
  have wf: "nl_wf ?H ?G" by (simp add: nl_wf_def)
  have c: "length data \<le> 65531" "4 + MNL_ALIGN (length data) \<le> length (drop 20 u)" "20 + length ?G + length data \<le> unat (word_of_nat usize :: 32 word)"
    using assms(8,9) u n unat_of_nat32 [of usize] by simp_all
  obtain p rest where p: "attr_wf data p" "nfnl_addattr_l 0 (word_of_nat usize) ty data (message [] ?H ?G (drop 20 u)) =
      Inr (0, message [] ?H (?G @ attr_bytes ty data p) rest)"
    using addattr_message(1) [OF wf c, of "[]" ty] addattr_message(2) [OF wf c] by auto
  let ?B = "?G @ attr_bytes ty data p"
  have lB: "length ?B = 8 + MNL_ALIGN (length data)" using length_attr_bytes [OF p(1), of ty] by simp
  have "unat (len_field ?B) = 16 + length ?B" using lB assms(8,9) by (intro len_field_unat) simp
  moreover have "nlmsg_len 0 (message [] ?H ?B rest) = Inr (len_field ?B)" using message_len [of "[]"] by simp
  ultimately have snd: "nfnl_send (message [] ?H ?B rest) 0 = Inr (store32 (len_field ?B) @ ?H @ ?B)"
    by (simp add: nfnl_send_def read_bytes_def message_def)
  have msg: "cfg_msg E usize num ty data (nfnlh Q) = Inr (message [] ?H ?B rest, nfnlh Q)"
    using 1 p(2) by (simp add: cfg_msg_def u_def [symmetric])
  have "Q\<lparr>nfnlh := nfnlh Q\<rparr> = Q" by simp
  then show ?thesis
    using msg snd assms(2,4) catch_ack [OF assms(3,5,6), of evs "(qh_list Q, client Q)"]
    by (intro exI [of _ "store32 (len_field ?B) @ ?H @ ?B"]) (simp add: send_cfg_def send_query_def nfnl_query_def del: nfnl_catch.simps)
qed

section \<open>The daemon serves its queue\<close>

lemma cmd_acked:
  assumes "queue_ready amax (nfnlh Q)" and "received Q = Datagram d 0 # evs" and "acknowledgement d" and "ne_taken E"
    and "36 \<le> rcv_buffer_size (nfnlh Q)" and "36 \<le> length (ne_stack E)" and "32 \<le> length (ne_msg E)"
  shows "\<exists>m. build_send_cfg_msg E command num pf Q = Some (Inr (0, Q\<lparr>received := evs, sent := sent Q @ [m]\<rparr>))"
  unfolding build_send_cfg_msg_def using assms by (intro send_cfg_acked) (simp_all add: MNL_ALIGN_def)

text \<open>C20: When the kernel lets the daemon open its handle and acknowledges its four requests, the handle serves the queue 0 with the
  callback of the daemon; four messages have been sent and all four answers have been read.\<close>

theorem queue_set_up:
  assumes "0 < msg_max" and "36 \<le> bufsize" and "acknowledgement a0" and "acknowledgement a1" and "acknowledgement a2" and "acknowledgement a3"
    and "\<forall>i<4. ne_taken (N i) \<and> 36 \<le> length (ne_stack (N i)) \<and> 32 \<le> length (ne_msg (N i))"
  shows "\<exists>Q0 Q. nfq_open True pid now bufsize msg_max amax s = Inr (Some Q0) \<and>
    pkt_hdlr_init N sock f (Some (Q0\<lparr>received := [Datagram a0 0, Datagram a1 0, Datagram a2 0, Datagram a3 0] @ evs\<rparr>)) = Some (Inr (sock, Some Q)) \<and>
    queue_ready amax (nfnlh Q) \<and> find_qh (qh_list Q) 0 = Some \<lparr>qh_id = 0, qh_cb = Some f\<rparr> \<and> client Q = s \<and> received Q = evs \<and> length (sent Q) = 4"
proof -
  obtain Q0 where Q0: "nfq_open True pid now bufsize msg_max amax s = Inr (Some Q0)" "queue_ready amax (nfnlh Q0)" "qh_list Q0 = []" "client Q0 = s"
    "rcv_buffer_size (nfnlh Q0) = bufsize" "sent Q0 = []"
    using nfq_open_ready [OF assms(1), of pid now bufsize amax s] by blast
  have N: "ne_taken (N i)" "36 \<le> length (ne_stack (N i))" "32 \<le> length (ne_msg (N i))" if "i < 4" for i using assms(7) that by auto
  define Q1 where "Q1 = Q0\<lparr>received := [Datagram a0 0, Datagram a1 0, Datagram a2 0, Datagram a3 0] @ evs\<rparr>"
  obtain m0 where r0: "nfq_unbind_pf (N 0) AF_INET6 Q1 = Some (Inr (0, Q1\<lparr>received := [Datagram a1 0, Datagram a2 0, Datagram a3 0] @ evs, sent := [m0]\<rparr>))"
    using cmd_acked [of amax Q1 a0 "[Datagram a1 0, Datagram a2 0, Datagram a3 0] @ evs" "N 0" NFQNL_CFG_CMD_PF_UNBIND 0 AF_INET6] N [of 0] Q0 assms(2,3)
    by (auto simp add: Q1_def nfq_unbind_pf_def)
  define Q2 where "Q2 = Q1\<lparr>received := [Datagram a1 0, Datagram a2 0, Datagram a3 0] @ evs, sent := [m0]\<rparr>"
  obtain m1 where r1: "nfq_bind_pf (N 1) AF_INET6 Q2 = Some (Inr (0, Q2\<lparr>received := [Datagram a2 0, Datagram a3 0] @ evs, sent := [m0, m1]\<rparr>))"
    using cmd_acked [of amax Q2 a1 "[Datagram a2 0, Datagram a3 0] @ evs" "N 1" NFQNL_CFG_CMD_PF_BIND 0 AF_INET6] N [of 1] Q0 assms(2,4)
    by (auto simp add: Q1_def Q2_def nfq_bind_pf_def)
  define Q3 where "Q3 = Q2\<lparr>received := [Datagram a2 0, Datagram a3 0] @ evs, sent := [m0, m1]\<rparr>"
  obtain m2 where r2: "build_send_cfg_msg (N 2) NFQNL_CFG_CMD_BIND 0 0 Q3 = Some (Inr (0, Q3\<lparr>received := [Datagram a3 0] @ evs, sent := [m0, m1, m2]\<rparr>))"
    using cmd_acked [of amax Q3 a2 "[Datagram a3 0] @ evs" "N 2" NFQNL_CFG_CMD_BIND 0 0] N [of 2] Q0 assms(2,5) by (auto simp add: Q1_def Q2_def Q3_def)
  define Q4 where "Q4 = Q3\<lparr>received := [Datagram a3 0] @ evs, sent := [m0, m1, m2], qh_list := [\<lparr>qh_id = 0, qh_cb = Some f\<rparr>]\<rparr>"
  have c2: "nfq_create_queue (N 2) 0 (Some f) Q3 = Some (Inr (True, Q4))"
    using r2 Q0(3) by (simp add: nfq_create_queue_def add_qh_def Q4_def Q1_def Q2_def Q3_def)
  obtain m3 where r3: "nfq_set_mode (N 3) 0 NFQNL_COPY_PACKET 0xffff Q4 = Some (Inr (0, Q4\<lparr>received := evs, sent := [m0, m1, m2, m3]\<rparr>))"
    using send_cfg_acked [of amax Q4 a3 evs "N 3" 32 "store32 (htonl 0xffff) @ [NFQNL_COPY_PACKET]" 0 NFQA_CFG_PARAMS] N [of 3] Q0 assms(2,6)
    by (auto simp add: Q1_def Q2_def Q3_def Q4_def nfq_set_mode_def MNL_ALIGN_def)
  define Q5 where "Q5 = Q4\<lparr>received := evs, sent := [m0, m1, m2, m3]\<rparr>"
  have "pkt_hdlr_init N sock f (Some Q1) = Some (Inr (sock, Some Q5))"
    using r0 [folded Q2_def] r1 [folded Q3_def] c2 r3 [folded Q5_def] by (simp add: pkt_hdlr_init_def request_def)
  moreover have "queue_ready amax (nfnlh Q5)" "find_qh (qh_list Q5) 0 = Some \<lparr>qh_id = 0, qh_cb = Some f\<rparr>" "client Q5 = s" "received Q5 = evs" "length (sent Q5) = 4"
    using Q0 by (simp_all add: Q1_def Q2_def Q3_def Q4_def Q5_def)
  ultimately show ?thesis using Q0(1) unfolding Q1_def by blast
qed

definition sample_ack :: mem where
  "sample_ack = store32 36 @ store16 2 @ replicate 2 0 @ store32 0 @ replicate 4 0 @ store32 0 @ replicate 16 0"

lemma acknowledgement_sample: "acknowledgement sample_ack"
  unfolding acknowledgement_def sample_ack_def
  by (intro exI [of _ "replicate 2 0"] exI [of _ "replicate 4 0"] exI [of _ "replicate 16 0"]) simp

theorem queue_set_up_witness:
  "\<exists>Q0 Q. nfq_open True 5 9 8192 4 10 () = Inr (Some Q0) \<and>
     pkt_hdlr_init (\<lambda>_. sample_nf_env) 6 (\<lambda>_ _ _ _ s. Inr (0, s)) (Some (Q0\<lparr>received := [Datagram sample_ack 0, Datagram sample_ack 0, Datagram sample_ack 0, Datagram sample_ack 0]\<rparr>)) = Some (Inr (6, Some Q)) \<and>
     queue_ready 10 (nfnlh Q) \<and> received Q = []"
proof -
  have "\<forall>i<4. ne_taken sample_nf_env \<and> 36 \<le> length (ne_stack sample_nf_env) \<and> 32 \<le> length (ne_msg sample_nf_env)" by (simp add: sample_nf_env_def)
  from queue_set_up [OF _ _ acknowledgement_sample acknowledgement_sample acknowledgement_sample acknowledgement_sample this, of 4 8192 5 9 10 "()" 6
      "\<lambda>_ _ _ _ s. Inr (0, s)" "[]"]
  show ?thesis by auto
qed

end
