(* ===== verification/Boot.thy ===== *)
theory Boot
  imports Nf_Setup
begin

text \<open>
  The start of the daemon (\<open>main\<close> of \<open>main.c\<close> up to its loop, with the three sockets of \<open>antop_socket.c\<close>). The system
  calls are recorded one by one; what each returns is a function of those before it. A call that the code checks and that fails
  ends the process. The callbacks are parameters, on a state of their own; the queue, the node and the forwarding are those of
  the other theories. That memory can be allocated is assumed.
\<close>

section \<open>System calls\<close>

text \<open>The sockets are all UDP over IPv6; ports are given in host order. \<open>System\<close> is a shell command.\<close>

datatype sockopt =
    Add_Membership in6_addr nat
  | Multicast_If nat
  | Multicast_Loop int
  | Pktinfo in6_addr nat
  | Recv_Pktinfo int

datatype syscall = Socket | Bind int int | Setsockopt int sockopt | System string

type_synonym kernel = "syscall list \<Rightarrow> syscall \<Rightarrow> int"

record 'p boot =
  calls :: "syscall list"
  callbacks :: "'p callback list"

text \<open>The process has ended, waits for something that has not arrived, or goes on.\<close>

datatype 'a outcome = Ended | Waiting | Running 'a

type_synonym 'a run = "'a outcome result"

definition go_on :: "'a run \<Rightarrow> ('a \<Rightarrow> 'b run) \<Rightarrow> 'b run" where
  "go_on r f = bind r (\<lambda>r. case r of Ended \<Rightarrow> Inr Ended | Waiting \<Rightarrow> Inr Waiting | Running x \<Rightarrow> f x)"

text \<open>A call whose negative value ends the process.\<close>

definition must :: "kernel \<Rightarrow> syscall \<Rightarrow> 'p boot \<Rightarrow> (int \<times> 'p boot) run" where
  "must K c b =
     (let r = K (calls b) c; b = b\<lparr>calls := calls b @ [c]\<rparr>
      in if r < 0 then Inr Ended else Inr (Running (r, b)))"

section \<open>The sockets\<close>

definition MDNS_PORT_AUX :: int where "MDNS_PORT_AUX = 4473"
definition DNS_PORT_AUX :: int where "DNS_PORT_AUX = 4477"
definition IFNAMSIZ :: nat where "IFNAMSIZ = 16"

text \<open>
  The steps that the three functions share: a socket on a port, in the multicast group of the interface, that does not hear
  itself. The name of the interface (\<open>if_indextoname\<close>, no name if there is none) is copied without a check.
\<close>

definition group_socket :: "kernel \<Rightarrow> int \<Rightarrow> nat \<Rightarrow> string option \<Rightarrow> 'p boot \<Rightarrow> (int \<times> 'p boot) run" where
  "group_socket K port idx name b =
     go_on (must K Socket b) (\<lambda>(sock, b).
     go_on (must K (Bind sock port) b) (\<lambda>(_, b).
     go_on (must K (Setsockopt sock (Add_Membership multicast idx)) b) (\<lambda>(_, b).
     go_on (must K (Setsockopt sock (Multicast_If idx)) b) (\<lambda>(_, b).
     go_on (must K (Setsockopt sock (Multicast_Loop 0)) b) (\<lambda>(_, b).
       case name of
         None \<Rightarrow> Inl Null_Deref
       | Some n \<Rightarrow> if length n < IFNAMSIZ then Inr (Running (sock, b)) else Inl Buffer_Overflow)))))"

definition attach :: "int \<Rightarrow> (int \<Rightarrow> 'p \<Rightarrow> 'p result) \<Rightarrow> 'p boot \<Rightarrow> (int \<times> 'p boot) run" where
  "attach sock f b =
     (case attach_callback_func sock f (callbacks b) of
        None \<Rightarrow> Inr Ended
      | Some cs \<Rightarrow> Inr (Running (sock, b\<lparr>callbacks := cs\<rparr>)))"

text \<open>\<open>addr\<close> is the address of the interface. Only this socket asks for the destination of what it receives.\<close>

definition antop_socket_init :: "kernel \<Rightarrow> nat \<Rightarrow> string option \<Rightarrow> in6_addr \<Rightarrow> (int \<Rightarrow> 'p \<Rightarrow> 'p result) \<Rightarrow> 'p boot \<Rightarrow> (int \<times> 'p boot) run" where
  "antop_socket_init K idx name addr rd b =
     go_on (group_socket K ANTOP_PORT idx name b) (\<lambda>(sock, b).
     go_on (must K (Setsockopt sock (Pktinfo addr idx)) b) (\<lambda>(_, b).
     go_on (must K (Setsockopt sock (Recv_Pktinfo 1)) b) (\<lambda>(_, b). attach sock rd b)))"

definition antop_socket_init_mdns :: "kernel \<Rightarrow> nat \<Rightarrow> string option \<Rightarrow> (int \<Rightarrow> 'p \<Rightarrow> 'p result) \<Rightarrow> 'p boot \<Rightarrow> (int \<times> 'p boot) run" where
  "antop_socket_init_mdns K idx name rd b =
     go_on (group_socket K MDNS_PORT_AUX idx name b) (\<lambda>(sock, b). attach sock rd b)"

definition antop_socket_init_dns :: "kernel \<Rightarrow> nat \<Rightarrow> string option \<Rightarrow> (int \<Rightarrow> 'p \<Rightarrow> 'p result) \<Rightarrow> 'p boot \<Rightarrow> (int \<times> 'p boot) run" where
  "antop_socket_init_dns K idx name rd b =
     go_on (group_socket K DNS_PORT_AUX idx name b) (\<lambda>(sock, b). attach sock rd b)"

section \<open>Kernel module and neighbour table\<close>

text \<open>What \<open>fgets\<close> with room for \<open>n\<close> characters reads from a file, piece by piece.\<close>

fun fgets_pieces :: "nat \<Rightarrow> string \<Rightarrow> string \<Rightarrow> string list" where
  "fgets_pieces n acc [] = (if acc = [] then [] else [acc])"
| "fgets_pieces n acc (c # cs) =
     (if c = CHR 0x0A \<or> length acc + 1 \<ge> n then (acc @ [c]) # fgets_pieces n [] cs else fgets_pieces n (acc @ [c]) cs)"

text \<open>The first word of \<open>strtok\<close> with blank and tabulator; no word in a line of these only.\<close>

definition first_word :: "string \<Rightarrow> string option" where
  "first_word buf =
     (let blank = (\<lambda>c. c = CHR '' '' \<or> c = CHR 0x09); rest = dropWhile blank buf
      in if rest = [] then None else Some (takeWhile (\<lambda>c. \<not> blank c) rest))"

fun find_module :: "string list \<Rightarrow> nat \<Rightarrow> nat run" where
  "find_module [] found = Inr (Running found)"
| "find_module (buf # bufs) found =
     (case first_word buf of
        None \<Rightarrow> Inl Null_Deref
      | Some l \<Rightarrow>
          let found = (if l = ''kantop'' then found + 1 else found)
          in if l = ''ipchains'' then Inr Ended else find_module bufs found)"

text \<open>A command that cannot be run has the value -1. \<open>modules\<close> is the text of \<open>/proc/modules\<close>, if the file can be opened.\<close>

definition run_command :: "kernel \<Rightarrow> string \<Rightarrow> 'p boot \<Rightarrow> 'p boot run" where
  "run_command K c b =
     (let r = K (calls b) (System c)
      in if r = -1 then Inr Ended else Inr (Running (b\<lparr>calls := calls b @ [System c]\<rparr>)))"

definition load_modules :: "kernel \<Rightarrow> string option \<Rightarrow> 'p boot \<Rightarrow> 'p boot run" where
  "load_modules K modules b =
     go_on (run_command K ''/sbin/insmod ./lnx/kantop.ko'' b) (\<lambda>b.
       case modules of
         None \<Rightarrow> Inl Null_Deref
       | Some txt \<Rightarrow> go_on (find_module (fgets_pieces 1023 [] txt) 0) (\<lambda>found.
           if found < 1 then Inr Ended else Inr (Running b)))"

definition dns_neighbor_add :: "kernel \<Rightarrow> 'p boot \<Rightarrow> 'p boot run" where
  "dns_neighbor_add K b =
     go_on (run_command K ''ip neigh add 2001:db8:0:0:0:0:0:c lladdr aa:aa:aa:aa:aa:aa dev eth1'' b) (\<lambda>b.
       run_command K ''sudo sysctl net.ipv6.conf.all.forwarding=1'' b)"

section \<open>The main function\<close>

text \<open>
  What the start reads from outside: the interfaces by name and by number, the results of the system calls, what
  arrives while the node looks for an address, the list of modules, what \<open>nfds\<close> holds before it is set, and for the queue the handle
  that \<open>nfq_open\<close> gives, the environments of the four requests and the descriptor.
\<close>

record 'q boot_env =
  be_index :: "string \<Rightarrow> nat"
  be_name :: "nat \<Rightarrow> string option"
  be_kernel :: kernel
  be_rounds :: "(rx list \<times> rx option) list"
  be_modules :: "string option"
  be_nfds :: int
  be_handle :: "'q nfq_handle option"
  be_requests :: "nat \<Rightarrow> nf_env"
  be_queue_fd :: int

text \<open>The state in which the loop starts.\<close>

record ('k, 'q, 'p) started =
  sd_fwd :: "'k fwd"
  sd_queue :: "'q nfq_handle option"
  sd_pkt_socket :: int
  sd_boot :: "'p boot"
  sd_nfds :: int

text \<open>\<open>nfds\<close> is compared before it has been set.\<close>

definition max_fd :: "'p callback list \<Rightarrow> int \<Rightarrow> int" where
  "max_fd cs nfds = fold (\<lambda>(fd, _) nfds. if fd \<ge> nfds then fd + 1 else nfds) cs nfds"

text \<open>
  \<open>pkt_hdlr_init\<close> as \<open>main\<close> calls it: on success it attaches the callback of the queue. \<open>main\<close> does not look at its
  value, nor at that of \<open>get_prim_addr\<close>.
\<close>

definition start_queue :: "'q boot_env \<Rightarrow> (16 word \<Rightarrow> mem \<Rightarrow> nat \<Rightarrow> nat option list \<Rightarrow> 'q \<Rightarrow> (int \<times> 'q) result) \<Rightarrow> (int \<Rightarrow> 'p \<Rightarrow> 'p result) \<Rightarrow>
    'p boot \<Rightarrow> (int \<times> 'q nfq_handle option \<times> 'p boot) run" where
  "start_queue B qcb hp b =
     (case pkt_hdlr_init (be_requests B) (be_queue_fd B) qcb (be_handle B) of
        None \<Rightarrow> Inr Waiting
      | Some (Inl e) \<Rightarrow> Inl e
      | Some (Inr (r, Q)) \<Rightarrow>
          if r < 0 then Inr (Running (r, Q, b)) else go_on (attach r hp b) (\<lambda>(sock, b). Inr (Running (sock, Q, b))))"

definition main :: "'q boot_env \<Rightarrow> fenv \<Rightarrow> 'k kernel_ops \<Rightarrow> 'k \<Rightarrow> (16 word \<Rightarrow> mem \<Rightarrow> nat \<Rightarrow> nat option list \<Rightarrow> 'q \<Rightarrow> (int \<times> 'q) result) \<Rightarrow>
    (int \<Rightarrow> 'p \<Rightarrow> 'p result) \<Rightarrow> (int \<Rightarrow> 'p \<Rightarrow> 'p result) \<Rightarrow> string list \<Rightarrow> ('k, 'q, 'p) started run" where
  "main B F K k qcb rd hp argv =
     bind (check_args (be_index B) argv) (\<lambda>st.
       case st of
         None \<Rightarrow> Inr Ended
       | Some st \<Rightarrow>
           let E = fe_env F; idx = st_ifindex st; name = be_name B idx
           in go_on (antop_socket_init_mdns (be_kernel B) idx name rd \<lparr>calls = [], callbacks = []\<rparr>) (\<lambda>(msock, b).
              go_on (antop_socket_init (be_kernel B) idx name (if_addr E) rd b) (\<lambda>(sock, b).
              go_on (antop_socket_init_dns (be_kernel B) idx name rd b) (\<lambda>(dsock, b).
                let s = prim_addr_init (nat (st_hc_dim st)) (map of_char (st_univ_addr st)) sock msock dsock
                in bind (get_prim_addr E (if_addr E) sock (be_rounds B) s) (\<lambda>(r, s).
                     if r = None then Inr Waiting
                     else
                       let s = s\<lparr>prim_addr_flag := True\<rparr>
                       in go_on (load_modules (be_kernel B) (be_modules B) b) (\<lambda>b.
                          go_on (start_queue B qcb hp b) (\<lambda>(pkt_socket, Q, b).
                          go_on (dns_neighbor_add (be_kernel B) b) (\<lambda>b.
                          bind (rt_info_init F K \<lparr>nd = s, rt_info = [], nat_table = [], nat_wild = False, kern = k, armed = []\<rparr>) (\<lambda>f.
                            let s = (timer_rv_init (rv_tables_init E (heart_beat_init (nd f))))\<lparr>flag_init := True\<rparr>
                            in Inr (Running \<lparr>sd_fwd = f\<lparr>nd := s\<rparr>, sd_queue = Q, sd_pkt_socket = pkt_socket, sd_boot = b,
                                 sd_nfds = max_fd (callbacks b) (be_nfds B)\<rparr>))))))))))"

end
