(* ===== verification/Boot_Correct.thy ===== *)
theory Boot_Correct
  imports Boot
begin

text \<open>
  What the daemon has done when its loop starts: which system calls were made and in what order, which callbacks are
  attached, and that the node is the one the other theories start from.
\<close>

lemma go_on_InrE:
  assumes "go_on r f = Inr (Running y)"
  obtains x where "r = Inr (Running x)" and "f x = Inr (Running y)"
  using assms by (auto simp add: go_on_def elim!: bind_InrE split: outcome.splits)

lemma go_on_Running [simp]: "go_on (Inr (Running x)) f = f x"
  by (simp add: go_on_def)

lemma must_Running: "must K c b = Inr (Running (r, b')) \<longleftrightarrow> r = K (calls b) c \<and> 0 \<le> r \<and> b' = b\<lparr>calls := calls b @ [c]\<rparr>"
  by (auto simp add: must_def Let_def)

section \<open>The sockets\<close>

text \<open>The calls that put a socket on a port and into the group of the interface.\<close>

definition group_calls :: "int \<Rightarrow> int \<Rightarrow> nat \<Rightarrow> syscall list" where
  "group_calls sock port idx =
     [Socket, Bind sock port, Setsockopt sock (Add_Membership multicast idx), Setsockopt sock (Multicast_If idx),
      Setsockopt sock (Multicast_Loop 0)]"

lemma group_socket_running:
  assumes "group_socket K port idx name b = Inr (Running (sock, b'))"
  shows "sock = K (calls b) Socket" and "0 \<le> sock" and "b' = b\<lparr>calls := calls b @ group_calls sock port idx\<rparr>"
  using assms
  by (auto simp add: group_socket_def group_calls_def must_Running elim!: go_on_InrE split: option.splits if_splits)

lemma attach_Running:
  "attach sock f b = Inr (Running (r, b')) \<longleftrightarrow>
     length (callbacks b) < CALLBACK_FUNCS \<and> r = sock \<and> b' = b\<lparr>callbacks := callbacks b @ [(sock, f)]\<rparr>"
  by (auto simp add: attach_def attach_callback_func_def)

lemma antop_socket_init_running:
  assumes "antop_socket_init K idx name addr rd b = Inr (Running (sock, b'))"
  shows "b' = b\<lparr>calls := calls b @ group_calls sock ANTOP_PORT idx @ [Setsockopt sock (Pktinfo addr idx), Setsockopt sock (Recv_Pktinfo 1)],
      callbacks := callbacks b @ [(sock, rd)]\<rparr>"
  using assms
  by (auto simp add: antop_socket_init_def must_Running attach_Running elim!: go_on_InrE dest!: group_socket_running(3))

lemma antop_socket_init_mdns_running:
  assumes "antop_socket_init_mdns K idx name rd b = Inr (Running (sock, b'))"
  shows "b' = b\<lparr>calls := calls b @ group_calls sock MDNS_PORT_AUX idx, callbacks := callbacks b @ [(sock, rd)]\<rparr>"
  using assms by (auto simp add: antop_socket_init_mdns_def attach_Running elim!: go_on_InrE dest!: group_socket_running(3))

lemma antop_socket_init_dns_running:
  assumes "antop_socket_init_dns K idx name rd b = Inr (Running (sock, b'))"
  shows "b' = b\<lparr>calls := calls b @ group_calls sock DNS_PORT_AUX idx, callbacks := callbacks b @ [(sock, rd)]\<rparr>"
  using assms by (auto simp add: antop_socket_init_dns_def attach_Running elim!: go_on_InrE dest!: group_socket_running(3))

section \<open>Commands and the queue\<close>

lemma run_command_running: "run_command K c b = Inr (Running b') \<Longrightarrow> b' = b\<lparr>calls := calls b @ [System c]\<rparr>"
  by (auto simp add: run_command_def Let_def split: if_splits)

lemma load_modules_running:
  "load_modules K modules b = Inr (Running b') \<Longrightarrow> b' = b\<lparr>calls := calls b @ [System ''/sbin/insmod ./lnx/kantop.ko'']\<rparr>"
  by (auto simp add: load_modules_def elim!: go_on_InrE dest!: run_command_running split: option.splits if_splits)

text \<open>The start goes on only when the module is there and the one it does not get along with is not.\<close>

lemma find_module_running:
  "find_module bufs n = Inr (Running found) \<Longrightarrow> found = n + length (filter (\<lambda>b. first_word b = Some ''kantop'') bufs)"
  "find_module bufs n = Inr (Running found) \<Longrightarrow> \<forall>b\<in>set bufs. first_word b \<noteq> None \<and> first_word b \<noteq> Some ''ipchains''"
  proof (induction bufs arbitrary: n)
  case (Cons a bufs)
  { case 1 then show ?case using Cons.IH(1) [of n] Cons.IH(1) [of "n + 1"] by (auto simp add: Let_def split: option.splits if_splits) }
  { case 2 then show ?case using Cons.IH(2) [of n] Cons.IH(2) [of "n + 1"] by (auto simp add: Let_def split: option.splits if_splits) }
qed simp_all

lemma dns_neighbor_add_running:
  "dns_neighbor_add K b = Inr (Running b') \<Longrightarrow>
     b' = b\<lparr>calls := calls b @ map System [''ip neigh add 2001:db8:0:0:0:0:0:c lladdr aa:aa:aa:aa:aa:aa dev eth1'',
                ''sudo sysctl net.ipv6.conf.all.forwarding=1'']\<rparr>"
  by (auto simp add: dns_neighbor_add_def elim!: go_on_InrE dest!: run_command_running)

lemma start_queue_running:
  assumes "start_queue B qcb hp b = Inr (Running (r, Q, b'))"
  shows "b' = b\<lparr>callbacks := callbacks b @ (if r < 0 then [] else [(r, hp)])\<rparr>"
  using assms by (auto simp add: start_queue_def attach_Running elim!: go_on_InrE split: option.splits sum.splits if_splits)

lemma max_fd_bounds: "nfds \<le> max_fd cs nfds" "(fd, f) \<in> set cs \<Longrightarrow> fd < max_fd cs nfds"
proof -
  have le: "nfds \<le> max_fd cs nfds" for cs :: "'a callback list" and nfds
  proof (induction cs arbitrary: nfds)
    case (Cons c cs)
    from this [of "if fst c \<ge> nfds then fst c + 1 else nfds"] show ?case by (auto simp add: max_fd_def split: prod.splits if_splits)
  qed (simp add: max_fd_def)
  show "nfds \<le> max_fd cs nfds" by (rule le)
  show "(fd, f) \<in> set cs \<Longrightarrow> fd < max_fd cs nfds"
  proof (induction cs arbitrary: nfds)
    case (Cons c cs)
    have step: "max_fd (c # cs) nfds = max_fd cs (if fst c \<ge> nfds then fst c + 1 else nfds)" by (simp add: max_fd_def split: prod.splits)
    show ?case
    proof (cases "(fd, f) = c")
      case True
      then have "fd < (if fst c \<ge> nfds then fst c + 1 else nfds)" by auto
      then show ?thesis using le [of "if fst c \<ge> nfds then fst c + 1 else nfds" cs] step by linarith
    next
      case False
      then show ?thesis using Cons step by simp
    qed
  qed simp
qed

section \<open>The loop starts\<close>

lemma rt_info_init_node: "rt_info_init F K s = Inr s' \<Longrightarrow> nd s' = (nd s)\<lparr>route_t := route_t (nd s')\<rparr>"
  by (auto simp add: rt_info_init_def rt_table_dump_def Let_def elim!: bind_InrE split: prod.splits if_splits)

text \<open>The steps on the way to the loop, each of which went on.\<close>

lemma main_steps:
  assumes "main B F K k qcb rd hp argv = Inr (Running bt)"
  obtains st ms us ds r s b0 b1 b2 b3 b4 b5 ps Q f where
    "check_args (be_index B) argv = Inr (Some st)"
    "antop_socket_init_mdns (be_kernel B) (st_ifindex st) (be_name B (st_ifindex st)) rd \<lparr>calls = [], callbacks = []\<rparr> = Inr (Running (ms, b0))"
    "antop_socket_init (be_kernel B) (st_ifindex st) (be_name B (st_ifindex st)) (if_addr (fe_env F)) rd b0 = Inr (Running (us, b1))"
    "antop_socket_init_dns (be_kernel B) (st_ifindex st) (be_name B (st_ifindex st)) rd b1 = Inr (Running (ds, b2))"
    "get_prim_addr (fe_env F) (if_addr (fe_env F)) us (be_rounds B)
      (prim_addr_init (nat (st_hc_dim st)) (map of_char (st_univ_addr st)) us ms ds) = Inr (Some r, s)"
    "load_modules (be_kernel B) (be_modules B) b2 = Inr (Running b3)"
    "start_queue B qcb hp b3 = Inr (Running (ps, Q, b4))"
    "dns_neighbor_add (be_kernel B) b4 = Inr (Running b5)"
    "rt_info_init F K \<lparr>nd = s\<lparr>prim_addr_flag := True\<rparr>, rt_info = [], nat_table = [], nat_wild = False, kern = k, armed = []\<rparr> = Inr f"
    "bt = \<lparr>sd_fwd = f\<lparr>nd := (timer_rv_init (rv_tables_init (fe_env F) (heart_beat_init (nd f))))\<lparr>flag_init := True\<rparr>\<rparr>, sd_queue = Q,
      sd_pkt_socket = ps, sd_boot = b5, sd_nfds = max_fd (callbacks b5) (be_nfds B)\<rparr>"
proof -
  let ?E = "fe_env F"
  obtain st where st: "check_args (be_index B) argv = Inr (Some st)"
    using assms by (auto simp add: main_def elim!: bind_InrE split: option.splits)
  note m = assms [unfolded main_def, simplified st, simplified Let_def option.case bind_simps]
  from m obtain ms b0 where 1: "antop_socket_init_mdns (be_kernel B) (st_ifindex st) (be_name B (st_ifindex st)) rd \<lparr>calls = [], callbacks = []\<rparr> =
      Inr (Running (ms, b0))" by (auto elim!: go_on_InrE)
  note m = m [unfolded 1, simplified]
  from m obtain us b1 where 2: "antop_socket_init (be_kernel B) (st_ifindex st) (be_name B (st_ifindex st)) (if_addr ?E) rd b0 =
      Inr (Running (us, b1))" by (auto elim!: go_on_InrE)
  note m = m [unfolded 2, simplified]
  from m obtain ds b2 where 3: "antop_socket_init_dns (be_kernel B) (st_ifindex st) (be_name B (st_ifindex st)) rd b1 = Inr (Running (ds, b2))"
    by (auto elim!: go_on_InrE)
  note m = m [unfolded 3, simplified]
  from m obtain r s where 4: "get_prim_addr ?E (if_addr ?E) us (be_rounds B)
      (prim_addr_init (nat (st_hc_dim st)) (map of_char (st_univ_addr st)) us ms ds) = Inr (Some r, s)"
    by (auto elim!: bind_InrE split: if_splits)
  note m = m [unfolded 4, simplified]
  from m obtain b3 where 5: "load_modules (be_kernel B) (be_modules B) b2 = Inr (Running b3)" by (auto elim!: go_on_InrE)
  note m = m [unfolded 5, simplified]
  from m obtain ps Q b4 where 6: "start_queue B qcb hp b3 = Inr (Running (ps, Q, b4))" by (auto elim!: go_on_InrE)
  note m = m [unfolded 6, simplified]
  from m obtain b5 where 7: "dns_neighbor_add (be_kernel B) b4 = Inr (Running b5)" by (auto elim!: go_on_InrE)
  note m = m [unfolded 7, simplified]
  from m obtain f where 8: "rt_info_init F K \<lparr>nd = s\<lparr>prim_addr_flag := True\<rparr>, rt_info = [], nat_table = [], nat_wild = False, kern = k, armed = []\<rparr> = Inr f"
    and bt: "bt = \<lparr>sd_fwd = f\<lparr>nd := (timer_rv_init (rv_tables_init (fe_env F) (heart_beat_init (nd f))))\<lparr>flag_init := True\<rparr>\<rparr>, sd_queue = Q,
      sd_pkt_socket = ps, sd_boot = b5, sd_nfds = max_fd (callbacks b5) (be_nfds B)\<rparr>"
    by (auto elim!: bind_InrE)
  show thesis by (rule that [OF st 1 2 3 4 5 6 7 8 bt])
qed

lemma main_node:
  assumes "main B F K k qcb rd hp argv = Inr (Running bt)"
  obtains st ms us ds r s where "check_args (be_index B) argv = Inr (Some st)"
    and "get_prim_addr (fe_env F) (if_addr (fe_env F)) us (be_rounds B)
      (prim_addr_init (nat (st_hc_dim st)) (map of_char (st_univ_addr st)) us ms ds) = Inr (Some r, s)"
    and "nd (sd_fwd bt) = start_services (fe_env F) (s\<lparr>route_t := route_t (nd (sd_fwd bt))\<rparr>)"
proof -
  from assms obtain st ms us ds r s ps Q f b5 where st: "check_args (be_index B) argv = Inr (Some st)"
    and g: "get_prim_addr (fe_env F) (if_addr (fe_env F)) us (be_rounds B)
      (prim_addr_init (nat (st_hc_dim st)) (map of_char (st_univ_addr st)) us ms ds) = Inr (Some r, s)"
    and f: "rt_info_init F K \<lparr>nd = s\<lparr>prim_addr_flag := True\<rparr>, rt_info = [], nat_table = [], nat_wild = False, kern = k, armed = []\<rparr> = Inr f"
    and bt: "bt = \<lparr>sd_fwd = f\<lparr>nd := (timer_rv_init (rv_tables_init (fe_env F) (heart_beat_init (nd f))))\<lparr>flag_init := True\<rparr>\<rparr>, sd_queue = Q,
      sd_pkt_socket = ps, sd_boot = b5, sd_nfds = max_fd (callbacks b5) (be_nfds B)\<rparr>"
    by (rule main_steps)
  obtain rr where "nd f = s\<lparr>prim_addr_flag := True, route_t := rr\<rparr>" using rt_info_init_node [OF f] by auto
  then have "nd (sd_fwd bt) = start_services (fe_env F) (s\<lparr>route_t := route_t (nd (sd_fwd bt))\<rparr>)"
    by (simp add: bt start_services_def heart_beat_init_def rv_tables_init_def timer_rv_init_def arm_timer_def emit_def Let_def)
  with st g show thesis by (rule that)
qed

text \<open>C27: When the main loop starts, the arguments were valid; three sockets were opened, bound to three ports, put into the group of the
  interface and deaf to themselves, in this order; their callbacks are attached and watched by \<open>select\<close>, and that of the queue too if the
  queue could be set up: when it could not, the daemon starts without it. The module was loaded and the shell commands were run; and the node
  is the one that \<open>get_prim_addr\<close> left, with its services started.\<close>

theorem main_reaches_loop:
  assumes "main B F K k qcb rd hp argv = Inr (Running bt)"
  shows "\<exists>st ms us ds r s.
    check_args (be_index B) argv = Inr (Some st) \<and>
    calls (sd_boot bt) =
      group_calls ms MDNS_PORT_AUX (st_ifindex st) @
      group_calls us ANTOP_PORT (st_ifindex st) @
        [Setsockopt us (Pktinfo (if_addr (fe_env F)) (st_ifindex st)), Setsockopt us (Recv_Pktinfo 1)] @
      group_calls ds DNS_PORT_AUX (st_ifindex st) @
      map System [''/sbin/insmod ./lnx/kantop.ko'', ''ip neigh add 2001:db8:0:0:0:0:0:c lladdr aa:aa:aa:aa:aa:aa dev eth1'',
        ''sudo sysctl net.ipv6.conf.all.forwarding=1''] \<and>
    callbacks (sd_boot bt) = [(ms, rd), (us, rd), (ds, rd)] @ (if sd_pkt_socket bt < 0 then [] else [(sd_pkt_socket bt, hp)]) \<and>
    (\<forall>(fd, f)\<in>set (callbacks (sd_boot bt)). fd < sd_nfds bt) \<and>
    get_prim_addr (fe_env F) (if_addr (fe_env F)) us (be_rounds B)
      (prim_addr_init (nat (st_hc_dim st)) (map of_char (st_univ_addr st)) us ms ds) = Inr (Some r, s) \<and>
    nd (sd_fwd bt) = start_services (fe_env F) (s\<lparr>route_t := route_t (nd (sd_fwd bt))\<rparr>)"
proof -
  let ?E = "fe_env F"
  from assms obtain st ms us ds r s b0 b1 b2 b3 b4 b5 ps Q f where st: "check_args (be_index B) argv = Inr (Some st)"
    and 1: "antop_socket_init_mdns (be_kernel B) (st_ifindex st) (be_name B (st_ifindex st)) rd \<lparr>calls = [], callbacks = []\<rparr> = Inr (Running (ms, b0))"
    and 2: "antop_socket_init (be_kernel B) (st_ifindex st) (be_name B (st_ifindex st)) (if_addr ?E) rd b0 = Inr (Running (us, b1))"
    and 3: "antop_socket_init_dns (be_kernel B) (st_ifindex st) (be_name B (st_ifindex st)) rd b1 = Inr (Running (ds, b2))"
    and 4: "get_prim_addr ?E (if_addr ?E) us (be_rounds B) (prim_addr_init (nat (st_hc_dim st)) (map of_char (st_univ_addr st)) us ms ds) = Inr (Some r, s)"
    and 5: "load_modules (be_kernel B) (be_modules B) b2 = Inr (Running b3)" and 6: "start_queue B qcb hp b3 = Inr (Running (ps, Q, b4))"
    and 7: "dns_neighbor_add (be_kernel B) b4 = Inr (Running b5)"
    and 8: "rt_info_init F K \<lparr>nd = s\<lparr>prim_addr_flag := True\<rparr>, rt_info = [], nat_table = [], nat_wild = False, kern = k, armed = []\<rparr> = Inr f"
    and bt: "bt = \<lparr>sd_fwd = f\<lparr>nd := (timer_rv_init (rv_tables_init (fe_env F) (heart_beat_init (nd f))))\<lparr>flag_init := True\<rparr>\<rparr>, sd_queue = Q,
      sd_pkt_socket = ps, sd_boot = b5, sd_nfds = max_fd (callbacks b5) (be_nfds B)\<rparr>"
    by (rule main_steps)
  note b = antop_socket_init_mdns_running [OF 1] antop_socket_init_running [OF 2] antop_socket_init_dns_running [OF 3] load_modules_running [OF 5]
    start_queue_running [OF 6] dns_neighbor_add_running [OF 7]
  have "nd (sd_fwd bt) = start_services (fe_env F) (s\<lparr>route_t := route_t (nd (sd_fwd bt))\<rparr>)"
  proof -
    obtain rr where "nd f = s\<lparr>prim_addr_flag := True, route_t := rr\<rparr>" using rt_info_init_node [OF 8] by auto
    then show ?thesis by (simp add: bt start_services_def heart_beat_init_def rv_tables_init_def timer_rv_init_def arm_timer_def emit_def Let_def)
  qed
  moreover have "calls (sd_boot bt) = group_calls ms MDNS_PORT_AUX (st_ifindex st) @ group_calls us ANTOP_PORT (st_ifindex st) @
      [Setsockopt us (Pktinfo (if_addr ?E) (st_ifindex st)), Setsockopt us (Recv_Pktinfo 1)] @ group_calls ds DNS_PORT_AUX (st_ifindex st) @
      map System [''/sbin/insmod ./lnx/kantop.ko'', ''ip neigh add 2001:db8:0:0:0:0:0:c lladdr aa:aa:aa:aa:aa:aa dev eth1'',
        ''sudo sysctl net.ipv6.conf.all.forwarding=1'']"
    using b by (simp add: bt)
  moreover have "callbacks (sd_boot bt) = [(ms, rd), (us, rd), (ds, rd)] @ (if sd_pkt_socket bt < 0 then [] else [(sd_pkt_socket bt, hp)])" using b by (simp add: bt)
  moreover have "\<forall>(fd, f)\<in>set (callbacks (sd_boot bt)). fd < sd_nfds bt" using max_fd_bounds(2) by (fastforce simp add: bt)
  ultimately show ?thesis using st 4 by blast
qed

text \<open>A node alone, without a queue: it takes the root address and starts.\<close>

definition sample_boot :: "unit boot_env" where
  "sample_boot = \<lparr>be_index = \<lambda>_. 2, be_name = \<lambda>_. Some ''eth0'', be_kernel = \<lambda>h c. (if c = Socket then int (length h) + 3 else 0),
     be_rounds = [([], None)], be_modules = Some ''kantop 16384 0'', be_nfds = 0, be_handle = None, be_requests = \<lambda>_. sample_nf_env,
     be_queue_fd = 9\<rparr>"

lemma sample_args: "check_args (\<lambda>_. 2) [''antopd'', ''eth0'', ''n1'', ''5''] = Inr (Some \<lparr>st_ifindex = 2, st_univ_addr = ''n1'', st_hc_dim = 5\<rparr>)"
  by code_simp

lemma sample_prim: "\<exists>s. get_prim_addr sample_env (if_addr sample_env) 8 [([], None)] (prim_addr_init 5 name 8 3 15) = Inr (Some NULL_ADDR_SET, s)"
  by (simp add: Let_def NO_ADDR_AVLB_def)

lemma sample_modules: "find_module (fgets_pieces 1023 [] ''kantop 16384 0'') 0 = Inr (Running 1)"
  by code_simp

definition sample_kernel :: "unit kernel_ops" where
  "sample_kernel = \<lparr>k_dump = \<lambda>_. ([], True), k_newroute = \<lambda>_ _ _ _ k. k, k_delroute = \<lambda>_ _ _ _ k. k\<rparr>"

definition sample_qcb :: "16 word \<Rightarrow> mem \<Rightarrow> nat \<Rightarrow> nat option list \<Rightarrow> unit \<Rightarrow> (int \<times> unit) result" where
  "sample_qcb num buf nfmsg nfa s = Inr (0, s)"

definition sample_read :: "int \<Rightarrow> unit \<Rightarrow> unit result" where
  "sample_read fd s = Inr s"

lemma sample_main:
  assumes "get_prim_addr sample_env (if_addr sample_env) 8 rounds (prim_addr_init 5 (map of_char ''n1'') 8 3 15) = Inr (Some r, s)"
  shows "\<exists>bt. main (sample_boot\<lparr>be_rounds := rounds\<rparr>) sample_fenv sample_kernel () sample_qcb sample_read sample_read
    [''antopd'', ''eth0'', ''n1'', ''5''] = Inr (Running bt) \<and> sd_pkt_socket bt = -1"
  using assms
  by (simp add: main_def sample_args sample_boot_def sample_fenv_def sample_kernel_def antop_socket_init_mdns_def antop_socket_init_def
      antop_socket_init_dns_def group_socket_def must_def IFNAMSIZ_def attach_def attach_callback_func_def CALLBACK_FUNCS_def load_modules_def
      run_command_def start_queue_def pkt_hdlr_init_def dns_neighbor_add_def rt_info_init_def rt_table_dump_def sample_modules Let_def
      del: find_module.simps fgets_pieces.simps get_prim_addr.simps)

lemma sample_started:
  "\<exists>bt. main sample_boot sample_fenv sample_kernel () sample_qcb sample_read sample_read [''antopd'', ''eth0'', ''n1'', ''5''] = Inr (Running bt) \<and>
    sd_pkt_socket bt = -1"
proof -
  obtain s where "get_prim_addr sample_env (if_addr sample_env) 8 [([], None)] (prim_addr_init 5 (map of_char ''n1'') 8 3 15) = Inr (Some NULL_ADDR_SET, s)"
    using sample_prim by blast
  from sample_main [OF this] show ?thesis by (simp add: sample_boot_def)
qed

theorem main_reaches_loop_witness:
  "\<exists>bt. main sample_boot sample_fenv sample_kernel () sample_qcb sample_read sample_read [''antopd'', ''eth0'', ''n1'', ''5''] = Inr (Running bt) \<and>
     length (callbacks (sd_boot bt)) = 3 \<and> flag_init (nd (sd_fwd bt))"
proof -
  obtain bt where bt: "main sample_boot sample_fenv sample_kernel () sample_qcb sample_read sample_read [''antopd'', ''eth0'', ''n1'', ''5''] = Inr (Running bt)"
    "sd_pkt_socket bt = -1"
    using sample_started by blast
  have init: "flag_init (start_services E s)" for E s by (simp add: start_services_def Let_def)
  from main_reaches_loop [OF bt(1)] bt(2) have "length (callbacks (sd_boot bt)) = 3" by auto
  moreover from main_reaches_loop [OF bt(1)] have "flag_init (nd (sd_fwd bt))" using init by metis
  ultimately show ?thesis using bt(1) by blast
qed

end
