(* ===== verification/Boot_Network.thy ===== *)
theory Boot_Network
  imports Boot_Correct
begin

text \<open>
  Daemons that start form a network: one that hears nothing is the first node, and one that is started where a node answers
  it, from its arguments to its main loop, joins at that node.
\<close>

lemma started_keeps_space: "keeps_space s (start_services E (s\<lparr>route_t := r\<rparr>))"
  by (simp add: keeps_space_def start_services_def heart_beat_init_def rv_tables_init_def timer_rv_init_def arm_timer_def emit_def Let_def)

lemma started_trace: "\<exists>es. trace (start_services E (s\<lparr>route_t := r\<rparr>)) = trace s @ es"
  by (simp add: start_services_def heart_beat_init_def rv_tables_init_def timer_rv_init_def arm_timer_def emit_def Let_def)

section \<open>Alone\<close>

lemma get_prim_addr_silent:
  assumes "get_prim_addr E src sk (([], reply) # rounds) (prim_addr_init dim name sk ms ds) = Inr (Some r, s)"
  shows "prim_mask s = 0 \<and> hc_dim s = dim \<and> rcvd_addr s = [] \<and> rcvd_offered s = None \<and> prim_addr s = net_root"
  using assms by (auto simp add: NO_ADDR_AVLB_def send_par_def prim_addr_init_def Let_def)

text \<open>A daemon that hears nothing while it asks for an address starts its loop as the only node, at the root, of a network with the
  dimension it was given.\<close>

theorem first_daemon_starts_network:
  assumes "main B F K k qcb rd hp argv = Inr (Running bt)" and "be_rounds B = ([], reply) # rounds"
  shows "\<exists>st. check_args (be_index B) argv = Inr (Some st) \<and> net (nat (st_hc_dim st)) [nd (sd_fwd bt)] \<and> prim_addr (nd (sd_fwd bt)) = net_root"
proof -
  obtain st ms us ds r s where st: "check_args (be_index B) argv = Inr (Some st)"
    and s: "get_prim_addr (fe_env F) (if_addr (fe_env F)) us (([], reply) # rounds)
      (prim_addr_init (nat (st_hc_dim st)) (map of_char (st_univ_addr st)) us ms ds) = Inr (Some r, s)"
    and n: "nd (sd_fwd bt) = start_services (fe_env F) (s\<lparr>route_t := route_t (nd (sd_fwd bt))\<rparr>)"
    by (rule main_node [OF assms(1), unfolded assms(2)])
  have "keeps_space s (nd (sd_fwd bt))" by (subst n) (rule started_keeps_space)
  with get_prim_addr_silent [OF s] have "net (nat (st_hc_dim st)) [nd (sd_fwd bt)]" "prim_addr (nd (sd_fwd bt)) = net_root"
    by (auto simp add: keeps_space_def intro: net_first)
  with st show ?thesis by blast
qed

section \<open>Joining\<close>

text \<open>The only proposal, and its confirmation, are what the newcomer hears; \<open>asking\<close> is the node when it takes the address.\<close>

definition asking :: "env \<Rightarrow> in6_addr \<Rightarrow> int \<Rightarrow> ctrl_pkt \<Rightarrow> node \<Rightarrow> node" where
  "asking E src sk pap s = send_pan E (p_prim_addr pap) sk (a_addr (ad_addr pap))
     ((send_par E src sk s)\<lparr>flag_conexion := True, red_numero := a_red_numero (ad_addr pap)\<rparr>)"

lemma get_prim_addr_adopts:
  assumes "pkt_type_f pap = PAP" and "a_mask (ad_addr pap) \<noteq> 0" and "pkt_type_f panc = PANC" and "a_addr (ad_addr panc) = p_prim_addr pap"
  shows "get_prim_addr E src sk (([Rx (Ctrl pap) m1], Some (Rx (Ctrl panc) m2)) # rounds) s =
    bind (adopt_pap E pap (asking E src sk pap s)) (\<lambda>s. Inr (Some ADDR_OK, s))"
proof -
  let ?s1 = "(send_par E src sk s)\<lparr>red_numero := a_red_numero (ad_addr pap), flag_conexion := True\<rparr>"
  have rd: "antop_socket_read E sk (Rx (Ctrl m) mo) n = Inr (0, n)" if "pkt_type_f m = PAP \<or> pkt_type_f m = PANC" for m mo n
    using that by (elim disjE) (simp_all add: antop_socket_read_def antop_process_pkt_def process_ctrl_def packet_type_defs Let_def)
  have rp: "receive_pap E sk (Rx (Ctrl pap) m1) n = Inr (0, n\<lparr>red_numero := a_red_numero (ad_addr pap)\<rparr>)" for n
    using rd [of pap m1 n] assms(1,2) by (simp add: receive_pap_def raw_red_def)
  have "collect_paps E sk [Rx (Ctrl pap) m1] 0 [] (send_par E src sk s) = Inr (1, [pap], False, ?s1)"
    using rp by (simp add: MAX_RCVD_PAP_def)
  then show ?thesis
    using rd [of panc m2] assms(3,4) by (simp add: choose_pap_def is_panc_def asking_def Let_def del: collect_paps.simps)
qed

lemma asking_newcomer: "newcomer (asking E src sk pap (prim_addr_init dim name sk ms ds))"
  by (simp add: asking_def newcomer_def send_pan_def send_par_def prim_addr_init_def antop_socket_send_def Let_def)

lemma asking_trace: "trace (asking E src sk pap (prim_addr_init dim name sk ms ds)) =
    [Sendmsg (Ctrl (par_msg E src)) (if_addr E) multicast sk ANTOP_PORT,
     Sendmsg (Ctrl (pan_msg E (p_prim_addr pap) (a_addr (ad_addr pap)) (a_red_numero (ad_addr pap)))) (if_addr E) multicast sk ANTOP_PORT]"
  by (simp add: asking_def send_pan_msg send_par_msg prim_addr_init_def antop_socket_send_def)

lemma adopt_trace:
  assumes "adopt_pap E pap q = Inr s"
  shows "\<exists>es. trace s = trace q @ es"
proof -
  let ?n = "emit (Set_If_Addr (a_addr (ad_addr pap))) q"
  let ?h = "send_hb E (socket_global ?n) False ?n"
  obtain hb n where n: "process_hb E hb ?h = Inr n" "trace s = trace n" using assms by (auto simp add: adopt_pap_def Let_def elim!: bind_InrE)
  have "keeps q ?h" by (rule keeps_trans [OF keeps_emit keeps_send_hb])
  also have "keeps ?h n" by (rule hkeepsD [OF hkeeps_process_hb n(1)])
  finally show ?thesis using n(2) by (simp add: keeps_def)
qed

text \<open>C2: When a daemon is started and a node of a network answers what it sends, the proposal to its request and the confirmation
  to its choice being all it hears, then its main loop starts with the newcomer as a further node of the network. The messages that the node answers are those
  the daemon has sent first.\<close>

theorem next_daemon_joins:
  assumes "net D ns" and "D \<le> 64" and "i < length ns"
    and "main B F K k qcb rd hp argv = Inr (Running bt)"
    and "antop_process_pkt E fd (Ctrl (par_msg (fe_env F) (if_addr (fe_env F)))) (ns ! i) = Inr p1"
    and "last_sent p1 = Some pap" and "a_mask (ad_addr pap) \<noteq> 0"
    and "antop_process_pkt E fd (Ctrl (pan_msg (fe_env F) (p_prim_addr pap) (a_addr (ad_addr pap)) (a_red_numero (ad_addr pap)))) p1 = Inr p2"
    and "last_sent p2 = Some panc"
    and "be_rounds B = ([Rx (Ctrl pap) m1], Some (Rx (Ctrl panc) m2)) # rounds"
  shows "net D (ns[i := p2] @ [nd (sd_fwd bt)]) \<and>
    (\<exists>sk es. trace (nd (sd_fwd bt)) =
      [Sendmsg (Ctrl (par_msg (fe_env F) (if_addr (fe_env F)))) (if_addr (fe_env F)) multicast sk ANTOP_PORT,
       Sendmsg (Ctrl (pan_msg (fe_env F) (p_prim_addr pap) (a_addr (ad_addr pap)) (a_red_numero (ad_addr pap)))) (if_addr (fe_env F)) multicast sk ANTOP_PORT]
      @ es)"
proof -
  let ?E = "fe_env F"
  obtain st ms us ds r s where "check_args (be_index B) argv = Inr (Some st)" and s: "get_prim_addr ?E (if_addr ?E) us (([Rx (Ctrl pap) m1], Some (Rx (Ctrl panc) m2)) # rounds)
      (prim_addr_init (nat (st_hc_dim st)) (map of_char (st_univ_addr st)) us ms ds) = Inr (Some r, s)"
    and n: "nd (sd_fwd bt) = start_services (fe_env F) (s\<lparr>route_t := route_t (nd (sd_fwd bt))\<rparr>)"
    by (rule main_node [OF assms(4), unfolded assms(10)])
  have al: "allocating D (ns ! i)" using net_inv [OF assms(1,2)] assms(3) by simp
  obtain m where pap: "pap = child_pap E (ns ! i)"
    and p2: "p2 = antop_socket_send E (Ctrl m) (if_addr ?E) fd ANTOP_PORT (p1\<lparr>prim_mask := prim_mask p1 + 1\<rparr>)"
    and m: "pkt_type_f m = PANC" "a_addr (ad_addr m) = prim_addr (ns ! i)"
    by (rule join_messages [OF al assms(2,5-8)])
  have panc: "pkt_type_f panc = PANC" "a_addr (ad_addr panc) = p_prim_addr pap" "pkt_type_f pap = PAP"
    using assms(9) m by (simp_all add: p2 pap)
  let ?q = "asking ?E (if_addr ?E) us pap (prim_addr_init (nat (st_hc_dim st)) (map of_char (st_univ_addr st)) us ms ds)"
  have q: "adopt_pap ?E pap ?q = Inr s"
    using s get_prim_addr_adopts [OF panc(3) assms(7) panc(1,2)] by (auto elim!: bind_InrE)
  have "net D (ns[i := p2] @ [s])" by (rule net_join [OF assms(1,3,5-8) asking_newcomer q])
  from net_other [OF this, of "length ns" "nd (sd_fwd bt)"] have "net D (ns[i := p2] @ [nd (sd_fwd bt)])"
    using started_keeps_space [of s ?E "route_t (nd (sd_fwd bt))", folded n] by (simp add: list_update_append nth_append)
  moreover obtain es where "trace s = trace ?q @ es" using adopt_trace [OF q] by blast
  moreover obtain es' where "trace (nd (sd_fwd bt)) = trace s @ es'" using started_trace [where E = ?E and s = s and r = "route_t (nd (sd_fwd bt))", folded n] by blast
  ultimately show ?thesis using asking_trace by auto
qed

section \<open>Examples\<close>

theorem first_daemon_starts_network_witness:
  "\<exists>bt. main sample_boot sample_fenv sample_kernel () sample_qcb sample_read sample_read [''antopd'', ''eth0'', ''n1'', ''5''] = Inr (Running bt) \<and>
     net 5 [nd (sd_fwd bt)]"
proof -
  obtain bt where bt: "main sample_boot sample_fenv sample_kernel () sample_qcb sample_read sample_read [''antopd'', ''eth0'', ''n1'', ''5''] = Inr (Running bt)"
    using sample_started by blast
  have "be_rounds sample_boot = ([], None) # []" "be_index sample_boot = (\<lambda>_. 2)" by (simp_all add: sample_boot_def)
  with first_daemon_starts_network [OF bt] sample_args have "net 5 [nd (sd_fwd bt)]" by auto
  with bt show ?thesis by blast
qed

text \<open>The proposal of the first node and the confirmation that follows it.\<close>

definition sample_pap :: ctrl_pkt where "sample_pap = child_pap sample_env first_node"

definition sample_panc :: ctrl_pkt where
  "sample_panc = null_ctrl\<lparr>pkt_type_f := PANC, ad_addr := (ad_addr null_ctrl)\<lparr>a_mask := 5, a_addr := net_root\<rparr>\<rparr>"

lemma sample_adopts: "\<exists>s. adopt_pap sample_env sample_pap (asking sample_env (if_addr sample_env) 8 sample_pap (prim_addr_init 5 name 8 3 15)) = Inr s"
  by (simp add: sample_pap_def asking_def adopt_pap_def process_hb_def hb_own_net_def detector_de_mezcla_def first_node_def send_hb_def hb_checks_def
      check_if_i_am_only_def check_neigh_of_secondary_address_def check_n_s_l_table_def check_n_s_l_loop_id
      antop_socket_send_def hb_pkt_def prim_addr_init_def send_pan_def send_par_def Let_def)

lemma sample_answers:
  obtains p1 p2 where "antop_process_pkt sample_env 3 (Ctrl (par_msg sample_env (if_addr sample_env))) first_node = Inr p1" and "last_sent p1 = Some sample_pap"
    and "antop_process_pkt sample_env 3 (Ctrl (pan_msg sample_env (p_prim_addr sample_pap) (a_addr (ad_addr sample_pap))
      (a_red_numero (ad_addr sample_pap)))) p1 = Inr p2" and "last_sent p2 = Some sample_panc"
proof -
  define p1 where "p1 = antop_socket_send sample_env (Ctrl (child_pap sample_env first_node)) (if_addr sample_env) 3 ANTOP_PORT first_node"
  have p1: "antop_process_pkt sample_env 3 (Ctrl (par_msg sample_env (if_addr sample_env))) first_node = Inr p1"
    by (simp add: p1_def first_node_def process_par)
  have m: "prim_addr p1 = net_root" "red_numero p1 = 0" "rcvd_offered p1 = None" by (simp_all add: p1_def first_node_def)
  have "antop_process_pkt sample_env 3 (Ctrl (pan_msg sample_env net_root a 0)) p1 =
      Inr (antop_socket_send sample_env (Ctrl sample_panc) (if_addr sample_env) 3 ANTOP_PORT (p1\<lparr>prim_mask := prim_mask p1 + 1\<rparr>))" for a
    using m by (simp add: antop_process_pkt_def process_ctrl_def pan_msg_def send_panc_def sample_panc_def packet_type_defs Let_def)
  then have p2: "antop_process_pkt sample_env 3 (Ctrl (pan_msg sample_env (p_prim_addr sample_pap) (a_addr (ad_addr sample_pap)) (a_red_numero (ad_addr sample_pap)))) p1 =
      Inr (antop_socket_send sample_env (Ctrl sample_panc) (if_addr sample_env) 3 ANTOP_PORT (p1\<lparr>prim_mask := prim_mask p1 + 1\<rparr>))"
    by (simp add: sample_pap_def first_node_def)
  show thesis by (rule that [OF p1 _ p2]) (simp_all add: p1_def sample_pap_def)
qed

theorem next_daemon_joins_witness:
  "\<exists>p2 bt. main (sample_boot\<lparr>be_rounds := [([Rx (Ctrl sample_pap) True], Some (Rx (Ctrl sample_panc) True))]\<rparr>) sample_fenv sample_kernel ()
       sample_qcb sample_read sample_read [''antopd'', ''eth0'', ''n1'', ''5''] = Inr (Running bt) \<and> net 64 [p2, nd (sd_fwd bt)]"
proof -
  let ?r = "[([Rx (Ctrl sample_pap) True], Some (Rx (Ctrl sample_panc) True))]"
  have types: "pkt_type_f sample_pap = PAP" "a_mask (ad_addr sample_pap) \<noteq> 0" "pkt_type_f sample_panc = PANC"
    "a_addr (ad_addr sample_panc) = p_prim_addr sample_pap"
    by (simp_all add: sample_pap_def sample_panc_def first_node_def)
  obtain s where "get_prim_addr sample_env (if_addr sample_env) 8 ?r (prim_addr_init 5 (map of_char ''n1'') 8 3 15) = Inr (Some ADDR_OK, s)"
    using sample_adopts [of "map of_char ''n1''"] get_prim_addr_adopts [OF types, of sample_env "if_addr sample_env" 8 True True "[]"] by fastforce
  from sample_main [OF this] obtain bt where bt: "main (sample_boot\<lparr>be_rounds := ?r\<rparr>) sample_fenv sample_kernel () sample_qcb sample_read sample_read
      [''antopd'', ''eth0'', ''n1'', ''5''] = Inr (Running bt)" by blast
  have n1: "net 64 [first_node]" by (rule net_first) (simp_all add: first_node_def)
  have F: "fe_env sample_fenv = sample_env" by (simp add: sample_fenv_def)
  obtain p1 p2 where p: "antop_process_pkt sample_env 3 (Ctrl (par_msg sample_env (if_addr sample_env))) first_node = Inr p1" "last_sent p1 = Some sample_pap"
    "antop_process_pkt sample_env 3 (Ctrl (pan_msg sample_env (p_prim_addr sample_pap) (a_addr (ad_addr sample_pap)) (a_red_numero (ad_addr sample_pap)))) p1 = Inr p2"
    "last_sent p2 = Some sample_panc"
    by (rule sample_answers)
  have "net 64 ([first_node][0 := p2] @ [nd (sd_fwd bt)])"
    by (rule conjunct1 [OF next_daemon_joins [OF n1 order_refl _ bt]]) (use p types F in auto)
  with bt show ?thesis by auto
qed

end
