(* ===== verification/Spec2Isabelle.thy ===== *)
theory Spec2Isabelle
  imports Timer_Queue Merge_Correct Ping6_Correct Rt_Netlink_Correct Older_Secondary Mnl_Socket Nf_Listen Nf_Xml Boot_Network
begin

text \<open>
  A verification development of ANTop, a daemon for ad hoc networks whose addresses are the corners of a hypercube.
  A node asks its neighbours for a primary address (\<open>hcb_address.c\<close>); with it comes a mask, and together they are a
  space of addresses the node may pass on, half of it at a time. Heart beats (\<open>heart_beat.c\<close>) keep a table of the
  neighbours, from which the node forwards packets greedily (\<open>pkt_handle.c\<close>), installing routes in the kernel over
  netlink (\<open>rt_table.c\<close>, \<open>attr.c\<close>, \<open>nlmsg.c\<close>, \<open>callback.c\<close>). Names are registered at, and looked up from, the nodes that
  hold the hashes of the name (\<open>rendezvous.c\<close>), with DNS in front. A network that is torn apart shifts the addresses of the
  part without a root (\<open>fragmentacion.c\<close>), networks that meet merge (\<open>mezcla.c\<close>), and nodes that hear each other
  across the cube take secondary addresses (\<open>secondary.c\<close>). The packets come from the firewall through two libraries
  in the source tree (\<open>libnetfilter_queue.c\<close>, \<open>libnfnetlink.c\<close>). File names are relative to \<open>src\<close>; definitions have the
  names of the functions and types they model, but for a few that clash with names of HOL.
\<close>

section \<open>How the code is modelled\<close>

text \<open>
  Structures are records with the fields of the code, integers have their width wherever it shows (masks and network
  numbers are \<open>8 word\<close>, the words of an address \<open>16 word\<close>, lengths of messages \<open>32 word\<close>), linked lists are HOL lists.
  The global variables of the daemon are one record, \<open>node\<close>; what it does to the outside is appended to its
  \<open>trace\<close>. The forwarding adds a record \<open>fwd\<close> around the node with its own tables and the kernel; the libraries have the
  handle they get as an argument.

  Faults are values. An operation that can run into undefined behaviour returns \<open>fault + 'a\<close>: null pointers, accesses out of
  bounds, overflowing buffers, memory used after it is freed, the value of a function without \<open>return\<close>, loops that
  do not end, failed assertions. What the code itself reports as an error is an ordinary value.

  Loops over lists and counters are recursion or folds. Loops whose end is not evident are \<open>partial_function (option)\<close>:
  \<open>skip_equal\<close> (the \<open>while\<close> of \<open>check_succesor\<close>, which may not end), \<open>cb_loop\<close> (\<open>mnl_cb_run2\<close>), \<open>handle_loop\<close> and \<open>process_loop\<close>
  (\<open>nfnl_handle_packet\<close>, \<open>nfnl_process\<close>). No value means that the code does not return; where it does, there is a theorem
  that says so (in \<open>Netlink_Walk\<close> and \<open>Nf_Deliver\<close>) and where it does not, one that shows it (\<open>cb_run_hangs\<close>,
  \<open>check_succesor_diverges\<close>). Nothing is bounded by fuel. Loops that end with a list of events (what a
  socket delivers) recurse on that list.

  What is not in the source tree is a parameter. \<open>env\<close> holds what a node reads from outside: its hardware address, the
  result of a probe, the address of its interface, and the contents of uninitialised memory (\<open>rv_junk\<close>, \<open>mask_junk\<close>, \<open>cache_junk\<close>, what \<open>freed_next\<close>
  finds behind a freed entry). A theorem that needs something of that memory names it, in the statement and in the text above it. \<open>kernel_ops\<close> holds what the
  daemon uses of the routing table, on a state of type \<open>'k\<close>, with no law assumed. \<open>nf_env\<close> and \<open>q_env\<close> hold the time, the
  bytes of the stack and the results of \<open>bind\<close> and \<open>sendto\<close>. The limits \<open>RTA_MAX\<close>, \<open>RTAX_MAX\<close>, \<open>IFLA_MAX\<close>
  and \<open>NFNL_BUFFSIZE\<close> are arguments. What sockets deliver is a list. Output for the console is left out everywhere,
  except where an argument of it is a null pointer.
\<close>

section \<open>Theories\<close>

text \<open>
  Shared.
  \<^item> \<open>Antop_Prelude\<close>: faults, results and their \<open>bind\<close>, the collections of rewrite rules, facts on loops, linked lists and
  bits.
  \<^item> \<open>In6_Addr\<close>: \<open>struct in6_addr\<close> as eight words, \<open>htons\<close>, the coordinates of an address, its order.
  \<^item> \<open>Buffers\<close>: memory as bytes.
  \<^item> \<open>Linked_Tables\<close>: the interfaces \<open>unlink_table\<close> and \<open>sentinel_table\<close>, interpreted by the tables of \<open>Rendezvous\<close>, \<open>Neighbors\<close> and
  \<open>Secondary\<close>.

  The node.
  \<^item> \<open>Antop_Defs\<close>: \<open>defs.h\<close>, \<open>antop_packet.h\<close>, \<open>labels.h\<close>, the globals.
  \<^item> \<open>Hypercube\<close>, \<open>Shifts\<close>: \<open>dist\<close>,
  \<open>check_addr_space\<close>, the child of an address, \<open>shift\<close>, \<open>shift_unos\<close> (\<open>funciones.c\<close>), \<open>shift_mezcla\<close>.
  \<^item> \<open>Rendezvous\<close>, \<open>Dns\<close>:
  \<open>rendezvous.c\<close>.
  \<^item> \<open>Neighbors\<close>, \<open>Heart_Beat\<close>: \<open>heart_beat.c\<close>.
  \<^item> \<open>Secondary\<close>: \<open>secondary.c\<close>.
  \<^item> \<open>Fragmentacion\<close>:
  \<open>fragmentacion.c\<close>.
  \<^item> \<open>Mezcla\<close>: \<open>mezcla.c\<close>.
  \<^item> \<open>Hcb_Address\<close>: \<open>hcb_address.c\<close>.
  \<^item> \<open>Antop_Socket\<close>: \<open>antop_socket.c\<close>, the dispatch of
  received messages.
  \<^item> \<open>Daemon\<close>: \<open>get_prim_addr\<close>, the start of the services and the events of the main loop (\<open>main.c\<close>).
  \<^item> \<open>Startup\<close>: the arguments and the callbacks of \<open>main.c\<close>.
  \<^item> \<open>Boot\<close>: \<open>main\<close> up to its loop, with the three sockets of \<open>antop_socket.c\<close>. The system calls are a list; what each returns is a
  function of those before it.
  \<^item> \<open>Older_Secondary\<close>: the functions of \<open>hcb_address.c\<close> that \<open>secondary.c\<close> replaced, on a state of their own.
  \<^item> \<open>Timer_Queue\<close>: \<open>timer_queue.c\<close>, on a store of timers; the
  interface \<open>deadline_queue\<close> and its interpretation.

  The network side.
  \<^item> \<open>Checksum\<close>: \<open>utils.c\<close> and the sums of \<open>ping6.c\<close>.
  \<^item> \<open>Ping6\<close>: \<open>ping6.c\<close>; \<open>probe\<close> is the run in which the system calls succeed, \<open>probe_run\<close> the one in which they may fail.
  \<^item> \<open>Netlink\<close>, \<open>Netlink_Run\<close>: \<open>nlmsg.c\<close>, \<open>attr.c\<close>,
  \<open>callback.c\<close>.
  \<^item> \<open>Rt_Table\<close>: \<open>rt_table.c\<close> on what the messages say.
  \<^item> \<open>Rt_Netlink\<close>: the same on their bytes, with \<open>if_addr.c\<close>,
  \<open>if_info.c\<close> and the receiving of \<open>socket.c\<close>.
  \<^item> \<open>Mnl_Socket\<close>: the rest of \<open>socket.c\<close>, and the older interface of \<open>rt_table.c\<close> that nothing calls.
  \<^item> \<open>Pkt_Handle\<close>, \<open>Pkt_Hooks\<close>: \<open>pkt_handle.c\<close>, the choice of the next hop and the hooks.
  \<^item> \<open>Netfilter\<close>, \<open>Nf_Listen\<close>: \<open>libnfnetlink.c\<close>; the second holds \<open>nfnl_listen\<close> and \<open>nfnl_talk\<close>.
  \<^item> \<open>Nf_Queue\<close>, \<open>Nf_Xml\<close>: \<open>libnetfilter_queue.c\<close>; the second holds \<open>nfq_snprintf_xml\<close>.
  \<^item> \<open>Nf_Daemon\<close>: how the packets of the queue reach the hooks and how their verdicts go
  back.
\<close>

section \<open>What is shown\<close>

text \<open>
  \<^item> Address spaces (\<open>Hypercube\<close>, \<open>Network\<close>): a split divides a space; a network grown by complete joins always partitions the
  cube. \<open>Network\<close> runs the handlers of two nodes against each other; its step relation is \<open>net\<close>. Joins that overlap break it.
  \<^item> Moving networks (\<open>Shifts\<close>, \<open>Fragmentation_Correct\<close>, \<open>Merge_Correct\<close>): both shifts are isometries of the cube as long as
  nothing is shifted out and the dimension is from 49 to 64 (for the root of a merging network, 64): addresses are assigned from
  coordinate 64 on, but the shifts count from the dimension (\<open>small_dimension_collapses\<close>, \<open>mezcla_other_dimension\<close>). In both cases the
  messages carry the same shift to every member, and the exchange with a leaf ends. Merging with a single node is a join.
  \<^item> The reactive node (\<open>Daemon_Correct\<close>): what holds along every run of events (\<open>daemon_run\<close>), what the timers keep going,
  and what a busy node does and does not while it waits.
  \<^item> Tables (\<open>Neighbors\<close>, \<open>Secondary\<close>, \<open>Daemon_Correct\<close>): heart beats enter and refresh, the periodic check ages, deletes and
  recovers.
  \<^item> Names (\<open>Rendezvous\<close>, \<open>Dns_Correct\<close>, \<open>Forwarding_Correct\<close>): registration and query meet at a server, exactly one node of a
  network serves a registration, and a resolver gets the registered address in answer to its own packet, under the conditions that the code needs for it
  (no stored name is a prefix, memory that happens to end the names).
  \<^item> Forwarding (\<open>Forwarding_Correct\<close>, \<open>Hooks_Correct\<close>): the nearest untried neighbour is chosen; only what the node serves is
  taken from the network; the options header that should name the sender is lost.
  \<^item> Netlink (\<open>Netlink_Correct\<close>, \<open>Netlink_Walk\<close>, \<open>Rt_Netlink_Correct\<close>): what is put into a message is read from it; the walk
  through a datagram returns but for three lengths; the dump on bytes refines the dump on messages.
  \<^item> The packet queue (\<open>Nf_Correct\<close>, \<open>Nf_Deliver\<close>, \<open>Nf_Setup\<close>): a queued packet reaches the hooks as it is and the kernel reads
  back the verdict they give it; the four requests set the queue up; long packets and failed calls are lost or repeated.
  \<^item> The start (\<open>Boot_Correct\<close>): what has happened, in which order, when the main loop begins; the node is then the one whose runs
  \<open>Daemon_Correct\<close> is about, the queue the one of \<open>Nf_Setup\<close>.
  \<open>Boot_Network\<close> joins this to \<open>Network\<close>: daemons that are started one after the other are the nodes of a network.
  \<^item> Timers (\<open>Timer_Queue\<close>), checksums (\<open>Checksum\<close>), the probe (\<open>Ping6_Correct\<close>), the description of a packet, which stays in its
  buffer (\<open>Nf_Xml\<close>).

  Theorems about flaws (overlapping joins, networks too deep to merge, the lost options header, calls that fail and packets that
  are too long, and the lemmas beside them) state what the code does, not what it should.
\<close>

section \<open>Not modelled\<close>

text \<open>
  \<^item> Output: \<open>print_neighbors\<close>, \<open>print_rv_table\<close>, \<open>printTQ\<close>, \<open>debug_pkt\<close>, \<open>mnl_nlmsg_fprintf\<close>, \<open>nfnl_dump_packet\<close>, and the messages on the console.
  \<^item> Code in comments (\<open>answer_dns_query_a\<close>) and functions that nothing calls and that repeat others (\<open>hash_2_hc_X\<close>).
  \<^item> The module \<open>lnx/kantop.c\<close>, a stub; the build files; \<open>routing.c\<close>, which is empty.
  \<^item> Wrappers that pass their arguments on to one system call: \<open>mnl_socket_setsockopt\<close>, \<open>mnl_socket_getsockopt\<close>, \<open>nfnl_join\<close>.
  \<^item> Waiting: what arrives within a time is the argument; that \<open>select\<close> blocks is not represented.
\<close>

end
